(* ===== verification/Prelude.thy ===== *)
theory Prelude
  imports Main "HOL-Library.AList" "HOL-Library.Char_ord" "HOL-Library.List_Lexorder"
    "HOL-Library.Product_Lexorder"
begin

text \<open>
  What every component shares: Python exceptions as values and their propagation, the
  string operations of the standard library the code uses (\<open>strip\<close>, \<open>upper\<close>,
  \<open>lower\<close>, the decimal notation of integers), insertion-ordered dictionaries as
  association lists, and the collections of hints the component proofs use.

  Text is modelled on 8-bit characters (code points 0 to 255); case mapping is the ASCII
  one, which is all the comparisons of the code with ASCII constants depend on.
\<close>

named_theorems py_simps \<open>unfolding rules of the embedded Python primitives\<close>
named_theorems fail_closed \<open>facts that say a branch blocks\<close>

subsection \<open>Exceptions as values\<close>

text \<open>
  Messages of exceptions are free text and are not kept; a \<open>ValueError\<close> and a
  \<open>KeyError\<close> raised by the repository's own code carry the constant they are raised with.
\<close>

datatype py_exc =
    InvalidOperation
  | DecimalOverflow
  | ValueError string
  | KeyError string
  | TypeError
  | AttributeError
  | RuntimeError string
  | OSError
  | IntegrityError
  | UnboundLocalError
  | OtherError

definition ebind :: "'e + 'a \<Rightarrow> ('a \<Rightarrow> 'e + 'b) \<Rightarrow> 'e + 'b" where
  "ebind m f = (case m of Inl e \<Rightarrow> Inl e | Inr x \<Rightarrow> f x)"

lemma ebind_Inl [simp]: "ebind (Inl e) f = Inl e"
  by (simp add: ebind_def)

lemma ebind_Inr [simp]: "ebind (Inr x) f = f x"
  by (simp add: ebind_def)

lemma ebind_eq_Inr: "ebind m f = Inr y \<longleftrightarrow> (\<exists>x. m = Inr x \<and> f x = Inr y)"
  by (cases m) auto

lemma ebind_eq_Inl: "ebind m f = Inl e \<longleftrightarrow> m = Inl e \<or> (\<exists>x. m = Inr x \<and> f x = Inl e)"
  by (cases m) auto

lemma sum_option_cases:
  obtains (raises) e where "m = Inl e" | (none) "m = Inr None" | (some) x where "m = Inr (Some x)"
  by (cases m; cases "projr m") auto

lemma ebind_cong [fundef_cong]:
  "m = m' \<Longrightarrow> (\<And>x. m' = Inr x \<Longrightarrow> f x = f' x) \<Longrightarrow> ebind m f = ebind m' f'"
  by (cases m') auto

text \<open>A comprehension whose element expression may raise: left to right, first error wins.\<close>

fun emap :: "('a \<Rightarrow> 'e + 'b) \<Rightarrow> 'a list \<Rightarrow> 'e + 'b list" where
  "emap f [] = Inr []"
| "emap f (x # xs) = ebind (f x) (\<lambda>y. ebind (emap f xs) (\<lambda>ys. Inr (y # ys)))"

lemma emap_Inr_length: "emap f xs = Inr ys \<Longrightarrow> length ys = length xs"
  by (induction xs arbitrary: ys) (auto simp: ebind_eq_Inr)

lemma emap_id_on: "(\<And>x. x \<in> set xs \<Longrightarrow> f x = Inr (g x)) \<Longrightarrow> emap f xs = Inr (map g xs)"
  by (induction xs) auto

lemma emap_Inr_all: "emap f xs = Inr ys \<Longrightarrow> y \<in> set ys \<Longrightarrow> \<exists>x \<in> set xs. f x = Inr y"
  by (induction xs arbitrary: ys) (auto simp: ebind_eq_Inr)

subsection \<open>Strings\<close>

definition is_space :: "char \<Rightarrow> bool" where
  "is_space c = (let n = (of_char c :: nat) in
     (9 \<le> n \<and> n \<le> 13) \<or> (28 \<le> n \<and> n \<le> 32) \<or> n = 133 \<or> n = 160)"

definition lstrip :: "string \<Rightarrow> string" where
  "lstrip s = dropWhile is_space s"

definition rstrip :: "string \<Rightarrow> string" where
  "rstrip s = rev (dropWhile is_space (rev s))"

definition strip :: "string \<Rightarrow> string" where
  "strip s = rstrip (lstrip s)"

definition upper_char :: "char \<Rightarrow> char" where
  "upper_char c = (let n = (of_char c :: nat) in
     if 97 \<le> n \<and> n \<le> 122 then char_of (n - 32) else c)"

definition lower_char :: "char \<Rightarrow> char" where
  "lower_char c = (let n = (of_char c :: nat) in
     if 65 \<le> n \<and> n \<le> 90 then char_of (n + 32) else c)"

definition upper :: "string \<Rightarrow> string" where
  "upper s = map upper_char s"

definition lower :: "string \<Rightarrow> string" where
  "lower s = map lower_char s"

text \<open>\<open>bool(s)\<close> of a string, and \<open>a or b\<close> on strings.\<close>

definition str_or :: "string \<Rightarrow> string \<Rightarrow> string" where
  "str_or a b = (if a \<noteq> [] then a else b)"

definition opt_truthy :: "string option \<Rightarrow> bool" where
  "opt_truthy x = (case x of None \<Rightarrow> False | Some s \<Rightarrow> s \<noteq> [])"

definition opt_or :: "string option \<Rightarrow> string \<Rightarrow> string" where
  "opt_or x d = (case x of None \<Rightarrow> d | Some s \<Rightarrow> if s \<noteq> [] then s else d)"

lemma strip_Nil [simp]: "strip [] = []"
  by (simp add: strip_def rstrip_def lstrip_def)

lemma dropWhile_hd: "dropWhile P xs = y # ys \<Longrightarrow> \<not> P y"
  by (induction xs) (auto split: if_splits)

lemma rstrip_ident: "s = [] \<or> \<not> is_space (last s) \<Longrightarrow> rstrip s = s"
  by (cases s rule: rev_cases) (auto simp: rstrip_def)

lemma rstrip_prefix: "\<exists>t. s = rstrip s @ t"
proof -
  have "rev s = takeWhile is_space (rev s) @ dropWhile is_space (rev s)" by simp
  then have "s = rev (dropWhile is_space (rev s)) @ rev (takeWhile is_space (rev s))"
    by (metis rev_append rev_rev_ident)
  then show ?thesis by (auto simp: rstrip_def)
qed

lemma rstrip_last: "rstrip s = [] \<or> \<not> is_space (last (rstrip s))"
  using dropWhile_hd[of is_space "rev s"]
  by (cases "dropWhile is_space (rev s)") (auto simp: rstrip_def)

lemma strip_ident:
  "s = [] \<or> (\<not> is_space (hd s) \<and> \<not> is_space (last s)) \<Longrightarrow> strip s = s"
  by (cases s) (auto simp: strip_def lstrip_def intro!: rstrip_ident)

lemma strip_idem [simp]: "strip (strip s) = strip s"
proof (cases "strip s")
  case Nil
  then show ?thesis by simp
next
  case (Cons a b)
  obtain t where "lstrip s = strip s @ t"
    unfolding strip_def using rstrip_prefix by blast
  with Cons have "lstrip s = a # (b @ t)" by simp
  then have "\<not> is_space a"
    unfolding lstrip_def by (rule dropWhile_hd)
  moreover have "\<not> is_space (last (strip s))"
    using rstrip_last[of "lstrip s"] Cons by (simp add: strip_def)
  ultimately show ?thesis
    using Cons by (intro strip_ident) simp
qed

lemma set_strip: "set (strip s) \<subseteq> set s"
proof
  fix x assume "x \<in> set (strip s)"
  then have "x \<in> set (lstrip s)"
    unfolding strip_def rstrip_def by (auto dest: set_dropWhileD)
  then show "x \<in> set s"
    unfolding lstrip_def by (rule set_dropWhileD)
qed

subsection \<open>Decimal notation of naturals and integers\<close>

fun ndigits :: "nat \<Rightarrow> nat" where
  "ndigits n = (if n < 10 then 1 else Suc (ndigits (n div 10)))"

declare ndigits.simps [simp del]

definition digit_char :: "nat \<Rightarrow> char" where
  "digit_char d = char_of (48 + d)"

definition is_digit :: "char \<Rightarrow> bool" where
  "is_digit c = (let n = (of_char c :: nat) in 48 \<le> n \<and> n \<le> 57)"

definition digit_val :: "char \<Rightarrow> nat" where
  "digit_val c = of_char c - 48"

fun nat_str :: "nat \<Rightarrow> string" where
  "nat_str n = (if n < 10 then [digit_char n] else nat_str (n div 10) @ [digit_char (n mod 10)])"

declare nat_str.simps [simp del]

definition int_str :: "int \<Rightarrow> string" where
  "int_str i = (if i < 0 then CHR ''-'' # nat_str (nat (- i)) else nat_str (nat i))"

definition digits_val :: "string \<Rightarrow> nat" where
  "digits_val s = foldl (\<lambda>a c. 10 * a + digit_val c) 0 s"

lemma digit_char_digit [simp]: "d < 10 \<Longrightarrow> is_digit (digit_char d)"
  by (simp add: is_digit_def digit_char_def Let_def of_char_of)

lemma digit_char_val [simp]: "d < 10 \<Longrightarrow> digit_val (digit_char d) = d"
  by (simp add: digit_val_def digit_char_def of_char_of)

lemma digits_val_snoc [simp]: "digits_val (s @ [c]) = 10 * digits_val s + digit_val c"
  by (simp add: digits_val_def)

lemma digits_val_Nil [simp]: "digits_val [] = 0"
  by (simp add: digits_val_def)

lemma digits_val_append: "digits_val (s @ t) = digits_val s * 10 ^ length t + digits_val t"
  by (induction t rule: rev_induct) (simp_all add: algebra_simps flip: append_assoc)

lemma nat_str_digits: "c \<in> set (nat_str n) \<Longrightarrow> is_digit c"
proof (induction n rule: nat_str.induct)
  case (1 n)
  then show ?case by (subst (asm) nat_str.simps) (auto split: if_splits)
qed

lemma digits_val_nat_str [simp]: "digits_val (nat_str n) = n"
proof (induction n rule: nat_str.induct)
  case (1 n)
  then show ?case
    by (subst nat_str.simps) (auto simp: digits_val_def)
qed

lemma length_nat_str [simp]: "length (nat_str n) = ndigits n"
proof (induction n rule: nat_str.induct)
  case (1 n)
  then show ?case by (subst nat_str.simps, subst ndigits.simps) auto
qed

lemma nat_str_nonempty [simp]: "nat_str n \<noteq> []"
  by (subst nat_str.simps) simp

lemma ndigits_pos [simp]: "0 < ndigits n"
  by (subst ndigits.simps) simp

lemma ndigits_le_iff: "0 < k \<Longrightarrow> ndigits n \<le> k \<longleftrightarrow> n < 10 ^ k"
proof (induction n arbitrary: k rule: ndigits.induct)
  case (1 n)
  show ?case
  proof (cases "n < 10")
    case True
    then have "n < 10 ^ k"
      using \<open>0 < k\<close> by (cases k) (auto intro: less_le_trans[of n 10])
    with True \<open>0 < k\<close> show ?thesis by (subst ndigits.simps) simp
  next
    case False
    obtain j where k: "k = Suc j" using \<open>0 < k\<close> by (cases k) auto
    have "ndigits n \<le> k \<longleftrightarrow> ndigits (n div 10) \<le> j"
      using False k by (subst ndigits.simps) simp
    also have "\<dots> \<longleftrightarrow> n div 10 < 10 ^ j"
    proof (cases "j = 0")
      case True
      with False show ?thesis
        using ndigits_pos[of "n div 10"] div_greater_zero_iff[of n 10]
        by (simp del: ndigits_pos div_greater_zero_iff)
    next
      case j: False
      show ?thesis using "1.IH"[OF False, of j] j by simp
    qed
    also have "\<dots> \<longleftrightarrow> n < 10 ^ k"
      unfolding k by (simp add: div_less_iff_less_mult mult.commute)
    finally show ?thesis .
  qed
qed

lemma nat_str_inj: "nat_str m = nat_str n \<Longrightarrow> m = n"
  by (metis digits_val_nat_str)

lemma digit_not_space [simp]: "is_digit c \<Longrightarrow> \<not> is_space c"
  by (auto simp: is_digit_def is_space_def Let_def)

lemma is_digit_consts [simp]:
  "\<not> is_digit (CHR ''-'')" "\<not> is_digit (CHR ''+'')" "\<not> is_digit (CHR ''.'')"
  "\<not> is_digit (CHR ''_'')" "\<not> is_digit (CHR ''e'')" "\<not> is_digit (CHR ''E'')"
  "\<not> is_digit (CHR '','')" "\<not> is_digit (CHR ''}'')" "\<not> is_digit (CHR '']'')"
  by (simp_all add: is_digit_def)

lemma int_str_inj: "int_str i = int_str j \<Longrightarrow> i = j"
proof -
  assume eq: "int_str i = int_str j"
  have hd: "hd (nat_str n) \<noteq> CHR ''-''" for n
    using nat_str_digits[of "hd (nat_str n)" n] by (metis hd_in_set is_digit_consts(1) nat_str_nonempty)
  show "i = j"
    using eq hd[of "nat i"] hd[of "nat j"]
    by (cases "i < 0"; cases "j < 0")
      (auto simp: int_str_def dest!: nat_str_inj dest: arg_cong[of _ _ hd] sym)
qed

subsection \<open>Insertion-ordered dictionaries\<close>

text \<open>
  A Python dict keeps the order of first insertion; overwriting keeps the position. The
  library's association lists do the same: \<open>AList.update\<close> overwrites in place or appends,
  \<open>AList.delete\<close> removes.
\<close>

type_synonym ('k, 'v) pydict = "('k \<times> 'v) list"

abbreviation dget :: "('k, 'v) pydict \<Rightarrow> 'k \<Rightarrow> 'v option" where
  "dget d k \<equiv> map_of d k"

abbreviation dset :: "'k \<Rightarrow> 'v \<Rightarrow> ('k, 'v) pydict \<Rightarrow> ('k, 'v) pydict" where
  "dset k v d \<equiv> AList.update k v d"

abbreviation ddel :: "'k \<Rightarrow> ('k, 'v) pydict \<Rightarrow> ('k, 'v) pydict" where
  "ddel k d \<equiv> AList.delete k d"

lemma dget_dset [simp]: "dget (dset k v d) = (dget d)(k \<mapsto> v)"
  by (rule ext) (simp add: update_conv')

lemma dget_ddel [simp]: "dget (ddel k d) = (dget d)(k := None)"
  by (rule ext) (simp add: delete_conv')

lemma distinct_dset [simp]: "distinct (map fst d) \<Longrightarrow> distinct (map fst (dset k v d))"
  by (rule distinct_update)

lemma distinct_ddel [simp]: "distinct (map fst d) \<Longrightarrow> distinct (map fst (ddel k d))"
  by (rule distinct_delete)

lemma dset_new: "dget d k = None \<Longrightarrow> dset k v d = d @ [(k, v)]"
  by (induction d) auto

lemma snd_dset: "x \<in> set (map snd (dset k v d)) \<Longrightarrow> x = v \<or> x \<in> set (map snd d)"
  by (induction d) (auto split: if_splits)

text \<open>Order-preserving removal of duplicates: \<open>if x not in acc: acc.append(x)\<close>.\<close>

definition dedup_step :: "'a list \<Rightarrow> 'a \<Rightarrow> 'a list" where
  "dedup_step acc x = (if x \<in> set acc then acc else acc @ [x])"

definition dedup :: "'a list \<Rightarrow> 'a list" where
  "dedup xs = foldl dedup_step [] xs"

lemma dedup_foldl:
  "set (foldl dedup_step acc xs) = set acc \<union> set xs
   \<and> (distinct acc \<longrightarrow> distinct (foldl dedup_step acc xs))"
  by (induction xs arbitrary: acc) (auto simp: dedup_step_def)

lemma set_dedup [simp]: "set (dedup xs) = set xs"
  using dedup_foldl[of "[]" xs] by (simp add: dedup_def)

lemma distinct_dedup [simp]: "distinct (dedup xs)"
  using dedup_foldl[of "[]" xs] by (simp add: dedup_def)

end
