(* ===== verification/PyDecimal.thy ===== *)
theory PyDecimal
  imports Complex_Main Prelude
begin

text \<open>
  The standard library's \<open>decimal.Decimal\<close> under its default context (28 significant
  digits, ROUND_HALF_EVEN, Emax 999999, Emin -999999, traps for InvalidOperation and
  Overflow), as far as the repository uses it: construction from integers and strings,
  comparison, \<open>+\<close>, \<open>-\<close>, \<open>*\<close>, unary minus, \<open>abs\<close>,
  \<open>quantize\<close>, \<open>str\<close> and \<open>format(_, "f")\<close>.  A finite value is a sign, a
  coefficient and an exponent, so that trailing zeros and the signed zero are kept.
  \<open>dec_val\<close> is its value as a rational; the lemmas relate every operation to it.
\<close>

subsection \<open>Values\<close>

datatype decimal = DFin (d_neg: bool) (d_coef: nat) (d_exp: int) | DInf bool | DNaN

datatype rounding = ROUND_DOWN | ROUND_UP | ROUND_HALF_EVEN | ROUND_HALF_UP

definition PREC :: nat where "PREC = 28"
definition ETINY :: int where "ETINY = - 1000026"
definition ETOP :: int where "ETOP = 999972"
definition EMAX :: int where "EMAX = 999999"

definition is_finite :: "decimal \<Rightarrow> bool" where
  "is_finite d = (case d of DFin _ _ _ \<Rightarrow> True | _ \<Rightarrow> False)"

definition dec_of_int :: "int \<Rightarrow> decimal" where
  "dec_of_int i = DFin (i < 0) (nat \<bar>i\<bar>) 0"

abbreviation dec_zero :: decimal where "dec_zero \<equiv> DFin False 0 0"
abbreviation dec_one :: decimal where "dec_one \<equiv> DFin False 1 0"

definition sgn_of :: "bool \<Rightarrow> int" where
  "sgn_of s = (if s then - 1 else 1)"

definition dec_val :: "decimal \<Rightarrow> rat" where
  "dec_val d = (case d of
     DFin s c e \<Rightarrow> of_int (sgn_of s * int c) * 10 powi e
   | _ \<Rightarrow> 0)"

subsection \<open>Comparison\<close>

text \<open>
  \<open>dec_scaled m d\<close> is the value of a finite \<open>d\<close> in units of \<open>10 ^ m\<close>, for an
  \<open>m\<close> at most its exponent. Ordered comparison with a NaN raises in Python; every
  comparison of the code is behind an \<open>is_finite\<close> test.
\<close>

definition dec_scaled :: "int \<Rightarrow> decimal \<Rightarrow> int" where
  "dec_scaled m d = (case d of
     DFin s c e \<Rightarrow> sgn_of s * int c * 10 ^ nat (e - m)
   | _ \<Rightarrow> 0)"

fun dec_le :: "decimal \<Rightarrow> decimal \<Rightarrow> bool" where
  "dec_le (DFin s c e) (DFin s' c' e') =
     (let m = min e e' in dec_scaled m (DFin s c e) \<le> dec_scaled m (DFin s' c' e'))"
| "dec_le (DInf s) (DInf s') = (s \<or> \<not> s')"
| "dec_le (DInf s) (DFin _ _ _) = s"
| "dec_le (DFin _ _ _) (DInf s) = (\<not> s)"
| "dec_le _ _ = False"

fun dec_eq :: "decimal \<Rightarrow> decimal \<Rightarrow> bool" where
  "dec_eq (DFin s c e) (DFin s' c' e') =
     (let m = min e e' in dec_scaled m (DFin s c e) = dec_scaled m (DFin s' c' e'))"
| "dec_eq (DInf s) (DInf s') = (s = s')"
| "dec_eq _ _ = False"

definition dec_lt :: "decimal \<Rightarrow> decimal \<Rightarrow> bool" where
  "dec_lt a b = (dec_le a b \<and> \<not> dec_eq a b)"

text \<open>Where an operand may be a NaN, ordered comparison raises.\<close>

definition dec_le_r :: "decimal \<Rightarrow> decimal \<Rightarrow> py_exc + bool" where
  "dec_le_r a b = (if a = DNaN \<or> b = DNaN then Inl InvalidOperation else Inr (dec_le a b))"

definition dec_lt_r :: "decimal \<Rightarrow> decimal \<Rightarrow> py_exc + bool" where
  "dec_lt_r a b = (if a = DNaN \<or> b = DNaN then Inl InvalidOperation else Inr (dec_lt a b))"

definition dec_min :: "decimal \<Rightarrow> decimal \<Rightarrow> decimal" where
  \<comment> \<open>the builtin \<open>min(a, b)\<close>: the first unless the second is smaller\<close>
  "dec_min a b = (if dec_lt b a then b else a)"

definition dec_max :: "decimal \<Rightarrow> decimal \<Rightarrow> decimal" where
  \<comment> \<open>the builtin \<open>max(a, b)\<close>: the first unless the second is greater\<close>
  "dec_max a b = (if dec_lt a b then b else a)"

subsection \<open>Rounding\<close>

definition round_div :: "rounding \<Rightarrow> nat \<Rightarrow> nat \<Rightarrow> nat" where
  "round_div r n d = (let q = n div d; m = n mod d in
     case r of
       ROUND_DOWN \<Rightarrow> q
     | ROUND_UP \<Rightarrow> if m = 0 then q else q + 1
     | ROUND_HALF_EVEN \<Rightarrow> if 2 * m > d \<or> (2 * m = d \<and> odd q) then q + 1 else q
     | ROUND_HALF_UP \<Rightarrow> if 2 * m \<ge> d then q + 1 else q)"

text \<open>\<open>_rescale\<close>: the coefficient at another exponent.\<close>

definition rescale :: "rounding \<Rightarrow> nat \<Rightarrow> int \<Rightarrow> int \<Rightarrow> nat" where
  "rescale r c e e' =
     (if e' \<le> e then c * 10 ^ nat (e - e') else round_div r c (10 ^ nat (e' - e)))"

text \<open>\<open>_fix\<close>: rounding of an exact result to the context.\<close>

definition dec_fix :: "decimal \<Rightarrow> py_exc + decimal" where
  "dec_fix d = (case d of
     DFin s c e \<Rightarrow>
       (if c = 0 then Inr (DFin s 0 (min (max e ETINY) EMAX))
        else
          let em = int (ndigits c) + e - int PREC in
          if ETOP < em then Inl DecimalOverflow
          else
            let em' = max em ETINY in
            if e < em' then
              let c' = rescale ROUND_HALF_EVEN c e em';
                  over = PREC < ndigits c';
                  e'' = (if over then em' + 1 else em')
              in if ETOP < e'' then Inl DecimalOverflow
                 else Inr (DFin s (if over then c' div 10 else c') e'')
            else Inr d)
   | _ \<Rightarrow> Inr d)"

subsection \<open>Arithmetic\<close>

text \<open>
  The code calls these on finite operands only; the other cases are given the values of
  the library so that the functions are total.
\<close>

definition signed_coef :: "bool \<Rightarrow> nat \<Rightarrow> int" where
  "signed_coef s c = sgn_of s * int c"

fun dec_add :: "decimal \<Rightarrow> decimal \<Rightarrow> py_exc + decimal" where
  "dec_add (DFin s c e) (DFin s' c' e') =
     (let m = min e e';
          t = dec_scaled m (DFin s c e) + dec_scaled m (DFin s' c' e');
          n = (if t = 0 then s \<and> s' \<and> c = 0 \<and> c' = 0 else t < 0)
      in dec_fix (DFin n (nat \<bar>t\<bar>) m))"
| "dec_add DNaN _ = Inr DNaN"
| "dec_add _ DNaN = Inr DNaN"
| "dec_add (DInf s) (DInf s') = (if s = s' then Inr (DInf s) else Inl InvalidOperation)"
| "dec_add (DInf s) _ = Inr (DInf s)"
| "dec_add _ (DInf s) = Inr (DInf s)"

fun copy_negate :: "decimal \<Rightarrow> decimal" where
  "copy_negate (DFin s c e) = DFin (\<not> s) c e"
| "copy_negate (DInf s) = DInf (\<not> s)"
| "copy_negate DNaN = DNaN"

definition dec_sub :: "decimal \<Rightarrow> decimal \<Rightarrow> py_exc + decimal" where
  "dec_sub a b = dec_add a (copy_negate b)"

fun dec_neg :: "decimal \<Rightarrow> py_exc + decimal" where
  "dec_neg (DFin s c e) = dec_fix (DFin (if c = 0 then False else \<not> s) c e)"
| "dec_neg d = Inr (copy_negate d)"

fun dec_abs :: "decimal \<Rightarrow> py_exc + decimal" where
  "dec_abs (DFin s c e) = dec_fix (DFin False c e)"
| "dec_abs (DInf s) = Inr (DInf False)"
| "dec_abs DNaN = Inr DNaN"

fun dec_mul :: "decimal \<Rightarrow> decimal \<Rightarrow> py_exc + decimal" where
  "dec_mul (DFin s c e) (DFin s' c' e') = dec_fix (DFin (s \<noteq> s') (c * c') (e + e'))"
| "dec_mul DNaN _ = Inr DNaN"
| "dec_mul _ DNaN = Inr DNaN"
| "dec_mul (DInf s) (DInf s') = Inr (DInf (s \<noteq> s'))"
| "dec_mul (DInf s) (DFin s' c' e') = (if c' = 0 then Inl InvalidOperation else Inr (DInf (s \<noteq> s')))"
| "dec_mul (DFin s c e) (DInf s') = (if c = 0 then Inl InvalidOperation else Inr (DInf (s \<noteq> s')))"

text \<open>
  \<open>d.quantize(Decimal("1e<q>"), rounding=r)\<close>: InvalidOperation when the result would
  need more than 28 digits.
\<close>

fun dec_quantize :: "rounding \<Rightarrow> int \<Rightarrow> decimal \<Rightarrow> py_exc + decimal" where
  "dec_quantize r q (DFin s c e) =
     (let c' = rescale r c e q in
      if PREC < ndigits c' then Inl InvalidOperation else Inr (DFin s c' q))"
| "dec_quantize r q (DInf s) = Inl InvalidOperation"
| "dec_quantize r q DNaN = Inr DNaN"

subsection \<open>Text\<close>

text \<open>\<open>str(d)\<close>: scientific notation only for a positive exponent or below \<open>1e-6\<close>.\<close>

definition place_point :: "string \<Rightarrow> int \<Rightarrow> string" where
  \<comment> \<open>digits with the decimal point after \<open>dotplace\<close> of them\<close>
  "place_point ds p =
     (if p \<le> 0 then ''0.'' @ replicate (nat (- p)) (CHR ''0'') @ ds
      else if int (length ds) \<le> p then ds @ replicate (nat p - length ds) (CHR ''0'')
      else take (nat p) ds @ ''.'' @ drop (nat p) ds)"

definition sign_str :: "bool \<Rightarrow> string" where
  "sign_str s = (if s then ''-'' else [])"

definition signed_int_str :: "int \<Rightarrow> string" where
  "signed_int_str i = (if i < 0 then int_str i else ''+'' @ int_str i)"

fun dec_str :: "decimal \<Rightarrow> string" where
  "dec_str (DFin s c e) =
     (let ds = nat_str c;
          left = e + int (length ds);
          p = (if e \<le> 0 \<and> - 6 < left then left else 1)
      in sign_str s @ place_point ds p
         @ (if left = p then [] else ''E'' @ signed_int_str (left - p)))"
| "dec_str (DInf s) = sign_str s @ ''Infinity''"
| "dec_str DNaN = ''NaN''"

text \<open>\<open>format(d, "f")\<close>: never scientific.\<close>

fun dec_format_f :: "decimal \<Rightarrow> string" where
  "dec_format_f (DFin s c e) =
     (if 0 < e then sign_str s @ nat_str (if c = 0 then 0 else c * 10 ^ nat e)
      else sign_str s @ place_point (nat_str c) (e + int (ndigits c)))"
| "dec_format_f (DInf s) = sign_str s @ ''Infinity''"
| "dec_format_f DNaN = ''NaN''"

text \<open>
  \<open>Decimal(text)\<close>: surrounding white space and underscores are ignored; the exponent
  limits are those of the 64-bit C implementation, beyond which the conversion is not
  exact and raises.
\<close>

definition MAX_ADJ :: int where "MAX_ADJ = 999999999999999999"
definition MIN_EXP :: int where "MIN_EXP = - 1999999999999999997"

definition split_sign :: "string \<Rightarrow> bool \<times> string" where
  "split_sign s = (case s of
     [] \<Rightarrow> (False, [])
   | c # cs \<Rightarrow> if c = CHR ''-'' then (True, cs) else if c = CHR ''+'' then (False, cs) else (False, s))"

definition parse_exp :: "string \<Rightarrow> int option" where
  \<comment> \<open>what follows the mantissa: nothing, or an exponent part\<close>
  "parse_exp s = (case s of
     [] \<Rightarrow> Some 0
   | c # cs \<Rightarrow>
      if c = CHR ''e'' \<or> c = CHR ''E'' then
        (case split_sign cs of (n, ds) \<Rightarrow>
           if ds \<noteq> [] \<and> list_all is_digit ds
           then Some (if n then - int (digits_val ds) else int (digits_val ds)) else None)
      else None)"

definition parse_number :: "bool \<Rightarrow> string \<Rightarrow> decimal option" where
  "parse_number neg s =
     (let ip = takeWhile is_digit s;
          rest = dropWhile is_digit s;
          fp = (case rest of c # cs \<Rightarrow> if c = CHR ''.'' then takeWhile is_digit cs else [] | [] \<Rightarrow> []);
          tail = (case rest of c # cs \<Rightarrow> if c = CHR ''.'' then dropWhile is_digit cs else rest | [] \<Rightarrow> [])
      in if ip = [] \<and> fp = [] then None
         else map_option (\<lambda>x. DFin neg (digits_val (ip @ fp)) (x - int (length fp))) (parse_exp tail))"

definition in_limits :: "decimal \<Rightarrow> bool" where
  "in_limits d = (case d of
     DFin s c e \<Rightarrow> MIN_EXP \<le> e \<and> e + int (ndigits c) - 1 \<le> MAX_ADJ
   | _ \<Rightarrow> True)"

definition dec_of_string :: "string \<Rightarrow> py_exc + decimal" where
  "dec_of_string text =
     (case split_sign (filter (\<lambda>c. c \<noteq> CHR ''_'') (strip text)) of (neg, body) \<Rightarrow>
        let low = lower body in
        if low = ''inf'' \<or> low = ''infinity'' then Inr (DInf neg)
        else if take 3 low = ''nan'' \<and> list_all is_digit (drop 3 low) then Inr DNaN
        else if take 4 low = ''snan'' \<and> list_all is_digit (drop 4 low) then Inr DNaN
        else case parse_number neg body of
            None \<Rightarrow> Inl InvalidOperation
          | Some d \<Rightarrow> if in_limits d then Inr d else Inl InvalidOperation)"

subsection \<open>Comparison agrees with the values\<close>

lemma is_finite_DFin [simp]: "is_finite (DFin s c e)" "\<not> is_finite (DInf b)" "\<not> is_finite DNaN"
  by (simp_all add: is_finite_def)

lemma is_finite_cases: "is_finite d \<Longrightarrow> (\<And>s c e. d = DFin s c e \<Longrightarrow> P) \<Longrightarrow> P"
  by (cases d) auto

lemma powi_split: "m \<le> e \<Longrightarrow> (10::rat) powi e = 10 ^ nat (e - m) * 10 powi m"
proof -
  assume "m \<le> e"
  have "(10::rat) powi e = 10 powi ((e - m) + m)" by simp
  also have "\<dots> = 10 powi (e - m) * 10 powi m" by (subst power_int_add) auto
  also have "(10::rat) powi (e - m) = 10 ^ nat (e - m)"
    using \<open>m \<le> e\<close> by (simp add: power_int_def)
  finally show ?thesis .
qed

lemma powi_pos [simp]: "(0::rat) < 10 powi e"
  by (rule zero_less_power_int) simp

lemma powi_not_neg [simp]: "\<not> 10 powi e < (0::rat)"
  using powi_pos[of e] by (rule less_not_sym)

lemma dec_val_scaled:
  "m \<le> e \<Longrightarrow> dec_val (DFin s c e) = of_int (dec_scaled m (DFin s c e)) * 10 powi m"
  by (simp add: dec_val_def dec_scaled_def powi_split[of m e])

lemma dec_le_val [simp]:
  "dec_le (DFin s c e) (DFin s' c' e') \<longleftrightarrow> dec_val (DFin s c e) \<le> dec_val (DFin s' c' e')"
proof -
  let ?m = "min e e'"
  have "dec_val (DFin s c e) = of_int (dec_scaled ?m (DFin s c e)) * 10 powi ?m"
    by (rule dec_val_scaled) simp
  moreover have "dec_val (DFin s' c' e') = of_int (dec_scaled ?m (DFin s' c' e')) * 10 powi ?m"
    by (rule dec_val_scaled) simp
  ultimately show ?thesis
    using powi_pos[of ?m] by (simp add: Let_def mult_le_cancel_right_pos del: powi_pos)
qed

lemma dec_eq_val [simp]:
  "dec_eq (DFin s c e) (DFin s' c' e') \<longleftrightarrow> dec_val (DFin s c e) = dec_val (DFin s' c' e')"
proof -
  let ?m = "min e e'"
  have "dec_val (DFin s c e) = of_int (dec_scaled ?m (DFin s c e)) * 10 powi ?m"
    by (rule dec_val_scaled) simp
  moreover have "dec_val (DFin s' c' e') = of_int (dec_scaled ?m (DFin s' c' e')) * 10 powi ?m"
    by (rule dec_val_scaled) simp
  ultimately show ?thesis
    using powi_pos[of ?m] by (simp add: Let_def del: powi_pos)
qed

declare dec_le.simps(1) [simp del] dec_eq.simps(1) [simp del]

lemma dec_lt_val [simp]:
  "dec_lt (DFin s c e) (DFin s' c' e') \<longleftrightarrow> dec_val (DFin s c e) < dec_val (DFin s' c' e')"
  by (auto simp: dec_lt_def)

lemma dec_cmp_r_fin [simp]:
  "is_finite a \<Longrightarrow> is_finite b \<Longrightarrow> dec_le_r a b = Inr (dec_le a b)"
  "is_finite a \<Longrightarrow> is_finite b \<Longrightarrow> dec_lt_r a b = Inr (dec_lt a b)"
  by (auto simp: dec_le_r_def dec_lt_r_def)

lemma dec_cmp_r_Inr:
  "dec_le_r a b = Inr v \<longleftrightarrow> a \<noteq> DNaN \<and> b \<noteq> DNaN \<and> v = dec_le a b"
  "dec_lt_r a b = Inr v \<longleftrightarrow> a \<noteq> DNaN \<and> b \<noteq> DNaN \<and> v = dec_lt a b"
  by (auto simp: dec_le_r_def dec_lt_r_def)

text \<open>The same for operands known to be finite only.\<close>

lemma fin_le_val: "is_finite a \<Longrightarrow> is_finite b \<Longrightarrow> dec_le a b \<longleftrightarrow> dec_val a \<le> dec_val b"
  and fin_lt_val: "is_finite a \<Longrightarrow> is_finite b \<Longrightarrow> dec_lt a b \<longleftrightarrow> dec_val a < dec_val b"
  and fin_eq_val: "is_finite a \<Longrightarrow> is_finite b \<Longrightarrow> dec_eq a b \<longleftrightarrow> dec_val a = dec_val b"
  by (cases a; cases b; simp)+

lemmas fin_cmp = fin_le_val fin_lt_val fin_eq_val

lemma dec_val_zero [simp]: "dec_val (DFin s 0 e) = 0"
  by (simp add: dec_val_def)

lemma dec_val_one [simp]: "dec_val (DFin False (Suc 0) 0) = 1"
  by (simp add: dec_val_def sgn_of_def)

lemma dec_val_pos_iff: "0 < dec_val (DFin s c e) \<longleftrightarrow> \<not> s \<and> 0 < c"
proof -
  have "0 < dec_val (DFin s c e) \<longleftrightarrow> 0 < sgn_of s * int c"
    by (simp only: dec_val_def decimal.case zero_less_mult_iff of_int_0_less_iff)
      (simp add: zero_less_mult_iff)
  then show ?thesis by (auto simp: sgn_of_def zero_less_mult_iff)
qed

lemma dec_val_eq_0_iff [simp]: "dec_val (DFin s c e) = 0 \<longleftrightarrow> c = 0"
  by (auto simp: dec_val_def sgn_of_def)

lemma dec_val_nonneg_iff: "0 \<le> dec_val (DFin s c e) \<longleftrightarrow> \<not> s \<or> c = 0"
  using dec_val_pos_iff[of s c e] dec_val_eq_0_iff[of s c e] by (auto simp: le_less)

lemma dec_val_neg: "dec_val (DFin (\<not> s) c e) = - dec_val (DFin s c e)"
  by (simp add: dec_val_def sgn_of_def)

lemma dec_min_fin [simp]: "is_finite a \<Longrightarrow> is_finite b \<Longrightarrow> is_finite (dec_min a b)"
  by (simp add: dec_min_def)

lemma dec_min_val: "is_finite a \<Longrightarrow> is_finite b \<Longrightarrow> dec_val (dec_min a b) = min (dec_val a) (dec_val b)"
  by (auto simp: dec_min_def fin_cmp min_def)

lemma dec_max_val: "is_finite a \<Longrightarrow> is_finite b \<Longrightarrow> dec_val (dec_max a b) = max (dec_val a) (dec_val b)"
  by (auto simp: dec_max_def fin_cmp max_def)

subsection \<open>Exact arithmetic inside the context\<close>

text \<open>
  \<open>dec_small\<close> holds of the values that never meet a limit of the context: at most 28
  digits and a moderate exponent.  On exact results of that size no operation rounds or raises.
\<close>

definition dec_small :: "decimal \<Rightarrow> bool" where
  "dec_small d = (case d of
     DFin s c e \<Rightarrow> c < 10 ^ 28 \<and> - 10000 \<le> e \<and> e \<le> 10000
   | _ \<Rightarrow> False)"

lemma dec_small_DFin [simp]:
  "dec_small (DFin s c e) \<longleftrightarrow> c < 10 ^ 28 \<and> - 10000 \<le> e \<and> e \<le> 10000"
  by (simp add: dec_small_def)

lemma dec_small_finite: "dec_small d \<Longrightarrow> is_finite d"
  by (cases d) (auto simp: dec_small_def)

lemma dec_fix_small: "dec_small d \<Longrightarrow> dec_fix d = Inr d"
proof (cases d)
  case (DFin s c e)
  assume "dec_small d"
  with DFin have b: "c < 10 ^ 28" "- 10000 \<le> e" "e \<le> 10000" by simp_all
  then have n: "ndigits c \<le> 28" by (subst ndigits_le_iff) auto
  then have "int (ndigits c) + e - 28 \<le> e" by simp
  with n b show ?thesis
    by (auto simp: dec_fix_def DFin PREC_def ETINY_def ETOP_def EMAX_def Let_def)
qed (auto simp: dec_small_def)

lemma dec_mul_exact:
  assumes "c * c' < 10 ^ 28" "- 10000 \<le> e + e'" "e + e' \<le> 10000"
  shows "dec_mul (DFin s c e) (DFin s' c' e') = Inr (DFin (s \<noteq> s') (c * c') (e + e'))"
  using assms by (auto intro!: dec_fix_small)

lemma dec_val_mul:
  "dec_val (DFin (s \<noteq> s') (c * c') (e + e')) = dec_val (DFin s c e) * dec_val (DFin s' c' e')"
proof -
  have "(10::rat) powi (e + e') = 10 powi e * 10 powi e'" by (subst power_int_add) auto
  then show ?thesis by (simp add: dec_val_def sgn_of_def)
qed

lemma dec_add_exact:
  assumes "nat \<bar>dec_scaled (min e e') (DFin s c e) + dec_scaled (min e e') (DFin s' c' e')\<bar> < 10 ^ 28"
    and "- 10000 \<le> min e e'" "min e e' \<le> 10000"
  shows "\<exists>r. dec_add (DFin s c e) (DFin s' c' e') = Inr r \<and> dec_small r
           \<and> dec_val r = dec_val (DFin s c e) + dec_val (DFin s' c' e') \<and> d_exp r = min e e'"
proof -
  let ?m = "min e e'"
  let ?t = "dec_scaled ?m (DFin s c e) + dec_scaled ?m (DFin s' c' e')"
  define n where "n = (if ?t = 0 then s \<and> s' \<and> c = 0 \<and> c' = 0 else ?t < 0)"
  have r: "dec_add (DFin s c e) (DFin s' c' e') = dec_fix (DFin n (nat \<bar>?t\<bar>) ?m)"
    by (simp add: n_def Let_def)
  have small: "dec_small (DFin n (nat \<bar>?t\<bar>) ?m)" using assms by simp
  have "sgn_of n * int (nat \<bar>?t\<bar>) = ?t" by (auto simp: n_def sgn_of_def)
  then have "dec_val (DFin n (nat \<bar>?t\<bar>) ?m) = of_int ?t * 10 powi ?m"
    by (simp only: dec_val_def decimal.case)
  also have "\<dots> = dec_val (DFin s c e) + dec_val (DFin s' c' e')"
    using dec_val_scaled[of ?m e s c] dec_val_scaled[of ?m e' s' c']
    by (simp add: algebra_simps)
  finally show ?thesis using r small dec_fix_small[OF small] by auto
qed

text \<open>An operation on finite operands that does not raise has a finite result.\<close>

lemma dec_fix_finite: "dec_fix (DFin s c e) = Inr d \<Longrightarrow> \<exists>c' e'. d = DFin s c' e'"
  by (auto simp: dec_fix_def Let_def split: if_splits)

lemma dec_add_finite: "dec_add a b = Inr d \<Longrightarrow> is_finite a \<Longrightarrow> is_finite b \<Longrightarrow> is_finite d"
  by (cases a; cases b) (auto simp: Let_def dest!: dec_fix_finite)

lemma dec_sub_finite: "dec_sub a b = Inr d \<Longrightarrow> is_finite a \<Longrightarrow> is_finite b \<Longrightarrow> is_finite d"
  unfolding dec_sub_def by (erule dec_add_finite) (cases b; simp)+

lemma dec_mul_finite: "dec_mul a b = Inr d \<Longrightarrow> is_finite a \<Longrightarrow> is_finite b \<Longrightarrow> is_finite d"
  by (cases a; cases b) (auto dest!: dec_fix_finite)

lemmas dec_op_finite = dec_add_finite dec_sub_finite dec_mul_finite

lemma dec_abs_small: "dec_small d \<Longrightarrow> \<exists>r. dec_abs d = Inr r \<and> dec_small r \<and> dec_val r = \<bar>dec_val d\<bar> \<and> d_exp r = d_exp d \<and> d_coef r = d_coef d"
  by (cases d) (auto simp: dec_small_def dec_fix_small dec_val_def sgn_of_def abs_mult)

lemma dec_neg_small: "dec_small d \<Longrightarrow> \<exists>r. dec_neg d = Inr r \<and> dec_small r \<and> dec_val r = - dec_val d \<and> d_exp r = d_exp d \<and> d_coef r = d_coef d"
  by (cases d) (auto simp: dec_small_def dec_fix_small dec_val_def sgn_of_def)

subsection \<open>Results of the context\<close>

text \<open>What \<open>_fix\<close> returns is a fixed point of it, so unary operations on results are exact.\<close>

lemma ndigits_shift: "0 < c \<Longrightarrow> ndigits (c * 10 ^ k) = ndigits c + k"
proof (induction k)
  case (Suc k)
  have "\<not> c * 10 ^ Suc k < 10" using Suc.prems by simp
  then have "ndigits (c * 10 ^ Suc k) = Suc (ndigits (c * 10 ^ Suc k div 10))"
    by (subst ndigits.simps) (simp del: ndigits.simps)
  also have "c * 10 ^ Suc k div 10 = c * 10 ^ k" by simp
  finally show ?case using Suc by simp
qed simp

definition in_context :: "decimal \<Rightarrow> bool" where
  "in_context d = (case d of
     DFin s c e \<Rightarrow> c < 10 ^ 28 \<and> ETINY \<le> e \<and> (c = 0 \<longrightarrow> e \<le> EMAX) \<and> int (ndigits c) + e - 28 \<le> ETOP
   | _ \<Rightarrow> False)"

lemma in_context_fix: "in_context d \<Longrightarrow> dec_fix d = Inr d"
proof (cases d)
  case (DFin s c e)
  assume "in_context d"
  then have b: "c < 10 ^ 28" "ETINY \<le> e" "c = 0 \<longrightarrow> e \<le> EMAX" "int (ndigits c) + e - 28 \<le> ETOP"
    unfolding in_context_def DFin decimal.case by blast+
  have "ndigits c \<le> 28" using b(1) by (subst ndigits_le_iff) auto
  with b show ?thesis by (auto simp: dec_fix_def DFin PREC_def Let_def)
qed (simp_all add: in_context_def)

lemma div_pow_bound: "c < 10 ^ n \<Longrightarrow> int n - 28 \<le> int k \<Longrightarrow> round_div r c (10 ^ k) \<le> 10 ^ 28"
proof -
  assume c: "c < 10 ^ n" and k: "int n - 28 \<le> int k"
  have "(10::nat) ^ n \<le> 10 ^ (28 + k)" using k by (intro power_increasing) auto
  with c have "c < 10 ^ 28 * 10 ^ k" by (simp only: power_add[symmetric])
  then have "c div 10 ^ k < 10 ^ 28" by (simp only: less_mult_imp_div_less)
  then show ?thesis by (auto simp: round_div_def Let_def split: rounding.splits)
qed

lemma dec_fix_in_context:
  assumes "dec_fix (DFin s c e) = Inr d"
  shows "in_context d"
proof (cases "c = 0")
  case True
  moreover have "ndigits 0 = 1" by (simp add: ndigits.simps[of 0])
  ultimately show ?thesis using assms by (auto simp: dec_fix_def in_context_def ETINY_def EMAX_def ETOP_def)
next
  case False
  define em where "em = int (ndigits c) + e - 28"
  define em' where "em' = max em ETINY"
  have em: "em \<le> ETOP" using assms False by (auto simp: dec_fix_def PREC_def em_def Let_def split: if_splits)
  have em': "em \<le> em'" "ETINY \<le> em'" "em' \<le> ETOP" using em by (auto simp: em'_def ETINY_def ETOP_def)
  show ?thesis
  proof (cases "e < em'")
    case True
    define c' where "c' = rescale ROUND_HALF_EVEN c e em'"
    define over where "over = (28 < ndigits c')"
    have d: "(if over then em' + 1 else em') \<le> ETOP"
      "d = DFin s (if over then c' div 10 else c') (if over then em' + 1 else em')"
      using assms False em True
      by (simp_all add: dec_fix_def PREC_def Let_def em_def[symmetric] em'_def[symmetric] c'_def[symmetric] over_def split: if_splits)
    have "c' = round_div ROUND_HALF_EVEN c (10 ^ nat (em' - e))" using True by (simp add: c'_def rescale_def)
    moreover have "c < 10 ^ ndigits c" using ndigits_le_iff[of "ndigits c" c] ndigits_pos[of c] by simp
    ultimately have le: "c' \<le> 10 ^ 28" using div_pow_bound True em'(1) by (simp add: em_def)
    have nle: "ndigits c' \<le> 28 \<longleftrightarrow> c' < 10 ^ 28" by (subst ndigits_le_iff) auto
    show ?thesis
    proof (cases over)
      case True
      then have "\<not> c' < 10 ^ 28" using nle by (simp add: over_def)
      with le have c': "c' = 10 ^ 28" by linarith
      then have "c' div 10 = 10 ^ 27" by simp
      moreover have "ndigits (10 ^ 27) = 28" using ndigits_shift[of 1 27] by (simp add: ndigits.simps[of "Suc 0"])
      ultimately show ?thesis using True d em'
        by (simp add: in_context_def ETINY_def)
    next
      case f: False
      with nle have "c' < 10 ^ 28" "ndigits c' \<le> 28" by (auto simp: over_def)
      then show ?thesis using f d em' by (auto simp: in_context_def ETOP_def EMAX_def)
    qed
  next
    case f: False
    then have d: "d = DFin s c e"
      using assms False em by (auto simp: dec_fix_def PREC_def Let_def em_def em'_def split: if_splits)
    have "ndigits c \<le> 28" using f em' by (simp add: em_def)
    then have "c < 10 ^ 28" by (subst (asm) ndigits_le_iff) auto
    then show ?thesis using f em' em False d by (auto simp: in_context_def em_def)
  qed
qed

lemma in_context_finite: "in_context d \<Longrightarrow> is_finite d"
  by (cases d) (simp_all add: in_context_def)

lemma dec_small_in_context: "dec_small d \<Longrightarrow> in_context d"
proof (cases d)
  case (DFin s c e)
  assume "dec_small d"
  with DFin have b: "c < 10 ^ 28" "- 10000 \<le> e" "e \<le> 10000" by simp_all
  then have "ndigits c \<le> 28" by (subst ndigits_le_iff) auto
  with b show ?thesis by (auto simp: in_context_def DFin ETINY_def EMAX_def ETOP_def)
qed (auto simp: dec_small_def)

lemma in_context_abs:
  assumes "in_context d"
  shows "\<exists>r. dec_abs d = Inr r \<and> in_context r \<and> dec_val r = \<bar>dec_val d\<bar>"
proof -
  obtain s c e where d: "d = DFin s c e" using in_context_finite[OF assms] by (rule is_finite_cases)
  have "in_context (DFin False c e)" using assms by (simp add: in_context_def d)
  then show ?thesis
    using in_context_fix[of "DFin False c e"] by (auto simp: d dec_val_def sgn_of_def abs_mult)
qed

lemma in_context_neg:
  assumes "in_context d"
  shows "\<exists>r. dec_neg d = Inr r \<and> in_context r \<and> dec_val r = - dec_val d"
proof -
  obtain s c e where d: "d = DFin s c e" using in_context_finite[OF assms] by (rule is_finite_cases)
  have "in_context (DFin (if c = 0 then False else \<not> s) c e)" using assms by (simp add: in_context_def d)
  then show ?thesis
    using in_context_fix[of "DFin (if c = 0 then False else \<not> s) c e"] by (auto simp: d dec_val_def sgn_of_def)
qed

lemma dec_add_in_context: "dec_add a b = Inr d \<Longrightarrow> is_finite a \<Longrightarrow> is_finite b \<Longrightarrow> in_context d"
  by (cases a; cases b) (auto simp: Let_def dest!: dec_fix_in_context)

lemma dec_add_sign:
  assumes "dec_add a b = Inr d" "is_finite a" "is_finite b"
  shows "0 \<le> dec_val a + dec_val b \<Longrightarrow> 0 \<le> dec_val d" "dec_val a + dec_val b \<le> 0 \<Longrightarrow> dec_val d \<le> 0"
proof -
  obtain s c e where a: "a = DFin s c e" using assms(2) by (rule is_finite_cases)
  obtain s' c' e' where b: "b = DFin s' c' e'" using assms(3) by (rule is_finite_cases)
  let ?m = "min e e'"
  define t where "t = dec_scaled ?m a + dec_scaled ?m b"
  have v: "dec_val a + dec_val b = of_int t * 10 powi ?m"
    using dec_val_scaled[of ?m e s c] dec_val_scaled[of ?m e' s' c'] by (simp add: a b t_def algebra_simps)
  obtain n c'' e'' where d: "d = DFin n c'' e''" and n: "0 < t \<longrightarrow> \<not> n" "t < 0 \<longrightarrow> n" "t = 0 \<longrightarrow> c'' = 0"
  proof -
    let ?n = "if t = 0 then s \<and> s' \<and> c = 0 \<and> c' = 0 else t < 0"
    have f: "dec_fix (DFin ?n (nat \<bar>t\<bar>) ?m) = Inr d" using assms(1) by (simp only: a b dec_add.simps Let_def t_def)
    obtain c'' e'' where "d = DFin ?n c'' e''" using dec_fix_finite[OF f] by blast
    moreover have "t = 0 \<longrightarrow> c'' = 0" using f calculation by (auto simp: dec_fix_def)
    ultimately show ?thesis by (intro that) auto
  qed
  have p: "0 < (10::rat) powi ?m" by simp
  show "0 \<le> dec_val a + dec_val b \<Longrightarrow> 0 \<le> dec_val d"
    using n p unfolding v d dec_val_nonneg_iff by (cases t "0::int" rule: linorder_cases) (auto simp: zero_le_mult_iff)
  show "dec_val a + dec_val b \<le> 0 \<Longrightarrow> dec_val d \<le> 0"
    using n p dec_val_pos_iff[of n c'' e''] unfolding v d
    by (cases t "0::int" rule: linorder_cases) (auto simp: mult_le_0_iff not_less)
qed

lemma round_div_exact: "0 < d \<Longrightarrow> round_div r (x * d) d = x"
  by (auto simp: round_div_def Let_def split: rounding.splits)

lemma dec_fix_shifted:
  assumes "in_context (DFin s c e)" "m \<le> e"
  shows "\<exists>c' e'. dec_fix (DFin s (c * 10 ^ nat (e - m)) m) = Inr (DFin s c' e')
    \<and> of_nat c' * (10::rat) powi e' = of_nat c * 10 powi e"
proof (cases "c = 0")
  case True
  then show ?thesis by (simp add: dec_fix_def)
next
  case False
  define C where "C = c * 10 ^ nat (e - m)"
  define em where "em = int (ndigits c) + e - 28"
  define em' where "em' = max em ETINY"
  have ctx: "ETINY \<le> e" "em \<le> ETOP" "c < 10 ^ 28"
    using assms(1) unfolding in_context_def decimal.case em_def by blast+
  have nd: "ndigits c \<le> 28" using ctx(3) by (subst ndigits_le_iff) auto
  have em': "em' \<le> e" "em' \<le> ETOP" "em \<le> em'" using nd ctx by (auto simp: em'_def em_def ETINY_def ETOP_def)
  have C: "C \<noteq> 0" "int (ndigits C) + m - 28 = em"
    using False assms(2) ndigits_shift[of c "nat (e - m)"] by (simp_all add: C_def em_def)
  have vC: "of_nat C * (10::rat) powi m = of_nat c * 10 powi e"
    using powi_split[OF assms(2)] by (simp add: C_def)
  show ?thesis
  proof (cases "m < em'")
    case True
    define x where "x = c * 10 ^ nat (e - em')"
    have "nat (e - m) = nat (e - em') + nat (em' - m)" using True em'(1) by linarith
    then have Cx: "C = x * 10 ^ nat (em' - m)" by (simp add: C_def x_def power_add)
    have r: "rescale ROUND_HALF_EVEN C m em' = x"
      using True unfolding rescale_def Cx by (simp add: round_div_exact)
    have nx: "\<not> 28 < ndigits x"
      using False ndigits_shift[of c "nat (e - em')"] em'(1,3) by (simp add: x_def em_def)
    have "dec_fix (DFin s C m) = Inr (DFin s x em')"
      using C em' ctx True nx
      by (simp add: dec_fix_def PREC_def Let_def em'_def[symmetric] r not_less)
    moreover have "of_nat x * (10::rat) powi em' = of_nat c * 10 powi e"
      using powi_split[OF em'(1)] by (simp add: x_def)
    ultimately show ?thesis unfolding C_def by blast
  next
    case f: False
    then have "dec_fix (DFin s C m) = Inr (DFin s C m)"
      using C ctx by (simp add: dec_fix_def PREC_def Let_def em'_def not_less)
    with vC show ?thesis unfolding C_def by blast
  qed
qed

lemma dec_add_zero_right:
  assumes "in_context a" "is_finite z" "dec_val z = 0"
  shows "\<exists>r. dec_add a z = Inr r \<and> in_context r \<and> dec_val r = dec_val a"
proof -
  obtain s c e where a: "a = DFin s c e" using in_context_finite[OF assms(1)] by (rule is_finite_cases)
  obtain s' c' e' where z: "z = DFin s' c' e'" using assms(2) by (rule is_finite_cases)
  have c': "c' = 0" using assms(3) by (simp add: z)
  let ?m = "min e e'"
  define n where "n = (if c = 0 then s \<and> s' else s)"
  define C where "C = c * 10 ^ nat (e - ?m)"
  have t: "dec_scaled ?m a + dec_scaled ?m z = sgn_of s * int C"
    by (simp add: a z c' dec_scaled_def C_def)
  have C0: "C = 0 \<longleftrightarrow> c = 0" by (simp add: C_def)
  have "dec_add a z = dec_fix (DFin n C ?m)"
    unfolding a z dec_add.simps Let_def t[unfolded a z] using C0
    by (cases s; cases "c = 0") (simp_all add: n_def sgn_of_def c')
  then have "dec_add a z = dec_fix (DFin n (c * 10 ^ nat (e - ?m)) ?m)" by (simp only: C_def)
  moreover have "in_context (DFin n c e)" using assms(1) by (simp add: in_context_def a)
  then obtain x y where x: "dec_fix (DFin n (c * 10 ^ nat (e - ?m)) ?m) = Inr (DFin n x y)"
    "of_nat x * (10::rat) powi y = of_nat c * 10 powi e"
    using dec_fix_shifted[of n c e ?m] by auto
  moreover have "dec_val (DFin n x y) = dec_val a"
    using x(2) by (cases "c = 0") (auto simp: a n_def dec_val_def)
  ultimately show ?thesis using dec_fix_in_context by auto
qed

lemma dec_fix_moderate:
  assumes "c < 10 ^ 100" "- 20000 \<le> e" "e \<le> 20000"
  shows "\<exists>c' e'. dec_fix (DFin s c e) = Inr (DFin s c' e')"
proof -
  have "ndigits c \<le> 100" using assms(1) by (subst ndigits_le_iff) auto
  then have "int (ndigits c) + e - int PREC < ETOP" using assms(3) by (simp add: PREC_def ETOP_def)
  then show ?thesis by (auto simp: dec_fix_def Let_def ETOP_def ETINY_def max_def)
qed

subsection \<open>quantize\<close>

lemma dec_quantize_fin:
  "dec_quantize r q (DFin s c e) =
     (if rescale r c e q < 10 ^ 28 then Inr (DFin s (rescale r c e q) q) else Inl InvalidOperation)"
  using ndigits_le_iff[of 28 "rescale r c e q"]
  by (simp only: dec_quantize.simps Let_def PREC_def linorder_not_le[symmetric]) simp

declare dec_quantize.simps(1) [simp del]

lemma dec_quantize_Inr:
  "dec_quantize r q (DFin s c e) = Inr d
     \<longleftrightarrow> d = DFin s (rescale r c e q) q \<and> rescale r c e q < 10 ^ 28"
  by (auto simp only: dec_quantize_fin split: if_splits)

lemma dec_quantize_finite: "dec_quantize r q d = Inr d' \<Longrightarrow> is_finite d \<Longrightarrow> is_finite d'"
  by (cases d) (auto simp: dec_quantize_fin split: if_splits)

lemma dec_quantize_exp: "dec_quantize r q d = Inr d' \<Longrightarrow> is_finite d \<Longrightarrow> d_exp d' = q"
  by (cases d) (auto simp: dec_quantize_fin split: if_splits)

lemma rescale_exact:
  "q \<le> e \<Longrightarrow> (of_nat (rescale r c e q) :: rat) * 10 powi q = of_nat c * 10 powi e"
  by (simp add: rescale_def powi_split[of q e])

lemma rescale_down:
  "(of_nat (rescale ROUND_DOWN c e q) :: rat) * 10 powi q \<le> of_nat c * 10 powi e"
  "(of_nat c :: rat) * 10 powi e < (of_nat (rescale ROUND_DOWN c e q) + 1) * 10 powi q"
proof -
  have "(of_nat (rescale ROUND_DOWN c e q) :: rat) * 10 powi q \<le> of_nat c * 10 powi e
    \<and> (of_nat c :: rat) * 10 powi e < (of_nat (rescale ROUND_DOWN c e q) + 1) * 10 powi q"
  proof (cases "q \<le> e")
    case True
    then show ?thesis using rescale_exact[OF True, of ROUND_DOWN c] powi_pos[of q]
      by (simp add: algebra_simps)
  next
    case False
    define k where "k = nat (q - e)"
    have q: "(10::rat) powi q = 10 ^ k * 10 powi e"
      using False unfolding k_def by (intro powi_split) simp
    have r: "rescale ROUND_DOWN c e q = c div 10 ^ k"
      using False by (simp add: rescale_def round_div_def k_def)
    have "(of_nat (c div 10 ^ k * 10 ^ k) :: rat) \<le> of_nat c"
      by (subst of_nat_le_iff) (rule div_times_less_eq_dividend)
    then have "of_nat (c div 10 ^ k * 10 ^ k) * (10::rat) powi e \<le> of_nat c * 10 powi e"
      by (rule mult_right_mono) (simp add: less_imp_le)
    moreover have "(of_nat c :: rat) < of_nat (10 ^ k + c div 10 ^ k * 10 ^ k)"
      by (subst of_nat_less_iff) (rule dividend_less_div_times, simp)
    then have "of_nat c * (10::rat) powi e < of_nat (10 ^ k + c div 10 ^ k * 10 ^ k) * 10 powi e"
      by (rule mult_strict_right_mono) simp
    ultimately show ?thesis
      unfolding r q by (simp only: of_nat_add of_nat_mult of_nat_power of_nat_numeral
          distrib_right mult.assoc mult_1_left) (simp add: add.commute)
  qed
  then show "(of_nat (rescale ROUND_DOWN c e q) :: rat) * 10 powi q \<le> of_nat c * 10 powi e"
    "(of_nat c :: rat) * 10 powi e < (of_nat (rescale ROUND_DOWN c e q) + 1) * 10 powi q"
    by auto
qed

lemma round_up_bounds:
  assumes "0 < d"
  shows "n \<le> round_div ROUND_UP n d * d \<and> round_div ROUND_UP n d * d < n + d"
proof -
  have eq: "round_div ROUND_UP n d * d = (if n mod d = 0 then n div d * d else n div d * d + d)"
    by (simp add: round_div_def Let_def)
  have gen: "a + m = n \<Longrightarrow> m < d \<Longrightarrow>
      n \<le> (if m = 0 then a else a + d) \<and> (if m = 0 then a else a + d) < n + d" for a m
    by auto
  show ?thesis
    unfolding eq by (rule gen) (simp_all add: assms)
qed

lemma rescale_up:
  "(of_nat c :: rat) * 10 powi e \<le> of_nat (rescale ROUND_UP c e q) * 10 powi q"
  "(of_nat (rescale ROUND_UP c e q) :: rat) * 10 powi q < of_nat c * 10 powi e + 10 powi q"
proof -
  have "(of_nat c :: rat) * 10 powi e \<le> of_nat (rescale ROUND_UP c e q) * 10 powi q
    \<and> (of_nat (rescale ROUND_UP c e q) :: rat) * 10 powi q < of_nat c * 10 powi e + 10 powi q"
  proof (cases "q \<le> e")
    case True
    then show ?thesis using rescale_exact[OF True, of ROUND_UP c] powi_pos[of q] by simp
  next
    case False
    define k where "k = nat (q - e)"
    have q: "(10::rat) powi q = 10 ^ k * 10 powi e"
      using False unfolding k_def by (intro powi_split) simp
    have r: "rescale ROUND_UP c e q = round_div ROUND_UP c (10 ^ k)"
      using False by (simp add: rescale_def k_def)
    let ?u = "round_div ROUND_UP c (10 ^ k)"
    have "(of_nat c :: rat) \<le> of_nat (?u * 10 ^ k)"
      by (subst of_nat_le_iff) (simp only: round_up_bounds zero_less_power zero_less_numeral)
    then have "of_nat c * (10::rat) powi e \<le> of_nat (?u * 10 ^ k) * 10 powi e"
      by (rule mult_right_mono) (simp add: less_imp_le)
    moreover have "(of_nat (?u * 10 ^ k) :: rat) < of_nat (c + 10 ^ k)"
      by (subst of_nat_less_iff) (simp only: round_up_bounds zero_less_power zero_less_numeral)
    then have "of_nat (?u * 10 ^ k) * (10::rat) powi e < of_nat (c + 10 ^ k) * 10 powi e"
      by (rule mult_strict_right_mono) simp
    ultimately show ?thesis
      unfolding r q by (simp only: of_nat_add of_nat_mult of_nat_power of_nat_numeral
          distrib_right mult.assoc mult_1_left)
  qed
  then show "(of_nat c :: rat) * 10 powi e \<le> of_nat (rescale ROUND_UP c e q) * 10 powi q"
    "(of_nat (rescale ROUND_UP c e q) :: rat) * 10 powi q < of_nat c * 10 powi e + 10 powi q"
    by auto
qed

lemma dec_val_pos_form: "dec_val (DFin False c e) = of_nat c * 10 powi e"
  by (simp add: dec_val_def sgn_of_def)

text \<open>Rounding a value that is already on the grid changes nothing.\<close>

lemma rescale_same [simp]: "rescale r c e e = c"
  by (simp add: rescale_def)

lemma dec_quantize_same: "c < 10 ^ 28 \<Longrightarrow> dec_quantize r q (DFin s c q) = Inr (DFin s c q)"
  by (simp only: dec_quantize_Inr rescale_same)

text \<open>The values on the grid of \<open>10 ^ q\<close> with at most 28 digits.\<close>

definition on_grid :: "int \<Rightarrow> decimal \<Rightarrow> bool" where
  "on_grid q d = (case d of DFin s c e \<Rightarrow> e = q \<and> c < 10 ^ 28 | _ \<Rightarrow> False)"

lemma on_grid_finite: "on_grid q d \<Longrightarrow> is_finite d"
  by (cases d) (simp_all add: on_grid_def)

lemma dec_quantize_on_grid: "dec_quantize r q d = Inr d' \<Longrightarrow> is_finite d \<Longrightarrow> on_grid q d'"
  by (cases d) (simp_all only: dec_quantize_Inr is_finite_DFin on_grid_def decimal.case simp_thms)

text \<open>Evaluation on numerals.\<close>

lemma ndigits_numeral [py_simps]:
  "ndigits (numeral k) = (if (numeral k :: nat) < 10 then 1 else Suc (ndigits (numeral k div 10)))"
  "ndigits 0 = 1" "ndigits (Suc 0) = 1"
  by (subst ndigits.simps; simp)+

lemma nat_str_numeral [py_simps]:
  "nat_str (numeral k) = (if (numeral k :: nat) < 10 then [digit_char (numeral k)]
     else nat_str (numeral k div 10) @ [digit_char (numeral k mod 10)])"
  "nat_str 0 = [digit_char 0]" "nat_str (Suc 0) = [digit_char 1]"
  by (subst nat_str.simps; simp)+

subsection \<open>Printing and parsing back\<close>

lemma takeWhile_digits [simp]:
  "list_all is_digit s \<Longrightarrow> takeWhile is_digit s = s"
  "list_all is_digit s \<Longrightarrow> dropWhile is_digit s = []"
  by (auto simp: list_all_iff takeWhile_eq_all_conv)

lemma takeWhile_digits_dot [simp]:
  "list_all is_digit s \<Longrightarrow> takeWhile is_digit (s @ CHR ''.'' # t) = s"
  "list_all is_digit s \<Longrightarrow> dropWhile is_digit (s @ CHR ''.'' # t) = CHR ''.'' # t"
  by (simp_all add: list_all_iff takeWhile_append2 dropWhile_append2)

lemma list_all_nat_str [simp]: "list_all is_digit (nat_str n)"
  using nat_str_digits by (auto simp: list_all_iff)

lemma is_digit_zero [simp]: "is_digit (CHR ''0'')"
  by (simp add: is_digit_def)

lemma digits_val_zeros: "digits_val (replicate n (CHR ''0'') @ s) = digits_val s"
proof -
  have "digits_val (replicate n (CHR ''0'')) = 0"
    by (induction n) (simp_all add: digits_val_def digit_val_def)
  then show ?thesis by (simp add: digits_val_append)
qed

definition fixed_body :: "string \<Rightarrow> string \<Rightarrow> string" where
  "fixed_body ip fp = (if fp = [] then ip else ip @ CHR ''.'' # fp)"

definition exp_tail :: "int \<Rightarrow> string" where
  "exp_tail x = (if x = 0 then [] else CHR ''E'' # signed_int_str x)"

lemma signed_int_str_form:
  "signed_int_str x = (if x < 0 then CHR ''-'' else CHR ''+'') # nat_str (nat \<bar>x\<bar>)"
  by (simp add: signed_int_str_def int_str_def)

lemma parse_exp_tail [simp]: "parse_exp (exp_tail x) = Some x"
  by (simp add: parse_exp_def exp_tail_def signed_int_str_form split_sign_def)

lemma takeWhile_digits_tail [simp]:
  "list_all is_digit s \<Longrightarrow> takeWhile is_digit (s @ exp_tail x) = s"
  "list_all is_digit s \<Longrightarrow> dropWhile is_digit (s @ exp_tail x) = exp_tail x"
  by (simp_all add: exp_tail_def list_all_iff takeWhile_append2 dropWhile_append2)

lemma parse_number_fixed:
  "list_all is_digit ip \<Longrightarrow> list_all is_digit fp \<Longrightarrow> ip \<noteq> [] \<Longrightarrow>
   parse_number neg (fixed_body ip fp @ exp_tail x)
     = Some (DFin neg (digits_val (ip @ fp)) (x - int (length fp)))"
proof -
  assume *: "list_all is_digit ip" "list_all is_digit fp" "ip \<noteq> []"
  show ?thesis
  proof (cases "fp = []")
    case True
    show ?thesis
    proof (cases "x = 0")
      case x: True
      show ?thesis
        by (simp add: parse_number_def fixed_body_def Let_def exp_tail_def[of 0] parse_exp_def True x *)
    next
      case x: False
      then have E: "exp_tail x = CHR ''E'' # signed_int_str x" by (simp add: exp_tail_def)
      with parse_exp_tail[of x] have "parse_exp (CHR ''E'' # signed_int_str x) = Some x" by simp
      with True * E show ?thesis
        using takeWhile_digits_tail[OF *(1), of x]
        by (simp add: parse_number_def fixed_body_def Let_def)
    qed
  next
    case False
    with * show ?thesis by (simp add: parse_number_def fixed_body_def Let_def)
  qed
qed

lemma format_f_body:
  assumes "e \<le> 0"
  obtains ip fp where "dec_format_f (DFin s c e) = sign_str s @ fixed_body ip fp"
    "list_all is_digit ip" "list_all is_digit fp" "ip \<noteq> []"
    "digits_val (ip @ fp) = c" "int (length fp) = - e"
proof -
  let ?ds = "nat_str c" and ?p = "e + int (ndigits c)"
  consider (small) "?p \<le> 0" | (int) "0 < ?p" "int (length ?ds) \<le> ?p"
    | (mid) "0 < ?p" "?p < int (length ?ds)" by linarith
  then show ?thesis
  proof cases
    case small
    show ?thesis
    proof (rule that[of "''0''" "replicate (nat (- ?p)) (CHR ''0'') @ ?ds"])
      show "digits_val (''0'' @ replicate (nat (- ?p)) (CHR ''0'') @ ?ds) = c"
        using digits_val_zeros[of "Suc (nat (- ?p))" ?ds] by simp
    qed (use small assms in \<open>auto simp: fixed_body_def place_point_def list_all_iff nat_str_digits\<close>)
  next
    case int
    with assms have "e = 0" by simp
    then show ?thesis
      by (intro that[of ?ds "[]"]) (auto simp: fixed_body_def place_point_def)
  next
    case mid
    show ?thesis
    proof (rule that[of "take (nat ?p) ?ds" "drop (nat ?p) ?ds"])
      show "list_all is_digit (take (nat ?p) ?ds)" "list_all is_digit (drop (nat ?p) ?ds)"
        using list_all_nat_str[of c] by (auto simp: list_all_iff dest: in_set_takeD in_set_dropD)
    qed (use mid assms in \<open>auto simp: fixed_body_def place_point_def\<close>)
  qed
qed

lemma lower_digit: "is_digit c \<Longrightarrow> lower_char c = c"
  by (auto simp: is_digit_def lower_char_def Let_def)

lemma dec_of_string_fixed:
  assumes "list_all is_digit ip" "list_all is_digit fp" "ip \<noteq> []"
  shows "dec_of_string (sign_str s @ fixed_body ip fp @ exp_tail x) =
    (let d = DFin s (digits_val (ip @ fp)) (x - int (length fp)) in
     if in_limits d then Inr d else Inl InvalidOperation)"
proof -
  let ?b = "fixed_body ip fp @ exp_tail x" and ?t = "sign_str s @ fixed_body ip fp @ exp_tail x"
  obtain a ip' where ip: "ip = a # ip'" using assms(3) by (cases ip) auto
  have a: "is_digit a" using assms(1) ip by simp
  obtain b' where b: "?b = a # b'" by (cases "fp = []") (simp_all add: fixed_body_def ip)
  have "y \<in> set (fixed_body ip fp) \<Longrightarrow> is_digit y \<or> y = CHR ''.''" for y
    using assms by (auto simp: fixed_body_def list_all_iff split: if_splits)
  moreover have "y \<in> set (exp_tail x) \<Longrightarrow> is_digit y \<or> y \<in> set ''E+-''" for y
    by (auto simp: exp_tail_def signed_int_str_form nat_str_digits split: if_splits)
  ultimately have chars: "y \<in> set ?b \<Longrightarrow> is_digit y \<or> y \<in> set ''.E+-''" for y
    by fastforce
  have dot: "y \<in> set ''.E+-'' \<Longrightarrow> \<not> is_space y" for y by (auto simp: is_space_def)
  have nosp: "y \<in> set ?b \<Longrightarrow> \<not> is_space y" for y
    using chars[of y] dot[of y] digit_not_space[of y] by blast
  have last: "last ?t \<in> set ?b" using b by simp
  have "hd ?t \<in> insert (CHR ''-'') (set ?b)" by (auto simp: sign_str_def b)
  moreover have "\<not> is_space (CHR ''-'')" by (simp add: is_space_def)
  ultimately have strip: "strip ?t = ?t"
    using nosp[of "last ?t"] nosp[of "hd ?t"] last by (intro strip_ident) auto
  have filt: "filter (\<lambda>c. c \<noteq> CHR ''_'') ?t = ?t"
    using chars[of "CHR ''_''"] by (auto simp: filter_id_conv sign_str_def simp del: filter_append)
  have sign: "split_sign ?t = (s, ?b)"
    using a by (auto simp: split_sign_def sign_str_def b)
  have "lower ?b = a # lower b'" using a by (simp add: lower_def b lower_digit)
  moreover have "a \<noteq> CHR ''i''" "a \<noteq> CHR ''n''" "a \<noteq> CHR ''s''" using a by (auto simp: is_digit_def)
  ultimately show ?thesis
    by (simp add: dec_of_string_def strip filt sign parse_number_fixed[OF assms] Let_def
        del: filter_append)
qed

text \<open>
  A finite value with a non-positive exponent, within the limits of the constructor, is read
  back from its fixed-point text exactly: sign, coefficient and exponent.
\<close>

theorem dec_of_string_format_f:
  assumes "e \<le> 0" "MIN_EXP \<le> e" "e + int (ndigits c) - 1 \<le> MAX_ADJ"
  shows "dec_of_string (dec_format_f (DFin s c e)) = Inr (DFin s c e)"
proof -
  obtain ip fp where *: "dec_format_f (DFin s c e) = sign_str s @ fixed_body ip fp"
    "list_all is_digit ip" "list_all is_digit fp" "ip \<noteq> []"
    "digits_val (ip @ fp) = c" "int (length fp) = - e"
    using format_f_body[OF assms(1)] by metis
  have "dec_of_string (dec_format_f (DFin s c e)) =
      dec_of_string (sign_str s @ fixed_body ip fp @ exp_tail 0)"
    unfolding *(1) by (simp add: exp_tail_def)
  then show ?thesis
    unfolding dec_of_string_fixed[OF *(2-4)] using assms
    by (simp add: *(5,6) in_limits_def)
qed

text \<open>The same for \<open>str\<close>, in scientific notation or not.\<close>

theorem dec_of_string_str:
  assumes "MIN_EXP \<le> e" "e + int (ndigits c) - 1 \<le> MAX_ADJ"
  shows "dec_of_string (dec_str (DFin s c e)) = Inr (DFin s c e)"
proof (cases "e \<le> 0 \<and> - 6 < e + int (ndigits c)")
  case True
  then have "dec_str (DFin s c e) = dec_format_f (DFin s c e)" by (simp add: Let_def)
  then show ?thesis using dec_of_string_format_f[of e c s] assms True by (simp only:)
next
  case False
  let ?ds = "nat_str c"
  let ?x = "e + int (ndigits c) - 1"
  obtain a t where ds: "?ds = a # t" using nat_str_nonempty[of c] by (cases ?ds) blast+
  have dig: "list_all is_digit [a]" "list_all is_digit t" using list_all_nat_str[of c] by (simp_all add: ds)
  have len: "int (ndigits c) = 1 + int (length t)" using length_nat_str[of c] by (simp add: ds del: length_nat_str)
  have v: "digits_val ([a] @ t) = c" using digits_val_nat_str[of c] by (simp add: ds)
  have "dec_str (DFin s c e) = sign_str s @ place_point ?ds 1 @ exp_tail ?x"
    using False by (auto simp: Let_def exp_tail_def)
  also have "place_point ?ds 1 = fixed_body [a] t"
    by (auto simp: place_point_def fixed_body_def ds)
  finally show ?thesis
    using dec_of_string_fixed[OF dig, of s ?x] assms len
    by (simp add: v in_limits_def del: append_Cons append_Nil)
qed

lemma dec_str_inj:
  assumes "dec_str (DFin s c e) = dec_str (DFin s' c' e')"
    "- 1000000 \<le> e" "e \<le> 1000000" "c < 10 ^ 28" "- 1000000 \<le> e'" "e' \<le> 1000000" "c' < 10 ^ 28"
  shows "s = s' \<and> c = c' \<and> e = e'"
proof -
  have "ndigits c \<le> 28" "ndigits c' \<le> 28" using assms(4,7) by (simp_all only: ndigits_le_iff zero_less_numeral)
  then have l: "e + int (ndigits c) - 1 \<le> MAX_ADJ" "e' + int (ndigits c') - 1 \<le> MAX_ADJ"
    "MIN_EXP \<le> e" "MIN_EXP \<le> e'"
    using assms(2,3,5,6) unfolding MAX_ADJ_def MIN_EXP_def by linarith+
  have 1: "dec_of_string (dec_str (DFin s c e)) = Inr (DFin s c e)"
    by (rule dec_of_string_str[OF l(3,1)])
  have "dec_of_string (dec_str (DFin s c e)) = Inr (DFin s' c' e')"
    unfolding assms(1) by (rule dec_of_string_str[OF l(4,2)])
  with 1 have "Inr (DFin s c e) = (Inr (DFin s' c' e') :: py_exc + decimal)" by (rule trans[OF sym])
  then show ?thesis by (simp only: sum.inject decimal.inject)
qed

text \<open>
  Text of a number carries no white space at its ends, and equal texts on one grid come
  from equal values.
\<close>

lemma dec_format_f_inj:
  assumes "e \<le> 0" "MIN_EXP \<le> e" "c < 10 ^ 28" "c' < 10 ^ 28"
    "dec_format_f (DFin s c e) = dec_format_f (DFin s' c' e)"
  shows "s = s' \<and> c = c'"
proof -
  have "ndigits c \<le> 28" "ndigits c' \<le> 28" using assms(3,4) by (simp_all only: ndigits_le_iff zero_less_numeral)
  then have "e + int (ndigits c) - 1 \<le> MAX_ADJ" "e + int (ndigits c') - 1 \<le> MAX_ADJ"
    using assms(1) unfolding MAX_ADJ_def by linarith+
  note l = this
  have 1: "dec_of_string (dec_format_f (DFin s c e)) = Inr (DFin s c e)"
    by (rule dec_of_string_format_f[OF assms(1,2) l(1)])
  have "dec_of_string (dec_format_f (DFin s c e)) = Inr (DFin s' c' e)"
    unfolding assms(5) by (rule dec_of_string_format_f[OF assms(1,2) l(2)])
  with 1 have "Inr (DFin s c e) = (Inr (DFin s' c' e) :: py_exc + decimal)" by (rule trans[OF sym])
  then show ?thesis by (simp only: sum.inject decimal.inject)
qed

end
