(* ===== verification/Json.thy ===== *)
theory Json
  imports Prelude
begin

text \<open>
  JSON values and the canonical text of \<open>core/replay/canonical_json.py\<close> and of
  \<open>core/contracts/decision_contract_v1.py\<close>: \<open>json.dumps\<close> with sorted keys and
  compact separators, with and without \<open>ensure_ascii\<close>, and the removal of \<open>None\<close>
  entries. The values of the modelled callers hold no floats, so \<open>_sanitize_float\<close> is the
  identity on them.  The main result is that the canonical text determines the value up to the
  order of object keys.

  A digest is a parameter \<open>sha\<close> of the components that hash: what they guarantee holds for
  every function from text to text, and collision freedom is a hypothesis on the two texts at hand.
\<close>

datatype json =
    JNull
  | JBool bool
  | JInt int
  | JStr string
  | JList "json list"
  | JObj "(string \<times> json) list"

subsection \<open>String literals\<close>

definition hex_digit :: "nat \<Rightarrow> char" where
  "hex_digit n = (if n < 10 then char_of (48 + n) else char_of (87 + n))"

definition plain_char :: "bool \<Rightarrow> char \<Rightarrow> bool" where
  \<comment> \<open>characters that stand for themselves; with \<open>ensure_ascii\<close> only space to tilde\<close>
  "plain_char ascii c = (let n = (of_char c :: nat) in
     32 \<le> n \<and> n \<noteq> 34 \<and> n \<noteq> 92 \<and> (ascii \<longrightarrow> n \<le> 126))"

definition short_escape :: "char \<Rightarrow> char option" where
  "short_escape c = (let n = (of_char c :: nat) in
     if n = 34 then Some (CHR 0x22) else if n = 92 then Some (CHR 0x5C)
     else if n = 10 then Some (CHR ''n'') else if n = 13 then Some (CHR ''r'')
     else if n = 9 then Some (CHR ''t'') else if n = 12 then Some (CHR ''f'')
     else if n = 8 then Some (CHR ''b'') else None)"

definition escape_char :: "bool \<Rightarrow> char \<Rightarrow> string" where
  "escape_char ascii c =
     (if plain_char ascii c then [c]
      else case short_escape c of
          Some d \<Rightarrow> [CHR 0x5C, d]
        | None \<Rightarrow> [CHR 0x5C, CHR ''u'', CHR ''0'', CHR ''0'',
                     hex_digit (of_char c div 16), hex_digit (of_char c mod 16)])"

fun escape_tail :: "bool \<Rightarrow> string \<Rightarrow> string" where
  "escape_tail ascii [] = [CHR 0x22]"
| "escape_tail ascii (c # cs) = escape_char ascii c @ escape_tail ascii cs"

definition json_string :: "bool \<Rightarrow> string \<Rightarrow> string" where
  "json_string ascii s = CHR 0x22 # escape_tail ascii s"

subsection \<open>Values\<close>

text \<open>Keys in the order of the list; \<open>jsort\<close> sorts them first, at every level.\<close>

fun emit :: "bool \<Rightarrow> json \<Rightarrow> string"
  and emit_elems :: "bool \<Rightarrow> json list \<Rightarrow> string"
  and emit_members :: "bool \<Rightarrow> (string \<times> json) list \<Rightarrow> string" where
  "emit a JNull = ''null''"
| "emit a (JBool b) = (if b then ''true'' else ''false'')"
| "emit a (JInt i) = int_str i"
| "emit a (JStr s) = json_string a s"
| "emit a (JList xs) = CHR ''['' # emit_elems a xs"
| "emit a (JObj ms) = CHR ''{'' # emit_members a ms"
| "emit_elems a [] = '']''"
| "emit_elems a (x # xs) = emit a x @ (if xs = [] then '']'' else CHR '','' # emit_elems a xs)"
| "emit_members a [] = ''}''"
| "emit_members a ((k, x) # ms) =
     json_string a k @ CHR '':'' # emit a x @ (if ms = [] then ''}'' else CHR '','' # emit_members a ms)"

primrec jsort :: "json \<Rightarrow> json" where
  "jsort JNull = JNull"
| "jsort (JBool b) = JBool b"
| "jsort (JInt i) = JInt i"
| "jsort (JStr s) = JStr s"
| "jsort (JList xs) = JList (map jsort xs)"
| "jsort (JObj ms) = JObj (sort_key fst (map (map_prod id jsort) ms))"

fun omit_none :: "json \<Rightarrow> json" where
  "omit_none (JObj ms) = JObj (map (map_prod id omit_none) (filter (\<lambda>m. snd m \<noteq> JNull) ms))"
| "omit_none (JList xs) = JList (map omit_none xs)"
| "omit_none j = j"

definition canonical_json_dumps :: "json \<Rightarrow> string" where
  "canonical_json_dumps j = emit True (jsort (omit_none j))"

definition canonical_hash :: "(string \<Rightarrow> string) \<Rightarrow> json \<Rightarrow> string" where
  "canonical_hash sha j = sha (canonical_json_dumps j)"

text \<open>\<open>_canonical_json\<close> of the decision contract: no removal, no ASCII escaping.\<close>

definition canonical_json :: "json \<Rightarrow> string" where
  "canonical_json j = emit False (jsort j)"

subsection \<open>The text determines the value\<close>

lemma of_char_hex: "n < 16 \<Longrightarrow> (of_char (hex_digit n) :: nat) = (if n < 10 then 48 + n else 87 + n)"
  by (simp add: hex_digit_def of_char_of take_bit_nat_eq_self)

lemma hex_digit_inj:
  assumes "m < 16" "n < 16" "hex_digit m = hex_digit n"
  shows "m = n"
proof -
  have "(if m < 10 then 48 + m else 87 + m) = (if n < 10 then 48 + n else 87 + n)"
    by (simp only: of_char_hex[OF assms(1), symmetric] of_char_hex[OF assms(2), symmetric] assms(3))
  then show ?thesis using assms(1,2) by (cases "m < 10"; cases "n < 10") simp_all
qed

lemma hex_pair_inj:
  assumes "hex_digit (of_char c div 16) = hex_digit (of_char d div 16)"
    "hex_digit (of_char c mod 16) = hex_digit (of_char d mod 16)"
  shows "c = d"
proof -
  have "(of_char c :: nat) < 256" "(of_char d :: nat) < 256" by (rule nat_of_char_less_256)+
  then have "(of_char c :: nat) div 16 = of_char d div 16" "(of_char c :: nat) mod 16 = of_char d mod 16"
    using assms by (auto intro!: hex_digit_inj simp: div_less_iff_less_mult)
  then have "(of_char c :: nat) = of_char d" by (metis div_mult_mod_eq)
  then show ?thesis by simp
qed

lemma of_char_const: "(of_char c :: nat) = n \<Longrightarrow> (of_char d :: nat) = n \<Longrightarrow> c = d"
  by (metis of_char_eq_iff)

lemma short_escape_inj: "short_escape c = Some x \<Longrightarrow> short_escape d = Some x \<Longrightarrow> c = d"
  by (auto simp: short_escape_def Let_def split: if_splits intro: of_char_const)

lemma short_escape_not_u: "short_escape c \<noteq> Some (CHR ''u'')"
  by (auto simp: short_escape_def Let_def split: if_splits)

lemma plain_not_special: "plain_char a c \<Longrightarrow> c \<noteq> CHR 0x22 \<and> c \<noteq> CHR 0x5C"
  by (auto simp: plain_char_def Let_def)

lemma escape_char_inj: "escape_char a c @ s = escape_char a d @ t \<Longrightarrow> c = d \<and> s = t"
  using short_escape_inj[of c _ d] short_escape_not_u[of c] short_escape_not_u[of d]
    plain_not_special[of a c] plain_not_special[of a d] hex_pair_inj[of c d]
  by (auto simp: escape_char_def split: if_splits option.splits)

lemma escape_char_not_quote: "escape_char a c @ s \<noteq> CHR 0x22 # t"
  using plain_not_special[of a c]
  by (auto simp: escape_char_def split: if_splits option.splits)

lemma escape_tail_inj: "escape_tail a u @ s = escape_tail a v @ t \<Longrightarrow> u = v \<and> s = t"
proof (induction u arbitrary: v)
  case Nil
  then show ?case by (cases v) (auto simp: escape_char_not_quote[symmetric] dest: sym)
next
  case (Cons c u)
  show ?case
  proof (cases v)
    case Nil
    with Cons.prems show ?thesis using escape_char_not_quote[of a c] by auto
  next
    case (Cons d w)
    with Cons.prems have "c = d \<and> escape_tail a u @ s = escape_tail a w @ t"
      by (intro escape_char_inj[of a]) simp
    with Cons.IH[of w] Cons show ?thesis by simp
  qed
qed

lemma json_string_inj: "json_string a u @ s = json_string a v @ t \<Longrightarrow> u = v \<and> s = t"
  by (rule escape_tail_inj[of a]) (simp add: json_string_def)

text \<open>What may follow a value inside a larger text.\<close>

definition delimited :: "string \<Rightarrow> bool" where
  "delimited s = (case s of [] \<Rightarrow> True | c # _ \<Rightarrow> c \<in> set '',]}'')"

lemma delimited_simps [simp]:
  "delimited []" "delimited (CHR '','' # s)" "delimited (CHR '']'' # s)" "delimited (CHR ''}'' # s)"
  by (simp_all add: delimited_def)

lemma delimited_not_digit: "delimited s \<Longrightarrow> s = [] \<or> \<not> is_digit (hd s)"
  by (auto simp: delimited_def split: list.splits)

lemma takeWhile_nat_str: "delimited s \<Longrightarrow> takeWhile is_digit (nat_str n @ s) = nat_str n"
  using delimited_not_digit[of s] nat_str_digits[of _ n]
  by (cases s) (auto simp: takeWhile_append)

lemma nat_str_delim: "nat_str m @ s = nat_str n @ t \<Longrightarrow> delimited s \<Longrightarrow> delimited t \<Longrightarrow> m = n \<and> s = t"
  by (metis append_same_eq nat_str_inj same_append_eq takeWhile_nat_str)

lemma hd_nat_str: "is_digit (hd (nat_str n))"
  by (rule nat_str_digits[OF hd_in_set]) simp

lemma nat_str_Cons: obtains c cs where "nat_str n = c # cs" "is_digit c"
  using nat_str_nonempty[of n] hd_nat_str[of n] by (cases "nat_str n") auto

lemma int_str_delim:
  assumes "int_str i @ s = int_str j @ t" "delimited s" "delimited t"
  shows "i = j \<and> s = t"
proof -
  obtain c cs d ds where c: "nat_str (nat i) = c # cs" "is_digit c" "nat_str (nat j) = d # ds" "is_digit d"
    using nat_str_Cons by metis
  then have m: "c \<noteq> CHR ''-''" "d \<noteq> CHR ''-''" by auto
  consider "i < 0" "j < 0" | "i < 0" "\<not> j < 0" | "\<not> i < 0" "j < 0" | "\<not> i < 0" "\<not> j < 0" by blast
  then show ?thesis
  proof cases
    case 1
    then have "nat_str (nat (- i)) @ s = nat_str (nat (- j)) @ t" using assms(1) by (simp add: int_str_def)
    from nat_str_delim[OF this assms(2,3)] 1 show ?thesis by (simp add: eq_nat_nat_iff)
  next
    case 2
    then have "(CHR ''-'' # nat_str (nat (- i))) @ s = (d # ds) @ t"
      using assms(1) c(3) by (simp add: int_str_def)
    with m show ?thesis by simp
  next
    case 3
    then have "(c # cs) @ s = (CHR ''-'' # nat_str (nat (- j))) @ t"
      using assms(1) c(1) by (simp add: int_str_def)
    with m show ?thesis by simp
  next
    case 4
    then have "nat_str (nat i) @ s = nat_str (nat j) @ t" using assms(1) by (simp add: int_str_def)
    from nat_str_delim[OF this assms(2,3)] 4 show ?thesis by (simp add: eq_nat_nat_iff)
  qed
qed

text \<open>The first character tells the constructor.\<close>

definition jtag :: "char \<Rightarrow> nat" where
  "jtag c = (if c = CHR ''n'' then 0 else if c \<in> set ''tf'' then 1
     else if c = CHR 0x22 then 3 else if c = CHR ''['' then 4 else if c = CHR ''{'' then 5 else 2)"

definition jkind :: "json \<Rightarrow> nat" where
  "jkind j = (case j of JNull \<Rightarrow> 0 | JBool _ \<Rightarrow> 1 | JInt _ \<Rightarrow> 2 | JStr _ \<Rightarrow> 3 | JList _ \<Rightarrow> 4 | JObj _ \<Rightarrow> 5)"

lemma jtag_digit: "is_digit c \<Longrightarrow> jtag c = 2"
  by (auto simp: jtag_def is_digit_def)

lemma emit_head: "\<exists>c cs. emit a j = c # cs \<and> jtag c = jkind j \<and> c \<notin> set '',]}''"
proof (cases j)
  case (JInt i)
  obtain c cs where c: "nat_str (nat \<bar>i\<bar>) = c # cs" "is_digit c" by (rule nat_str_Cons)
  then have "c \<notin> set '',]}''" by auto
  with c JInt show ?thesis
    by (auto simp: int_str_def jkind_def jtag_digit) (auto simp: jtag_def)
qed (auto simp: jtag_def jkind_def json_string_def)

lemma emit_kind: "emit a j @ s = emit a k @ t \<Longrightarrow> jkind j = jkind k"
  using emit_head[of a j] emit_head[of a k] by auto

lemma emit_not_close: "emit a j @ s \<noteq> CHR '']'' # t" "emit a j @ s \<noteq> CHR ''}'' # t"
  using emit_head[of a j] by auto

lemma emit_inj_all:
  "\<forall>k s t. emit a j @ s = emit a k @ t \<longrightarrow> delimited s \<longrightarrow> delimited t \<longrightarrow> j = k \<and> s = t"
  "\<forall>ys s t. emit_elems a xs @ s = emit_elems a ys @ t \<longrightarrow> xs = ys \<and> s = t"
  "\<forall>ns s t. emit_members a ms @ s = emit_members a ns @ t \<longrightarrow> ms = ns \<and> s = t"
proof (induction a j and a xs and a ms rule: emit_emit_elems_emit_members.induct)
  case (1 a)
  show ?case
  proof (intro allI impI)
    fix k s t assume e: "emit a JNull @ s = emit a k @ t"
    then have "k = JNull" using emit_kind[OF e] by (cases k) (auto simp: jkind_def)
    with e show "JNull = k \<and> s = t" by simp
  qed
next
  case (2 a b)
  show ?case
  proof (intro allI impI)
    fix k s t assume e: "emit a (JBool b) @ s = emit a k @ t"
    then obtain b' where "k = JBool b'" using emit_kind[OF e] by (cases k) (auto simp: jkind_def)
    with e show "JBool b = k \<and> s = t" by (auto split: if_splits)
  qed
next
  case (3 a i)
  show ?case
  proof (intro allI impI)
    fix k s t assume e: "emit a (JInt i) @ s = emit a k @ t" "delimited s" "delimited t"
    then obtain i' where "k = JInt i'" using emit_kind[OF e(1)] by (cases k) (auto simp: jkind_def)
    with e show "JInt i = k \<and> s = t" using int_str_delim[of i s i' t] by simp
  qed
next
  case (4 a u)
  show ?case
  proof (intro allI impI)
    fix k s t assume e: "emit a (JStr u) @ s = emit a k @ t"
    then obtain u' where "k = JStr u'" using emit_kind[OF e(1)] by (cases k) (auto simp: jkind_def)
    with e show "JStr u = k \<and> s = t" using json_string_inj[of a u s u' t] by simp
  qed
next
  case (5 a xs)
  show ?case
  proof (intro allI impI)
    fix k s t assume e: "emit a (JList xs) @ s = emit a k @ t"
    then obtain ys where "k = JList ys" using emit_kind[OF e(1)] by (cases k) (auto simp: jkind_def)
    with e "5.IH" show "JList xs = k \<and> s = t" by auto
  qed
next
  case (6 a ms)
  show ?case
  proof (intro allI impI)
    fix k s t assume e: "emit a (JObj ms) @ s = emit a k @ t"
    then obtain ns where "k = JObj ns" using emit_kind[OF e(1)] by (cases k) (auto simp: jkind_def)
    with e "6.IH" show "JObj ms = k \<and> s = t" by auto
  qed
next
  case (7 a)
  show ?case
  proof (intro allI impI)
    fix ys s t assume "emit_elems a [] @ s = emit_elems a ys @ t"
    then show "[] = ys \<and> s = t"
      using emit_not_close(1) by (cases ys) (auto dest: sym)
  qed
next
  case (8 a x xs)
  show ?case
  proof (intro allI impI)
    fix ys s t assume e: "emit_elems a (x # xs) @ s = emit_elems a ys @ t"
    then obtain y zs where ys: "ys = y # zs"
      using emit_not_close(1)[of a x] by (cases ys) auto
    define s' t' where "s' = (if xs = [] then '']'' else CHR '','' # emit_elems a xs) @ s"
      and "t' = (if zs = [] then '']'' else CHR '','' # emit_elems a zs) @ t"
    have "emit a x @ s' = emit a y @ t'" "delimited s'" "delimited t'"
      using e ys by (auto simp: s'_def t'_def)
    then have "x = y" "s' = t'" using "8.IH"(1) by blast+
    then show "x # xs = ys \<and> s = t"
      using "8.IH"(2) ys by (auto simp: s'_def t'_def split: if_splits)
  qed
next
  case (9 a)
  show ?case
  proof (intro allI impI)
    fix ys s t assume "emit_members a [] @ s = emit_members a ys @ t"
    then show "[] = ys \<and> s = t"
      by (cases ys) (auto simp: json_string_def)
  qed
next
  case (10 a k x ms)
  show ?case
  proof (intro allI impI)
    fix ys s t assume e: "emit_members a ((k, x) # ms) @ s = emit_members a ys @ t"
    then obtain l y zs where ys: "ys = (l, y) # zs"
      by (cases ys) (auto simp: json_string_def)
    define s' t' where "s' = (if ms = [] then ''}'' else CHR '','' # emit_members a ms) @ s"
      and "t' = (if zs = [] then ''}'' else CHR '','' # emit_members a zs) @ t"
    have "json_string a k @ CHR '':'' # emit a x @ s' = json_string a l @ CHR '':'' # emit a y @ t'"
      using e ys by (auto simp: s'_def t'_def)
    then have kl: "k = l" and "CHR '':'' # emit a x @ s' = CHR '':'' # emit a y @ t'"
      using json_string_inj[of a k "CHR '':'' # emit a x @ s'" l] by blast+
    moreover have "delimited s'" "delimited t'" by (auto simp: s'_def t'_def)
    ultimately have "x = y" "s' = t'" using "10.IH"(1) by blast+
    then show "(k, x) # ms = ys \<and> s = t"
      using "10.IH"(2) ys kl by (auto simp: s'_def t'_def split: if_splits)
  qed
qed

lemma emit_inj: "emit a j = emit a k \<Longrightarrow> j = k"
  using emit_inj_all(1)[of a j] by (metis append_Nil2 delimited_simps(1))

theorem canonical_json_inj: "canonical_json j = canonical_json k \<Longrightarrow> jsort j = jsort k"
  unfolding canonical_json_def by (rule emit_inj)

theorem canonical_json_dumps_inj:
  "canonical_json_dumps j = canonical_json_dumps k \<Longrightarrow> jsort (omit_none j) = jsort (omit_none k)"
  unfolding canonical_json_dumps_def by (rule emit_inj)

text \<open>Scalar members are read back from the text, whatever the order of the keys.\<close>

lemma jsort_omit_scalar:
  "jsort (omit_none y) = JStr t \<longleftrightarrow> y = JStr t" "jsort (omit_none y) = JInt i \<longleftrightarrow> y = JInt i"
  "jsort (omit_none y) = JBool b \<longleftrightarrow> y = JBool b"
  by (cases y; simp)+

lemma canonical_members:
  assumes "canonical_json_dumps (JObj ms) = canonical_json_dumps (JObj ns)" "(k, x) \<in> set ms" "x \<noteq> JNull"
  shows "\<exists>y. (k, y) \<in> set ns \<and> jsort (omit_none y) = jsort (omit_none x)"
proof -
  let ?f = "\<lambda>m. map_prod id jsort (map_prod id omit_none m)"
  have "sort_key fst (map (map_prod id jsort) (map (map_prod id omit_none) (filter (\<lambda>m. snd m \<noteq> JNull) ms)))
      = sort_key fst (map (map_prod id jsort) (map (map_prod id omit_none) (filter (\<lambda>m. snd m \<noteq> JNull) ns)))"
    using canonical_json_dumps_inj[OF assms(1)] by simp
  then have "?f ` set (filter (\<lambda>m. snd m \<noteq> JNull) ms) = ?f ` set (filter (\<lambda>m. snd m \<noteq> JNull) ns)"
    by (drule_tac arg_cong[where f = set]) (simp only: set_sort set_map image_image)
  moreover have "?f (k, x) \<in> ?f ` set (filter (\<lambda>m. snd m \<noteq> JNull) ms)"
    using assms(2,3) by (intro imageI) simp
  ultimately have "?f (k, x) \<in> ?f ` set (filter (\<lambda>m. snd m \<noteq> JNull) ns)" by simp
  then obtain m where "m \<in> set ns" "?f m = ?f (k, x)" by auto
  moreover obtain k' y where "m = (k', y)" by (rule prod.exhaust)
  ultimately show ?thesis by auto
qed

lemma canonical_str_member:
  "canonical_json_dumps (JObj ms) = canonical_json_dumps (JObj ns) \<Longrightarrow> (k, JStr t) \<in> set ms
    \<Longrightarrow> (k, JStr t) \<in> set ns"
  using canonical_members[of ms ns k "JStr t"] by (auto simp: jsort_omit_scalar)

lemma canonical_int_member:
  "canonical_json_dumps (JObj ms) = canonical_json_dumps (JObj ns) \<Longrightarrow> (k, JInt i) \<in> set ms
    \<Longrightarrow> (k, JInt i) \<in> set ns"
  using canonical_members[of ms ns k "JInt i"] by (auto simp: jsort_omit_scalar)

end
