(* ===== verification/StopLossContracts.thy ===== *)
theory StopLossContracts
  imports PyDecimal Json
begin

text \<open>
  The price trigger contract, \<open>core/safety/stop_loss/contracts.py\<close>: reading of the
  untyped inputs, the armed stop price with its protective rounding, the fail-closed
  evaluation and the identity of a protection event.  The digest \<open>canonical_hash\<close> rests on
  is the parameter \<open>sha\<close>.  Free-text \<open>detail\<close> fields and log lines are not kept;
  \<open>reason_code\<close> is kept as the enum constant whose \<open>value\<close> the code stores.
\<close>

subsection \<open>Data\<close>

text \<open>A dynamically typed argument, by the tests the code makes on it.\<close>

datatype pyval = VNone | VBool bool | VInt int | VFloat | VStr string | VDec decimal | VOther

datatype position_side = LONG | SHORT | FLAT | UNKNOWN

datatype side_value = Side position_side | NotASide

datatype trigger_decision = TRIGGERED | NO_TRIGGER | BLOCKED

datatype stop_loss_reason =
    R_TRIGGERED | NO_TRIGGER_PRICE_ABOVE_STOP | NO_OPEN_POSITION
  | SYMBOL_MISMATCH | POSITION_STATE_UNKNOWN | POSITION_QUANTITY_UNKNOWN
  | POSITION_IDENTITY_UNKNOWN | ENTRY_PRICE_UNKNOWN | PRICE_INVALID | PRICE_STALE | CONFIG_INVALID
  | DEDUP_STATE_MISSING | DEDUP_STATE_CORRUPT | DEDUP_STATE_CONTRADICTORY
  | DEDUP_PREPARE_FAILED | DEDUP_FINALIZE_FAILED | PREPARE_INCOMPLETE
  | R_EXIT_INTENT_EMITTED | R_DUPLICATE_SUPPRESSED | EXIT_INTENT_SINK_FAILED
  | EXIT_INTENT_INVALID | PRODUCTIVE_ADAPTER_DISABLED

definition side_str :: "position_side \<Rightarrow> string" where
  "side_str s = (case s of LONG \<Rightarrow> ''LONG'' | SHORT \<Rightarrow> ''SHORT'' | FLAT \<Rightarrow> ''FLAT'' | UNKNOWN \<Rightarrow> ''UNKNOWN'')"

abbreviation contract_error :: py_exc where
  "contract_error \<equiv> ValueError ''StopLossContractError''"

record position_snapshot =
  ps_symbol :: string
  ps_side :: side_value
  ps_quantity :: pyval
  ps_entry_price :: pyval
  ps_position_id :: "string option"
  ps_opened_at_ms :: "int option"

record price_observation =
  po_symbol :: string
  po_price :: pyval
  po_observed_at_ms :: pyval
  po_source :: string

record trigger_config =
  tc_stop_loss_pct :: pyval
  tc_max_price_age_ms :: pyval

record protection_event =
  ev_event_id :: string
  ev_fingerprint :: string
  ev_contract_version :: string
  ev_symbol :: string
  ev_position_id :: string
  ev_position_side :: position_side
  ev_position_quantity :: decimal
  ev_entry_price :: decimal
  ev_stop_price :: decimal
  ev_stop_loss_pct :: decimal
  ev_observed_price :: decimal
  ev_observed_at_ms :: int
  ev_price_source :: string
  ev_position_opened_at_ms :: "int option"

record trigger_result =
  tr_decision :: trigger_decision
  tr_reason :: stop_loss_reason
  tr_stop_price :: "decimal option"
  tr_event :: "protection_event option"

definition STOP_LOSS_TRIGGER_CONTRACT_VERSION :: string where
  "STOP_LOSS_TRIGGER_CONTRACT_VERSION = ''cdb-stop-loss-trigger/v1''"

text \<open>Exponents of the quantization grids.\<close>

definition MONEY_Q :: int where "MONEY_Q = - 8"
definition RATIO_Q :: int where "RATIO_Q = - 6"
definition QTY_Q :: int where "QTY_Q = - 8"

subsection \<open>Reading untyped inputs\<close>

definition to_protection_decimal :: "pyval \<Rightarrow> py_exc + decimal" where
  "to_protection_decimal v =
     ebind
       (case v of
          VNone \<Rightarrow> Inl contract_error
        | VBool _ \<Rightarrow> Inl contract_error
        | VFloat \<Rightarrow> Inl contract_error
        | VDec d \<Rightarrow> Inr d
        | VInt i \<Rightarrow> Inr (dec_of_int i)
        | VStr s \<Rightarrow> (case dec_of_string s of Inl _ \<Rightarrow> Inl contract_error | Inr d \<Rightarrow> Inr d)
        | VOther \<Rightarrow> Inl contract_error)
       (\<lambda>d. if is_finite d then Inr d else Inl contract_error)"

text \<open>
  \<open>_q(to_protection_decimal(v), quantum, ROUND_DOWN)\<close> inside \<open>try \<dots> except
  StopLossContractError\<close>: \<open>Inr None\<close> is the handled contract error; the
  \<open>InvalidOperation\<close> of \<open>quantize\<close> is not one and escapes.
\<close>

definition read_q :: "pyval \<Rightarrow> int \<Rightarrow> py_exc + decimal option" where
  "read_q v q =
     (case to_protection_decimal v of
        Inl _ \<Rightarrow> Inr None
      | Inr d \<Rightarrow> map_sum id Some (dec_quantize ROUND_DOWN q d))"

text \<open>\<open>isinstance(x, int)\<close> holds of booleans too; a positive age is required.\<close>

definition age_limit :: "pyval \<Rightarrow> int option" where
  "age_limit v = (case v of
     VInt i \<Rightarrow> if i \<le> 0 then None else Some i
   | VBool b \<Rightarrow> if b then Some 1 else None
   | _ \<Rightarrow> None)"

subsection \<open>The armed stop\<close>

definition compute_stop_price :: "position_side \<Rightarrow> decimal \<Rightarrow> decimal \<Rightarrow> py_exc + decimal" where
  "compute_stop_price side entry pct =
     (if side = LONG then
        ebind (dec_sub dec_one pct) (\<lambda>f. ebind (dec_mul entry f) (\<lambda>raw. dec_quantize ROUND_UP MONEY_Q raw))
      else if side = SHORT then
        ebind (dec_add dec_one pct) (\<lambda>f. ebind (dec_mul entry f) (\<lambda>raw. dec_quantize ROUND_DOWN MONEY_Q raw))
      else Inl contract_error)"

subsection \<open>Identity of a protection event\<close>

definition identity_payload ::
  "string \<Rightarrow> string \<Rightarrow> string \<Rightarrow> position_side \<Rightarrow> decimal \<Rightarrow> decimal \<Rightarrow> decimal \<Rightarrow> decimal \<Rightarrow> int option \<Rightarrow> json" where
  "identity_payload version symbol position_id side quantity entry stop pct opened =
     JObj [(''contract_version'', JStr version),
           (''symbol'', JStr symbol),
           (''position_id'', JStr position_id),
           (''position_side'', JStr (side_str side)),
           (''position_quantity'', JStr (dec_str quantity)),
           (''entry_price'', JStr (dec_str entry)),
           (''stop_price'', JStr (dec_str stop)),
           (''stop_loss_pct'', JStr (dec_str pct)),
           (''position_opened_at_ms'', (case opened of None \<Rightarrow> JNull | Some ms \<Rightarrow> JInt ms))]"

definition event_identity :: "protection_event \<Rightarrow> json" where
  "event_identity e = identity_payload (ev_contract_version e) (ev_symbol e) (ev_position_id e)
     (ev_position_side e) (ev_position_quantity e) (ev_entry_price e) (ev_stop_price e)
     (ev_stop_loss_pct e) (ev_position_opened_at_ms e)"

subsection \<open>Evaluation\<close>

definition tr_blocked :: "stop_loss_reason \<Rightarrow> trigger_result" where
  "tr_blocked r = \<lparr>tr_decision = BLOCKED, tr_reason = r, tr_stop_price = None, tr_event = None\<rparr>"

definition tr_no_trigger :: "stop_loss_reason \<Rightarrow> decimal option \<Rightarrow> trigger_result" where
  "tr_no_trigger r sp = \<lparr>tr_decision = NO_TRIGGER, tr_reason = r, tr_stop_price = sp, tr_event = None\<rparr>"

text \<open>The last part: stop price, comparison and, if breached, the event.\<close>

definition fire ::
  "(string \<Rightarrow> string) \<Rightarrow> position_snapshot \<Rightarrow> price_observation \<Rightarrow> position_side \<Rightarrow> string
   \<Rightarrow> decimal \<Rightarrow> decimal \<Rightarrow> decimal \<Rightarrow> decimal \<Rightarrow> int \<Rightarrow> py_exc + trigger_result" where
  "fire sha p obs side position_id pct quantity entry observed at_ms =
     ebind (compute_stop_price side entry pct) (\<lambda>stop.
       if \<not> (if side = LONG then dec_le observed stop else dec_le stop observed)
       then Inr (tr_no_trigger NO_TRIGGER_PRICE_ABOVE_STOP (Some stop))
       else
         let identity = identity_payload STOP_LOSS_TRIGGER_CONTRACT_VERSION (ps_symbol p) position_id
               side quantity entry stop pct (ps_opened_at_ms p);
             fingerprint = canonical_hash sha identity;
             event_id = ''slp-'' @ take 32 fingerprint
         in Inr \<lparr>tr_decision = TRIGGERED, tr_reason = R_TRIGGERED, tr_stop_price = Some stop,
              tr_event = Some \<lparr>ev_event_id = event_id, ev_fingerprint = fingerprint,
                ev_contract_version = STOP_LOSS_TRIGGER_CONTRACT_VERSION, ev_symbol = ps_symbol p,
                ev_position_id = position_id, ev_position_side = side,
                ev_position_quantity = quantity, ev_entry_price = entry, ev_stop_price = stop,
                ev_stop_loss_pct = pct, ev_observed_price = observed, ev_observed_at_ms = at_ms,
                ev_price_source = po_source obs, ev_position_opened_at_ms = ps_opened_at_ms p\<rparr>\<rparr>)"

definition evaluate_stop_loss_trigger ::
  "(string \<Rightarrow> string) \<Rightarrow> position_snapshot \<Rightarrow> price_observation \<Rightarrow> trigger_config \<Rightarrow> int
   \<Rightarrow> py_exc + trigger_result" where
  "evaluate_stop_loss_trigger sha p obs cfg now_ms =
     (if ps_symbol p \<noteq> po_symbol obs then Inr (tr_blocked SYMBOL_MISMATCH)
      else case ps_side p of
        NotASide \<Rightarrow> Inr (tr_blocked POSITION_STATE_UNKNOWN)
      | Side side \<Rightarrow>
        if side = UNKNOWN then Inr (tr_blocked POSITION_STATE_UNKNOWN)
        else ebind (read_q (tc_stop_loss_pct cfg) RATIO_Q) (\<lambda>opct. case opct of
          None \<Rightarrow> Inr (tr_blocked CONFIG_INVALID)
        | Some pct \<Rightarrow>
          if dec_le pct dec_zero \<or> dec_le dec_one pct then Inr (tr_blocked CONFIG_INVALID)
          else case age_limit (tc_max_price_age_ms cfg) of
            None \<Rightarrow> Inr (tr_blocked CONFIG_INVALID)
          | Some max_age \<Rightarrow>
            if side = FLAT then Inr (tr_no_trigger NO_OPEN_POSITION None)
            else ebind (read_q (ps_quantity p) QTY_Q) (\<lambda>oqty. case oqty of
              None \<Rightarrow> Inr (tr_blocked POSITION_QUANTITY_UNKNOWN)
            | Some quantity \<Rightarrow>
              if dec_le quantity dec_zero then Inr (tr_blocked POSITION_QUANTITY_UNKNOWN)
              else ebind (read_q (ps_entry_price p) MONEY_Q) (\<lambda>oentry. case oentry of
                None \<Rightarrow> Inr (tr_blocked ENTRY_PRICE_UNKNOWN)
              | Some entry \<Rightarrow>
                if dec_le entry dec_zero then Inr (tr_blocked ENTRY_PRICE_UNKNOWN)
                else
                  let position_id = strip (opt_or (ps_position_id p) []) in
                  if position_id = [] then Inr (tr_blocked POSITION_IDENTITY_UNKNOWN)
                  else ebind (read_q (po_price obs) MONEY_Q) (\<lambda>oprice. case oprice of
                    None \<Rightarrow> Inr (tr_blocked PRICE_INVALID)
                  | Some observed \<Rightarrow>
                    if dec_le observed dec_zero then Inr (tr_blocked PRICE_INVALID)
                    else case po_observed_at_ms obs of
                      VInt at_ms \<Rightarrow>
                        if now_ms < at_ms then Inr (tr_blocked PRICE_STALE)
                        else if max_age < now_ms - at_ms then Inr (tr_blocked PRICE_STALE)
                        else fire sha p obs side position_id pct quantity entry observed at_ms
                    | _ \<Rightarrow> Inr (tr_blocked PRICE_STALE))))))"

subsection \<open>Inversion of the evaluation\<close>

text \<open>A result that is not a block went through every guard.\<close>

lemma evaluate_not_blockedE:
  assumes "evaluate_stop_loss_trigger sha p obs cfg now_ms = Inr r" "tr_decision r \<noteq> BLOCKED"
  obtains (flat) "ps_side p = Side FLAT" "r = tr_no_trigger NO_OPEN_POSITION None"
  | (fire) side pct max_age quantity entry observed at_ms where
      "ps_symbol p = po_symbol obs" "ps_side p = Side side" "side = LONG \<or> side = SHORT"
      "read_q (tc_stop_loss_pct cfg) RATIO_Q = Inr (Some pct)"
      "\<not> dec_le pct dec_zero" "\<not> dec_le dec_one pct"
      "age_limit (tc_max_price_age_ms cfg) = Some max_age"
      "read_q (ps_quantity p) QTY_Q = Inr (Some quantity)" "\<not> dec_le quantity dec_zero"
      "read_q (ps_entry_price p) MONEY_Q = Inr (Some entry)" "\<not> dec_le entry dec_zero"
      "strip (opt_or (ps_position_id p) []) \<noteq> []"
      "read_q (po_price obs) MONEY_Q = Inr (Some observed)" "\<not> dec_le observed dec_zero"
      "po_observed_at_ms obs = VInt at_ms" "at_ms \<le> now_ms" "now_ms - at_ms \<le> max_age"
      "fire sha p obs side (strip (opt_or (ps_position_id p) [])) pct quantity entry observed at_ms = Inr r"
proof -
  note D = evaluate_stop_loss_trigger_def tr_blocked_def Let_def
  have sym: "ps_symbol p = po_symbol obs"
    by (rule ccontr) (use assms in \<open>auto simp: D\<close>)
  obtain side where side: "ps_side p = Side side" using assms sym by (cases "ps_side p") (auto simp: D)
  have unk: "side \<noteq> UNKNOWN" using assms sym side by (auto simp: D)
  note s = sym side unk
  obtain pct where pct: "read_q (tc_stop_loss_pct cfg) RATIO_Q = Inr (Some pct)"
    using assms s by (cases "read_q (tc_stop_loss_pct cfg) RATIO_Q" rule: sum_option_cases) (auto simp: D)
  note s = s pct
  have pos: "\<not> dec_le pct dec_zero" "\<not> dec_le dec_one pct" using assms s by (auto simp: D)
  note s = s pos
  obtain max_age where age: "age_limit (tc_max_price_age_ms cfg) = Some max_age"
    using assms s by (cases "age_limit (tc_max_price_age_ms cfg)") (auto simp: D)
  note s = s age
  show ?thesis
  proof (cases "side = FLAT")
    case True
    with assms s show ?thesis by (intro flat) (auto simp: D)
  next
    case flat: False
    then have ls: "side = LONG \<or> side = SHORT" using unk by (cases side) auto
    obtain quantity where q: "read_q (ps_quantity p) QTY_Q = Inr (Some quantity)"
      using assms s flat by (cases "read_q (ps_quantity p) QTY_Q" rule: sum_option_cases) (auto simp: D)
    note s = s flat q
    have qp: "\<not> dec_le quantity dec_zero" using assms s by (auto simp: D)
    note s = s qp
    obtain entry where e: "read_q (ps_entry_price p) MONEY_Q = Inr (Some entry)"
      using assms s by (cases "read_q (ps_entry_price p) MONEY_Q" rule: sum_option_cases) (auto simp: D)
    note s = s e
    have ep: "\<not> dec_le entry dec_zero" using assms s by (auto simp: D)
    note s = s ep
    have pid: "strip (opt_or (ps_position_id p) []) \<noteq> []" using assms s by (auto simp: D)
    note s = s pid
    obtain observed where o: "read_q (po_price obs) MONEY_Q = Inr (Some observed)"
      using assms s by (cases "read_q (po_price obs) MONEY_Q" rule: sum_option_cases) (auto simp: D)
    note s = s o
    have op: "\<not> dec_le observed dec_zero" using assms s by (auto simp: D)
    note s = s op
    obtain at_ms where at: "po_observed_at_ms obs = VInt at_ms"
      using assms s by (cases "po_observed_at_ms obs") (auto simp: D)
    note s = s at
    have fut: "at_ms \<le> now_ms" by (rule ccontr) (use assms s in \<open>auto simp: D\<close>)
    note s = s fut
    have old: "now_ms - at_ms \<le> max_age" by (rule ccontr) (use assms s in \<open>auto simp: D\<close>)
    note s = s old
    have "fire sha p obs side (strip (opt_or (ps_position_id p) [])) pct quantity entry observed at_ms = Inr r"
      using assms s by (auto simp: D)
    then show ?thesis by (rule fire[OF sym side ls pct pos age q qp e ep pid o op at fut old])
  qed
qed

text \<open>Conversely, inputs that pass every guard reach the comparison.\<close>

lemma evaluate_fireI:
  assumes "ps_symbol p = po_symbol obs" "ps_side p = Side side" "side = LONG \<or> side = SHORT"
    "read_q (tc_stop_loss_pct cfg) RATIO_Q = Inr (Some pct)"
    "\<not> dec_le pct dec_zero" "\<not> dec_le dec_one pct"
    "age_limit (tc_max_price_age_ms cfg) = Some max_age"
    "read_q (ps_quantity p) QTY_Q = Inr (Some quantity)" "\<not> dec_le quantity dec_zero"
    "read_q (ps_entry_price p) MONEY_Q = Inr (Some entry)" "\<not> dec_le entry dec_zero"
    "strip (opt_or (ps_position_id p) []) \<noteq> []"
    "read_q (po_price obs) MONEY_Q = Inr (Some observed)" "\<not> dec_le observed dec_zero"
    "po_observed_at_ms obs = VInt at_ms" "at_ms \<le> now_ms" "now_ms - at_ms \<le> max_age"
  shows "evaluate_stop_loss_trigger sha p obs cfg now_ms =
    fire sha p obs side (strip (opt_or (ps_position_id p) [])) pct quantity entry observed at_ms"
  using assms by (auto simp: evaluate_stop_loss_trigger_def Let_def)

lemma fire_not_blocked: "fire sha p obs side pid pct q en ob t = Inr r \<Longrightarrow> tr_decision r \<noteq> BLOCKED"
  by (auto simp: fire_def ebind_eq_Inr tr_no_trigger_def Let_def split: if_splits)

subsection \<open>Reading is rounding down\<close>

lemma to_protection_decimal_finite: "to_protection_decimal v = Inr d \<Longrightarrow> is_finite d"
  by (auto simp: to_protection_decimal_def ebind_eq_Inr split: if_splits)

lemma to_protection_decimal_rejects [fail_closed]:
  "v \<in> {VNone, VFloat, VOther} \<or> (\<exists>b. v = VBool b) \<Longrightarrow> to_protection_decimal v = Inl contract_error"
  by (auto simp: to_protection_decimal_def)

lemma read_q_SomeE:
  assumes "read_q v q = Inr (Some d)"
  obtains s c e where "to_protection_decimal v = Inr (DFin s c e)" "d = DFin s (rescale ROUND_DOWN c e q) q"
    "rescale ROUND_DOWN c e q < 10 ^ 28"
proof -
  obtain raw where raw: "to_protection_decimal v = Inr raw" "dec_quantize ROUND_DOWN q raw = Inr d"
    using assms unfolding read_q_def
    by (cases "to_protection_decimal v"; cases "dec_quantize ROUND_DOWN q (projr (to_protection_decimal v))") auto
  obtain s c e where "raw = DFin s c e"
    using to_protection_decimal_finite[OF raw(1)] by (rule is_finite_cases)
  with raw that show ?thesis by (simp only: dec_quantize_Inr)
qed

text \<open>A positive value below \<open>10 ^ (28 + q)\<close> is read without error, rounded down to the grid.\<close>

lemma read_q_pos:
  assumes "to_protection_decimal v = Inr d" "10 powi q \<le> dec_val d" "dec_val d < 10 powi (28 + q)"
  obtains c where "read_q v q = Inr (Some (DFin False c q))" "0 < c" "c < 10 ^ 28"
    "dec_val (DFin False c q) \<le> dec_val d" "dec_val d < dec_val (DFin False c q) + 10 powi q"
proof -
  obtain s c e where d: "d = DFin s c e"
    using to_protection_decimal_finite[OF assms(1)] by (rule is_finite_cases)
  have "0 < dec_val d" using powi_pos[of q] assms(2) by (rule less_le_trans)
  then have s: "\<not> s" unfolding d dec_val_pos_iff by simp
  let ?c = "rescale ROUND_DOWN c e q"
  have v: "dec_val d = of_nat c * 10 powi e" using s d by (simp add: dec_val_pos_form)
  have lo: "of_nat ?c * (10::rat) powi q \<le> dec_val d" and hi: "dec_val d < (of_nat ?c + 1) * (10::rat) powi q"
    unfolding v by (rule rescale_down)+
  have "10 powi q < (of_nat ?c + 1) * (10::rat) powi q" using assms(2) hi by (rule le_less_trans)
  then have "(1::rat) < of_nat ?c + 1" using powi_pos[of q] by simp
  then have pos: "0 < ?c" by simp
  have "(10::rat) powi (28 + q) = 10 ^ 28 * 10 powi q"
    using powi_split[of q "28 + q"] by simp
  then have "dec_val d < of_nat (10 ^ 28) * (10::rat) powi q"
    using assms(3) by (simp only: of_nat_power of_nat_numeral)
  with lo have "of_nat ?c * (10::rat) powi q < of_nat (10 ^ 28) * 10 powi q"
    by (rule le_less_trans)
  then have "(of_nat ?c :: rat) < of_nat (10 ^ 28)"
    using powi_pos[of q] by (simp only: mult_less_cancel_right_pos)
  then have lt: "?c < 10 ^ 28" by (simp only: of_nat_less_iff)
  have "read_q v q = Inr (Some (DFin False ?c q))"
    using s lt unfolding read_q_def assms(1) d by (simp only: sum.case dec_quantize_fin) simp
  moreover have "dec_val d < dec_val (DFin False ?c q) + 10 powi q"
    using hi by (simp add: dec_val_pos_form distrib_right)
  ultimately show ?thesis using pos lt lo by (intro that) (simp_all add: dec_val_pos_form)
qed

subsection \<open>The stop price protects\<close>

text \<open>
  On the grids the armed stop is the exact threshold rounded towards the protective side,
  provided the exact product fits the 28 digits of the context. The bound \<open>10 ^ 21\<close> on the
  coefficient is an entry price below \<open>10 ^ 13\<close>.
\<close>

lemma stop_factor:
  assumes "0 < k" "k < 10 ^ 6"
  shows "dec_sub dec_one (DFin False k (- 6)) = Inr (DFin False (10 ^ 6 - k) (- 6))"
    "dec_add dec_one (DFin False k (- 6)) = Inr (DFin False (10 ^ 6 + k) (- 6))"
  using assms
  by (auto simp: dec_sub_def Let_def dec_scaled_def sgn_of_def intro!: dec_fix_small[THEN trans])

definition long_stop :: "nat \<Rightarrow> nat \<Rightarrow> nat" where
  "long_stop c k = rescale ROUND_UP (c * (10 ^ 6 - k)) (- 14) (- 8)"

definition short_stop :: "nat \<Rightarrow> nat \<Rightarrow> nat" where
  "short_stop c k = rescale ROUND_DOWN (c * (10 ^ 6 + k)) (- 14) (- 8)"

lemma rescale_14_8_bound: "n < 2 * 10 ^ 27 \<Longrightarrow> rescale r n (- 14) (- 8) < 10 ^ 28"
proof -
  assume "n < 2 * 10 ^ 27"
  then have "n div 10 ^ 6 + 1 < 10 ^ 28"
    using div_le_dividend[of n "10 ^ 6"] by simp
  then show ?thesis by (auto simp: rescale_def round_div_def Let_def split: rounding.splits)
qed

lemma compute_long:
  assumes "c < 10 ^ 21" "0 < k" "k < 10 ^ 6"
  shows "compute_stop_price LONG (DFin False c (- 8)) (DFin False k (- 6))
    = Inr (DFin False (long_stop c k) (- 8))"
proof -
  have "c * (10 ^ 6 - k) \<le> 10 ^ 21 * 10 ^ 6" using assms by (intro mult_mono) auto
  then have n: "c * (10 ^ 6 - k) < 2 * 10 ^ 27" by simp
  then have "dec_mul (DFin False c (- 8)) (DFin False (10 ^ 6 - k) (- 6))
      = Inr (DFin False (c * (10 ^ 6 - k)) (- 14))"
    by (subst dec_mul_exact) simp_all
  then show ?thesis
    unfolding compute_stop_price_def stop_factor(1)[OF assms(2,3)] MONEY_Q_def
    using rescale_14_8_bound[OF n, of ROUND_UP]
    by (simp only: if_True ebind_Inr dec_quantize_fin long_stop_def simp_thms)
qed

lemma compute_short:
  assumes "c < 10 ^ 21" "0 < k" "k < 10 ^ 6"
  shows "compute_stop_price SHORT (DFin False c (- 8)) (DFin False k (- 6))
    = Inr (DFin False (short_stop c k) (- 8))"
proof -
  have "c * (10 ^ 6 + k) < 10 ^ 21 * (2 * 10 ^ 6)" using assms by (intro mult_less_le_imp_less) auto
  then have n: "c * (10 ^ 6 + k) < 2 * 10 ^ 27" by simp
  then have "dec_mul (DFin False c (- 8)) (DFin False (10 ^ 6 + k) (- 6))
      = Inr (DFin False (c * (10 ^ 6 + k)) (- 14))"
    by (subst dec_mul_exact) simp_all
  then show ?thesis
    unfolding compute_stop_price_def stop_factor(2)[OF assms(2,3)] MONEY_Q_def
    using rescale_14_8_bound[OF n, of ROUND_DOWN]
    by (simp only: if_True if_False ebind_Inr dec_quantize_fin short_stop_def position_side.distinct simp_thms)
qed

lemma exact_threshold:
  "k \<le> 10 ^ 6 \<Longrightarrow> (of_nat (c * (10 ^ 6 - k)) :: rat) * 10 powi (- 14)
     = dec_val (DFin False c (- 8)) * (1 - dec_val (DFin False k (- 6)))"
  "(of_nat (c * (10 ^ 6 + k)) :: rat) * 10 powi (- 14)
     = dec_val (DFin False c (- 8)) * (1 + dec_val (DFin False k (- 6)))"
  by (simp_all add: dec_val_pos_form power_int_def of_nat_diff field_simps)

lemma long_stop_bounds:
  assumes "k < 10 ^ 6"
  shows "dec_val (DFin False c (- 8)) * (1 - dec_val (DFin False k (- 6))) \<le> dec_val (DFin False (long_stop c k) (- 8))"
    "dec_val (DFin False (long_stop c k) (- 8))
       < dec_val (DFin False c (- 8)) * (1 - dec_val (DFin False k (- 6))) + 10 powi (- 8)"
proof -
  have k: "k \<le> 10 ^ 6" using assms by simp
  show "dec_val (DFin False c (- 8)) * (1 - dec_val (DFin False k (- 6))) \<le> dec_val (DFin False (long_stop c k) (- 8))"
    "dec_val (DFin False (long_stop c k) (- 8))
       < dec_val (DFin False c (- 8)) * (1 - dec_val (DFin False k (- 6))) + 10 powi (- 8)"
    unfolding exact_threshold(1)[OF k, symmetric] long_stop_def dec_val_pos_form[of "rescale _ _ _ _"]
    by (rule rescale_up)+
qed

lemma short_stop_bounds:
  "dec_val (DFin False (short_stop c k) (- 8)) \<le> dec_val (DFin False c (- 8)) * (1 + dec_val (DFin False k (- 6)))"
  "dec_val (DFin False c (- 8)) * (1 + dec_val (DFin False k (- 6)))
     < dec_val (DFin False (short_stop c k) (- 8)) + 10 powi (- 8)"
  unfolding exact_threshold(2)[symmetric] short_stop_def dec_val_pos_form[of "rescale _ _ _ _"]
  using rescale_down[where c = "c * (10 ^ 6 + k)" and e = "- 14" and q = "- 8"]
  by (simp_all only: distrib_right mult_1_left)

lemma grid_le_iff: "dec_val (DFin False x q) \<le> dec_val (DFin False y q) \<longleftrightarrow> x \<le> y"
  using powi_pos[of q] by (simp add: dec_val_pos_form mult_le_cancel_right_pos)

lemma grid_less_step: "dec_val (DFin False x q) < dec_val (DFin False y q) + 10 powi q \<Longrightarrow> x \<le> y"
proof -
  assume "dec_val (DFin False x q) < dec_val (DFin False y q) + 10 powi q"
  also have "\<dots> = of_nat (Suc y) * 10 powi q" by (simp add: dec_val_pos_form algebra_simps)
  finally have "(of_nat x :: rat) < of_nat (Suc y)"
    using powi_pos[of q] by (simp only: dec_val_pos_form mult_less_cancel_right_pos)
  then show ?thesis by (simp only: of_nat_less_iff less_Suc_eq_le)
qed

lemma grid_units: "of_nat (10 ^ 6) * (10::rat) powi (- 6) = 1" "of_nat (10 ^ 21) * (10::rat) powi (- 8) = 10 ^ 13"
  by (simp_all add: power_int_def power_one_over)

lemma grid_coef_less:
  "dec_val (DFin False x q) \<le> v \<Longrightarrow> v < of_nat m * 10 powi q \<Longrightarrow> x < m"
proof -
  assume "dec_val (DFin False x q) \<le> v" "v < of_nat m * 10 powi q"
  then have "of_nat x * (10::rat) powi q < of_nat m * 10 powi q"
    unfolding dec_val_pos_form by (rule le_less_trans)
  then have "(of_nat x :: rat) < of_nat m" using powi_pos[of q] by (simp only: mult_less_cancel_right_pos)
  then show ?thesis by (simp only: of_nat_less_iff)
qed

text \<open>The armed comparison, on the coefficients.\<close>

lemma fire_triggered:
  assumes "side = LONG \<or> side = SHORT" "c < 10 ^ 21" "0 < k" "k < 10 ^ 6"
    "if side = LONG then x \<le> long_stop c k else short_stop c k \<le> x"
  shows "\<exists>r. fire sha p obs side pid (DFin False k (- 6)) quantity (DFin False c (- 8))
      (DFin False x (- 8)) at_ms = Inr r \<and> tr_decision r = TRIGGERED"
proof (cases "side = LONG")
  case True
  then show ?thesis using assms
    by (simp add: fire_def compute_long grid_le_iff Let_def)
next
  case False
  then have "side = SHORT" using assms(1) by simp
  then show ?thesis using assms
    by (simp add: fire_def compute_short grid_le_iff Let_def)
qed

lemma long_breach:
  assumes "dec_val (DFin False x (- 8)) \<le> X" "E < dec_val (DFin False c (- 8)) + 10 powi (- 8)"
    "dec_val (DFin False k (- 6)) \<le> P" "P < 1" "0 \<le> E" "k < 10 ^ 6" "X \<le> E * (1 - P)"
  shows "x \<le> long_stop c k"
proof -
  let ?e = "dec_val (DFin False c (- 8))" and ?k = "dec_val (DFin False k (- 6))"
  have k0: "0 \<le> ?k" by (simp add: dec_val_nonneg_iff)
  have k1: "?k < 1" using assms(3,4) by linarith
  note k = k0 k1
  have "E * (1 - P) \<le> E * (1 - ?k)" using assms(3,5) by (intro mult_left_mono) auto
  also have "\<dots> < (?e + 10 powi (- 8)) * (1 - ?k)" using assms(2) k by (intro mult_strict_right_mono) auto
  also have "\<dots> \<le> ?e * (1 - ?k) + 10 powi (- 8)"
    using k powi_pos[of "- 8"] by (simp add: algebra_simps)
  also have "\<dots> \<le> dec_val (DFin False (long_stop c k) (- 8)) + 10 powi (- 8)"
    using long_stop_bounds(1)[OF assms(6), of c] by simp
  finally have "E * (1 - P) < dec_val (DFin False (long_stop c k) (- 8)) + 10 powi (- 8)" .
  with assms(1,7) show ?thesis by (intro grid_less_step[of x "- 8"]) linarith
qed

lemma short_breach:
  assumes "X < dec_val (DFin False x (- 8)) + 10 powi (- 8)" "dec_val (DFin False c (- 8)) \<le> E"
    "dec_val (DFin False k (- 6)) \<le> P" "E * (1 + P) \<le> X"
  shows "short_stop c k \<le> x"
proof -
  let ?e = "dec_val (DFin False c (- 8))" and ?k = "dec_val (DFin False k (- 6))"
  have nn: "0 \<le> ?e" "0 \<le> ?k" by (simp_all add: dec_val_nonneg_iff)
  have "?e * (1 + ?k) \<le> E * (1 + P)" using assms(2,3) nn by (intro mult_mono) auto
  with short_stop_bounds(1)[of c k] assms(1,4) show ?thesis
    by (intro grid_less_step[of _ "- 8"]) linarith
qed

text \<open>
  C25. Protection is never late. For an open position with readable inputs, a price that has
  reached the exact threshold of the raw inputs (entry price times one minus the stop fraction
  for a long, plus for a short, no rounding anywhere) fires the trigger: none of the five
  roundings on the way (the fraction, the quantity, the entry price and the price down, the
  stop outwards) can delay it. The bounds keep the products inside the 28 digits of the context.
\<close>

theorem trigger_never_late:
  assumes "ps_symbol p = po_symbol obs" "ps_side p = Side side" "side = LONG \<or> side = SHORT"
    and "to_protection_decimal (tc_stop_loss_pct cfg) = Inr P" "10 powi (- 6) \<le> dec_val P" "dec_val P < 1"
    and "age_limit (tc_max_price_age_ms cfg) = Some max_age"
    and "to_protection_decimal (ps_quantity p) = Inr Q" "10 powi (- 8) \<le> dec_val Q" "dec_val Q < 10 ^ 20"
    and "to_protection_decimal (ps_entry_price p) = Inr E" "10 powi (- 8) \<le> dec_val E" "dec_val E < 10 ^ 13"
    and "strip (opt_or (ps_position_id p) []) \<noteq> []"
    and "to_protection_decimal (po_price obs) = Inr X" "10 powi (- 8) \<le> dec_val X" "dec_val X < 10 ^ 20"
    and "po_observed_at_ms obs = VInt at_ms" "at_ms \<le> now_ms" "now_ms - at_ms \<le> max_age"
    and breach: "if side = LONG then dec_val X \<le> dec_val E * (1 - dec_val P)
                 else dec_val E * (1 + dec_val P) \<le> dec_val X"
  shows "\<exists>r. evaluate_stop_loss_trigger sha p obs cfg now_ms = Inr r \<and> tr_decision r = TRIGGERED"
proof -
  have pw: "(10::rat) powi (28 + - 8) = 10 ^ 20" "(10::rat) powi (28 + - 6) = 10 ^ 22" by simp_all
  obtain k where k: "read_q (tc_stop_loss_pct cfg) (- 6) = Inr (Some (DFin False k (- 6)))" "0 < k"
    "dec_val (DFin False k (- 6)) \<le> dec_val P"
    by (rule read_q_pos[OF assms(4,5)]) (use assms(6) in auto)
  have k6: "k < 10 ^ 6" by (rule grid_coef_less[OF k(3)]) (simp only: grid_units assms(6))
  obtain q where q: "read_q (ps_quantity p) (- 8) = Inr (Some (DFin False q (- 8)))" "0 < q"
    by (rule read_q_pos[OF assms(8,9)]) (use assms(10) in auto)
  obtain c where c: "read_q (ps_entry_price p) (- 8) = Inr (Some (DFin False c (- 8)))" "0 < c"
    "dec_val (DFin False c (- 8)) \<le> dec_val E" "dec_val E < dec_val (DFin False c (- 8)) + 10 powi (- 8)"
    by (rule read_q_pos[OF assms(11,12)]) (use assms(13) in auto)
  have c21: "c < 10 ^ 21" by (rule grid_coef_less[OF c(3)]) (simp only: grid_units assms(13))
  obtain x where x: "read_q (po_price obs) (- 8) = Inr (Some (DFin False x (- 8)))" "0 < x"
    "dec_val (DFin False x (- 8)) \<le> dec_val X" "dec_val X < dec_val (DFin False x (- 8)) + 10 powi (- 8)"
    by (rule read_q_pos[OF assms(15,16)]) (use assms(17) in auto)
  have E0: "0 \<le> dec_val E" using powi_pos[of "- 8"] assms(12) by linarith
  have cmp: "if side = LONG then x \<le> long_stop c k else short_stop c k \<le> x"
    using breach long_breach[OF x(3) c(4) k(3) assms(6) E0 k6] short_breach[OF x(4) c(3) k(3)]
    by (simp split: if_splits)
  have one: "\<not> dec_le dec_one (DFin False k (- 6))"
    using k(3) assms(6) by simp
  have "evaluate_stop_loss_trigger sha p obs cfg now_ms =
    fire sha p obs side (strip (opt_or (ps_position_id p) [])) (DFin False k (- 6)) (DFin False q (- 8))
      (DFin False c (- 8)) (DFin False x (- 8)) at_ms"
    using k q c x one assms(1,2,3,7,14,18-20)
    by (intro evaluate_fireI) (simp_all add: RATIO_Q_def QTY_Q_def MONEY_Q_def not_le dec_val_pos_iff)
  with fire_triggered[OF assms(3) c21 k(2) k6 cmp] show ?thesis by simp
qed

text \<open>A concrete position, price and configuration, for the instances below.\<close>

abbreviation sample_position :: "position_side \<Rightarrow> position_snapshot" where
  "sample_position side \<equiv> \<lparr>ps_symbol = ''BTCUSDT'', ps_side = Side side, ps_quantity = VInt 2,
     ps_entry_price = VInt 100, ps_position_id = Some ''pos-1'', ps_opened_at_ms = None\<rparr>"

abbreviation sample_obs :: "int \<Rightarrow> int \<Rightarrow> price_observation" where
  "sample_obs price at_ms \<equiv> \<lparr>po_symbol = ''BTCUSDT'', po_price = VInt price,
     po_observed_at_ms = VInt at_ms, po_source = ''tick''\<rparr>"

abbreviation sample_config :: trigger_config where
  "sample_config \<equiv> \<lparr>tc_stop_loss_pct = VDec (DFin False 3 (- 2)), tc_max_price_age_ms = VInt 5000\<rparr>"

lemma sample_reads:
  "read_q (VDec (DFin False 3 (- 2))) (- 6) = Inr (Some (DFin False 30000 (- 6)))"
  "read_q (VInt 2) (- 8) = Inr (Some (DFin False 200000000 (- 8)))"
  "read_q (VInt 100) (- 8) = Inr (Some (DFin False 10000000000 (- 8)))"
  "read_q (VInt 97) (- 8) = Inr (Some (DFin False 9700000000 (- 8)))"
  "read_q (VInt 90) (- 8) = Inr (Some (DFin False 9000000000 (- 8)))"
  by (simp_all add: read_q_def to_protection_decimal_def dec_of_int_def dec_quantize_fin rescale_def)

lemma sample_strip: "strip ''pos-1'' = ''pos-1''"
  by (simp add: strip_def lstrip_def rstrip_def is_space_def)

lemma sample_evaluation:
  assumes "price = 97 \<or> price = 90" "at_ms \<le> now_ms" "now_ms - at_ms \<le> 5000"
  shows "evaluate_stop_loss_trigger sha (sample_position LONG) (sample_obs price at_ms) sample_config now_ms =
    fire sha (sample_position LONG) (sample_obs price at_ms) LONG ''pos-1'' (DFin False 30000 (- 6))
      (DFin False 200000000 (- 8)) (DFin False 10000000000 (- 8))
      (DFin False (if price = 97 then 9700000000 else 9000000000) (- 8)) at_ms"
  using assms
  by (subst evaluate_fireI[where side = LONG and max_age = 5000])
    (auto simp: RATIO_Q_def QTY_Q_def MONEY_Q_def sample_reads age_limit_def dec_val_pos_form opt_or_def
      sample_strip power_int_def power_one_over)

lemma sample_triggered:
  "\<exists>r. evaluate_stop_loss_trigger sha (sample_position LONG) (sample_obs 97 1000) sample_config 1500 = Inr r
    \<and> tr_decision r = TRIGGERED"
  by (subst sample_evaluation)
    (simp_all add: fire_def compute_long long_stop_def rescale_def round_div_def Let_def dec_val_pos_form power_int_def)

theorem trigger_never_late_witness:
  "\<exists>r. evaluate_stop_loss_trigger (\<lambda>s. s)
     \<lparr>ps_symbol = ''BTCUSDT'', ps_side = Side LONG, ps_quantity = VInt 2, ps_entry_price = VInt 100,
      ps_position_id = Some ''pos-1'', ps_opened_at_ms = None\<rparr>
     \<lparr>po_symbol = ''BTCUSDT'', po_price = VInt 97, po_observed_at_ms = VInt 1000, po_source = ''tick''\<rparr>
     \<lparr>tc_stop_loss_pct = VDec (DFin False 3 (- 2)), tc_max_price_age_ms = VInt 5000\<rparr> 1500 = Inr r
   \<and> tr_decision r = TRIGGERED"
  by (rule trigger_never_late[where side = LONG and max_age = 5000 and at_ms = 1000
        and P = "DFin False 3 (- 2)" and Q = "DFin False 2 0" and E = "DFin False 100 0" and X = "DFin False 97 0"])
    (simp_all add: to_protection_decimal_def dec_of_int_def dec_val_pos_form age_limit_def power_int_def
      power_one_over strip_def lstrip_def rstrip_def is_space_def opt_or_def)

lemma sample_triggered_later:
  "\<exists>r. evaluate_stop_loss_trigger sha (sample_position LONG) (sample_obs 90 7000) sample_config 7100 = Inr r
    \<and> tr_decision r = TRIGGERED"
  by (subst sample_evaluation)
    (simp_all add: fire_def compute_long long_stop_def rescale_def round_div_def Let_def dec_val_pos_form power_int_def)

subsection \<open>What a result says\<close>

lemma read_q_raw_pos:
  assumes "read_q v q = Inr (Some d)" "\<not> dec_le d dec_zero"
  obtains raw where "to_protection_decimal v = Inr raw" "dec_val d \<le> dec_val raw" "0 < dec_val d"
    "is_finite d" "is_finite raw"
proof -
  obtain s c e where r: "to_protection_decimal v = Inr (DFin s c e)"
    and d: "d = DFin s (rescale ROUND_DOWN c e q) q" using assms(1) by (rule read_q_SomeE)
  have pos: "0 < dec_val d" using assms(2) d by (simp add: not_le)
  then have s: "\<not> s" unfolding d dec_val_pos_iff by simp
  have "dec_val d \<le> dec_val (DFin s c e)"
    using s rescale_down(1)[of c e q] unfolding d by (simp add: dec_val_pos_form)
  with r pos d that show ?thesis by (simp add: is_finite_def)
qed

lemma not_dec_le_pos: "is_finite d \<Longrightarrow> \<not> dec_le d dec_zero \<longleftrightarrow> 0 < dec_val d"
  by (cases d) (auto simp: is_finite_def not_le)

lemma fire_event:
  assumes "fire sha p obs side pid pct q en ob t = Inr r" "tr_event r = Some ev"
  shows "tr_decision r = TRIGGERED" "tr_reason r = R_TRIGGERED" "tr_stop_price r = Some (ev_stop_price ev)"
    "compute_stop_price side en pct = Inr (ev_stop_price ev)"
    "if side = LONG then dec_le ob (ev_stop_price ev) else dec_le (ev_stop_price ev) ob"
    "event_identity ev = identity_payload STOP_LOSS_TRIGGER_CONTRACT_VERSION (ps_symbol p) pid side q en
       (ev_stop_price ev) pct (ps_opened_at_ms p)"
    "ev_fingerprint ev = canonical_hash sha (event_identity ev)"
    "ev_event_id ev = ''slp-'' @ take 32 (ev_fingerprint ev)"
    "ev_observed_price ev = ob" "ev_observed_at_ms ev = t" "ev_position_side ev = side"
    "ev_position_quantity ev = q" "ev_symbol ev = ps_symbol p" "ev_position_id ev = pid"
    "ev_entry_price ev = en" "ev_stop_loss_pct ev = pct" "ev_price_source ev = po_source obs"
  using assms by (auto simp: fire_def ebind_eq_Inr tr_no_trigger_def Let_def event_identity_def split: if_splits)

lemma fire_triggered_event:
  "fire sha p obs side pid pct q en ob t = Inr r \<Longrightarrow> tr_decision r = TRIGGERED \<longleftrightarrow> tr_event r \<noteq> None"
  by (auto simp: fire_def ebind_eq_Inr tr_no_trigger_def Let_def split: if_splits)

text \<open>
  Fail closed. An evaluation of anything but a flat position that does not answer
  \<open>BLOCKED\<close> had every input: matching symbols, a known side, a readable positive fraction,
  quantity, entry price and price, a position identity, and a price neither from the future
  nor older than a positive age limit. So no missing, malformed or stale input is ever
  reported as \<open>NO_TRIGGER\<close> or \<open>TRIGGERED\<close>.
\<close>

theorem answer_needs_every_input:
  assumes "evaluate_stop_loss_trigger sha p obs cfg now_ms = Inr r" "tr_decision r \<noteq> BLOCKED"
    and "ps_side p \<noteq> Side FLAT"
  shows "ps_symbol p = po_symbol obs \<and> (ps_side p = Side LONG \<or> ps_side p = Side SHORT)
    \<and> strip (opt_or (ps_position_id p) []) \<noteq> []
    \<and> (\<exists>P Q E X. to_protection_decimal (tc_stop_loss_pct cfg) = Inr P \<and> 0 < dec_val P
        \<and> to_protection_decimal (ps_quantity p) = Inr Q \<and> 0 < dec_val Q
        \<and> to_protection_decimal (ps_entry_price p) = Inr E \<and> 0 < dec_val E
        \<and> to_protection_decimal (po_price obs) = Inr X \<and> 0 < dec_val X)
    \<and> (\<exists>max_age at_ms. age_limit (tc_max_price_age_ms cfg) = Some max_age \<and> 0 < max_age
        \<and> po_observed_at_ms obs = VInt at_ms \<and> at_ms \<le> now_ms \<and> now_ms - at_ms \<le> max_age)"
  using assms(1,2)
proof (cases rule: evaluate_not_blockedE)
  case flat
  with assms(3) show ?thesis by simp
next
  case (fire side pct max_age quantity entry observed at_ms)
  have "0 < max_age" using fire(7) by (auto simp: age_limit_def split: pyval.splits if_splits)
  moreover obtain P where "to_protection_decimal (tc_stop_loss_pct cfg) = Inr P" "0 < dec_val P"
    by (rule read_q_raw_pos[OF fire(4,5)]) (meson less_le_trans)
  moreover obtain Q where "to_protection_decimal (ps_quantity p) = Inr Q" "0 < dec_val Q"
    by (rule read_q_raw_pos[OF fire(8,9)]) (meson less_le_trans)
  moreover obtain E where "to_protection_decimal (ps_entry_price p) = Inr E" "0 < dec_val E"
    by (rule read_q_raw_pos[OF fire(10,11)]) (meson less_le_trans)
  moreover obtain X where "to_protection_decimal (po_price obs) = Inr X" "0 < dec_val X"
    by (rule read_q_raw_pos[OF fire(13,14)]) (meson less_le_trans)
  ultimately show ?thesis using fire(1,2,3,7,12,15,16,17) by auto
qed

theorem answer_needs_every_input_witness:
  "\<exists>at_ms. po_observed_at_ms (sample_obs 97 1000) = VInt at_ms \<and> at_ms \<le> 1500"
proof -
  obtain r where "evaluate_stop_loss_trigger (\<lambda>s. s) (sample_position LONG) (sample_obs 97 1000) sample_config 1500 = Inr r"
    "tr_decision r = TRIGGERED" using sample_triggered[of "\<lambda>s. s"] by blast
  with answer_needs_every_input[of "\<lambda>s. s" "sample_position LONG"] show ?thesis by fastforce
qed

subsection \<open>The event\<close>

lemma evaluate_triggeredE:
  assumes "evaluate_stop_loss_trigger sha p obs cfg now_ms = Inr r" "tr_decision r = TRIGGERED"
  obtains side pct quantity entry observed at_ms where
    "ps_side p = Side side" "side = LONG \<or> side = SHORT"
    "read_q (tc_stop_loss_pct cfg) RATIO_Q = Inr (Some pct)" "\<not> dec_le pct dec_zero" "\<not> dec_le dec_one pct"
    "read_q (ps_quantity p) QTY_Q = Inr (Some quantity)" "\<not> dec_le quantity dec_zero"
    "read_q (ps_entry_price p) MONEY_Q = Inr (Some entry)" "\<not> dec_le entry dec_zero"
    "is_finite observed"
    "fire sha p obs side (strip (opt_or (ps_position_id p) [])) pct quantity entry observed at_ms = Inr r"
proof -
  have "tr_decision r \<noteq> BLOCKED" using assms(2) by simp
  with assms(1) show ?thesis
  proof (cases rule: evaluate_not_blockedE)
    case flat
    with assms(2) show ?thesis by (simp add: tr_no_trigger_def)
  next
    case (fire side pct max_age quantity entry observed at_ms)
    have "is_finite observed" using fire(13) by (rule read_q_SomeE) simp
    with fire show ?thesis by (intro that)
  qed
qed

lemma read_q_pos_grid:
  assumes "read_q v q = Inr (Some d)" "\<not> dec_le d dec_zero"
  obtains c where "d = DFin False c q" "0 < c" "c < 10 ^ 28"
proof -
  obtain s c e where d: "d = DFin s (rescale ROUND_DOWN c e q) q" "rescale ROUND_DOWN c e q < 10 ^ 28"
    using assms(1) by (rule read_q_SomeE)
  have "0 < dec_val d" using assms(2) d by (simp add: not_le)
  then have "\<not> s" "0 < rescale ROUND_DOWN c e q" unfolding d(1) dec_val_pos_iff by simp_all
  then show ?thesis using d by (intro that) simp_all
qed

lemma grid_less_iff:
  assumes "of_nat m * (10::rat) powi q = v"
  shows "dec_val (DFin False x q) < v \<longleftrightarrow> x < m"
  unfolding assms[symmetric] dec_val_pos_form
  using powi_pos[of q] by (simp only: mult_less_cancel_right_pos of_nat_less_iff)

lemmas grid_coef_iff = grid_units(1)[THEN grid_less_iff] grid_units(2)[THEN grid_less_iff]

text \<open>
  The event states the armed stop exactly. A triggered evaluation carries an event for the
  observed position whose observed price is at or beyond its stop, and whose stop is the exact
  threshold of the event's own entry price and fraction rounded outwards by less than one step
  of the money grid: protection is never later than the threshold and never earlier than a
  step of \<open>10 ^ -8\<close>. (Entry prices below \<open>10 ^ 13\<close>, the range of exact products.)
\<close>

theorem armed_stop_is_tight:
  assumes "evaluate_stop_loss_trigger sha p obs cfg now_ms = Inr r" "tr_decision r = TRIGGERED"
    and "\<And>E. to_protection_decimal (ps_entry_price p) = Inr E \<Longrightarrow> dec_val E < 10 ^ 13"
  shows "\<exists>ev. tr_event r = Some ev \<and> ev_symbol ev = ps_symbol p \<and> ps_side p = Side (ev_position_side ev)
    \<and> (let T = dec_val (ev_entry_price ev); f = dec_val (ev_stop_loss_pct ev);
          stop = dec_val (ev_stop_price ev); x = dec_val (ev_observed_price ev)
       in if ev_position_side ev = LONG
          then x \<le> stop \<and> T * (1 - f) \<le> stop \<and> stop < T * (1 - f) + 10 powi (- 8)
          else ev_position_side ev = SHORT \<and> stop \<le> x \<and> stop \<le> T * (1 + f) \<and> T * (1 + f) < stop + 10 powi (- 8))"
  using assms(1,2)
proof (cases rule: evaluate_triggeredE)
  case (1 side pct quantity entry observed at_ms)
  obtain k where k: "pct = DFin False k (- 6)" "0 < k"
    using 1(3,4) by (rule read_q_pos_grid) (simp add: RATIO_Q_def)
  obtain c where c: "entry = DFin False c (- 8)" "0 < c"
    using 1(8,9) by (rule read_q_pos_grid) (simp add: MONEY_Q_def)
  have "dec_val (DFin False k (- 6)) < 1" using 1(5) k(1) by (simp add: not_le)
  then have k6: "k < 10 ^ 6" by (simp only: grid_coef_iff)
  obtain E where "to_protection_decimal (ps_entry_price p) = Inr E" "dec_val entry \<le> dec_val E"
    using 1(8,9) by (rule read_q_raw_pos)
  with assms(3) have "dec_val entry < 10 ^ 13" by fastforce
  then have c21: "c < 10 ^ 21" by (simp only: c(1) grid_coef_iff)
  obtain ev where ev: "tr_event r = Some ev"
    using 1(11) assms(2) fire_triggered_event by blast
  note F = fire_event[OF 1(11) ev]
  obtain s' o' e' where ob: "observed = DFin s' o' e'" using 1(10) by (rule is_finite_cases)
  show ?thesis
  proof (cases "side = LONG")
    case True
    then have stop: "ev_stop_price ev = DFin False (long_stop c k) (- 8)"
      using F(4) compute_long[OF c21 k(2) k6] by (simp add: k c)
    show ?thesis
      using True F(5) long_stop_bounds[OF k6, of c]
      by (intro exI[of _ ev]) (simp add: ev F(9,11,13,15,16) 1(1) stop k(1) c(1) ob Let_def)
  next
    case False
    then have s: "side = SHORT" using 1(2) by simp
    have stop: "ev_stop_price ev = DFin False (short_stop c k) (- 8)"
      using F(4) compute_short[OF c21 k(2) k6] by (simp add: k c s)
    show ?thesis
      using s F(5) short_stop_bounds[of c k]
      by (intro exI[of _ ev]) (simp add: ev F(9,11,13,15,16) 1(1) stop k(1) c(1) ob Let_def)
  qed
qed

theorem armed_stop_is_tight_witness:
  "\<exists>r ev. evaluate_stop_loss_trigger (\<lambda>s. s) (sample_position LONG) (sample_obs 97 1000) sample_config 1500 = Inr r
    \<and> tr_event r = Some ev \<and> ev_symbol ev = ''BTCUSDT''"
proof -
  obtain r where r: "evaluate_stop_loss_trigger (\<lambda>s. s) (sample_position LONG) (sample_obs 97 1000) sample_config 1500 = Inr r"
    "tr_decision r = TRIGGERED" using sample_triggered[of "\<lambda>s. s"] by blast
  have "\<exists>ev. tr_event r = Some ev \<and> ev_symbol ev = ps_symbol (sample_position LONG)"
    using armed_stop_is_tight[OF r]
    by (auto simp: to_protection_decimal_def dec_of_int_def dec_val_pos_form)
  with r show ?thesis by auto
qed

lemma same_event:
  assumes "evaluate_stop_loss_trigger sha p obs cfg now_ms = Inr r" "tr_decision r = TRIGGERED"
    and "evaluate_stop_loss_trigger sha p obs' cfg now_ms' = Inr r'" "tr_decision r' = TRIGGERED"
  shows "\<exists>ev ev'. tr_event r = Some ev \<and> tr_event r' = Some ev' \<and> ev_event_id ev = ev_event_id ev'
    \<and> ev_fingerprint ev = ev_fingerprint ev' \<and> event_identity ev = event_identity ev'"
  using assms(1,2)
proof (cases rule: evaluate_triggeredE)
  case first: (1 side pct quantity entry observed at_ms)
  show ?thesis using assms(3,4)
  proof (cases rule: evaluate_triggeredE)
    case second: (1 side' pct' quantity' entry' observed' at_ms')
    obtain ev ev' where ev: "tr_event r = Some ev" and ev': "tr_event r' = Some ev'"
      using fire_triggered_event[OF first(11)] fire_triggered_event[OF second(11)] assms(2,4) by auto
    note F = fire_event[OF first(11) ev] and G = fire_event[OF second(11) ev']
    have same: "side' = side" "pct' = pct" "quantity' = quantity" "entry' = entry"
      using first(1,3,6,8) second(1,3,6,8) by simp_all
    have "ev_stop_price ev' = ev_stop_price ev" using F(4) G(4) by (simp add: same)
    then have "event_identity ev = event_identity ev'" using F(6) G(6) by (simp add: same)
    then show ?thesis using ev ev' F(7,8) G(7,8) by simp
  qed
qed

text \<open>
  The observing tick is not part of a protection event. Two triggered evaluations of the
  same position under the same configuration, on any two observations at any two times, carry
  the same event identity and fingerprint: repeated ticks below a stop are one event.
\<close>

theorem event_independent_of_tick:
  assumes "evaluate_stop_loss_trigger sha p obs cfg now_ms = Inr r" "tr_decision r = TRIGGERED"
    and "evaluate_stop_loss_trigger sha p obs' cfg now_ms' = Inr r'" "tr_decision r' = TRIGGERED"
  shows "\<exists>ev ev'. tr_event r = Some ev \<and> tr_event r' = Some ev' \<and> ev_event_id ev = ev_event_id ev'
    \<and> ev_fingerprint ev = ev_fingerprint ev' \<and> event_identity ev = event_identity ev'"
  by (rule same_event[OF assms])

theorem event_independent_of_tick_witness:
  "\<exists>r r' ev ev'. evaluate_stop_loss_trigger (\<lambda>s. s) (sample_position LONG) (sample_obs 97 1000) sample_config 1500 = Inr r
    \<and> evaluate_stop_loss_trigger (\<lambda>s. s) (sample_position LONG) (sample_obs 90 7000) sample_config 7100 = Inr r'
    \<and> tr_event r = Some ev \<and> tr_event r' = Some ev' \<and> ev_event_id ev = ev_event_id ev'"
proof -
  obtain r where r: "evaluate_stop_loss_trigger (\<lambda>s. s) (sample_position LONG) (sample_obs 97 1000) sample_config 1500 = Inr r"
    "tr_decision r = TRIGGERED" using sample_triggered[of "\<lambda>s. s"] by blast
  obtain r' where r': "evaluate_stop_loss_trigger (\<lambda>s. s) (sample_position LONG) (sample_obs 90 7000) sample_config 7100 = Inr r'"
    "tr_decision r' = TRIGGERED" using sample_triggered_later[of "\<lambda>s. s"] by blast
  show ?thesis using event_independent_of_tick[OF r r'] r(1) r'(1) by blast
qed

text \<open>The decimals of an event are on their grids and fit the context.\<close>

lemma dec_str_grid_inj:
  assumes "dec_str a = dec_str b" "on_grid q a" "on_grid q b" "- 1000000 \<le> q" "q \<le> 1000000"
  shows "a = b"
proof (cases a; cases b)
  fix s c e s' c' e' assume "a = DFin s c e" "b = DFin s' c' e'"
  with assms show ?thesis using dec_str_inj[of s c e s' c' e'] by (simp add: on_grid_def)
qed (use assms in \<open>simp_all add: on_grid_def\<close>)

lemma read_q_on_grid: "read_q v q = Inr (Some d) \<Longrightarrow> on_grid q d"
  by (erule read_q_SomeE) (simp only: on_grid_def decimal.case simp_thms)

lemma compute_stop_on_grid:
  "compute_stop_price side en pct = Inr st \<Longrightarrow> is_finite en \<Longrightarrow> is_finite pct \<Longrightarrow> on_grid MONEY_Q st"
proof -
  assume c: "compute_stop_price side en pct = Inr st" and fin: "is_finite en" "is_finite pct"
  have one: "is_finite dec_one" by simp
  obtain f raw r where "dec_sub dec_one pct = Inr f \<or> dec_add dec_one pct = Inr f" "dec_mul en f = Inr raw"
    "dec_quantize r MONEY_Q raw = Inr st"
    using c unfolding compute_stop_price_def by (auto simp: ebind_eq_Inr split: if_splits)
  then show ?thesis
    using dec_sub_finite[OF _ one fin(2)] dec_add_finite[OF _ one fin(2)] dec_mul_finite[OF _ fin(1)]
      dec_quantize_on_grid by blast
qed

lemma event_on_grid:
  assumes "evaluate_stop_loss_trigger sha p obs cfg now_ms = Inr r" "tr_decision r = TRIGGERED" "tr_event r = Some ev"
  shows "on_grid RATIO_Q (ev_stop_loss_pct ev)" "on_grid MONEY_Q (ev_entry_price ev)"
    "on_grid QTY_Q (ev_position_quantity ev)" "on_grid MONEY_Q (ev_stop_price ev)"
    "ev_position_side ev = LONG \<or> ev_position_side ev = SHORT"
    "0 < dec_val (ev_position_quantity ev)"
    "ev_fingerprint ev = canonical_hash sha (event_identity ev)"
proof -
  obtain side pct quantity entry observed at_ms where E: "side = LONG \<or> side = SHORT"
    "read_q (tc_stop_loss_pct cfg) RATIO_Q = Inr (Some pct)"
    "read_q (ps_quantity p) QTY_Q = Inr (Some quantity)" "\<not> dec_le quantity dec_zero"
    "read_q (ps_entry_price p) MONEY_Q = Inr (Some entry)"
    "fire sha p obs side (strip (opt_or (ps_position_id p) [])) pct quantity entry observed at_ms = Inr r"
    using assms(1,2) by (rule evaluate_triggeredE)
  note F = fire_event[OF E(6) assms(3)]
  note g = E(2,3,5)[THEN read_q_on_grid]
  show "on_grid RATIO_Q (ev_stop_loss_pct ev)" "on_grid MONEY_Q (ev_entry_price ev)"
    "on_grid QTY_Q (ev_position_quantity ev)" "ev_position_side ev = LONG \<or> ev_position_side ev = SHORT"
    using g E(1) by (simp_all add: F)
  show "0 < dec_val (ev_position_quantity ev)"
    using E(4) on_grid_finite[OF g(2)] by (simp add: F(12) not_dec_le_pos)
  show "on_grid MONEY_Q (ev_stop_price ev)"
    using compute_stop_on_grid[OF F(4)] g on_grid_finite by blast
  show "ev_fingerprint ev = canonical_hash sha (event_identity ev)" by (rule F(7))
qed

lemma identity_determines:
  assumes "canonical_json_dumps (identity_payload v sy pid side q en st pct op)
         = canonical_json_dumps (identity_payload v' sy' pid' side' q' en' st' pct' op')"
  shows "sy = sy'" "pid = pid'" "side_str side = side_str side'" "dec_str q = dec_str q'"
    "dec_str en = dec_str en'" "dec_str st = dec_str st'" "dec_str pct = dec_str pct'" "op = op'"
proof -
  note S = canonical_str_member[OF assms[unfolded identity_payload_def]]
  note I = canonical_int_member[OF assms[unfolded identity_payload_def]]
    canonical_int_member[OF assms[unfolded identity_payload_def, symmetric]]
  show "sy = sy'" using S[of "''symbol''" sy] by simp
  show "pid = pid'" using S[of "''position_id''" pid] by simp
  show "side_str side = side_str side'" using S[of "''position_side''" "side_str side"] by simp
  show "dec_str q = dec_str q'" using S[of "''position_quantity''" "dec_str q"] by simp
  show "dec_str en = dec_str en'" using S[of "''entry_price''" "dec_str en"] by simp
  show "dec_str st = dec_str st'" using S[of "''stop_price''" "dec_str st"] by simp
  show "dec_str pct = dec_str pct'" using S[of "''stop_loss_pct''" "dec_str pct"] by simp
  show "op = op'"
    using I(1)[of "''position_opened_at_ms''"] I(2)[of "''position_opened_at_ms''"] by (cases op; cases op') simp_all
qed

lemma side_str_inj: "side_str s = side_str s' \<Longrightarrow> s = s'"
  by (cases s; cases s') (simp_all add: side_str_def)

text \<open>
  Different protection situations are told apart. If two triggered evaluations carry the
  same fingerprint and the digest does not collide on their two canonical identity texts, then
  symbol, position identity, side, quantity, entry price, armed stop, fraction and position
  epoch all agree; so a new position or a re-armed stop is a new event.
\<close>

theorem fingerprint_tells_situations_apart:
  assumes "evaluate_stop_loss_trigger sha p obs cfg now_ms = Inr r" "tr_decision r = TRIGGERED" "tr_event r = Some ev"
    and "evaluate_stop_loss_trigger sha p' obs' cfg' now_ms' = Inr r'" "tr_decision r' = TRIGGERED" "tr_event r' = Some ev'"
    and "ev_fingerprint ev = ev_fingerprint ev'"
    and no_collision: "inj_on sha {canonical_json_dumps (event_identity ev), canonical_json_dumps (event_identity ev')}"
  shows "ev_symbol ev = ev_symbol ev' \<and> ev_position_id ev = ev_position_id ev'
    \<and> ev_position_side ev = ev_position_side ev' \<and> ev_position_quantity ev = ev_position_quantity ev'
    \<and> ev_entry_price ev = ev_entry_price ev' \<and> ev_stop_price ev = ev_stop_price ev'
    \<and> ev_stop_loss_pct ev = ev_stop_loss_pct ev' \<and> ev_position_opened_at_ms ev = ev_position_opened_at_ms ev'"
proof -
  note G = event_on_grid[OF assms(1-3)] and G' = event_on_grid[OF assms(4-6)]
  have "canonical_json_dumps (event_identity ev) = canonical_json_dumps (event_identity ev')"
    using assms(7) unfolding G(7) G'(7) canonical_hash_def by (rule inj_onD[OF no_collision]) simp_all
  then have e: "canonical_json_dumps (identity_payload (ev_contract_version ev) (ev_symbol ev) (ev_position_id ev)
      (ev_position_side ev) (ev_position_quantity ev) (ev_entry_price ev) (ev_stop_price ev) (ev_stop_loss_pct ev)
      (ev_position_opened_at_ms ev))
    = canonical_json_dumps (identity_payload (ev_contract_version ev') (ev_symbol ev') (ev_position_id ev')
      (ev_position_side ev') (ev_position_quantity ev') (ev_entry_price ev') (ev_stop_price ev') (ev_stop_loss_pct ev')
      (ev_position_opened_at_ms ev'))" by (simp only: event_identity_def)
  note D = identity_determines[OF e]
  have b: "- 1000000 \<le> MONEY_Q" "MONEY_Q \<le> 1000000" "- 1000000 \<le> RATIO_Q" "RATIO_Q \<le> 1000000"
    "- 1000000 \<le> QTY_Q" "QTY_Q \<le> 1000000" by (simp_all add: MONEY_Q_def RATIO_Q_def QTY_Q_def)
  show ?thesis
    using D(1,2,8) side_str_inj[OF D(3)] dec_str_grid_inj[OF D(4) G(3) G'(3) b(5,6)]
      dec_str_grid_inj[OF D(5) G(2) G'(2) b(1,2)] dec_str_grid_inj[OF D(6) G(4) G'(4) b(1,2)]
      dec_str_grid_inj[OF D(7) G(1) G'(1) b(3,4)] by simp
qed

theorem fingerprint_tells_situations_apart_witness:
  "\<exists>r r' ev ev'. evaluate_stop_loss_trigger (\<lambda>s. s) (sample_position LONG) (sample_obs 97 1000) sample_config 1500 = Inr r
    \<and> evaluate_stop_loss_trigger (\<lambda>s. s) (sample_position LONG) (sample_obs 90 7000) sample_config 7100 = Inr r'
    \<and> tr_event r = Some ev \<and> tr_event r' = Some ev' \<and> ev_stop_price ev = ev_stop_price ev'"
proof -
  let ?ev = "\<lambda>sha (obs :: price_observation) now. evaluate_stop_loss_trigger sha (sample_position LONG) obs sample_config now"
  obtain r where r: "?ev (\<lambda>s. s) (sample_obs 97 1000) 1500 = Inr r" "tr_decision r = TRIGGERED"
    using sample_triggered[of "\<lambda>s. s"] by blast
  obtain r' where r': "?ev (\<lambda>s. s) (sample_obs 90 7000) 7100 = Inr r'" "tr_decision r' = TRIGGERED"
    using sample_triggered_later[of "\<lambda>s. s"] by blast
  obtain ev ev' where e: "tr_event r = Some ev" "tr_event r' = Some ev'" "ev_fingerprint ev = ev_fingerprint ev'"
    using same_event[OF r r'] by blast
  show ?thesis
    using fingerprint_tells_situations_apart[OF r e(1) r' e(2,3)] r(1) r'(1) e(1,2) by auto
qed

subsection \<open>Prices beyond the context\<close>

lemma read_q_big:
  assumes "to_protection_decimal v = Inr d" "10 powi (28 + q) \<le> dec_val d"
  shows "read_q v q = Inl InvalidOperation"
proof -
  obtain s c e where d: "d = DFin s c e"
    using to_protection_decimal_finite[OF assms(1)] by (rule is_finite_cases)
  have "0 < dec_val d" using powi_pos[of "28 + q"] assms(2) by (rule less_le_trans)
  then have s: "\<not> s" unfolding d dec_val_pos_iff by simp
  have v: "dec_val d = of_nat c * 10 powi e" using s d by (simp add: dec_val_pos_form)
  let ?c = "rescale ROUND_DOWN c e q"
  have "(10::rat) powi (28 + q) = of_nat (10 ^ 28) * 10 powi q"
    using powi_split[of q "28 + q"] by simp
  then have "of_nat (10 ^ 28) * (10::rat) powi q < (of_nat ?c + 1) * 10 powi q"
    using le_less_trans[OF assms(2)[unfolded v] rescale_down(2)[of c e q]] by (simp only:)
  then have "(of_nat (10 ^ 28) :: rat) < of_nat (?c + 1)"
    using powi_pos[of q] by (simp only: mult_less_cancel_right_pos of_nat_add of_nat_1)
  then have "10 ^ 28 < ?c + 1" by (simp only: of_nat_less_iff)
  then have "\<not> ?c < 10 ^ 28" by linarith
  then show ?thesis unfolding read_q_def assms(1) d by (simp only: sum.case dec_quantize_fin) simp
qed

text \<open>
  A readable price of \<open>10 ^ 20\<close> or more is not answered at all: \<open>quantize\<close> raises
  \<open>InvalidOperation\<close>, which is not the contract error the evaluation handles, so the
  exception leaves the evaluation although every other input is in order.
\<close>

theorem oversized_price_raises:
  assumes "ps_symbol p = po_symbol obs" "ps_side p = Side side" "side = LONG \<or> side = SHORT"
    and "to_protection_decimal (tc_stop_loss_pct cfg) = Inr P" "10 powi (- 6) \<le> dec_val P" "dec_val P < 1"
    and "age_limit (tc_max_price_age_ms cfg) = Some max_age"
    and "to_protection_decimal (ps_quantity p) = Inr Q" "10 powi (- 8) \<le> dec_val Q" "dec_val Q < 10 ^ 20"
    and "to_protection_decimal (ps_entry_price p) = Inr E" "10 powi (- 8) \<le> dec_val E" "dec_val E < 10 ^ 20"
    and "strip (opt_or (ps_position_id p) []) \<noteq> []"
    and "to_protection_decimal (po_price obs) = Inr X" "10 ^ 20 \<le> dec_val X"
  shows "evaluate_stop_loss_trigger sha p obs cfg now_ms = Inl InvalidOperation"
proof -
  obtain k where k: "read_q (tc_stop_loss_pct cfg) (- 6) = Inr (Some (DFin False k (- 6)))" "0 < k"
    "dec_val (DFin False k (- 6)) \<le> dec_val P"
    by (rule read_q_pos[OF assms(4,5)]) (use assms(6) in auto)
  obtain q where q: "read_q (ps_quantity p) (- 8) = Inr (Some (DFin False q (- 8)))" "0 < q"
    by (rule read_q_pos[OF assms(8,9)]) (use assms(10) in auto)
  obtain c where c: "read_q (ps_entry_price p) (- 8) = Inr (Some (DFin False c (- 8)))" "0 < c"
    by (rule read_q_pos[OF assms(11,12)]) (use assms(13) in auto)
  have x: "read_q (po_price obs) (- 8) = Inl InvalidOperation"
    by (rule read_q_big[OF assms(15)]) (use assms(16) in simp)
  have one: "\<not> dec_le dec_one (DFin False k (- 6))" using k(3) assms(6) by simp
  show ?thesis
    using assms(1,2,3,7,14) k q c x one
    by (auto simp: evaluate_stop_loss_trigger_def RATIO_Q_def QTY_Q_def MONEY_Q_def not_le dec_val_pos_iff Let_def)
qed

theorem oversized_price_raises_witness:
  "evaluate_stop_loss_trigger (\<lambda>s. s) (sample_position SHORT) (sample_obs (10 ^ 21) 1000) sample_config 1500
     = Inl InvalidOperation"
  by (rule oversized_price_raises[where side = SHORT and max_age = 5000
        and P = "DFin False 3 (- 2)" and Q = "DFin False 2 0" and E = "DFin False 100 0" and X = "dec_of_int (10 ^ 21)"])
    (simp_all add: to_protection_decimal_def dec_of_int_def dec_val_pos_form age_limit_def power_int_def
      power_one_over sample_strip opt_or_def)

end
