(* ===== verification/StopLossExitIntent.thy ===== *)
theory StopLossExitIntent
  imports StopLossContracts
begin

text \<open>
  The protective exit intent, \<open>core/safety/stop_loss/exit_intent.py\<close>: the only output
  of a protection event, its construction and validation, its canonical representation, and
  the two sinks of the module. A sink is a state with an \<open>accept\<close> operation that returns
  the new state and the exception it raised, if any.
\<close>

definition EXIT_INTENT_SCHEMA_VERSION :: string where
  "EXIT_INTENT_SCHEMA_VERSION = ''cdb-stop-loss-exit-intent/v1''"

definition INTENT_KIND_PROTECTIVE_EXIT :: string where
  "INTENT_KIND_PROTECTIVE_EXIT = ''PROTECTIVE_EXIT''"

definition DISPATCH_STATE_NOT_DISPATCHED :: string where
  "DISPATCH_STATE_NOT_DISPATCHED = ''NOT_DISPATCHED''"

text \<open>The reducing side of a position side, \<open>_EXIT_SIDE_FOR_POSITION\<close>.\<close>

definition exit_side_for :: "position_side \<Rightarrow> string option" where
  "exit_side_for s = (case s of LONG \<Rightarrow> Some ''SELL'' | SHORT \<Rightarrow> Some ''BUY'' | FLAT \<Rightarrow> None | UNKNOWN \<Rightarrow> None)"

record exit_intent =
  xi_schema_version :: string
  xi_intent_id :: string
  xi_protection_event_id :: string
  xi_trigger_contract_version :: string
  xi_symbol :: string
  xi_side :: string
  xi_quantity :: decimal
  xi_reduce_only :: bool
  xi_intent_kind :: string
  xi_stop_price :: decimal
  xi_observed_price :: decimal
  xi_position_side :: position_side
  xi_position_quantity :: decimal
  xi_created_at_ms :: int
  xi_dispatch_state :: string
  xi_productive_adapter_enabled :: bool

definition intent_to_dict :: "exit_intent \<Rightarrow> json" where
  "intent_to_dict i = JObj
     [(''schema_version'', JStr (xi_schema_version i)),
      (''intent_id'', JStr (xi_intent_id i)),
      (''protection_event_id'', JStr (xi_protection_event_id i)),
      (''trigger_contract_version'', JStr (xi_trigger_contract_version i)),
      (''symbol'', JStr (xi_symbol i)),
      (''side'', JStr (xi_side i)),
      (''quantity'', JStr (dec_str (xi_quantity i))),
      (''reduce_only'', JBool (xi_reduce_only i)),
      (''intent_kind'', JStr (xi_intent_kind i)),
      (''stop_price'', JStr (dec_str (xi_stop_price i))),
      (''observed_price'', JStr (dec_str (xi_observed_price i))),
      (''position_side'', JStr (side_str (xi_position_side i))),
      (''position_quantity'', JStr (dec_str (xi_position_quantity i))),
      (''created_at_ms'', JInt (xi_created_at_ms i)),
      (''dispatch_state'', JStr (xi_dispatch_state i)),
      (''productive_adapter_enabled'', JBool (xi_productive_adapter_enabled i))]"

definition intent_identity :: "string \<Rightarrow> string \<Rightarrow> string \<Rightarrow> decimal \<Rightarrow> json" where
  "intent_identity event_id symbol side quantity = JObj
     [(''schema_version'', JStr EXIT_INTENT_SCHEMA_VERSION),
      (''protection_event_id'', JStr event_id),
      (''symbol'', JStr symbol),
      (''side'', JStr side),
      (''quantity'', JStr (dec_str quantity))]"

text \<open>The optional \<open>quantity\<close> argument is untyped at run time: \<open>None\<close> asks for the whole position.\<close>

definition build_exit_intent_v1 ::
  "(string \<Rightarrow> string) \<Rightarrow> protection_event \<Rightarrow> int \<Rightarrow> pyval \<Rightarrow> py_exc + exit_intent" where
  "build_exit_intent_v1 sha event created_at_ms quantity =
     (case exit_side_for (ev_position_side event) of
        None \<Rightarrow> Inl contract_error
      | Some exit_side \<Rightarrow>
        let position_quantity = ev_position_quantity event in
        ebind (dec_le_r position_quantity dec_zero) (\<lambda>nonpos. if nonpos then Inl contract_error
        else case (if quantity = VNone then VDec position_quantity else quantity) of
          VDec exit_quantity \<Rightarrow>
            ebind (dec_le_r exit_quantity dec_zero) (\<lambda>nonpos. if nonpos then Inl contract_error
            else ebind (dec_lt_r position_quantity exit_quantity) (\<lambda>more. if more then Inl contract_error
            else Inr
              \<lparr>xi_schema_version = EXIT_INTENT_SCHEMA_VERSION,
               xi_intent_id = ''slx-'' @ take 32 (canonical_hash sha
                 (intent_identity (ev_event_id event) (ev_symbol event) exit_side exit_quantity)),
               xi_protection_event_id = ev_event_id event,
               xi_trigger_contract_version = ev_contract_version event,
               xi_symbol = ev_symbol event,
               xi_side = exit_side,
               xi_quantity = exit_quantity,
               xi_reduce_only = True,
               xi_intent_kind = INTENT_KIND_PROTECTIVE_EXIT,
               xi_stop_price = ev_stop_price event,
               xi_observed_price = ev_observed_price event,
               xi_position_side = ev_position_side event,
               xi_position_quantity = position_quantity,
               xi_created_at_ms = created_at_ms,
               xi_dispatch_state = DISPATCH_STATE_NOT_DISPATCHED,
               xi_productive_adapter_enabled = False\<rparr>))
        | _ \<Rightarrow> Inl contract_error))"

subsection \<open>Sinks\<close>

record recording_sink =
  rs_intents :: "exit_intent list"

definition recording_accept :: "recording_sink \<Rightarrow> exit_intent \<Rightarrow> recording_sink \<times> py_exc option" where
  "recording_accept s i = (s\<lparr>rs_intents := rs_intents s @ [i]\<rparr>, None)"

definition recording_intent_ids :: "recording_sink \<Rightarrow> string list" where
  "recording_intent_ids s = map xi_intent_id (rs_intents s)"

definition disabled_accept :: "'k \<Rightarrow> exit_intent \<Rightarrow> 'k \<times> py_exc option" where
  "disabled_accept s i = (s, Some contract_error)"

subsection \<open>What an intent can do to a position\<close>

lemma build_exit_intentE:
  assumes "build_exit_intent_v1 sha ev t q = Inr i"
  obtains exit_quantity where
    "exit_side_for (ev_position_side ev) = Some (xi_side i)"
    "ev_position_quantity ev \<noteq> DNaN" "\<not> dec_le (ev_position_quantity ev) dec_zero"
    "(if q = VNone then VDec (ev_position_quantity ev) else q) = VDec exit_quantity"
    "exit_quantity \<noteq> DNaN" "\<not> dec_le exit_quantity dec_zero" "\<not> dec_lt (ev_position_quantity ev) exit_quantity"
    "xi_quantity i = exit_quantity" "xi_symbol i = ev_symbol ev" "xi_reduce_only i"
    "xi_protection_event_id i = ev_event_id ev" "xi_position_quantity i = ev_position_quantity ev"
    "xi_dispatch_state i = DISPATCH_STATE_NOT_DISPATCHED" "\<not> xi_productive_adapter_enabled i"
    "xi_position_side i = ev_position_side ev"
    "xi_intent_id i = ''slx-'' @ take 32 (canonical_hash sha
       (intent_identity (ev_event_id ev) (ev_symbol ev) (xi_side i) (xi_quantity i)))"
proof (cases "exit_side_for (ev_position_side ev)")
  case None
  with assms show ?thesis by (simp add: build_exit_intent_v1_def)
next
  case (Some side)
  note D = build_exit_intent_v1_def Let_def ebind_eq_Inr dec_cmp_r_Inr
  have pq: "ev_position_quantity ev \<noteq> DNaN" "\<not> dec_le (ev_position_quantity ev) dec_zero"
    using assms Some by (auto simp: D)
  then have le: "dec_le_r (ev_position_quantity ev) dec_zero = Inr False" by (simp add: dec_cmp_r_Inr)
  obtain x where x: "(if q = VNone then VDec (ev_position_quantity ev) else q) = VDec x"
    using assms Some le
    by (cases "if q = VNone then VDec (ev_position_quantity ev) else q" rule: pyval.exhaust)
      (simp_all add: build_exit_intent_v1_def Let_def)
  have "x \<noteq> DNaN" "\<not> dec_le x dec_zero" "\<not> dec_lt (ev_position_quantity ev) x"
    using assms Some le x by (auto simp: D split: if_splits)
  then show ?thesis using assms Some pq x by (intro that[of x]) (auto simp: D)
qed

abbreviation sample_event :: protection_event where
  "sample_event \<equiv> \<lparr>ev_event_id = ''slp-1'', ev_fingerprint = ''f'', ev_contract_version = STOP_LOSS_TRIGGER_CONTRACT_VERSION,
     ev_symbol = ''BTCUSDT'', ev_position_id = ''pos-1'', ev_position_side = SHORT,
     ev_position_quantity = DFin False 200000000 (- 8), ev_entry_price = DFin False 100 0,
     ev_stop_price = DFin False 103 0, ev_stop_loss_pct = DFin False 3 (- 2), ev_observed_price = DFin False 104 0,
     ev_observed_at_ms = 1000, ev_price_source = ''tick'', ev_position_opened_at_ms = None\<rparr>"

text \<open>The signed position after the exit order is filled completely.\<close>

definition signed_position :: "position_side \<Rightarrow> decimal \<Rightarrow> rat" where
  "signed_position s q = (case s of LONG \<Rightarrow> dec_val q | SHORT \<Rightarrow> - dec_val q | _ \<Rightarrow> 0)"

definition signed_order :: "string \<Rightarrow> decimal \<Rightarrow> rat" where
  "signed_order side q = (if side = ''BUY'' then dec_val q else - dec_val q)"

text \<open>
  An exit intent only reduces. Whatever quantity is asked for, an intent that is built is
  reduce-only and undispatched, and filling it moves the signed position towards zero without
  crossing it; any other request (no reducing side, a non-decimal, non-positive or larger
  quantity) is refused.
\<close>

theorem exit_intent_reduces:
  assumes "build_exit_intent_v1 sha ev t q = Inr i" "is_finite (ev_position_quantity ev)"
  shows "xi_reduce_only i \<and> \<not> xi_productive_adapter_enabled i
    \<and> xi_dispatch_state i = DISPATCH_STATE_NOT_DISPATCHED
    \<and> (let before = signed_position (ev_position_side ev) (ev_position_quantity ev);
          after = before + signed_order (xi_side i) (xi_quantity i)
       in \<bar>after\<bar> < \<bar>before\<bar> \<and> 0 \<le> before * after)"
  using assms(1)
proof (rule build_exit_intentE)
  fix x assume E: "exit_side_for (ev_position_side ev) = Some (xi_side i)"
    "\<not> dec_le (ev_position_quantity ev) dec_zero"
    "x \<noteq> DNaN" "\<not> dec_le x dec_zero" "\<not> dec_lt (ev_position_quantity ev) x"
    "xi_quantity i = x" "xi_reduce_only i" "xi_dispatch_state i = DISPATCH_STATE_NOT_DISPATCHED"
    "\<not> xi_productive_adapter_enabled i"
  have fin: "is_finite x"
    using E(3-5) assms(2) by (cases x; cases "ev_position_quantity ev") (auto simp: dec_lt_def)
  have v: "0 < dec_val x" "dec_val x \<le> dec_val (ev_position_quantity ev)"
    using E(4,5) assms(2) fin by (simp_all add: not_dec_le_pos fin_lt_val)
  show ?thesis
    using E(1) v E(7-9)
    by (cases "ev_position_side ev")
      (auto simp: exit_side_for_def signed_position_def signed_order_def E(6) Let_def zero_le_mult_iff)
qed

theorem exit_intent_reduces_witness:
  "\<exists>i. build_exit_intent_v1 (\<lambda>s. s) sample_event 1500 (VDec (DFin False 1 0)) = Inr i \<and> xi_reduce_only i
    \<and> xi_side i = ''BUY''"
proof -
  have "\<exists>i. build_exit_intent_v1 (\<lambda>s. s) sample_event 1500 (VDec (DFin False 1 0)) = Inr i \<and> xi_side i = ''BUY''"
    by (simp add: build_exit_intent_v1_def exit_side_for_def Let_def dec_val_pos_form)
  then obtain i where i: "build_exit_intent_v1 (\<lambda>s. s) sample_event 1500 (VDec (DFin False 1 0)) = Inr i"
    "xi_side i = ''BUY''" by blast
  from exit_intent_reduces[OF i(1)] i show ?thesis by auto
qed

end
