(* ===== verification/StopLossDedup.thy ===== *)
theory StopLossDedup
  imports StopLossExitIntent
begin

text \<open>
  The restart-safe dedup state, \<open>core/safety/stop_loss/dedup_state.py\<close>: the record with its
  strict reading from JSON, the in-memory store and the file store. The interface the consumer
  relies on is the locale \<open>dedup_store\<close>; both stores are interpretations of it.

  The file is modelled by what \<open>_read\<close> can find in it, with the parsed JSON value (numbers
  with a fraction are not among the values). Each write may fail, as the list \<open>fs_faults\<close>
  says; a failed write leaves the file as it was, because only the rename changes it.
\<close>

subsection \<open>str() of a JSON value\<close>

definition repr_char :: "char \<Rightarrow> char \<Rightarrow> string" where
  "repr_char quote c = (let n = (of_char c :: nat) in
     if c = quote \<or> n = 92 then [CHR 0x5C, c]
     else if n = 10 then [CHR 0x5C, CHR ''n''] else if n = 13 then [CHR 0x5C, CHR ''r'']
     else if n = 9 then [CHR 0x5C, CHR ''t'']
     else if n < 32 \<or> (127 \<le> n \<and> n \<le> 160) \<or> n = 173
       then [CHR 0x5C, CHR ''x'', hex_digit (n div 16), hex_digit (n mod 16)]
     else [c])"

definition repr_str :: "string \<Rightarrow> string" where
  "repr_str s = (let quote = (if CHR 0x27 \<in> set s \<and> CHR 0x22 \<notin> set s then CHR 0x22 else CHR 0x27) in
     quote # concat (map (repr_char quote) s) @ [quote])"

fun py_repr :: "json \<Rightarrow> string"
  and py_repr_elems :: "json list \<Rightarrow> string"
  and py_repr_members :: "(string \<times> json) list \<Rightarrow> string" where
  "py_repr JNull = ''None''"
| "py_repr (JBool b) = (if b then ''True'' else ''False'')"
| "py_repr (JInt i) = int_str i"
| "py_repr (JStr s) = repr_str s"
| "py_repr (JList xs) = ''['' @ py_repr_elems xs @ '']''"
| "py_repr (JObj ms) = ''{'' @ py_repr_members ms @ ''}''"
| "py_repr_elems [] = []"
| "py_repr_elems (x # xs) = py_repr x @ (if xs = [] then [] else '', '' @ py_repr_elems xs)"
| "py_repr_members [] = []"
| "py_repr_members ((k, x) # ms) =
     repr_str k @ '': '' @ py_repr x @ (if ms = [] then [] else '', '' @ py_repr_members ms)"

definition py_str :: "json \<Rightarrow> string" where
  "py_str j = (case j of JStr s \<Rightarrow> s | _ \<Rightarrow> py_repr j)"

definition json_truthy :: "json \<Rightarrow> bool" where
  "json_truthy j = (case j of JNull \<Rightarrow> False | JBool b \<Rightarrow> b | JInt i \<Rightarrow> i \<noteq> 0 | JStr s \<Rightarrow> s \<noteq> []
     | JList xs \<Rightarrow> xs \<noteq> [] | JObj ms \<Rightarrow> ms \<noteq> [])"

text \<open>\<open>payload.get(key)\<close>\<close>

definition jget :: "(string \<times> json) list \<Rightarrow> string \<Rightarrow> json" where
  "jget ms k = (case dget ms k of None \<Rightarrow> JNull | Some j \<Rightarrow> j)"

subsection \<open>Records\<close>

definition DEDUP_STATE_SCHEMA_VERSION :: string where
  "DEDUP_STATE_SCHEMA_VERSION = ''cdb-stop-loss-dedup-state/v1''"

definition REQUIRED_RECORD_FIELDS :: "string list" where
  "REQUIRED_RECORD_FIELDS = [''event_id'', ''fingerprint'', ''state'', ''symbol'', ''position_id'']"

datatype dedup_record_state = PREPARED | FINALIZED

definition dedup_state_value :: "dedup_record_state \<Rightarrow> string" where
  "dedup_state_value s = (case s of PREPARED \<Rightarrow> ''PREPARED'' | FINALIZED \<Rightarrow> ''FINALIZED'')"

text \<open>\<open>DedupRecordState(raw)\<close>; \<open>None\<close> is the \<open>ValueError\<close>.\<close>

definition dedup_state_of :: "json \<Rightarrow> dedup_record_state option" where
  "dedup_state_of j =
     (if j = JStr ''PREPARED'' then Some PREPARED else if j = JStr ''FINALIZED'' then Some FINALIZED else None)"

text \<open>What an operation of a store raises: its own error with a reason, or something else.\<close>

datatype store_exc = StateError stop_loss_reason | OtherExc py_exc

record dedup_record =
  dr_event_id :: string
  dr_fingerprint :: string
  dr_state :: dedup_record_state
  dr_symbol :: string
  dr_position_id :: string
  dr_prepared_at_ms :: int
  dr_intent_id :: json
  dr_finalized_at_ms :: "int option"

definition record_to_dict :: "dedup_record \<Rightarrow> json" where
  "record_to_dict r = JObj
     [(''event_id'', JStr (dr_event_id r)),
      (''fingerprint'', JStr (dr_fingerprint r)),
      (''state'', JStr (dedup_state_value (dr_state r))),
      (''symbol'', JStr (dr_symbol r)),
      (''position_id'', JStr (dr_position_id r)),
      (''prepared_at_ms'', JInt (dr_prepared_at_ms r)),
      (''intent_id'', dr_intent_id r),
      (''finalized_at_ms'', (case dr_finalized_at_ms r of None \<Rightarrow> JNull | Some t \<Rightarrow> JInt t))]"

definition record_from_dict :: "json \<Rightarrow> store_exc + dedup_record" where
  "record_from_dict payload =
     (case payload of
        JObj ms \<Rightarrow>
          if \<not> list_all (\<lambda>f. json_truthy (jget ms f)) REQUIRED_RECORD_FIELDS
          then Inl (StateError DEDUP_STATE_CORRUPT)
          else (case dedup_state_of (jget ms ''state'') of
            None \<Rightarrow> Inl (StateError DEDUP_STATE_CORRUPT)
          | Some state \<Rightarrow>
            (case jget ms ''prepared_at_ms'' of
              JInt prepared \<Rightarrow>
                (case (case jget ms ''finalized_at_ms'' of
                         JNull \<Rightarrow> Some None | JInt t \<Rightarrow> Some (Some t) | _ \<Rightarrow> None) of
                  None \<Rightarrow> Inl (StateError DEDUP_STATE_CORRUPT)
                | Some finalized \<Rightarrow>
                  if state = FINALIZED \<and> \<not> json_truthy (jget ms ''intent_id'')
                  then Inl (StateError DEDUP_STATE_CORRUPT)
                  else Inr \<lparr>dr_event_id = py_str (jget ms ''event_id''),
                    dr_fingerprint = py_str (jget ms ''fingerprint''),
                    dr_state = state,
                    dr_symbol = py_str (jget ms ''symbol''),
                    dr_position_id = py_str (jget ms ''position_id''),
                    dr_prepared_at_ms = prepared,
                    dr_intent_id = jget ms ''intent_id'',
                    dr_finalized_at_ms = finalized\<rparr>)
            | _ \<Rightarrow> Inl (StateError DEDUP_STATE_CORRUPT)))
      | _ \<Rightarrow> Inl (StateError DEDUP_STATE_CORRUPT))"

subsection \<open>In-memory store\<close>

record memory_store =
  ms_records :: "(string \<times> dedup_record) list"
  ms_initialized :: bool

definition memory_new :: "(string \<times> dedup_record) list option \<Rightarrow> memory_store" where
  "memory_new recs = \<lparr>ms_records = (case recs of None \<Rightarrow> [] | Some rs \<Rightarrow> rs), ms_initialized = (recs \<noteq> None)\<rparr>"

definition memory_initialize :: "memory_store \<Rightarrow> memory_store" where
  "memory_initialize s = s\<lparr>ms_initialized := True\<rparr>"

definition memory_load :: "memory_store \<Rightarrow> string \<Rightarrow> store_exc + dedup_record option" where
  "memory_load s event_id =
     (if \<not> ms_initialized s then Inl (StateError DEDUP_STATE_MISSING) else Inr (dget (ms_records s) event_id))"

definition memory_prepare :: "memory_store \<Rightarrow> dedup_record \<Rightarrow> memory_store \<times> store_exc option" where
  "memory_prepare s r =
     (s\<lparr>ms_records := dset (dr_event_id r) (r\<lparr>dr_state := PREPARED\<rparr>) (ms_records s)\<rparr>, None)"

definition memory_finalize :: "memory_store \<Rightarrow> dedup_record \<Rightarrow> memory_store \<times> store_exc option" where
  "memory_finalize s r =
     (s\<lparr>ms_records := dset (dr_event_id r) (r\<lparr>dr_state := FINALIZED\<rparr>) (ms_records s)\<rparr>, None)"

subsection \<open>File store\<close>

datatype file_content = Missing | Unreadable | Undecodable | Blank | NotJson | Holds json

record file_store =
  fs_content :: file_content
  fs_faults :: "bool list"

definition file_read :: "file_store \<Rightarrow> store_exc + (string \<times> json) list" where
  "file_read s =
     (case fs_content s of
        Missing \<Rightarrow> Inl (StateError DEDUP_STATE_MISSING)
      | Unreadable \<Rightarrow> Inl (StateError DEDUP_STATE_CORRUPT)
      | Undecodable \<Rightarrow> Inl (OtherExc (ValueError ''UnicodeDecodeError''))
      | Blank \<Rightarrow> Inl (StateError DEDUP_STATE_CORRUPT)
      | NotJson \<Rightarrow> Inl (StateError DEDUP_STATE_CORRUPT)
      | Holds payload \<Rightarrow>
          (case payload of
             JObj ms \<Rightarrow>
               if jget ms ''schema_version'' \<noteq> JStr DEDUP_STATE_SCHEMA_VERSION
               then Inl (StateError DEDUP_STATE_CORRUPT)
               else (case jget ms ''records'' of
                   JObj records \<Rightarrow> Inr records
                 | _ \<Rightarrow> Inl (StateError DEDUP_STATE_CORRUPT))
           | _ \<Rightarrow> Inl (StateError DEDUP_STATE_CORRUPT)))"

definition file_write :: "file_store \<Rightarrow> (string \<times> json) list \<Rightarrow> file_store \<times> store_exc option" where
  "file_write s records =
     (let payload = JObj [(''schema_version'', JStr DEDUP_STATE_SCHEMA_VERSION), (''records'', JObj records)];
          ok = (case fs_faults s of [] \<Rightarrow> True | f # _ \<Rightarrow> \<not> f);
          s' = s\<lparr>fs_faults := tl (fs_faults s)\<rparr>
      in if ok then (s'\<lparr>fs_content := Holds (jsort payload)\<rparr>, None)
         else (s', Some (StateError DEDUP_PREPARE_FAILED)))"

text \<open>\<open>mkdir_fails\<close>: whether creating the parent directory raises.\<close>

definition file_initialize :: "bool \<Rightarrow> file_store \<Rightarrow> file_store \<times> store_exc option" where
  "file_initialize mkdir_fails s =
     (if fs_content s \<noteq> Missing then
        (s, case file_read s of Inl e \<Rightarrow> Some e | Inr _ \<Rightarrow> None)
      else if mkdir_fails then (s, Some (OtherExc OSError))
      else file_write s [])"

definition file_load :: "file_store \<Rightarrow> string \<Rightarrow> store_exc + dedup_record option" where
  "file_load s event_id =
     ebind (file_read s) (\<lambda>records.
       case jget records event_id of
         JNull \<Rightarrow> Inr None
       | raw \<Rightarrow> ebind (record_from_dict raw) (\<lambda>r.
           if dr_event_id r \<noteq> event_id then Inl (StateError DEDUP_STATE_CORRUPT) else Inr (Some r)))"

definition file_upsert :: "file_store \<Rightarrow> dedup_record \<Rightarrow> file_store \<times> store_exc option" where
  "file_upsert s r =
     (case file_read s of
        Inl e \<Rightarrow> (s, Some e)
      | Inr records \<Rightarrow> file_write s (dset (dr_event_id r) (record_to_dict r) records))"

definition file_prepare :: "file_store \<Rightarrow> dedup_record \<Rightarrow> file_store \<times> store_exc option" where
  "file_prepare s r = file_upsert s (r\<lparr>dr_state := PREPARED\<rparr>)"

definition file_finalize :: "file_store \<Rightarrow> dedup_record \<Rightarrow> file_store \<times> store_exc option" where
  "file_finalize s r = file_upsert s (r\<lparr>dr_state := FINALIZED\<rparr>)"

subsection \<open>The interface of a store\<close>

text \<open>
  What the consumer may rely on. \<open>seen\<close> events stay seen under every operation, successful
  or not; a successful \<open>prepare\<close> makes its event seen; no operation makes another event
  seen; and a record with all its fields is read back as it was written.
\<close>

definition storable :: "dedup_record \<Rightarrow> bool" where
  "storable r = (dr_event_id r \<noteq> [] \<and> dr_fingerprint r \<noteq> [] \<and> dr_symbol r \<noteq> [] \<and> dr_position_id r \<noteq> []
     \<and> (\<exists>i. dr_intent_id r = JStr i \<and> i \<noteq> []))"

locale dedup_store =
  fixes wf :: "'s \<Rightarrow> bool"
    and load :: "'s \<Rightarrow> string \<Rightarrow> store_exc + dedup_record option"
    and prepare :: "'s \<Rightarrow> dedup_record \<Rightarrow> 's \<times> store_exc option"
    and finalize :: "'s \<Rightarrow> dedup_record \<Rightarrow> 's \<times> store_exc option"
  assumes wf_prepare: "wf s \<Longrightarrow> wf (fst (prepare s r))"
    and wf_finalize: "wf s \<Longrightarrow> wf (fst (finalize s r))"
    and prepare_seen: "wf s \<Longrightarrow> snd (prepare s r) = None \<Longrightarrow> load (fst (prepare s r)) (dr_event_id r) \<noteq> Inr None"
    and prepare_keeps: "wf s \<Longrightarrow> load s e \<noteq> Inr None \<Longrightarrow> load (fst (prepare s r)) e \<noteq> Inr None"
    and finalize_keeps: "wf s \<Longrightarrow> load s e \<noteq> Inr None \<Longrightarrow> load (fst (finalize s r)) e \<noteq> Inr None"
    and prepare_others: "wf s \<Longrightarrow> load s e = Inr None \<Longrightarrow> e \<noteq> dr_event_id r \<Longrightarrow> load (fst (prepare s r)) e = Inr None"
    and finalize_others: "wf s \<Longrightarrow> load s e = Inr None \<Longrightarrow> e \<noteq> dr_event_id r \<Longrightarrow> load (fst (finalize s r)) e = Inr None"
    and prepare_load: "wf s \<Longrightarrow> storable r \<Longrightarrow> load s (dr_event_id r) = Inr q \<Longrightarrow> snd (prepare s r) = None
          \<Longrightarrow> load (fst (prepare s r)) (dr_event_id r) = Inr (Some (r\<lparr>dr_state := PREPARED\<rparr>))"
    and finalize_load: "wf s \<Longrightarrow> storable r \<Longrightarrow> load s (dr_event_id r) = Inr q \<Longrightarrow> snd (finalize s r) = None
          \<Longrightarrow> load (fst (finalize s r)) (dr_event_id r) = Inr (Some (r\<lparr>dr_state := FINALIZED\<rparr>))"

interpretation memory_dedup: dedup_store "\<lambda>_. True" memory_load memory_prepare memory_finalize
  by unfold_locales (auto simp: memory_load_def memory_prepare_def memory_finalize_def split: if_splits)

subsection \<open>What the file store reads back\<close>

lemma jsort_eq_JNull [simp]: "jsort x = JNull \<longleftrightarrow> x = JNull"
  by (cases x) simp_all

lemma map_of_sort: "distinct (map fst xs) \<Longrightarrow> map_of (sort_key fst xs) = map_of xs"
  by (subst map_of_inject_set) (simp_all add: distinct_map)

lemma jget_sorted:
  "distinct (map fst ms) \<Longrightarrow> jget (sort_key fst (map (map_prod id jsort) ms)) k = jsort (jget ms k)"
proof -
  assume d: "distinct (map fst ms)"
  have "map fst (map (map_prod id jsort) ms) = map fst ms" by simp
  with d have "distinct (map fst (map (map_prod id jsort) ms))" by (simp only:)
  moreover have "map_of (map (map_prod id jsort) ms) k = map_option jsort (map_of ms k)"
    by (induction ms) auto
  ultimately show ?thesis by (simp add: jget_def map_of_sort split: option.splits)
qed

lemma distinct_sorted_members:
  "distinct (map fst ms) \<Longrightarrow> distinct (map fst (sort_key fst (map (map_prod id jsort) ms)))"
proof -
  assume d: "distinct (map fst ms)"
  have "map fst (map (map_prod id jsort) ms) = map fst ms" by simp
  with d have "distinct (map fst (map (map_prod id jsort) ms))" by (simp only:)
  then show ?thesis by (simp only: distinct_map distinct_sort set_sort)
qed

definition file_wf :: "file_store \<Rightarrow> bool" where
  "file_wf s = (\<forall>records. file_read s = Inr records \<longrightarrow> distinct (map fst records))"

lemma file_read_write:
  "snd (file_write s rs) = None \<Longrightarrow> file_read (fst (file_write s rs)) = Inr (sort_key fst (map (map_prod id jsort) rs))"
  "snd (file_write s rs) \<noteq> None \<Longrightarrow> file_read (fst (file_write s rs)) = file_read s"
  by (auto simp: file_write_def file_read_def Let_def jget_def list_less_def split: list.splits if_splits)

lemma file_load_None: "file_load s e = Inr None \<longleftrightarrow> (\<exists>rs. file_read s = Inr rs \<and> jget rs e = JNull)"
  by (cases "file_read s") (auto simp: file_load_def ebind_eq_Inr split: json.splits if_splits)

lemma file_upsert_cases:
  assumes "file_wf s"
  obtains (ok) rs where "file_read s = Inr rs" "snd (file_upsert s r) = None" "distinct (map fst rs)"
      "distinct (map fst (dset (dr_event_id r) (record_to_dict r) rs))"
      "file_read (fst (file_upsert s r))
        = Inr (sort_key fst (map (map_prod id jsort) (dset (dr_event_id r) (record_to_dict r) rs)))"
    | (failed) "snd (file_upsert s r) \<noteq> None" "file_read (fst (file_upsert s r)) = file_read s"
proof (cases "file_read s")
  case (Inl e)
  then show ?thesis by (intro failed) (simp_all add: file_upsert_def)
next
  case (Inr rs)
  with assms have d: "distinct (map fst rs)" by (simp add: file_wf_def)
  let ?w = "file_write s (dset (dr_event_id r) (record_to_dict r) rs)"
  have u: "file_upsert s r = ?w" by (simp add: file_upsert_def Inr)
  show ?thesis
  proof (cases "snd ?w = None")
    case True
    with Inr d u show ?thesis by (intro ok[of rs]) (simp_all only: file_read_write distinct_dset)
  next
    case False
    with u show ?thesis by (intro failed) (simp_all only: file_read_write not_False_eq_True)
  qed
qed

lemma jget_dset: "jget (dset k v d) e = (if e = k then v else jget d e)"
  by (simp add: jget_def)

lemma record_roundtrip:
  assumes "storable r"
  shows "record_from_dict (jsort (record_to_dict r)) = Inr r"
proof -
  let ?ms = "case record_to_dict r of JObj ms \<Rightarrow> ms | _ \<Rightarrow> []"
  have d: "distinct (map fst ?ms)" by (simp add: record_to_dict_def)
  have j: "jsort (record_to_dict r) = JObj (sort_key fst (map (map_prod id jsort) ?ms))"
    by (simp add: record_to_dict_def del: sort_key_simps)
  obtain i where i: "dr_intent_id r = JStr i" "i \<noteq> []" using assms by (auto simp: storable_def)
  show ?thesis
    using assms i unfolding j
    by (simp only: record_from_dict_def json.case jget_sorted[OF d])
      (simp add: record_to_dict_def jget_def REQUIRED_RECORD_FIELDS_def json_truthy_def storable_def
        dedup_state_of_def dedup_state_value_def py_str_def split: dedup_record_state.splits option.splits)
qed

lemma record_to_dict_not_null [simp]: "record_to_dict r \<noteq> JNull" "jsort (record_to_dict r) \<noteq> JNull"
  by (simp_all add: record_to_dict_def)

lemma file_upsert_wf: "file_wf s \<Longrightarrow> file_wf (fst (file_upsert s r))"
  by (cases rule: file_upsert_cases[where s = s and r = r])
    (auto simp only: file_wf_def sum.inject distinct_sorted_members)

lemma file_upsert_load:
  assumes "file_wf s"
  shows "snd (file_upsert s r) = None \<Longrightarrow> file_load (fst (file_upsert s r)) (dr_event_id r) \<noteq> Inr None"
    and "file_load s e \<noteq> Inr None \<Longrightarrow> file_load (fst (file_upsert s r)) e \<noteq> Inr None"
    and "file_load s e = Inr None \<Longrightarrow> e \<noteq> dr_event_id r \<Longrightarrow> file_load (fst (file_upsert s r)) e = Inr None"
    and "storable r \<Longrightarrow> snd (file_upsert s r) = None
      \<Longrightarrow> file_load (fst (file_upsert s r)) (dr_event_id r) = Inr (Some r)"
proof -
  consider (ok) rs where "file_read s = Inr rs" "snd (file_upsert s r) = None"
      "\<And>k. file_load (fst (file_upsert s r)) k = Inr None \<longleftrightarrow> jsort (jget (dset (dr_event_id r) (record_to_dict r) rs) k) = JNull"
      "jget (sort_key fst (map (map_prod id jsort) (dset (dr_event_id r) (record_to_dict r) rs))) (dr_event_id r) = jsort (record_to_dict r)"
      "file_read (fst (file_upsert s r))
        = Inr (sort_key fst (map (map_prod id jsort) (dset (dr_event_id r) (record_to_dict r) rs)))"
    | (failed) "snd (file_upsert s r) \<noteq> None" "file_read (fst (file_upsert s r)) = file_read s"
  proof (cases rule: file_upsert_cases[OF assms, where r = r])
    case (1 rs)
    then show ?thesis by (intro that(1)[of rs]) (simp_all only: file_load_None sum.inject jget_sorted jget_dset
          if_True ex_simps simp_thms)
  next
    case 2
    then show ?thesis by (rule that(2))
  qed
  note cases = this
  show "snd (file_upsert s r) = None \<Longrightarrow> file_load (fst (file_upsert s r)) (dr_event_id r) \<noteq> Inr None"
    using cases by cases (simp_all add: jget_dset)
  show "file_load s e \<noteq> Inr None \<Longrightarrow> file_load (fst (file_upsert s r)) e \<noteq> Inr None"
    using cases by cases (auto simp: jget_dset file_load_None)
  show "file_load s e = Inr None \<Longrightarrow> e \<noteq> dr_event_id r \<Longrightarrow> file_load (fst (file_upsert s r)) e = Inr None"
    using cases by cases (auto simp: jget_dset file_load_None)
  show "storable r \<Longrightarrow> snd (file_upsert s r) = None
      \<Longrightarrow> file_load (fst (file_upsert s r)) (dr_event_id r) = Inr (Some r)"
    using cases
  proof cases
    case (ok rs)
    assume st: "storable r"
    have "jsort (record_to_dict r) = JObj ms \<Longrightarrow> record_from_dict (JObj ms) = Inr r" for ms
      using record_roundtrip[OF st] by simp
    then show ?thesis
      unfolding file_load_def ok(5) ebind_Inr ok(4) by (simp add: record_to_dict_def del: sort_key_simps)
  qed simp
qed

interpretation file_dedup: dedup_store file_wf file_load file_prepare file_finalize
proof unfold_locales
  fix s r e q
  assume wf: "file_wf s"
  show "file_wf (fst (file_prepare s r))" "file_wf (fst (file_finalize s r))"
    unfolding file_prepare_def file_finalize_def by (simp_all only: file_upsert_wf wf)
  note L = file_upsert_load[OF wf, where r = "r\<lparr>dr_state := PREPARED\<rparr>"] and L' = file_upsert_load[OF wf, where r = "r\<lparr>dr_state := FINALIZED\<rparr>"]
  show "snd (file_prepare s r) = None \<Longrightarrow> file_load (fst (file_prepare s r)) (dr_event_id r) \<noteq> Inr None"
    using L(1) by (simp add: file_prepare_def)
  show "file_load s e \<noteq> Inr None \<Longrightarrow> file_load (fst (file_prepare s r)) e \<noteq> Inr None"
    "file_load s e \<noteq> Inr None \<Longrightarrow> file_load (fst (file_finalize s r)) e \<noteq> Inr None"
    unfolding file_prepare_def file_finalize_def by (fact L(2) L'(2))+
  show "file_load s e = Inr None \<Longrightarrow> e \<noteq> dr_event_id r \<Longrightarrow> file_load (fst (file_prepare s r)) e = Inr None"
    "file_load s e = Inr None \<Longrightarrow> e \<noteq> dr_event_id r \<Longrightarrow> file_load (fst (file_finalize s r)) e = Inr None"
    using L(3)[of e] L'(3)[of e] by (simp_all add: file_prepare_def file_finalize_def)
  assume "storable r"
  then have st: "storable (r\<lparr>dr_state := x\<rparr>)" for x by (simp add: storable_def)
  show "snd (file_prepare s r) = None \<Longrightarrow>
      file_load (fst (file_prepare s r)) (dr_event_id r) = Inr (Some (r\<lparr>dr_state := PREPARED\<rparr>))"
    "snd (file_finalize s r) = None \<Longrightarrow>
      file_load (fst (file_finalize s r)) (dr_event_id r) = Inr (Some (r\<lparr>dr_state := FINALIZED\<rparr>))"
    using L(4)[OF st] L'(4)[OF st] by (simp_all add: file_prepare_def file_finalize_def)
qed

text \<open>What a record needs to be read back: the required texts are not empty, a finalized one names its
  intent, and the intent is of its declared type \<open>Optional[str]\<close>.\<close>

definition accepted_back :: "dedup_record \<Rightarrow> bool" where
  "accepted_back r \<longleftrightarrow> dr_event_id r \<noteq> [] \<and> dr_fingerprint r \<noteq> [] \<and> dr_symbol r \<noteq> [] \<and> dr_position_id r \<noteq> []
     \<and> (dr_state r = FINALIZED \<longrightarrow> json_truthy (dr_intent_id r))"

definition intent_is_text :: "dedup_record \<Rightarrow> bool" where
  "intent_is_text r \<longleftrightarrow> (case dr_intent_id r of JNull \<Rightarrow> True | JStr i \<Rightarrow> True | _ \<Rightarrow> False)"

lemma record_reads_back:
  assumes "intent_is_text r"
  shows "record_from_dict (jsort (record_to_dict r)) = (if accepted_back r then Inr r else Inl (StateError DEDUP_STATE_CORRUPT))"
proof -
  let ?ms = "case record_to_dict r of JObj ms \<Rightarrow> ms | _ \<Rightarrow> []"
  have d: "distinct (map fst ?ms)" by (simp add: record_to_dict_def)
  have j: "jsort (record_to_dict r) = JObj (sort_key fst (map (map_prod id jsort) ?ms))"
    by (simp add: record_to_dict_def del: sort_key_simps)
  have i: "jsort (dr_intent_id r) = dr_intent_id r" using assms by (cases "dr_intent_id r") (simp_all add: intent_is_text_def)
  show ?thesis
    unfolding j
    by (simp only: record_from_dict_def json.case jget_sorted[OF d])
      (cases "dr_state r"; cases "dr_finalized_at_ms r";
       simp add: record_to_dict_def jget_def REQUIRED_RECORD_FIELDS_def json_truthy_def accepted_back_def
        dedup_state_of_def dedup_state_value_def py_str_def i)
qed

lemma file_upsert_reads_back:
  assumes "file_wf s" "intent_is_text r" "snd (file_upsert s r) = None"
  shows "file_load (fst (file_upsert s r)) (dr_event_id r) =
    (if accepted_back r then Inr (Some r) else Inl (StateError DEDUP_STATE_CORRUPT))"
  using assms(1)
proof (cases rule: file_upsert_cases[where r = r])
  case (ok rs)
  have g: "jget (sort_key fst (map (map_prod id jsort) (dset (dr_event_id r) (record_to_dict r) rs))) (dr_event_id r) = jsort (record_to_dict r)"
    by (simp only: jget_sorted[OF ok(4)] jget_dset if_True simp_thms)
  obtain ms where m: "jsort (record_to_dict r) = JObj ms" by (simp add: record_to_dict_def del: sort_key_simps)
  show ?thesis
    unfolding file_load_def ok(5) ebind_Inr g using record_reads_back[OF assms(2)] by (simp add: m)
qed (use assms(3) in simp)

text \<open>
  C26. Dedup records survive a restart. Whatever the file held, after a \<open>prepare\<close> or \<open>finalize\<close> that
  reports success a later \<open>load\<close> of the event returns exactly the record in its new state, provided
  that its identifiers, fingerprint and symbol are not empty and, once finalized, it names its intent;
  any other record is written as well, but a later load of its event raises DEDUP_STATE_CORRUPT. An
  operation that raises has not changed what any load returns. The intent is a text or None, and no
  JSON object that is read has a key twice (\<open>file_wf\<close>), as after every parse.
\<close>

theorem file_store_roundtrip:
  assumes "file_wf s" "intent_is_text r"
  shows "(snd (file_prepare s r) = None \<longrightarrow>
        file_load (fst (file_prepare s r)) (dr_event_id r) =
          (if accepted_back (r\<lparr>dr_state := PREPARED\<rparr>) then Inr (Some (r\<lparr>dr_state := PREPARED\<rparr>))
           else Inl (StateError DEDUP_STATE_CORRUPT)))
    \<and> (snd (file_finalize s r) = None \<longrightarrow>
        file_load (fst (file_finalize s r)) (dr_event_id r) =
          (if accepted_back (r\<lparr>dr_state := FINALIZED\<rparr>) then Inr (Some (r\<lparr>dr_state := FINALIZED\<rparr>))
           else Inl (StateError DEDUP_STATE_CORRUPT)))
    \<and> (snd (file_prepare s r) \<noteq> None \<longrightarrow> (\<forall>e. file_load (fst (file_prepare s r)) e = file_load s e))
    \<and> (snd (file_finalize s r) \<noteq> None \<longrightarrow> (\<forall>e. file_load (fst (file_finalize s r)) e = file_load s e))"
proof -
  have st: "intent_is_text (r\<lparr>dr_state := x\<rparr>)" for x using assms(2) by (simp add: intent_is_text_def)
  have keep: "snd (file_upsert s q) \<noteq> None \<Longrightarrow> file_load (fst (file_upsert s q)) e = file_load s e" for q e
    by (cases rule: file_upsert_cases[OF assms(1), where r = q]) (simp_all add: file_load_def)
  show ?thesis
    using file_upsert_reads_back[OF assms(1) st] keep by (simp add: file_prepare_def file_finalize_def)
qed

abbreviation sample_record :: dedup_record where
  "sample_record \<equiv> \<lparr>dr_event_id = ''slp-1'', dr_fingerprint = ''f'', dr_state = PREPARED, dr_symbol = ''BTCUSDT'',
     dr_position_id = ''pos-1'', dr_prepared_at_ms = 1500, dr_intent_id = JStr ''slx-1'', dr_finalized_at_ms = None\<rparr>"

lemma fresh_file_wf: "file_wf (fst (file_initialize False \<lparr>fs_content = Missing, fs_faults = fl\<rparr>))"
  using file_read_write(1)[of "\<lparr>fs_content = Missing, fs_faults = fl\<rparr>" "[]"]
    file_read_write(2)[of "\<lparr>fs_content = Missing, fs_faults = fl\<rparr>" "[]"]
  by (cases "snd (file_write \<lparr>fs_content = Missing, fs_faults = fl\<rparr> [])")
    (simp_all add: file_wf_def file_initialize_def file_read_def)

theorem file_store_roundtrip_witness:
  "let s = fst (file_initialize False \<lparr>fs_content = Missing, fs_faults = [False, True]\<rparr>) in
     file_load (fst (file_finalize s sample_record)) ''slp-1'' = file_load s ''slp-1''"
  using file_store_roundtrip[OF fresh_file_wf, of sample_record "[False, True]"]
  by (simp add: intent_is_text_def file_finalize_def file_upsert_def file_read_def file_initialize_def file_write_def
      Let_def jget_def list_less_def split: if_splits)

end
