(* ===== verification/StopLossConsumer.thy ===== *)
theory StopLossConsumer
  imports StopLossDedup
begin

text \<open>
  The stop-loss consumer and its replay harness, \<open>core/safety/stop_loss/consumer.py\<close> and
  \<open>shadow.py\<close>. The store and the sink are given by their operations; one \<open>consume\<close> returns the
  outcome with the new store and sink states, \<open>Inl\<close> only for an exception that leaves it.
  \<open>consumer_step\<close> adds what the process may also do: die between the durable effects of
  a cycle. A restarted consumer holds nothing but its arguments, so a run of the relation is a run
  over any number of restarts.
\<close>

subsection \<open>One cycle\<close>

datatype consume_decision = EXIT_INTENT_EMITTED | DUPLICATE_SUPPRESSED | CONSUME_NO_TRIGGER | CONSUME_BLOCKED

record consume_outcome =
  co_decision :: consume_decision
  co_reason :: stop_loss_reason
  co_event_id :: "string option"
  co_intent :: "exit_intent option"

definition consumer_blocked :: "stop_loss_reason \<Rightarrow> protection_event \<Rightarrow> consume_outcome" where
  "consumer_blocked reason event =
     \<lparr>co_decision = CONSUME_BLOCKED, co_reason = reason, co_event_id = Some (ev_event_id event), co_intent = None\<rparr>"

definition evaluate_stored_record :: "dedup_record \<Rightarrow> protection_event \<Rightarrow> consume_outcome" where
  "evaluate_stored_record stored event =
     (if dr_fingerprint stored \<noteq> ev_fingerprint event then consumer_blocked DEDUP_STATE_CONTRADICTORY event
      else if dr_state stored = PREPARED then consumer_blocked PREPARE_INCOMPLETE event
      else \<lparr>co_decision = DUPLICATE_SUPPRESSED, co_reason = R_DUPLICATE_SUPPRESSED,
            co_event_id = Some (ev_event_id event), co_intent = None\<rparr>)"

definition prepared_record :: "protection_event \<Rightarrow> exit_intent \<Rightarrow> int \<Rightarrow> dedup_record" where
  "prepared_record event intent now_ms =
     \<lparr>dr_event_id = ev_event_id event, dr_fingerprint = ev_fingerprint event, dr_state = PREPARED,
      dr_symbol = ev_symbol event, dr_position_id = ev_position_id event, dr_prepared_at_ms = now_ms,
      dr_intent_id = JStr (xi_intent_id intent), dr_finalized_at_ms = None\<rparr>"

definition finalized_record :: "dedup_record \<Rightarrow> exit_intent \<Rightarrow> int \<Rightarrow> dedup_record" where
  "finalized_record r intent now_ms =
     r\<lparr>dr_state := FINALIZED, dr_intent_id := JStr (xi_intent_id intent), dr_finalized_at_ms := Some now_ms\<rparr>"

text \<open>Prepare, hand over, finalize; \<open>build_exit_intent_v1\<close> raises other errors than its own
  only for a NaN, and those are not handled.\<close>

definition emit_exit_intent ::
  "(string \<Rightarrow> string) \<Rightarrow> ('s \<Rightarrow> dedup_record \<Rightarrow> 's \<times> store_exc option) \<Rightarrow> ('s \<Rightarrow> dedup_record \<Rightarrow> 's \<times> store_exc option)
   \<Rightarrow> ('k \<Rightarrow> exit_intent \<Rightarrow> 'k \<times> py_exc option) \<Rightarrow> protection_event \<Rightarrow> int \<Rightarrow> 's \<Rightarrow> 'k
   \<Rightarrow> py_exc + consume_outcome \<times> 's \<times> 'k" where
  "emit_exit_intent sha prepare finalize accept event now_ms st sk =
     (case build_exit_intent_v1 sha event now_ms VNone of
        Inl e \<Rightarrow> if e = contract_error then Inr (consumer_blocked EXIT_INTENT_INVALID event, st, sk) else Inl e
      | Inr intent \<Rightarrow>
        let r = prepared_record event intent now_ms in
        case prepare st r of
          (st1, Some _) \<Rightarrow> Inr (consumer_blocked DEDUP_PREPARE_FAILED event, st1, sk)
        | (st1, None) \<Rightarrow>
          (case accept sk intent of
             (sk1, Some _) \<Rightarrow> Inr (consumer_blocked EXIT_INTENT_SINK_FAILED event, st1, sk1)
           | (sk1, None) \<Rightarrow>
             (case finalize st1 (finalized_record r intent now_ms) of
                (st2, Some _) \<Rightarrow>
                  Inr (\<lparr>co_decision = CONSUME_BLOCKED, co_reason = DEDUP_FINALIZE_FAILED,
                        co_event_id = Some (ev_event_id event), co_intent = Some intent\<rparr>, st2, sk1)
              | (st2, None) \<Rightarrow>
                  Inr (\<lparr>co_decision = EXIT_INTENT_EMITTED, co_reason = R_EXIT_INTENT_EMITTED,
                        co_event_id = Some (ev_event_id event), co_intent = Some intent\<rparr>, st2, sk1))))"

definition consume ::
  "(string \<Rightarrow> string) \<Rightarrow> ('s \<Rightarrow> string \<Rightarrow> store_exc + dedup_record option)
   \<Rightarrow> ('s \<Rightarrow> dedup_record \<Rightarrow> 's \<times> store_exc option) \<Rightarrow> ('s \<Rightarrow> dedup_record \<Rightarrow> 's \<times> store_exc option)
   \<Rightarrow> ('k \<Rightarrow> exit_intent \<Rightarrow> 'k \<times> py_exc option) \<Rightarrow> trigger_config \<Rightarrow> int
   \<Rightarrow> position_snapshot \<Rightarrow> price_observation \<Rightarrow> 's \<Rightarrow> 'k \<Rightarrow> py_exc + consume_outcome \<times> 's \<times> 'k" where
  "consume sha load prepare finalize accept cfg now_ms p obs st sk =
     ebind (evaluate_stop_loss_trigger sha p obs cfg now_ms) (\<lambda>trigger.
       if tr_decision trigger = BLOCKED then
         Inr (\<lparr>co_decision = CONSUME_BLOCKED, co_reason = tr_reason trigger, co_event_id = None, co_intent = None\<rparr>, st, sk)
       else if tr_decision trigger \<noteq> TRIGGERED then
         Inr (\<lparr>co_decision = CONSUME_NO_TRIGGER, co_reason = tr_reason trigger, co_event_id = None, co_intent = None\<rparr>, st, sk)
       else case tr_event trigger of
         None \<Rightarrow> Inl OtherError
       | Some event \<Rightarrow>
         (case load st (ev_event_id event) of
            Inl (StateError reason) \<Rightarrow> Inr (consumer_blocked reason event, st, sk)
          | Inl (OtherExc _) \<Rightarrow> Inr (consumer_blocked DEDUP_STATE_CORRUPT event, st, sk)
          | Inr (Some stored) \<Rightarrow> Inr (evaluate_stored_record stored event, st, sk)
          | Inr None \<Rightarrow> emit_exit_intent sha prepare finalize accept event now_ms st sk))"

subsection \<open>Runs with restarts and crashes\<close>

text \<open>Everything handed to the sink is logged beside it, accepted or not.\<close>

definition logged_accept ::
  "('k \<Rightarrow> exit_intent \<Rightarrow> 'k \<times> py_exc option) \<Rightarrow> 'k \<times> exit_intent list \<Rightarrow> exit_intent
   \<Rightarrow> ('k \<times> exit_intent list) \<times> py_exc option" where
  "logged_accept accept w i = (case accept (fst w) i of (k, e) \<Rightarrow> ((k, snd w @ [i]), e))"

inductive consumer_step ::
  "(string \<Rightarrow> string) \<Rightarrow> ('s \<Rightarrow> string \<Rightarrow> store_exc + dedup_record option)
   \<Rightarrow> ('s \<Rightarrow> dedup_record \<Rightarrow> 's \<times> store_exc option) \<Rightarrow> ('s \<Rightarrow> dedup_record \<Rightarrow> 's \<times> store_exc option)
   \<Rightarrow> ('k \<Rightarrow> exit_intent \<Rightarrow> 'k \<times> py_exc option) \<Rightarrow> 's \<times> 'k \<times> exit_intent list \<Rightarrow> 's \<times> 'k \<times> exit_intent list \<Rightarrow> bool"
  for sha load prepare finalize accept where
  cycle: "consume sha load prepare finalize (logged_accept accept) cfg now_ms p obs st (sk, lg) = Inr (out, st', (sk', lg'))
    \<Longrightarrow> consumer_step sha load prepare finalize accept (st, sk, lg) (st', sk', lg')"
| crash_prepared: "evaluate_stop_loss_trigger sha p obs cfg now_ms = Inr tr \<Longrightarrow> tr_event tr = Some ev
    \<Longrightarrow> load st (ev_event_id ev) = Inr None \<Longrightarrow> build_exit_intent_v1 sha ev now_ms VNone = Inr i
    \<Longrightarrow> prepare st (prepared_record ev i now_ms) = (st', None)
    \<Longrightarrow> consumer_step sha load prepare finalize accept (st, sk, lg) (st', sk, lg)"
| crash_accepted: "evaluate_stop_loss_trigger sha p obs cfg now_ms = Inr tr \<Longrightarrow> tr_event tr = Some ev
    \<Longrightarrow> load st (ev_event_id ev) = Inr None \<Longrightarrow> build_exit_intent_v1 sha ev now_ms VNone = Inr i
    \<Longrightarrow> prepare st (prepared_record ev i now_ms) = (st', None)
    \<Longrightarrow> consumer_step sha load prepare finalize accept (st, sk, lg) (st', fst (accept sk i), lg @ [i])"

inductive consumer_run ::
  "(string \<Rightarrow> string) \<Rightarrow> ('s \<Rightarrow> string \<Rightarrow> store_exc + dedup_record option)
   \<Rightarrow> ('s \<Rightarrow> dedup_record \<Rightarrow> 's \<times> store_exc option) \<Rightarrow> ('s \<Rightarrow> dedup_record \<Rightarrow> 's \<times> store_exc option)
   \<Rightarrow> ('k \<Rightarrow> exit_intent \<Rightarrow> 'k \<times> py_exc option) \<Rightarrow> 's \<times> 'k \<times> exit_intent list \<Rightarrow> 's \<times> 'k \<times> exit_intent list \<Rightarrow> bool"
  for sha load prepare finalize accept where
  start: "consumer_run sha load prepare finalize accept w w"
| step: "consumer_run sha load prepare finalize accept w w' \<Longrightarrow> consumer_step sha load prepare finalize accept w' w''
    \<Longrightarrow> consumer_run sha load prepare finalize accept w w''"

subsection \<open>At most one handover\<close>

lemma build_event_id: "build_exit_intent_v1 sha ev t q = Inr i \<Longrightarrow> xi_protection_event_id i = ev_event_id ev"
  by (erule build_exit_intentE)

lemma record_ids [simp]:
  "dr_event_id (prepared_record ev i t) = ev_event_id ev"
  "dr_event_id (finalized_record r i t) = dr_event_id r"
  by (simp_all add: prepared_record_def finalized_record_def)

context dedup_store
begin

definition once :: "'s \<times> 'k \<times> exit_intent list \<Rightarrow> bool" where
  "once w = (case w of (st, sk, lg) \<Rightarrow> wf st \<and> distinct (map xi_protection_event_id lg)
     \<and> (\<forall>i \<in> set lg. load st (xi_protection_event_id i) \<noteq> Inr None))"

lemma once_prepared:
  assumes "once (st, sk, lg)" "prepare st r = (st', None)"
  shows "once (st', sk', lg)" "load st' (dr_event_id r) \<noteq> Inr None"
  using assms wf_prepare[of st r] prepare_seen[of st r] prepare_keeps[of st _ r] by (auto simp: once_def)

lemma once_accepted:
  assumes "once (st, sk, lg)" "load st (dr_event_id r) = Inr None" "prepare st r = (st', None)"
    "xi_protection_event_id i = dr_event_id r"
  shows "once (st', sk', lg @ [i])"
  using once_prepared[OF assms(1,3)] assms(1,2,4) by (auto simp: once_def)

lemma once_finalized: "once (st, sk, lg) \<Longrightarrow> once (fst (finalize st r), sk, lg)"
  using wf_finalize[of st r] finalize_keeps[of st _ r] by (auto simp: once_def)

lemma once_emit:
  assumes "once (st, sk, lg)" "load st (ev_event_id ev) = Inr None"
    "emit_exit_intent sha prepare finalize (logged_accept accept) ev now_ms st (sk, lg) = Inr (out, st', (sk', lg'))"
  shows "once (st', sk', lg')"
proof (cases "build_exit_intent_v1 sha ev now_ms VNone")
  case (Inl e)
  with assms show ?thesis by (auto simp: emit_exit_intent_def once_def split: if_splits)
next
  case i: (Inr i)
  let ?r = "prepared_record ev i now_ms"
  obtain st1 pe where p: "prepare st ?r = (st1, pe)" by fastforce
  obtain sk1 ae where a: "accept sk i = (sk1, ae)" by fastforce
  obtain st2 fe where f: "finalize st1 (finalized_record ?r i now_ms) = (st2, fe)" by fastforce
  show ?thesis
  proof (cases pe)
    case (Some e)
    then have "st' = st1" "lg' = lg" using assms(3) i p by (auto simp: emit_exit_intent_def Let_def)
    then show ?thesis
      using assms(1) wf_prepare[of st ?r] prepare_keeps[of st _ ?r] p by (auto simp: once_def)
  next
    case None
    have o1: "once (st1, sk1, lg @ [i])"
      by (rule once_accepted[OF assms(1) _ p[unfolded None]]) (simp_all add: assms(2) build_event_id[OF i])
    have "st' = st1 \<or> st' = st2" "lg' = lg @ [i]"
      using assms(3) i p a f None
      by (auto simp: emit_exit_intent_def Let_def logged_accept_def split: option.splits prod.splits)
    then show ?thesis
      using o1 once_finalized[OF o1, of "finalized_record ?r i now_ms"] f by (auto simp: once_def)
  qed
qed

lemma once_step:
  assumes "consumer_step sha load prepare finalize accept w w'" "once w"
  shows "once w'"
  using assms
proof (cases rule: consumer_step.cases)
  case (cycle cfg now_ms p obs st sk lg out st' sk' lg')
  obtain tr where tr: "evaluate_stop_loss_trigger sha p obs cfg now_ms = Inr tr"
    using cycle(3) by (auto simp: consume_def ebind_eq_Inr)
  show ?thesis
  proof (cases "tr_decision tr = TRIGGERED \<and> (\<exists>ev. tr_event tr = Some ev \<and> load st (ev_event_id ev) = Inr None)")
    case True
    then obtain ev where "tr_decision tr = TRIGGERED" "tr_event tr = Some ev" "load st (ev_event_id ev) = Inr None" by blast
    with cycle assms(2) tr show ?thesis by (auto simp: consume_def intro: once_emit)
  next
    case False
    then have "st' = st \<and> lg' = lg"
      using cycle(3) tr
      by (auto simp: consume_def split: if_splits option.splits sum.splits store_exc.splits)
    with cycle assms(2) show ?thesis by (simp add: once_def)
  qed
next
  case (crash_prepared p obs cfg now_ms tr ev st i st' sk lg)
  then show ?thesis using once_prepared(1)[of st sk lg] assms(2) by auto
next
  case (crash_accepted p obs cfg now_ms tr ev st i st' sk lg)
  then show ?thesis using assms(2) build_event_id[OF crash_accepted(6)]
    by (auto intro!: once_accepted[where r = "prepared_record ev i now_ms"])
qed

lemma once_run: "consumer_run sha load prepare finalize accept w w' \<Longrightarrow> once w \<Longrightarrow> once w'"
  by (induction rule: consumer_run.induct) (auto intro: once_step)

text \<open>A stored record is what decides on a known event.\<close>

lemma consume_known:
  assumes "evaluate_stop_loss_trigger sha p obs cfg now_ms = Inr tr" "tr_decision tr = TRIGGERED"
    "tr_event tr = Some ev" "load st (ev_event_id ev) = Inr (Some r)"
  shows "consume sha load prepare finalize accept cfg now_ms p obs st sk = Inr (evaluate_stored_record r ev, st, sk)"
  using assms by (simp add: consume_def)

lemma emit_working:
  assumes "wf st" "load st (ev_event_id ev) = Inr None" "build_exit_intent_v1 sha ev now_ms VNone = Inr i"
    and "snd (prepare st (prepared_record ev i now_ms)) = None"
    and "snd (accept sk i) = None"
    and "snd (finalize (fst (prepare st (prepared_record ev i now_ms)))
           (finalized_record (prepared_record ev i now_ms) i now_ms)) = None"
    and "storable (prepared_record ev i now_ms)"
  shows "\<exists>out st'. emit_exit_intent sha prepare finalize accept ev now_ms st sk = Inr (out, st', fst (accept sk i))
    \<and> co_decision out = EXIT_INTENT_EMITTED \<and> co_intent out = Some i
    \<and> (\<exists>r. load st' (ev_event_id ev) = Inr (Some r) \<and> dr_state r = FINALIZED \<and> dr_fingerprint r = ev_fingerprint ev)"
proof -
  let ?r = "prepared_record ev i now_ms" and ?f = "finalized_record (prepared_record ev i now_ms) i now_ms"
  have l1: "load (fst (prepare st ?r)) (dr_event_id ?f) = Inr (Some (?r\<lparr>dr_state := PREPARED\<rparr>))"
    using prepare_load[OF assms(1,7) _ assms(4)] assms(2) by simp
  have "storable ?f" using assms(7) by (simp add: storable_def finalized_record_def prepared_record_def)
  from finalize_load[OF wf_prepare[OF assms(1)] this l1 assms(6)]
  have "load (fst (finalize (fst (prepare st ?r)) ?f)) (ev_event_id ev) = Inr (Some (?f\<lparr>dr_state := FINALIZED\<rparr>))" by simp
  then show ?thesis
    using assms(3-6)
    by (auto simp: emit_exit_intent_def Let_def finalized_record_def prepared_record_def split: prod.splits)
qed

end

subsection \<open>Events and their intents\<close>

lemma event_identifiers:
  assumes "evaluate_stop_loss_trigger sha p obs cfg now_ms = Inr r" "tr_decision r = TRIGGERED" "tr_event r = Some ev"
  shows "ev_symbol ev = ps_symbol p" "ev_position_id ev \<noteq> []" "ev_event_id ev \<noteq> []"
    "ev_position_side ev = LONG \<or> ev_position_side ev = SHORT" "0 < dec_val (ev_position_quantity ev)"
    "is_finite (ev_position_quantity ev)" "ev_fingerprint ev = canonical_hash sha (event_identity ev)"
proof -
  note G = event_on_grid[OF assms]
  show "ev_position_side ev = LONG \<or> ev_position_side ev = SHORT" "0 < dec_val (ev_position_quantity ev)"
    "is_finite (ev_position_quantity ev)" "ev_fingerprint ev = canonical_hash sha (event_identity ev)"
    using G on_grid_finite by blast+
  have "tr_decision r \<noteq> BLOCKED" using assms(2) by simp
  with assms(1) have "ev_symbol ev = ps_symbol p \<and> ev_position_id ev \<noteq> [] \<and> ev_event_id ev \<noteq> []"
  proof (cases rule: evaluate_not_blockedE)
    case flat
    with assms(2) show ?thesis by (simp add: tr_no_trigger_def)
  next
    case (fire side pct max_age quantity entry observed at_ms)
    note F = fire_event[OF fire(18) assms(3)]
    show ?thesis using fire(12) F(8,13,14) by simp
  qed
  then show "ev_symbol ev = ps_symbol p" "ev_position_id ev \<noteq> []" "ev_event_id ev \<noteq> []" by auto
qed

lemma event_builds:
  assumes "ev_position_side ev = LONG \<or> ev_position_side ev = SHORT" "0 < dec_val (ev_position_quantity ev)"
    "is_finite (ev_position_quantity ev)"
  shows "\<exists>i. build_exit_intent_v1 sha ev t VNone = Inr i \<and> xi_quantity i = ev_position_quantity ev
    \<and> xi_side i = (if ev_position_side ev = LONG then ''SELL'' else ''BUY'') \<and> xi_reduce_only i
    \<and> xi_protection_event_id i = ev_event_id ev \<and> xi_intent_id i \<noteq> []"
proof -
  have "\<not> dec_le (ev_position_quantity ev) dec_zero" "\<not> dec_lt (ev_position_quantity ev) (ev_position_quantity ev)"
    using assms(2,3) by (simp_all add: not_dec_le_pos fin_cmp)
  then show ?thesis
    using assms(1,3) by (auto simp: build_exit_intent_v1_def exit_side_for_def Let_def)
qed

lemma prepared_storable:
  assumes "ev_symbol ev \<noteq> []" "ev_position_id ev \<noteq> []" "ev_event_id ev \<noteq> []" "ev_fingerprint ev \<noteq> []" "xi_intent_id i \<noteq> []"
  shows "storable (prepared_record ev i t)"
  using assms by (simp add: storable_def prepared_record_def)

lemma file_upsert_no_faults:
  "file_read s = Inr rs \<Longrightarrow> fs_faults s = [] \<Longrightarrow> snd (file_upsert s r) = None \<and> fs_faults (fst (file_upsert s r)) = []
    \<and> (\<exists>rs'. file_read (fst (file_upsert s r)) = Inr rs')"
proof -
  assume a: "file_read s = Inr rs" "fs_faults s = []"
  let ?w = "file_write s (dset (dr_event_id r) (record_to_dict r) rs)"
  have "file_upsert s r = ?w" using a(1) by (simp add: file_upsert_def)
  moreover have ok: "snd ?w = None" "fs_faults (fst ?w) = []" using a(2) by (simp_all add: file_write_def Let_def)
  ultimately show ?thesis using file_read_write(1)[OF ok(1)] by simp
qed

subsection \<open>Properties\<close>

text \<open>
  C27. At most one handover per protection event. In every run of the consumer over the file
  store, with any positions, prices, configurations and times, any sink, any failing writes,
  restarts between cycles and a crash after the prepare or after the handover of any cycle, the
  intents handed to the sink carry pairwise different protection events.
\<close>

theorem exit_intent_at_most_once:
  assumes "consumer_run sha file_load file_prepare file_finalize accept (st, sk, []) (st', sk', lg)" "file_wf st"
  shows "distinct (map xi_protection_event_id lg)"
proof -
  have "file_dedup.once (st, sk, [])" using assms(2) by (simp add: file_dedup.once_def)
  from file_dedup.once_run[OF assms(1) this] show ?thesis by (simp add: file_dedup.once_def)
qed

lemma emitted_then_suppressed_aux:
  assumes "evaluate_stop_loss_trigger sha p obs cfg now_ms = Inr tr" "tr_decision tr = TRIGGERED" "tr_event tr = Some ev"
    and "file_wf st" "fs_faults st = []" "file_load st (ev_event_id ev) = Inr None"
    and "\<forall>i. snd (accept sk i) = None" and "ps_symbol p \<noteq> []" "\<forall>t. sha t \<noteq> []"
  shows "\<exists>out st' i. consume sha file_load file_prepare file_finalize accept cfg now_ms p obs st sk
        = Inr (out, st', fst (accept sk i))
    \<and> co_decision out = EXIT_INTENT_EMITTED \<and> co_intent out = Some i
    \<and> xi_reduce_only i \<and> xi_quantity i = ev_position_quantity ev
    \<and> xi_side i = (if ev_position_side ev = LONG then ''SELL'' else ''BUY'')
    \<and> (\<exists>r. file_load st' (ev_event_id ev) = Inr (Some r) \<and> dr_state r = FINALIZED \<and> dr_fingerprint r = ev_fingerprint ev)"
proof -
  note I = event_identifiers[OF assms(1-3)]
  obtain i where i: "build_exit_intent_v1 sha ev now_ms VNone = Inr i" "xi_quantity i = ev_position_quantity ev"
    "xi_side i = (if ev_position_side ev = LONG then ''SELL'' else ''BUY'')" "xi_reduce_only i" "xi_intent_id i \<noteq> []"
    using event_builds[OF I(4-6)] by blast
  let ?r = "prepared_record ev i now_ms"
  obtain rs where rs: "file_read st = Inr rs" using assms(6) by (auto simp: file_load_None)
  have p: "snd (file_prepare st ?r) = None" "fs_faults (fst (file_prepare st ?r)) = []"
    "\<exists>rs'. file_read (fst (file_prepare st ?r)) = Inr rs'"
    using file_upsert_no_faults[OF rs assms(5)] by (simp_all add: file_prepare_def)
  then have f: "snd (file_finalize (fst (file_prepare st ?r)) (finalized_record ?r i now_ms)) = None"
    using file_upsert_no_faults by (auto simp: file_finalize_def)
  have "storable ?r"
    using I assms(8,9) i(5) by (intro prepared_storable) (simp_all add: canonical_hash_def)
  from file_dedup.emit_working[where accept = accept and sk = sk, OF assms(4,6) i(1) p(1) spec[OF assms(7), of i] f this]
  obtain out st' where out: "emit_exit_intent sha file_prepare file_finalize accept ev now_ms st sk
      = Inr (out, st', fst (accept sk i))" "co_decision out = EXIT_INTENT_EMITTED" "co_intent out = Some i"
    "\<exists>r. file_load st' (ev_event_id ev) = Inr (Some r) \<and> dr_state r = FINALIZED \<and> dr_fingerprint r = ev_fingerprint ev"
    by blast
  have "consume sha file_load file_prepare file_finalize accept cfg now_ms p obs st sk
      = emit_exit_intent sha file_prepare file_finalize accept ev now_ms st sk"
    using assms(1-3,6) by (simp add: consume_def)
  with out i show ?thesis by auto
qed

text \<open>
  An armed stop that is hit gets out, once. With a working file and sink, the first
  triggered evaluation of an event not yet stored hands over one reduce-only intent for the
  whole position on the opposite side and reports it; every later tick that triggers for the
  same position and configuration is then suppressed as a duplicate and changes nothing.
\<close>

theorem emitted_then_suppressed:
  assumes "evaluate_stop_loss_trigger sha p obs cfg now_ms = Inr tr" "tr_decision tr = TRIGGERED" "tr_event tr = Some ev"
    and "file_wf st" "fs_faults st = []" "file_load st (ev_event_id ev) = Inr None"
    and "\<forall>i. snd (accept sk i) = None" and "ps_symbol p \<noteq> []" "\<forall>t. sha t \<noteq> []"
  shows "\<exists>out st' i. consume sha file_load file_prepare file_finalize accept cfg now_ms p obs st sk
        = Inr (out, st', fst (accept sk i))
    \<and> co_decision out = EXIT_INTENT_EMITTED \<and> co_intent out = Some i
    \<and> xi_reduce_only i \<and> xi_quantity i = ev_position_quantity ev
    \<and> xi_side i = (if ev_position_side ev = LONG then ''SELL'' else ''BUY'')
    \<and> (\<forall>obs' now' tr' sk'. evaluate_stop_loss_trigger sha p obs' cfg now' = Inr tr' \<longrightarrow> tr_decision tr' = TRIGGERED \<longrightarrow>
        (\<exists>out'. consume sha file_load file_prepare file_finalize accept cfg now' p obs' st' sk' = Inr (out', st', sk')
          \<and> co_decision out' = DUPLICATE_SUPPRESSED))"
proof -
  obtain out st' i r where E: "consume sha file_load file_prepare file_finalize accept cfg now_ms p obs st sk
        = Inr (out, st', fst (accept sk i))" "co_decision out = EXIT_INTENT_EMITTED" "co_intent out = Some i"
    "xi_reduce_only i" "xi_quantity i = ev_position_quantity ev"
    "xi_side i = (if ev_position_side ev = LONG then ''SELL'' else ''BUY'')"
    and r: "file_load st' (ev_event_id ev) = Inr (Some r)" "dr_state r = FINALIZED" "dr_fingerprint r = ev_fingerprint ev"
    using emitted_then_suppressed_aux[where sha = sha and accept = accept and sk = sk, OF assms] by blast
  have dup: "\<exists>out'. consume sha file_load file_prepare file_finalize accept cfg now' p obs' st' sk' = Inr (out', st', sk')
          \<and> co_decision out' = DUPLICATE_SUPPRESSED"
    if later: "evaluate_stop_loss_trigger sha p obs' cfg now' = Inr tr'" "tr_decision tr' = TRIGGERED" for obs' now' tr' sk'
  proof -
    obtain ev' where ev': "tr_event tr' = Some ev'" "ev_event_id ev' = ev_event_id ev" "ev_fingerprint ev' = ev_fingerprint ev"
      using same_event[OF assms(1,2) later] assms(3) by auto
    have "file_load st' (ev_event_id ev') = Inr (Some r)" using r(1) ev'(2) by simp
    from file_dedup.consume_known[OF later ev'(1) this, of accept sk'] r ev'
    show ?thesis by (simp add: evaluate_stored_record_def)
  qed
  show ?thesis using E dup by blast
qed

lemma sample_event_triggers:
  obtains tr ev where
    "evaluate_stop_loss_trigger sha (sample_position LONG) (sample_obs 97 1000) sample_config 1500 = Inr tr"
    "tr_decision tr = TRIGGERED" "tr_event tr = Some ev"
proof -
  obtain r where r: "evaluate_stop_loss_trigger sha (sample_position LONG) (sample_obs 97 1000) sample_config 1500 = Inr r"
    "tr_decision r = TRIGGERED" using sample_triggered[of sha] by blast
  then obtain ev where "tr_event r = Some ev" using same_event[OF r r] by blast
  with r show ?thesis by (rule that)
qed

abbreviation fresh_file :: file_store where
  "fresh_file \<equiv> fst (file_initialize False \<lparr>fs_content = Missing, fs_faults = []\<rparr>)"

lemma fresh_file_facts: "file_wf fresh_file" "fs_faults fresh_file = []" "file_load fresh_file e = Inr None"
proof -
  have w: "snd (file_write \<lparr>fs_content = Missing, fs_faults = []\<rparr> []) = None"
    by (simp add: file_write_def Let_def)
  then have "file_read fresh_file = Inr []"
    using file_read_write(1)[OF w] by (simp add: file_initialize_def)
  then show "file_load fresh_file e = Inr None" by (simp add: file_load_None jget_def)
  show "file_wf fresh_file" by (rule fresh_file_wf)
  show "fs_faults fresh_file = []" by (simp add: file_initialize_def file_write_def Let_def)
qed

theorem emitted_then_suppressed_witness:
  "\<exists>out st' i. consume (\<lambda>s. ''d'' @ s) file_load file_prepare file_finalize recording_accept sample_config 1500
      (sample_position LONG) (sample_obs 97 1000) fresh_file \<lparr>rs_intents = []\<rparr>
    = Inr (out, st', \<lparr>rs_intents = [i]\<rparr>) \<and> co_decision out = EXIT_INTENT_EMITTED"
proof -
  let ?sha = "\<lambda>s::string. ''d'' @ s"
  obtain tr ev where ev:
    "evaluate_stop_loss_trigger ?sha (sample_position LONG) (sample_obs 97 1000) sample_config 1500 = Inr tr"
    "tr_decision tr = TRIGGERED" "tr_event tr = Some ev" by (rule sample_event_triggers)
  have "\<forall>i. snd (recording_accept \<lparr>rs_intents = []\<rparr> i) = None" "\<forall>t. ?sha t \<noteq> []"
    "ps_symbol (sample_position LONG) \<noteq> []" by (simp_all add: recording_accept_def)
  from emitted_then_suppressed[where sha = ?sha and accept = recording_accept and sk = "\<lparr>rs_intents = []\<rparr>", OF ev fresh_file_facts(1,2) fresh_file_facts(3) this(1,3,2)]
  show ?thesis by (auto simp: recording_accept_def)
qed

theorem exit_intent_at_most_once_witness:
  "\<exists>st' i. consumer_run (\<lambda>s. s) file_load file_prepare file_finalize recording_accept
      (fresh_file, \<lparr>rs_intents = []\<rparr>, []) (st', \<lparr>rs_intents = [i]\<rparr>, [i]) \<and> distinct (map xi_protection_event_id [i])"
proof -
  obtain tr ev where ev:
    "evaluate_stop_loss_trigger (\<lambda>s. s) (sample_position LONG) (sample_obs 97 1000) sample_config 1500 = Inr tr"
    "tr_decision tr = TRIGGERED" "tr_event tr = Some ev" by (rule sample_event_triggers)
  note I = event_identifiers[OF ev]
  obtain i where i: "build_exit_intent_v1 (\<lambda>s. s) ev 1500 VNone = Inr i" using event_builds[OF I(4-6)] by blast
  obtain rs where "file_read fresh_file = Inr rs" using fresh_file_facts(3) by (auto simp: file_load_None)
  then have "snd (file_prepare fresh_file (prepared_record ev i 1500)) = None"
    using file_upsert_no_faults fresh_file_facts(2) by (simp add: file_prepare_def)
  then obtain st' where st': "file_prepare fresh_file (prepared_record ev i 1500) = (st', None)"
    by (metis prod.collapse)
  have "consumer_run (\<lambda>s. s) file_load file_prepare file_finalize recording_accept
      (fresh_file, \<lparr>rs_intents = []\<rparr>, []) (st', fst (recording_accept \<lparr>rs_intents = []\<rparr> i), [] @ [i])"
    by (rule consumer_run.step[OF consumer_run.start consumer_step.crash_accepted])
      (use ev i st' fresh_file_facts(3) in auto)
  moreover from exit_intent_at_most_once[OF this fresh_file_facts(1)]
  have "distinct (map xi_protection_event_id ([] @ [i]))" .
  ultimately show ?thesis by (auto simp: recording_accept_def)
qed

text \<open>
  A known event never leads to a second handover. When the store does not answer that the
  event is unknown, the cycle leaves store and sink alone; it reports a suppressed duplicate
  only for a finalized record with the same fingerprint, and blocks otherwise: a record left
  prepared by a crash, a contradictory fingerprint, a missing or corrupt file.
\<close>

theorem known_event_blocks_or_duplicates:
  assumes "evaluate_stop_loss_trigger sha p obs cfg now_ms = Inr tr" "tr_decision tr = TRIGGERED" "tr_event tr = Some ev"
    and "file_load st (ev_event_id ev) \<noteq> Inr None"
  shows "\<exists>out. consume sha file_load file_prepare file_finalize accept cfg now_ms p obs st sk = Inr (out, st, sk)
    \<and> co_intent out = None
    \<and> co_decision out = (case file_load st (ev_event_id ev) of
        Inr (Some r) \<Rightarrow> if dr_state r = FINALIZED \<and> dr_fingerprint r = ev_fingerprint ev
                        then DUPLICATE_SUPPRESSED else CONSUME_BLOCKED
      | _ \<Rightarrow> CONSUME_BLOCKED)"
proof (cases "file_load st (ev_event_id ev)")
  case (Inl e)
  with assms show ?thesis by (cases e) (simp_all add: consume_def consumer_blocked_def)
next
  case (Inr o')
  with assms(4) obtain r where r: "file_load st (ev_event_id ev) = Inr (Some r)" by (cases o') auto
  then show ?thesis using file_dedup.consume_known[OF assms(1-3) r, of accept sk]
    by (cases "dr_state r") (simp_all add: evaluate_stored_record_def consumer_blocked_def)
qed

theorem known_event_blocks_or_duplicates_witness:
  "\<exists>out. consume (\<lambda>s. s) file_load file_prepare file_finalize recording_accept sample_config 1500
      (sample_position LONG) (sample_obs 97 1000) \<lparr>fs_content = Missing, fs_faults = []\<rparr> \<lparr>rs_intents = []\<rparr>
    = Inr (out, \<lparr>fs_content = Missing, fs_faults = []\<rparr>, \<lparr>rs_intents = []\<rparr>) \<and> co_decision out = CONSUME_BLOCKED"
proof -
  let ?st = "\<lparr>fs_content = Missing, fs_faults = []\<rparr>"
  have ld: "file_load ?st e = Inl (StateError DEDUP_STATE_MISSING)" for e
    by (simp add: file_load_def file_read_def)
  obtain tr ev where ev:
    "evaluate_stop_loss_trigger (\<lambda>s. s) (sample_position LONG) (sample_obs 97 1000) sample_config 1500 = Inr tr"
    "tr_decision tr = TRIGGERED" "tr_event tr = Some ev" by (rule sample_event_triggers)
  have "file_load ?st (ev_event_id ev) \<noteq> Inr None" by (simp add: ld)
  from known_event_blocks_or_duplicates[OF ev this, of recording_accept "\<lparr>rs_intents = []\<rparr>"] show ?thesis
    by (auto simp: ld)
qed

subsection \<open>The replay harness\<close>

record shadow_step =
  sh_index :: nat
  sh_close :: pyval
  sh_observed_at_ms :: int
  sh_decision :: consume_decision
  sh_reason :: stop_loss_reason
  sh_event_id :: "string option"
  sh_intent_id :: "string option"
  sh_restarted_before_step :: bool

record shadow_report =
  sr_symbol :: string
  sr_steps :: "shadow_step list"
  sr_emitted_intent_ids :: "string list"
  sr_productive_adapter_enabled :: bool

definition emitted_count :: "shadow_report \<Rightarrow> nat" where
  "emitted_count rep = length (sr_emitted_intent_ids rep)"

definition decision_counts :: "shadow_report \<Rightarrow> (consume_decision \<times> nat) list" where
  "decision_counts rep = fold (\<lambda>s counts. dset (sh_decision s)
     ((case dget counts (sh_decision s) of None \<Rightarrow> 0 | Some n \<Rightarrow> n) + 1) counts) (sr_steps rep) []"

definition reason_codes :: "shadow_report \<Rightarrow> stop_loss_reason list" where
  "reason_codes rep = fold (\<lambda>s seen. if sh_reason s \<in> set seen then seen else seen @ [sh_reason s]) (sr_steps rep) []"

text \<open>\<open>int(obs.observed_at_ms or 0)\<close>, for the annotated \<open>Optional[int]\<close>.\<close>

definition shadow_ms :: "price_observation \<Rightarrow> int" where
  "shadow_ms obs = (case po_observed_at_ms obs of VInt i \<Rightarrow> i | VBool b \<Rightarrow> of_bool b | _ \<Rightarrow> 0)"

definition shadow_step_of :: "nat \<Rightarrow> price_observation \<Rightarrow> bool \<Rightarrow> consume_outcome \<Rightarrow> shadow_step" where
  "shadow_step_of index obs restarted out =
     \<lparr>sh_index = index, sh_close = po_price obs, sh_observed_at_ms = shadow_ms obs,
      sh_decision = co_decision out, sh_reason = co_reason out, sh_event_id = co_event_id out,
      sh_intent_id = map_option xi_intent_id (co_intent out), sh_restarted_before_step = restarted\<rparr>"

text \<open>
  The loop. A restart builds a consumer from the same store, sink, configuration and clock, so
  it shows in the report only. The emitted intent of an emitting outcome is asserted by the
  code; without one it would raise.
\<close>

fun shadow_loop ::
  "(string \<Rightarrow> string) \<Rightarrow> ('s \<Rightarrow> string \<Rightarrow> store_exc + dedup_record option)
   \<Rightarrow> ('s \<Rightarrow> dedup_record \<Rightarrow> 's \<times> store_exc option) \<Rightarrow> ('s \<Rightarrow> dedup_record \<Rightarrow> 's \<times> store_exc option)
   \<Rightarrow> ('k \<Rightarrow> exit_intent \<Rightarrow> 'k \<times> py_exc option) \<Rightarrow> trigger_config \<Rightarrow> (price_observation \<Rightarrow> int)
   \<Rightarrow> position_snapshot \<Rightarrow> nat list \<Rightarrow> nat \<Rightarrow> price_observation list \<Rightarrow> shadow_report \<Rightarrow> 's \<Rightarrow> 'k
   \<Rightarrow> py_exc + shadow_report \<times> 's \<times> 'k" where
  "shadow_loop sha load prepare finalize accept cfg now p restarts index [] rep st sk = Inr (rep, st, sk)"
| "shadow_loop sha load prepare finalize accept cfg now p restarts index (obs # rest) rep st sk =
     ebind (consume sha load prepare finalize accept cfg (now obs) p obs st sk) (\<lambda>(out, st', sk').
       let ids = (if co_decision out = EXIT_INTENT_EMITTED
                  then (case co_intent out of Some i \<Rightarrow> [xi_intent_id i] | None \<Rightarrow> []) else []);
           rep' = rep\<lparr>sr_steps := sr_steps rep @ [shadow_step_of index obs (index \<in> set restarts) out],
                      sr_emitted_intent_ids := sr_emitted_intent_ids rep @ ids\<rparr>
       in shadow_loop sha load prepare finalize accept cfg now p restarts (Suc index) rest rep' st' sk')"

definition run_stop_loss_shadow ::
  "(string \<Rightarrow> string) \<Rightarrow> ('s \<Rightarrow> string \<Rightarrow> store_exc + dedup_record option)
   \<Rightarrow> ('s \<Rightarrow> dedup_record \<Rightarrow> 's \<times> store_exc option) \<Rightarrow> ('s \<Rightarrow> dedup_record \<Rightarrow> 's \<times> store_exc option)
   \<Rightarrow> ('k \<Rightarrow> exit_intent \<Rightarrow> 'k \<times> py_exc option) \<Rightarrow> position_snapshot \<Rightarrow> price_observation list \<Rightarrow> trigger_config
   \<Rightarrow> (price_observation \<Rightarrow> int) option \<Rightarrow> nat list \<Rightarrow> 's \<Rightarrow> 'k \<Rightarrow> py_exc + shadow_report \<times> 's \<times> 'k" where
  "run_stop_loss_shadow sha load prepare finalize accept p observations cfg now_ms_for restarts st sk =
     shadow_loop sha load prepare finalize accept cfg
       (case now_ms_for of Some f \<Rightarrow> f | None \<Rightarrow> shadow_ms) p restarts 0 observations
       \<lparr>sr_symbol = ps_symbol p, sr_steps = [], sr_emitted_intent_ids = [], sr_productive_adapter_enabled = False\<rparr> st sk"

lemma consume_emitsE:
  assumes "consume sha load prepare finalize accept cfg now_ms p obs st sk = Inr (out, st', sk')"
    "co_decision out = EXIT_INTENT_EMITTED"
  obtains tr ev where "evaluate_stop_loss_trigger sha p obs cfg now_ms = Inr tr" "tr_decision tr = TRIGGERED"
    "tr_event tr = Some ev" "load st (ev_event_id ev) = Inr None"
    "emit_exit_intent sha prepare finalize accept ev now_ms st sk = Inr (out, st', sk')"
proof -
  obtain tr where tr: "evaluate_stop_loss_trigger sha p obs cfg now_ms = Inr tr"
    using assms(1) by (auto simp: consume_def ebind_eq_Inr)
  have t: "tr_decision tr = TRIGGERED"
    using assms tr by (auto simp: consume_def split: if_splits)
  then obtain ev where ev: "tr_event tr = Some ev"
    using assms tr by (cases "tr_event tr") (auto simp: consume_def)
  have ld: "load st (ev_event_id ev) = Inr None"
    using assms tr t ev
    by (cases "load st (ev_event_id ev)" rule: sum_option_cases)
      (auto simp: consume_def consumer_blocked_def evaluate_stored_record_def split: store_exc.splits if_splits)
  show ?thesis using assms tr t ev ld by (intro that[OF tr t ev ld]) (simp add: consume_def)
qed

context dedup_store
begin

lemma emit_seen:
  assumes "wf st" "emit_exit_intent sha prepare finalize accept ev now_ms st sk = Inr (out, st', sk')"
    "co_decision out = EXIT_INTENT_EMITTED"
  shows "load st' (ev_event_id ev) \<noteq> Inr None"
proof (cases "build_exit_intent_v1 sha ev now_ms VNone")
  case (Inl e)
  with assms show ?thesis by (auto simp: emit_exit_intent_def consumer_blocked_def split: if_splits)
next
  case i: (Inr i)
  let ?r = "prepared_record ev i now_ms"
  obtain st1 pe where p: "prepare st ?r = (st1, pe)" by fastforce
  have pe: "pe = None"
    using assms(2,3) i p by (cases pe) (auto simp: emit_exit_intent_def Let_def consumer_blocked_def)
  have "st' = fst (finalize st1 (finalized_record ?r i now_ms))"
    using assms(2,3) i p pe
    by (auto simp: emit_exit_intent_def Let_def consumer_blocked_def split: option.splits prod.splits)
  moreover have "load st1 (ev_event_id ev) \<noteq> Inr None" "wf st1"
    using prepare_seen[OF assms(1), of ?r] wf_prepare[OF assms(1), of ?r] p pe by auto
  ultimately show ?thesis using finalize_keeps by simp
qed

lemma consume_keeps:
  assumes "wf st" "consume sha load prepare finalize accept cfg now_ms p obs st sk = Inr (out, st', sk')"
  shows "wf st' \<and> (load st e \<noteq> Inr None \<longrightarrow> load st' e \<noteq> Inr None)"
proof -
  have acc: "st' = st \<or> (\<exists>r. st' = fst (prepare st r)) \<or> (\<exists>r r'. st' = fst (finalize (fst (prepare st r)) r'))"
  proof -
    obtain tr where tr: "evaluate_stop_loss_trigger sha p obs cfg now_ms = Inr tr"
      using assms(2) by (auto simp: consume_def ebind_eq_Inr)
    consider "st' = st" | ev where "emit_exit_intent sha prepare finalize accept ev now_ms st sk = Inr (out, st', sk')"
      using assms(2) tr by (auto simp: consume_def split: if_splits option.splits sum.splits store_exc.splits)
    then show ?thesis
    proof cases
      case (2 ev)
      then show ?thesis
        by (auto simp: emit_exit_intent_def Let_def split: sum.splits option.splits prod.splits if_splits)
          (metis fst_conv)+
    qed simp
  qed
  then show ?thesis using assms(1) wf_prepare wf_finalize prepare_keeps finalize_keeps by auto
qed

lemma shadow_seen:
  assumes "shadow_loop sha load prepare finalize accept cfg now p restarts index obss rep st sk = Inr (rep', st', sk')"
    "wf st" "\<And>obs t tr ev. evaluate_stop_loss_trigger sha p obs cfg t = Inr tr \<Longrightarrow> tr_decision tr = TRIGGERED
      \<Longrightarrow> tr_event tr = Some ev \<Longrightarrow> load st (ev_event_id ev) \<noteq> Inr None"
  shows "sr_emitted_intent_ids rep' = sr_emitted_intent_ids rep"
  using assms
proof (induction obss arbitrary: index rep st sk)
  case (Cons obs rest)
  obtain out st1 sk1 where c: "consume sha load prepare finalize accept cfg (now obs) p obs st sk = Inr (out, st1, sk1)"
    using Cons.prems(1) by (auto simp: ebind_eq_Inr)
  have no: "co_decision out \<noteq> EXIT_INTENT_EMITTED"
    using Cons.prems(3) by (metis consume_emitsE[OF c])
  have wf: "wf st1" using consume_keeps[OF Cons.prems(2) c] by simp
  have "sr_emitted_intent_ids rep' = sr_emitted_intent_ids
     (rep\<lparr>sr_steps := sr_steps rep @ [shadow_step_of index obs (index \<in> set restarts) out],
          sr_emitted_intent_ids := sr_emitted_intent_ids rep @ []\<rparr>)"
    using Cons.prems(1) c no
    by (intro Cons.IH[OF _ wf]) (use consume_keeps[OF Cons.prems(2) c] Cons.prems(3) in auto)
  then show ?case by simp
qed simp

lemma shadow_once:
  assumes "shadow_loop sha load prepare finalize accept cfg now p restarts index obss rep st sk = Inr (rep', st', sk')"
    "wf st"
  shows "length (sr_emitted_intent_ids rep') \<le> Suc (length (sr_emitted_intent_ids rep))"
  using assms
proof (induction obss arbitrary: index rep st sk)
  case (Cons obs rest)
  obtain out st1 sk1 where c: "consume sha load prepare finalize accept cfg (now obs) p obs st sk = Inr (out, st1, sk1)"
    using Cons.prems(1) by (auto simp: ebind_eq_Inr)
  have wf: "wf st1" using consume_keeps[OF Cons.prems(2) c] by simp
  let ?ids = "if co_decision out = EXIT_INTENT_EMITTED
    then (case co_intent out of Some i \<Rightarrow> [xi_intent_id i] | None \<Rightarrow> []) else []"
  let ?rep = "rep\<lparr>sr_steps := sr_steps rep @ [shadow_step_of index obs (index \<in> set restarts) out],
          sr_emitted_intent_ids := sr_emitted_intent_ids rep @ ?ids\<rparr>"
  have rest: "shadow_loop sha load prepare finalize accept cfg now p restarts (Suc index) rest ?rep st1 sk1 = Inr (rep', st', sk')"
    using Cons.prems(1) c by (simp add: Let_def)
  show ?case
  proof (cases "co_decision out = EXIT_INTENT_EMITTED")
    case False
    with Cons.IH[OF rest wf] show ?thesis by simp
  next
    case True
    obtain tr ev where ev: "evaluate_stop_loss_trigger sha p obs cfg (now obs) = Inr tr" "tr_decision tr = TRIGGERED"
      "tr_event tr = Some ev" and em: "emit_exit_intent sha prepare finalize accept ev (now obs) st sk = Inr (out, st1, sk1)"
      using consume_emitsE[OF c True] by blast
    have "sr_emitted_intent_ids rep' = sr_emitted_intent_ids ?rep"
    proof (rule shadow_seen[OF rest wf])
      fix obs' t tr' ev' assume l: "evaluate_stop_loss_trigger sha p obs' cfg t = Inr tr'" "tr_decision tr' = TRIGGERED"
        "tr_event tr' = Some ev'"
      have "ev_event_id ev' = ev_event_id ev" using same_event[OF ev(1,2) l(1,2)] ev(3) l(3) by simp
      then show "load st1 (ev_event_id ev') \<noteq> Inr None" using emit_seen[OF Cons.prems(2) em True] by simp
    qed
    then show ?thesis by (simp split: option.splits)
  qed
qed simp

end

text \<open>
  A replay emits at most once. Whatever the price series, the clock and the restart points,
  a replay of one position under one configuration against the file store reports at most one
  emitted intent.
\<close>

theorem shadow_emits_at_most_once:
  assumes "run_stop_loss_shadow sha file_load file_prepare file_finalize accept p observations cfg now_ms_for restarts st sk
      = Inr (rep, st', sk')" "file_wf st"
  shows "emitted_count rep \<le> 1"
  using file_dedup.shadow_once[OF assms(1)[unfolded run_stop_loss_shadow_def] assms(2)]
  by (simp add: emitted_count_def)

theorem shadow_emits_at_most_once_witness:
  "\<exists>rep st' sk'. run_stop_loss_shadow (\<lambda>s. ''d'' @ s) file_load file_prepare file_finalize recording_accept
      (sample_position LONG) [sample_obs 97 1000] sample_config (Some (\<lambda>_. 1500)) [0] fresh_file \<lparr>rs_intents = []\<rparr>
    = Inr (rep, st', sk') \<and> sr_emitted_intent_ids rep \<noteq> [] \<and> emitted_count rep \<le> 1"
proof -
  let ?sha = "\<lambda>s::string. ''d'' @ s"
  let ?sk = "\<lparr>rs_intents = []\<rparr>"
  obtain tr ev where ev:
    "evaluate_stop_loss_trigger ?sha (sample_position LONG) (sample_obs 97 1000) sample_config 1500 = Inr tr"
    "tr_decision tr = TRIGGERED" "tr_event tr = Some ev" by (rule sample_event_triggers)
  have a: "\<forall>i. snd (recording_accept ?sk i) = None" "\<forall>t. ?sha t \<noteq> []"
    "ps_symbol (sample_position LONG) \<noteq> []" by (simp_all add: recording_accept_def)
  obtain out st' i where "consume ?sha file_load file_prepare file_finalize recording_accept sample_config 1500
      (sample_position LONG) (sample_obs 97 1000) fresh_file ?sk = Inr (out, st', fst (recording_accept ?sk i))"
    "co_decision out = EXIT_INTENT_EMITTED" "co_intent out = Some i"
    using emitted_then_suppressed_aux[where sha = ?sha and accept = recording_accept and sk = ?sk,
        OF ev fresh_file_facts(1,2) fresh_file_facts(3) a(1,3,2)] by blast
  then obtain rep where r: "run_stop_loss_shadow ?sha file_load file_prepare file_finalize recording_accept
      (sample_position LONG) [sample_obs 97 1000] sample_config (Some (\<lambda>_. 1500)) [0] fresh_file ?sk
    = Inr (rep, st', fst (recording_accept ?sk i))" "sr_emitted_intent_ids rep \<noteq> []"
    by (simp add: run_stop_loss_shadow_def)
  from shadow_emits_at_most_once[OF r(1) fresh_file_facts(1)] r show ?thesis by blast
qed

end
