(* ===== verification/StopLossProtection.thy ===== *)
theory StopLossProtection
  imports Prelude
begin

text \<open>
  The protection status contract, \<open>core/safety/stop_loss_protection.py\<close>: availability
  is derived from an evidence ledger and refused while any proof is missing.
\<close>

datatype protection_status = ARTIFACT_ONLY | UNAVAILABLE | END_TO_END_PROVEN

record protection_evidence =
  pe_trigger_contract_proven :: bool
  pe_consumer_proven :: bool
  pe_persistent_dedup_proven :: bool
  pe_restart_replay_proven :: bool
  pe_real_stack_persistence_proven :: bool
  pe_productive_exit_path_proven :: bool

definition evidence_fields :: "protection_evidence \<Rightarrow> (string \<times> bool) list" where
  "evidence_fields e =
     [(''trigger_contract_proven'', pe_trigger_contract_proven e),
      (''consumer_proven'', pe_consumer_proven e),
      (''persistent_dedup_proven'', pe_persistent_dedup_proven e),
      (''restart_replay_proven'', pe_restart_replay_proven e),
      (''real_stack_persistence_proven'', pe_real_stack_persistence_proven e),
      (''productive_exit_path_proven'', pe_productive_exit_path_proven e)]"

definition missing_evidence :: "protection_evidence \<Rightarrow> string list" where
  "missing_evidence e = map fst (filter (\<lambda>(f, proven). \<not> proven) (evidence_fields e))"

definition evidence_complete :: "protection_evidence \<Rightarrow> bool" where
  "evidence_complete e = (missing_evidence e = [])"

definition resolve_stop_loss_protection_status :: "protection_evidence \<Rightarrow> protection_status" where
  "resolve_stop_loss_protection_status e =
     (if evidence_complete e then END_TO_END_PROVEN else UNAVAILABLE)"

definition STOP_LOSS_PROTECTION_EVIDENCE :: protection_evidence where
  "STOP_LOSS_PROTECTION_EVIDENCE =
     \<lparr>pe_trigger_contract_proven = True, pe_consumer_proven = True, pe_persistent_dedup_proven = True,
      pe_restart_replay_proven = True, pe_real_stack_persistence_proven = False,
      pe_productive_exit_path_proven = False\<rparr>"

definition STOP_LOSS_PROTECTION_STATUS :: protection_status where
  "STOP_LOSS_PROTECTION_STATUS = resolve_stop_loss_protection_status STOP_LOSS_PROTECTION_EVIDENCE"

definition stop_loss_protection_is_available :: bool where
  "stop_loss_protection_is_available = (STOP_LOSS_PROTECTION_STATUS = END_TO_END_PROVEN)"

definition assert_stop_loss_protection_available :: "py_exc + unit" where
  "assert_stop_loss_protection_available =
     (if \<not> stop_loss_protection_is_available then Inl (RuntimeError ''STOP_LOSS_PROTECTION_UNAVAILABLE'')
      else Inr ())"

definition stop_loss_protection_evidence_gaps :: "string list" where
  "stop_loss_protection_evidence_gaps = missing_evidence STOP_LOSS_PROTECTION_EVIDENCE"

text \<open>
  Protection is claimed on complete evidence only, and not today: the status is
  \<open>END_TO_END_PROVEN\<close> exactly for the ledger with all six proofs, the repository's own
  ledger lacks two of them, and so the assertion that protection is available raises.
\<close>

theorem protection_needs_all_evidence:
  "(resolve_stop_loss_protection_status e = END_TO_END_PROVEN \<longleftrightarrow> list_all snd (evidence_fields e))
   \<and> stop_loss_protection_evidence_gaps = [''real_stack_persistence_proven'', ''productive_exit_path_proven'']
   \<and> assert_stop_loss_protection_available = Inl (RuntimeError ''STOP_LOSS_PROTECTION_UNAVAILABLE'')"
  by (simp add: resolve_stop_loss_protection_status_def evidence_complete_def missing_evidence_def
      evidence_fields_def stop_loss_protection_evidence_gaps_def STOP_LOSS_PROTECTION_EVIDENCE_def
      assert_stop_loss_protection_available_def stop_loss_protection_is_available_def
      STOP_LOSS_PROTECTION_STATUS_def)

end
