(* ===== verification/KillSwitch.thy ===== *)
theory KillSwitch
  imports Prelude
begin

text \<open>
  The emergency stop, \<open>core/safety/kill_switch.py\<close>: the persistent state file as the text it
  holds, reading with universal newlines and key/value lines, writing through a temporary file,
  activation, deactivation, and the module functions with the global singleton.

  A file is missing, unreadable or a text. \<open>kw_faults\<close> says which of the coming writes
  fail (an \<open>OSError\<close>, an encoding error), and a failed write leaves the file alone.
  \<open>now\<close> is the text of \<open>utcnow().isoformat()\<close>.
\<close>

datatype ks_state = KS_ACTIVE | KS_INACTIVE

definition ks_value :: "ks_state \<Rightarrow> string" where
  "ks_value s = (case s of KS_ACTIVE \<Rightarrow> ''active'' | KS_INACTIVE \<Rightarrow> ''inactive'')"

datatype ks_reason = MANUAL | CIRCUIT_BREAKER | RISK_LIMIT | SYSTEM_ERROR | EXCHANGE_ERROR | AUTH_FAILURE

definition reason_value :: "ks_reason \<Rightarrow> string" where
  "reason_value r = (case r of MANUAL \<Rightarrow> ''manual'' | CIRCUIT_BREAKER \<Rightarrow> ''circuit_breaker''
     | RISK_LIMIT \<Rightarrow> ''risk_limit'' | SYSTEM_ERROR \<Rightarrow> ''system_error''
     | EXCHANGE_ERROR \<Rightarrow> ''exchange_error'' | AUTH_FAILURE \<Rightarrow> ''auth_failure'')"

datatype ks_file = NoFile | UnreadableFile | TextFile string

record ks_world =
  kw_files :: "string \<Rightarrow> ks_file"
  kw_faults :: "bool list"
  kw_global :: "string option"

abbreviation LF :: char where "LF \<equiv> CHR 0x0A"
abbreviation CR :: char where "CR \<equiv> CHR 0x0D"
abbreviation EQ :: char where "EQ \<equiv> CHR 0x3D"

subsection \<open>Log hygiene\<close>

definition sanitize_char :: "char \<Rightarrow> string" where
  "sanitize_char c = (let n = (of_char c :: nat) in
     if c = CR then [CHR 0x5C, CHR ''r''] else if c = LF then [CHR 0x5C, CHR ''n'']
     else if n < 32 \<and> n \<noteq> 9 then [] else [c])"

definition sanitize_for_log :: "string \<Rightarrow> string" where
  "sanitize_for_log s = concat (map sanitize_char s)"

subsection \<open>Reading\<close>

text \<open>Universal newlines, then \<open>readlines\<close>.\<close>

fun newlines :: "bool \<Rightarrow> string \<Rightarrow> string" where
  \<comment> \<open>the flag: the previous character was a carriage return\<close>
  "newlines cr [] = []"
| "newlines cr (c # cs) =
     (if c = CR then LF # newlines True cs
      else if c = LF \<and> cr then newlines False cs
      else c # newlines False cs)"

definition univ_newlines :: "string \<Rightarrow> string" where
  "univ_newlines s = newlines False s"

fun read_lines :: "string \<Rightarrow> string list" where
  "read_lines [] = []"
| "read_lines (c # cs) =
     (if c = LF then [c] # read_lines cs
      else case read_lines cs of [] \<Rightarrow> [[c]] | l # ls \<Rightarrow> (c # l) # ls)"

definition parse_line :: "string \<Rightarrow> (string \<times> string) option" where
  "parse_line line = (let l = strip line in
     if l = [] \<or> EQ \<notin> set l then None
     else Some (strip (takeWhile (\<lambda>c. c \<noteq> EQ) l), strip (tl (dropWhile (\<lambda>c. c \<noteq> EQ) l))))"

definition parse_state :: "string list \<Rightarrow> (string \<times> string) list" where
  "parse_state ls = fold (\<lambda>l d. case parse_line l of None \<Rightarrow> d | Some (k, v) \<Rightarrow> dset k v d) ls []"

definition error_state :: "string \<Rightarrow> string \<Rightarrow> (string \<times> string) list" where
  "error_state message now =
     [(''state'', ks_value KS_ACTIVE), (''reason'', reason_value SYSTEM_ERROR), (''message'', message),
      (''activated_at'', now)]"

definition read_state :: "ks_file \<Rightarrow> string \<Rightarrow> (string \<times> string) list" where
  "read_state f now =
     (case f of
        TextFile t \<Rightarrow>
          let ls = read_lines (univ_newlines t) in
          if ls = [] then error_state ''Empty state file'' now
          else let d = parse_state ls in
            if dget d ''state'' = None then error_state ''Corrupt state file: missing state key'' now else d
      | _ \<Rightarrow> error_state ''State file read error'' now)"

definition is_active :: "ks_file \<Rightarrow> string \<Rightarrow> bool" where
  "is_active f now =
     (let v = (case dget (read_state f now) ''state'' of None \<Rightarrow> ks_value KS_ACTIVE | Some v \<Rightarrow> v) in
      if v = ks_value KS_ACTIVE then True else if v = ks_value KS_INACTIVE then False else True)"

definition get_state :: "ks_file \<Rightarrow> string \<Rightarrow> ks_state \<times> string option \<times> string \<times> string option" where
  "get_state f now =
     (let d = read_state f now;
          v = (case dget d ''state'' of None \<Rightarrow> ks_value KS_ACTIVE | Some v \<Rightarrow> v)
      in if v \<noteq> ks_value KS_ACTIVE \<and> v \<noteq> ks_value KS_INACTIVE
         then (KS_ACTIVE, Some (reason_value SYSTEM_ERROR), ''Unknown kill-switch state value: '' @ v, Some now)
         else
           (if v = ks_value KS_ACTIVE then KS_ACTIVE else KS_INACTIVE,
            (case dget d ''reason'' of None \<Rightarrow> None | Some r \<Rightarrow> if r \<noteq> [] \<and> r \<noteq> ''none'' then Some r else None),
            (case dget d ''message'' of None \<Rightarrow> ''Unknown'' | Some m \<Rightarrow> m),
            (case dget d ''activated_at'' of None \<Rightarrow> None | Some a \<Rightarrow> if a = ''none'' then None else Some a)))"

subsection \<open>Writing\<close>

definition state_content :: "ks_state \<Rightarrow> ks_reason option \<Rightarrow> string \<Rightarrow> string option \<Rightarrow> string \<Rightarrow> string" where
  "state_content state reason message activated_at now =
     ''state='' @ ks_value state @ [LF] @
     ''reason='' @ (case reason of None \<Rightarrow> ''none'' | Some r \<Rightarrow> reason_value r) @ [LF] @
     ''message='' @ message @ [LF] @
     ''activated_at='' @ opt_or activated_at ''none'' @ [LF] @
     ''updated_at='' @ now @ [LF]"

definition write_state ::
  "string \<Rightarrow> ks_state \<Rightarrow> ks_reason option \<Rightarrow> string \<Rightarrow> string option \<Rightarrow> string \<Rightarrow> ks_world \<Rightarrow> ks_world" where
  "write_state path state reason message activated_at now w =
     (let ok = (case kw_faults w of [] \<Rightarrow> True | f # _ \<Rightarrow> \<not> f);
          w' = w\<lparr>kw_faults := tl (kw_faults w)\<rparr>
      in if ok then w'\<lparr>kw_files := (kw_files w')(path := TextFile (state_content state reason message activated_at now))\<rparr>
         else w')"

text \<open>The constructor; an instance is its path.\<close>

definition ensure_state_file_exists :: "string \<Rightarrow> string \<Rightarrow> ks_world \<Rightarrow> ks_world" where
  "ensure_state_file_exists path now w =
     (if kw_files w path = NoFile then write_state path KS_INACTIVE None ''Initial state'' None now w else w)"

definition kill_switch_new :: "string \<Rightarrow> string option \<Rightarrow> string \<Rightarrow> ks_world \<Rightarrow> string \<times> ks_world" where
  "kill_switch_new cwd state_file now w =
     (let path = (case state_file of None \<Rightarrow> cwd @ ''/.cdb_kill_switch.state'' | Some p \<Rightarrow> p)
      in (path, ensure_state_file_exists path now w))"

definition full_message :: "string \<Rightarrow> string option \<Rightarrow> string" where
  "full_message message operator =
     (case operator of None \<Rightarrow> message
      | Some p \<Rightarrow> if p \<noteq> [] then message @ '' (operator: '' @ p @ '')'' else message)"

definition activate ::
  "string \<Rightarrow> ks_reason \<Rightarrow> string \<Rightarrow> string option \<Rightarrow> string \<Rightarrow> ks_world \<Rightarrow> bool \<times> ks_world" where
  "activate path reason message operator now w =
     (True, write_state path KS_ACTIVE (Some reason) (full_message message operator) (Some now) now w)"

definition deactivate :: "string \<Rightarrow> string \<Rightarrow> string \<Rightarrow> string \<Rightarrow> ks_world \<Rightarrow> bool \<times> ks_world" where
  "deactivate path operator justification now w =
     (if operator = [] \<or> justification = [] then (False, w)
      else (True, write_state path KS_INACTIVE None (''Deactivated by '' @ operator @ '': '' @ justification) None now w))"

subsection \<open>Module functions\<close>

definition resolve_kill_switch_state_file :: "string \<Rightarrow> string \<Rightarrow> string option \<Rightarrow> string" where
  \<comment> \<open>\<open>env\<close>: the variable's text, empty when unset\<close>
  "resolve_kill_switch_state_file cwd env state_file =
     (if opt_truthy state_file then the state_file
      else if strip env \<noteq> [] then strip env
      else cwd @ ''/.cdb_kill_switch.state'')"

definition get_kill_switch_details ::
  "string \<Rightarrow> string \<Rightarrow> string option \<Rightarrow> bool \<Rightarrow> string \<Rightarrow> ks_world
   \<Rightarrow> (bool \<times> string option \<times> string \<times> string option) \<times> ks_world" where
  "get_kill_switch_details cwd env state_file create_if_missing now w =
     (let path = resolve_kill_switch_state_file cwd env state_file in
      if \<not> create_if_missing \<and> kw_files w path = NoFile
      then ((True, Some (reason_value SYSTEM_ERROR), ''State file missing'', Some now), w)
      else let w' = ensure_state_file_exists path now w in
        case get_state (kw_files w' path) now of (s, rest) \<Rightarrow> ((s = KS_ACTIVE, rest), w'))"

definition get_kill_switch_state :: "string \<Rightarrow> string option \<Rightarrow> string \<Rightarrow> ks_world \<Rightarrow> bool \<times> ks_world" where
  "get_kill_switch_state cwd state_file now w =
     (case kw_global w of
        Some path \<Rightarrow> (is_active (kw_files w path) now, w)
      | None \<Rightarrow> (case kill_switch_new cwd state_file now w of
          (path, w') \<Rightarrow> (is_active (kw_files w' path) now, w'\<lparr>kw_global := Some path\<rparr>)))"

definition activate_kill_switch ::
  "string \<Rightarrow> ks_reason \<Rightarrow> string \<Rightarrow> string option \<Rightarrow> string \<Rightarrow> ks_world \<Rightarrow> bool \<times> ks_world" where
  "activate_kill_switch cwd reason message operator now w =
     (case kw_global w of
        Some path \<Rightarrow> activate path reason message operator now w
      | None \<Rightarrow> (case kill_switch_new cwd None now w of
          (path, w') \<Rightarrow> activate path reason message operator now (w'\<lparr>kw_global := Some path\<rparr>)))"

subsection \<open>Lines written are lines read\<close>

definition one_line :: "string \<Rightarrow> bool" where
  "one_line s = (LF \<notin> set s \<and> CR \<notin> set s)"

lemma one_line_simps [simp]:
  "one_line []" "one_line (c # s) \<longleftrightarrow> c \<noteq> LF \<and> c \<noteq> CR \<and> one_line s"
  "one_line (s @ t) \<longleftrightarrow> one_line s \<and> one_line t"
  by (auto simp: one_line_def)

lemma one_line_values [simp]: "one_line (ks_value s)" "one_line (reason_value r)"
  by (cases s; simp add: ks_value_def) (cases r; simp add: reason_value_def)

lemma newlines_id: "CR \<notin> set s \<Longrightarrow> newlines False s = s"
  by (induction s) auto

lemma read_lines_line: "LF \<notin> set l \<Longrightarrow> read_lines (l @ LF # rest) = (l @ [LF]) # read_lines rest"
  by (induction l) auto

lemma read_lines_eq_Nil [simp]: "read_lines s = [] \<longleftrightarrow> s = []"
  by (cases s) (auto split: list.splits)

lemma rstrip_LF: "rstrip (s @ [LF]) = rstrip s"
  by (simp add: rstrip_def is_space_def)

lemma strip_LF: "s \<noteq> [] \<Longrightarrow> \<not> is_space (hd s) \<Longrightarrow> strip (s @ [LF]) = rstrip s"
  by (cases s) (simp_all add: strip_def lstrip_def rstrip_LF[of "_ # _", simplified])

lemma rstrip_append: "\<not> is_space c \<Longrightarrow> rstrip (s @ c # t) = s @ c # rstrip t"
proof -
  assume c: "\<not> is_space c"
  have "dropWhile is_space (rev t @ c # rev s) = dropWhile is_space (rev t) @ c # rev s"
    using c by (induction "rev t" rule: rev_induct) (auto simp: dropWhile_append)
  then show ?thesis by (simp add: rstrip_def)
qed

lemma rstrip_idem: "rstrip (rstrip s) = rstrip s"
  using rstrip_last[of s] by (intro rstrip_ident) auto

lemma strip_rstrip: "strip (rstrip v) = strip v"
proof (cases "\<exists>x \<in> set v. \<not> is_space x")
  case True
  then obtain a c b where v: "v = a @ c # b" "\<not> is_space c" "\<forall>x \<in> set a. is_space x"
    using split_list_first_prop[of v "\<lambda>x. \<not> is_space x"] by blast
  have l: "lstrip (a @ c # t) = c # t" for t using v(2,3) by (simp add: lstrip_def dropWhile_append)
  show ?thesis
    unfolding v(1) rstrip_append[OF v(2)] strip_def l
    using rstrip_append[OF v(2), of "[]"] by (simp add: rstrip_idem)
next
  case False
  then have e: "lstrip v = []" "rstrip v = []" by (auto simp: lstrip_def rstrip_def)
  have "strip v = []" unfolding strip_def e(1) by (simp add: rstrip_def)
  then show ?thesis unfolding e(2) by simp
qed

lemma parse_keyed_line:
  assumes "k \<noteq> []" "\<not> is_space (hd k)" "\<not> is_space (last k)" "EQ \<notin> set k"
  shows "parse_line (k @ EQ # v @ [LF]) = Some (k, strip v)"
proof -
  have eq: "\<not> is_space EQ" by (simp add: is_space_def)
  have l: "strip (k @ EQ # v @ [LF]) = k @ EQ # rstrip v"
    using strip_LF[of "k @ EQ # v"] assms(1,2) rstrip_append[OF eq, of k v] by simp
  have tk: "takeWhile (\<lambda>c. c \<noteq> EQ) (k @ EQ # rstrip v) = k"
    and dr: "dropWhile (\<lambda>c. c \<noteq> EQ) (k @ EQ # rstrip v) = EQ # rstrip v"
    using assms(4) by (induction k) auto
  have k: "strip k = k" using assms(1-3) by (intro strip_ident) auto
  show ?thesis unfolding parse_line_def Let_def l tk dr by (simp add: k strip_rstrip)
qed

text \<open>What a written state says when its free texts are single lines.\<close>

lemma content_lines:
  assumes "one_line message" "one_line now" "one_line (opt_or activated_at ''none'')"
  shows "read_lines (univ_newlines (state_content state reason message activated_at now)) =
    [''state'' @ EQ # ks_value state @ [LF],
     ''reason'' @ EQ # (case reason of None \<Rightarrow> ''none'' | Some r \<Rightarrow> reason_value r) @ [LF],
     ''message'' @ EQ # message @ [LF],
     ''activated_at'' @ EQ # opt_or activated_at ''none'' @ [LF],
     ''updated_at'' @ EQ # now @ [LF]]"
proof -
  let ?r = "case reason of None \<Rightarrow> ''none'' | Some r \<Rightarrow> reason_value r"
  have r: "one_line ?r" by (cases reason) simp_all
  have c: "state_content state reason message activated_at now =
      (''state'' @ EQ # ks_value state) @ LF # (''reason'' @ EQ # ?r) @ LF # (''message'' @ EQ # message) @ LF #
      (''activated_at'' @ EQ # opt_or activated_at ''none'') @ LF # (''updated_at'' @ EQ # now) @ LF # []"
    by (simp add: state_content_def)
  have "CR \<notin> set (state_content state reason message activated_at now)"
    using assms r one_line_values(1)[of state] by (auto simp: c one_line_def)
  then have u: "univ_newlines (state_content state reason message activated_at now)
      = state_content state reason message activated_at now"
    unfolding univ_newlines_def by (rule newlines_id)
  show ?thesis
    using assms r one_line_values(1)[of state] unfolding u unfolding c
    by (subst read_lines_line, simp add: one_line_def)+ (simp add: one_line_def)
qed

lemma strip_values [simp]: "strip (ks_value s) = ks_value s" "strip (reason_value r) = reason_value r"
  by (cases s; simp add: ks_value_def strip_def lstrip_def rstrip_def is_space_def)
    (cases r; simp add: reason_value_def strip_def lstrip_def rstrip_def is_space_def)

lemma parse_content:
  assumes "one_line message" "one_line now" "one_line (opt_or activated_at ''none'')"
  shows "read_state (TextFile (state_content state reason message activated_at now)) now' =
    [(''state'', ks_value state), (''reason'', case reason of None \<Rightarrow> ''none'' | Some r \<Rightarrow> reason_value r),
     (''message'', strip message), (''activated_at'', strip (opt_or activated_at ''none'')),
     (''updated_at'', strip now)]"
proof -
  have k: "parse_line (''state'' @ EQ # v @ [LF]) = Some (''state'', strip v)"
    "parse_line (''reason'' @ EQ # v @ [LF]) = Some (''reason'', strip v)"
    "parse_line (''message'' @ EQ # v @ [LF]) = Some (''message'', strip v)"
    "parse_line (''activated_at'' @ EQ # v @ [LF]) = Some (''activated_at'', strip v)"
    "parse_line (''updated_at'' @ EQ # v @ [LF]) = Some (''updated_at'', strip v)" for v
    by (rule parse_keyed_line; simp add: is_space_def)+
  have n: "strip ''none'' = ''none''" by (simp add: strip_def lstrip_def rstrip_def is_space_def)
  have "parse_state (read_lines (univ_newlines (state_content state reason message activated_at now))) =
    [(''state'', ks_value state), (''reason'', case reason of None \<Rightarrow> ''none'' | Some r \<Rightarrow> reason_value r),
     (''message'', strip message), (''activated_at'', strip (opt_or activated_at ''none'')),
     (''updated_at'', strip now)]"
    unfolding content_lines[OF assms] parse_state_def
    by (simp only: fold_simps k option.case prod.case comp_apply id_apply) (cases reason; simp add: n)
  moreover have "read_lines (univ_newlines (state_content state reason message activated_at now)) \<noteq> []"
    unfolding content_lines[OF assms] by simp
  ultimately show ?thesis by (simp only: read_state_def ks_file.case Let_def if_False) simp
qed

subsection \<open>Properties\<close>

lemma write_state_ok:
  "(case kw_faults w of [] \<Rightarrow> True | f # _ \<Rightarrow> \<not> f)
    \<Longrightarrow> kw_files (write_state path st r m a now w) path = TextFile (state_content st r m a now)"
  by (simp add: write_state_def Let_def)

lemma write_state_other: "q \<noteq> path \<Longrightarrow> kw_files (write_state path st r m a now w) q = kw_files w q"
  by (simp add: write_state_def Let_def)

text \<open>
  Activation stops trading. After an activation whose message and operator are single
  lines and whose write succeeds, every later read, also of a new instance on the same path,
  answers active, with the reason, the message and the time of the activation.
\<close>

theorem activation_stops:
  assumes "one_line (full_message message operator)" "one_line now" "now \<noteq> []" "now \<noteq> ''none''" "strip now = now"
    and "case kw_faults w of [] \<Rightarrow> True | f # _ \<Rightarrow> \<not> f"
    and "activate path reason message operator now w = (ok, w')"
  shows "ok \<and> is_active (kw_files w' path) later
    \<and> is_active (kw_files (ensure_state_file_exists path later w') path) later
    \<and> get_state (kw_files w' path) later =
        (KS_ACTIVE, Some (reason_value reason), strip (full_message message operator), Some now)"
proof -
  have o: "opt_or (Some now) ''none'' = now" using assms(3) by (simp add: opt_or_def)
  have f: "kw_files w' path = TextFile (state_content KS_ACTIVE (Some reason) (full_message message operator) (Some now) now)"
    using assms(6,7) write_state_ok by (auto simp: activate_def)
  have r: "read_state (kw_files w' path) later = [(''state'', ks_value KS_ACTIVE), (''reason'', reason_value reason),
     (''message'', strip (full_message message operator)), (''activated_at'', now), (''updated_at'', now)]"
    unfolding f using assms(1,2,5) by (subst parse_content) (simp_all add: o)
  have v: "reason_value reason \<noteq> []" "reason_value reason \<noteq> ''none''"
    by (cases reason; simp add: reason_value_def)+
  have e: "ensure_state_file_exists path later w' = w'" by (simp add: ensure_state_file_exists_def f)
  show ?thesis
    unfolding e using assms(4,7) v by (simp add: is_active_def get_state_def r activate_def)
qed

theorem activation_stops_witness:
  "is_active (kw_files (snd (activate ''/s'' MANUAL ''halt'' (Some ''ops'') ''2026-01-01T00:00:00''
     \<lparr>kw_files = \<lambda>_. NoFile, kw_faults = [], kw_global = None\<rparr>)) ''/s'') ''later''"
proof -
  have "one_line (full_message ''halt'' (Some ''ops''))" by (simp add: full_message_def)
  from activation_stops[OF this, of "''2026-01-01T00:00:00''" "\<lparr>kw_files = \<lambda>_. NoFile, kw_faults = [], kw_global = None\<rparr>"
      "''/s''" MANUAL True "snd (activate ''/s'' MANUAL ''halt'' (Some ''ops'') ''2026-01-01T00:00:00''
     \<lparr>kw_files = \<lambda>_. NoFile, kw_faults = [], kw_global = None\<rparr>)" "''later''"]
  show ?thesis by (simp add: activate_def strip_def lstrip_def rstrip_def is_space_def)
qed

text \<open>
  Reading fails closed. The switch reads as inactive only from an existing, readable,
  non-empty file with a line that parses to the key \<open>state\<close> and the value
  \<open>inactive\<close>, and as no other value after it; the state reported by \<open>get_state\<close> agrees.
\<close>

theorem inactive_needs_explicit_state:
  "(\<not> is_active f now \<longleftrightarrow>
      (\<exists>t. f = TextFile t \<and> dget (parse_state (read_lines (univ_newlines t))) ''state'' = Some ''inactive''))
   \<and> (fst (get_state f now) = KS_ACTIVE \<longleftrightarrow> is_active f now)"
proof -
  have agree: "fst (get_state f now) = KS_ACTIVE \<longleftrightarrow> is_active f now"
    by (simp add: get_state_def is_active_def Let_def ks_value_def split: option.splits)
  have "\<not> is_active f now \<longleftrightarrow> dget (read_state f now) ''state'' = Some ''inactive''"
    by (simp add: is_active_def Let_def ks_value_def split: option.splits)
  also have "\<dots> \<longleftrightarrow> (\<exists>t. f = TextFile t \<and> dget (parse_state (read_lines (univ_newlines t))) ''state'' = Some ''inactive'')"
    by (cases f) (auto simp: read_state_def error_state_def ks_value_def Let_def parse_state_def univ_newlines_def
        split: if_splits)
  finally show ?thesis using agree by simp
qed

text \<open>
  Resuming is accountable. A deactivation without operator or without justification is
  refused and changes nothing; on single-line texts and a successful write any other one makes
  the switch read inactive and records operator and justification.
\<close>

theorem deactivation_is_accountable:
  assumes "one_line operator" "one_line justification" "one_line now"
    and "case kw_faults w of [] \<Rightarrow> True | f # _ \<Rightarrow> \<not> f"
    and "deactivate path operator justification now w = (ok, w')"
  shows "(ok \<longleftrightarrow> operator \<noteq> [] \<and> justification \<noteq> [])
    \<and> (\<not> ok \<longrightarrow> w' = w)
    \<and> (ok \<longrightarrow> \<not> is_active (kw_files w' path) later
         \<and> get_state (kw_files w' path) later = (KS_INACTIVE, None, strip (''Deactivated by '' @ operator @ '': '' @ justification), None))"
proof -
  define m where "m = ''Deactivated by '' @ operator @ '': '' @ justification"
  have n: "strip ''none'' = ''none''" by (simp add: strip_def lstrip_def rstrip_def is_space_def)
  have m: "one_line m" using assms(1,2) by (simp add: m_def)
  have r: "read_state (TextFile (state_content KS_INACTIVE None m None now)) later =
      [(''state'', ks_value KS_INACTIVE), (''reason'', ''none''), (''message'', strip m),
       (''activated_at'', ''none''), (''updated_at'', strip now)]"
    by (subst parse_content[OF m assms(3)]) (simp_all add: opt_or_def n)
  have "operator \<noteq> [] \<Longrightarrow> justification \<noteq> [] \<Longrightarrow> kw_files w' path = TextFile (state_content KS_INACTIVE None m None now)"
    using assms(4,5) write_state_ok by (auto simp: deactivate_def m_def)
  then show ?thesis
    using assms(5) unfolding m_def[symmetric] deactivate_def
    by (auto simp: is_active_def get_state_def r ks_value_def split: if_splits)
qed

theorem deactivation_is_accountable_witness:
  "\<not> is_active (kw_files (snd (deactivate ''/s'' ''ops'' ''resolved'' ''t''
     \<lparr>kw_files = \<lambda>_. NoFile, kw_faults = [], kw_global = None\<rparr>)) ''/s'') ''later''"
  using deactivation_is_accountable[of "''ops''" "''resolved''" "''t''" "\<lparr>kw_files = \<lambda>_. NoFile, kw_faults = [], kw_global = None\<rparr>"
      "''/s''" True "snd (deactivate ''/s'' ''ops'' ''resolved'' ''t'' \<lparr>kw_files = \<lambda>_. NoFile, kw_faults = [], kw_global = None\<rparr>)" "''later''"]
  by (simp add: deactivate_def)

lemma newlines_append: "newlines b (s @ LF # t) = newlines b (s @ [LF]) @ newlines False t"
  by (induction s arbitrary: b) auto

lemma newlines_ends: "\<exists>u. newlines False (s @ [LF]) = u @ [LF]"
proof -
  have "newlines b (s @ [LF]) = [] \<and> b \<and> s = [] \<or> (\<exists>u. newlines b (s @ [LF]) = u @ [LF])" for b
    by (induction s arbitrary: b) (auto split: if_splits, (metis append_Cons append_Nil)+)
  from this[of False] show ?thesis by auto
qed

lemma read_lines_append: "read_lines (s @ LF # t) = read_lines (s @ [LF]) @ read_lines t"
  by (induction s) (auto split: list.splits)

text \<open>A text followed by a line break is read on its own.\<close>

definition lines_of :: "string \<Rightarrow> string list" where
  "lines_of s = read_lines (univ_newlines (s @ [LF]))"

lemma lines_split: "read_lines (univ_newlines (s @ LF # t)) = lines_of s @ read_lines (univ_newlines t)"
proof -
  obtain u where u: "newlines False (s @ [LF]) = u @ [LF]" using newlines_ends by blast
  show ?thesis
    unfolding lines_of_def univ_newlines_def newlines_append[of False s t] u
    using read_lines_append[of u "newlines False t"] by simp
qed

definition line_step :: "string \<Rightarrow> (string \<times> string) list \<Rightarrow> (string \<times> string) list" where
  "line_step l d = (case parse_line l of None \<Rightarrow> d | Some (k, v) \<Rightarrow> dset k v d)"

lemma parse_state_fold: "parse_state ls = fold line_step ls []"
  by (simp add: parse_state_def line_step_def[abs_def])

lemma line_step_get: "dget (line_step l d) k = (case parse_line l of None \<Rightarrow> dget d k | Some (k', v) \<Rightarrow> if k = k' then Some v else dget d k)"
  by (auto simp: line_step_def split: option.splits)

text \<open>The last line that sets a key decides.\<close>

lemma fold_lines_get: "dget (fold line_step ls d) k = (case dget (parse_state ls) k of None \<Rightarrow> dget d k | Some v \<Rightarrow> Some v)"
  by (induction ls rule: rev_induct) (auto simp: parse_state_fold line_step_get split: option.splits)

lemma parse_state_append: "dget (parse_state (ls @ ls')) k = (case dget (parse_state ls') k of None \<Rightarrow> dget (parse_state ls) k | Some v \<Rightarrow> Some v)"
  by (subst parse_state_fold) (simp only: fold_append comp_apply fold_lines_get parse_state_fold[symmetric])

lemma newlines_prefix: "CR \<notin> set p \<Longrightarrow> newlines False (p @ s) = p @ newlines False s"
  by (induction p) auto

lemma read_lines_prefix: "LF \<notin> set p \<Longrightarrow> s \<noteq> [] \<Longrightarrow> read_lines (p @ s) = (p @ hd (read_lines s)) # tl (read_lines s)"
proof (induction p)
  case Nil
  then show ?case by (cases "read_lines s") simp_all
qed auto

lemma first_line_ends: "\<exists>x. hd (read_lines (u @ [LF])) = x @ [LF]"
proof (induction u)
  case (Cons c u)
  then obtain x where x: "hd (read_lines (u @ [LF])) = x @ [LF]" by blast
  show ?case
  proof (cases "read_lines (u @ [LF])")
    case (Cons l ls)
    have "hd (read_lines ((c # u) @ [LF])) = (if c = LF then [] else c # x) @ [LF]" using x Cons by simp
    then show ?thesis by blast
  qed simp
qed simp

lemma lines_of_prefix:
  assumes "one_line p"
  shows "\<exists>x. lines_of (p @ s) = (p @ x @ [LF]) # tl (lines_of s)"
proof -
  obtain u where u: "newlines False (s @ [LF]) = u @ [LF]" using newlines_ends by blast
  obtain x where x: "hd (read_lines (u @ [LF])) = x @ [LF]" using first_line_ends by blast
  have "lines_of (p @ s) = read_lines (p @ (u @ [LF]))"
    using assms newlines_prefix[of p "s @ [LF]"] by (simp add: lines_of_def univ_newlines_def one_line_def u)
  also have "\<dots> = (p @ x @ [LF]) # tl (lines_of s)"
    using assms by (subst read_lines_prefix) (simp_all add: one_line_def lines_of_def univ_newlines_def u x)
  finally show ?thesis by blast
qed

lemma lines_of_one_line: "one_line l \<Longrightarrow> lines_of l = [l @ [LF]]"
  using newlines_id[of "l @ [LF]"] read_lines_line[of l "[]"] by (simp add: lines_of_def univ_newlines_def one_line_def)

text \<open>What the lines of a message after its first one set as the state.\<close>

definition state_in_message :: "string \<Rightarrow> string option" where
  "state_in_message m = dget (parse_state (tl (lines_of m))) ''state''"

lemma content_state:
  assumes "one_line (opt_or activated_at ''none'')" "one_line now"
  shows "dget (parse_state (read_lines (univ_newlines (state_content st reason m activated_at now)))) ''state''
    = (case state_in_message m of None \<Rightarrow> Some (ks_value st) | Some v \<Rightarrow> Some v)"
proof -
  let ?r = "case reason of None \<Rightarrow> ''none'' | Some r \<Rightarrow> reason_value r"
  have r: "one_line ?r" by (cases reason) simp_all
  obtain x where m: "lines_of (''message='' @ m) = (''message='' @ x @ [LF]) # tl (lines_of m)"
    using lines_of_prefix[of "''message=''" m] by auto
  have c: "state_content st reason m activated_at now = (''state='' @ ks_value st) @ LF # (''reason='' @ ?r) @ LF # (''message='' @ m) @ LF #
      (''activated_at='' @ opt_or activated_at ''none'') @ LF # (''updated_at='' @ now) @ LF # []"
    by (simp add: state_content_def)
  have lines: "read_lines (univ_newlines (state_content st reason m activated_at now)) =
      [''state'' @ EQ # ks_value st @ [LF], ''reason'' @ EQ # ?r @ [LF], ''message'' @ EQ # x @ [LF]] @ tl (lines_of m)
      @ [''activated_at'' @ EQ # opt_or activated_at ''none'' @ [LF], ''updated_at'' @ EQ # now @ [LF]]"
    unfolding c lines_split m
    using lines_of_one_line[of "''state='' @ ks_value st"] lines_of_one_line[of "''reason='' @ ?r"] r
      lines_of_one_line[of "''activated_at='' @ opt_or activated_at ''none''"] lines_of_one_line[of "''updated_at='' @ now"] assms
    by (simp add: univ_newlines_def)
  have k: "parse_line (''state'' @ EQ # v @ [LF]) = Some (''state'', strip v)"
    "parse_line (''reason'' @ EQ # v @ [LF]) = Some (''reason'', strip v)"
    "parse_line (''message'' @ EQ # v @ [LF]) = Some (''message'', strip v)"
    "parse_line (''activated_at'' @ EQ # v @ [LF]) = Some (''activated_at'', strip v)"
    "parse_line (''updated_at'' @ EQ # v @ [LF]) = Some (''updated_at'', strip v)" for v
    by (rule parse_keyed_line; simp add: is_space_def)+
  have before: "dget (parse_state [''state'' @ EQ # ks_value st @ [LF], ''reason'' @ EQ # ?r @ [LF], ''message'' @ EQ # x @ [LF]]) ''state''
      = Some (ks_value st)"
    by (simp only: parse_state_fold fold_simps line_step_get k option.case prod.case) simp
  have after: "dget (parse_state [''activated_at'' @ EQ # opt_or activated_at ''none'' @ [LF], ''updated_at'' @ EQ # now @ [LF]]) ''state'' = None"
    by (simp only: parse_state_fold fold_simps line_step_get k option.case prod.case) simp
  show ?thesis
    unfolding lines parse_state_append before after state_in_message_def by (simp split: option.split)
qed

lemma active_text:
  assumes "dget (parse_state (read_lines (univ_newlines t))) ''state'' = Some v"
  shows "is_active (TextFile t) later \<longleftrightarrow> v \<noteq> ''inactive''"
proof -
  have "read_lines (univ_newlines t) \<noteq> []"
    using assms by (cases "read_lines (univ_newlines t) = []") (simp_all add: parse_state_def)
  then show ?thesis using assms by (simp add: is_active_def read_state_def Let_def ks_value_def)
qed

lemma content_active:
  assumes "one_line (opt_or activated_at ''none'')" "one_line now"
  shows "is_active (TextFile (state_content st reason m activated_at now)) later
    \<longleftrightarrow> (case state_in_message m of None \<Rightarrow> st = KS_ACTIVE | Some v \<Rightarrow> v \<noteq> ''inactive'')"
proof (cases "state_in_message m")
  case None
  with content_state[OF assms, of st reason m] active_text[of _ "ks_value st"] show ?thesis by (cases st) (simp_all add: ks_value_def)
next
  case (Some v)
  with content_state[OF assms, of st reason m] active_text[of _ v] show ?thesis by simp
qed

definition write_fails :: "ks_world \<Rightarrow> bool" where
  "write_fails w = (case kw_faults w of [] \<Rightarrow> False | f # _ \<Rightarrow> f)"

lemma write_state_file: "kw_files (write_state path st r m a now w) path =
    (if write_fails w then kw_files w path else TextFile (state_content st r m a now))"
  by (simp add: write_state_def write_fails_def Let_def split: list.splits)

text \<open>
  C28. What an activation leaves, exactly. \<open>activate\<close> always reports success. When its write failed,
  the switch answers what it answered before. When it succeeded, the switch answers active unless the
  message, with the operator, has more than one line and the last of the later lines that sets \<open>state\<close>
  sets it to \<open>inactive\<close>: such a message releases what it was to stop. And a state file that is missing
  when \<open>get_kill_switch_details\<close> may create it answers inactive, unless that write fails: an
  activation whose file was removed is forgotten. The clock's text is a single line.
\<close>

theorem activation_can_be_lost:
  assumes "one_line now"
  shows "fst (activate path reason message operator now w)
    \<and> (is_active (kw_files (snd (activate path reason message operator now w)) path) later \<longleftrightarrow>
         (if write_fails w then is_active (kw_files w path) later
          else state_in_message (full_message message operator) \<noteq> Some ''inactive''))
    \<and> (kw_files w (resolve_kill_switch_state_file cwd env state_file) = NoFile \<longrightarrow>
         (fst (fst (get_kill_switch_details cwd env state_file True now w)) \<longleftrightarrow> write_fails w))"
proof -
  let ?m = "full_message message operator"
  have o: "one_line (opt_or (Some now) ''none'')" "one_line (opt_or None ''none'')" using assms by (simp_all add: opt_or_def)
  have "is_active (kw_files (snd (activate path reason message operator now w)) path) later \<longleftrightarrow>
      (if write_fails w then is_active (kw_files w path) later else state_in_message ?m \<noteq> Some ''inactive'')"
    by (simp add: activate_def write_state_file content_active[OF o(1) assms] split: option.split)
  moreover have "fst (fst (get_kill_switch_details cwd env state_file True now w)) \<longleftrightarrow> write_fails w"
    if missing: "kw_files w (resolve_kill_switch_state_file cwd env state_file) = NoFile"
  proof -
    let ?p = "resolve_kill_switch_state_file cwd env state_file"
    have "fst (fst (get_kill_switch_details cwd env state_file True now w))
        \<longleftrightarrow> is_active (kw_files (ensure_state_file_exists ?p now w) ?p) now"
      by (simp add: get_kill_switch_details_def Let_def case_prod_beta inactive_needs_explicit_state)
    moreover have "state_in_message ''Initial state'' = None"
      using lines_of_one_line[of "''Initial state''"] by (simp add: state_in_message_def parse_state_def)
    ultimately show ?thesis
      by (simp add: ensure_state_file_exists_def missing write_state_file content_active[OF o(2) assms])
        (simp add: is_active_def read_state_def error_state_def)
  qed
  ultimately show ?thesis by (simp add: activate_def)
qed

text \<open>The message releases the switch that it is to close.\<close>

theorem activation_can_be_lost_witness:
  "\<not> is_active (kw_files (snd (activate ''/s'' MANUAL (''x'' @ [LF] @ ''state=inactive'') None ''t''
     \<lparr>kw_files = \<lambda>_. NoFile, kw_faults = [], kw_global = None\<rparr>)) ''/s'') ''t''"
proof -
  have "state_in_message (full_message (''x'' @ [LF] @ ''state=inactive'') None) = Some ''inactive''" by code_simp
  then show ?thesis
    using activation_can_be_lost[of "''t''" "''/s''" MANUAL "''x'' @ [LF] @ ''state=inactive''" None
        "\<lparr>kw_files = \<lambda>_. NoFile, kw_faults = [], kw_global = None\<rparr>" "''t''"]
    by (simp add: write_fails_def)
qed

end
