(* ===== verification/ReduceOnly.thy ===== *)
theory ReduceOnly
  imports PyDecimal
begin

text \<open>
  The reduce-only execution contract, \<open>services/execution/reduce_only.py\<close>: signed
  base-asset quantities, preparation with clamping, application of one adapter result, and the
  retry policy on ledger rows.  A quantity argument is a \<open>Decimal\<close> or the text
  \<open>str(value)\<close> of anything else; arithmetic can raise, so the two main operations return a sum.
\<close>

subsection \<open>Reason codes\<close>

definition REDUCE_ONLY_POSITION_UNKNOWN :: string where "REDUCE_ONLY_POSITION_UNKNOWN = ''REDUCE_ONLY_POSITION_UNKNOWN''"
definition REDUCE_ONLY_NO_POSITION :: string where "REDUCE_ONLY_NO_POSITION = ''REDUCE_ONLY_NO_POSITION''"
definition REDUCE_ONLY_INVALID_QUANTITY :: string where "REDUCE_ONLY_INVALID_QUANTITY = ''REDUCE_ONLY_INVALID_QUANTITY''"
definition REDUCE_ONLY_QUANTITY_CLAMPED :: string where "REDUCE_ONLY_QUANTITY_CLAMPED = ''REDUCE_ONLY_QUANTITY_CLAMPED''"
definition REDUCE_ONLY_SIDE_MISMATCH :: string where "REDUCE_ONLY_SIDE_MISMATCH = ''REDUCE_ONLY_SIDE_MISMATCH''"
definition REDUCE_ONLY_REJECTED :: string where "REDUCE_ONLY_REJECTED = ''REDUCE_ONLY_REJECTED''"
definition REDUCE_ONLY_PARTIAL_FILL :: string where "REDUCE_ONLY_PARTIAL_FILL = ''REDUCE_ONLY_PARTIAL_FILL''"
definition REDUCE_ONLY_DUPLICATE_RESULT :: string where "REDUCE_ONLY_DUPLICATE_RESULT = ''REDUCE_ONLY_DUPLICATE_RESULT''"
definition REDUCE_ONLY_CONCURRENT_CLAIM_BLOCKED :: string where
  "REDUCE_ONLY_CONCURRENT_CLAIM_BLOCKED = ''REDUCE_ONLY_CONCURRENT_CLAIM_BLOCKED''"
definition REDUCE_ONLY_POSITION_INCREASE_BLOCKED :: string where
  "REDUCE_ONLY_POSITION_INCREASE_BLOCKED = ''REDUCE_ONLY_POSITION_INCREASE_BLOCKED''"
definition REDUCE_ONLY_FILLED :: string where "REDUCE_ONLY_FILLED = ''REDUCE_ONLY_FILLED''"
definition REDUCE_ONLY_READY :: string where "REDUCE_ONLY_READY = ''REDUCE_ONLY_READY''"
definition REDUCE_ONLY_ADAPTER_BOUND :: string where "REDUCE_ONLY_ADAPTER_BOUND = ''REDUCE_ONLY_ADAPTER_BOUND''"
definition REDUCE_ONLY_DISPATCH_CLAIMED :: string where "REDUCE_ONLY_DISPATCH_CLAIMED = ''REDUCE_ONLY_DISPATCH_CLAIMED''"
definition REDUCE_ONLY_CLAIM_MISMATCH :: string where "REDUCE_ONLY_CLAIM_MISMATCH = ''REDUCE_ONLY_CLAIM_MISMATCH''"

lemmas ro_codes = REDUCE_ONLY_POSITION_UNKNOWN_def REDUCE_ONLY_NO_POSITION_def REDUCE_ONLY_INVALID_QUANTITY_def
  REDUCE_ONLY_QUANTITY_CLAMPED_def REDUCE_ONLY_SIDE_MISMATCH_def REDUCE_ONLY_REJECTED_def REDUCE_ONLY_PARTIAL_FILL_def
  REDUCE_ONLY_DUPLICATE_RESULT_def REDUCE_ONLY_CONCURRENT_CLAIM_BLOCKED_def REDUCE_ONLY_POSITION_INCREASE_BLOCKED_def
  REDUCE_ONLY_FILLED_def REDUCE_ONLY_READY_def REDUCE_ONLY_ADAPTER_BOUND_def REDUCE_ONLY_DISPATCH_CLAIMED_def
  REDUCE_ONLY_CLAIM_MISMATCH_def

definition DISPATCH_CLAIMABLE_REASONS :: "string list" where
  "DISPATCH_CLAIMABLE_REASONS = [REDUCE_ONLY_READY, REDUCE_ONLY_QUANTITY_CLAMPED]"

definition BINDABLE_REASONS :: "string list" where
  "BINDABLE_REASONS = [REDUCE_ONLY_READY, REDUCE_ONLY_QUANTITY_CLAMPED, REDUCE_ONLY_DISPATCH_CLAIMED]"

definition SUCCESS_STATUSES :: "string list" where "SUCCESS_STATUSES = [''FILLED'', ''PARTIALLY_FILLED'']"
definition ACTIVE_STATUSES :: "string list" where "ACTIVE_STATUSES = [''PREPARED'']"
definition RETRYABLE_TERMINAL_STATUSES :: "string list" where "RETRYABLE_TERMINAL_STATUSES = [''REJECTED'']"
definition RETRYABLE_TERMINAL_REASONS :: "string list" where "RETRYABLE_TERMINAL_REASONS = [REDUCE_ONLY_REJECTED]"

subsection \<open>Quantities\<close>

datatype quantity_arg = DecArg decimal | TextArg string

definition ro_decimal :: "quantity_arg \<Rightarrow> decimal option" where
  \<comment> \<open>\<open>_decimal\<close>; \<open>None\<close> is its \<open>ValueError\<close>\<close>
  "ro_decimal a = (case a of DecArg d \<Rightarrow> Some d
     | TextArg s \<Rightarrow> (case dec_of_string s of Inl _ \<Rightarrow> None | Inr d \<Rightarrow> Some d))"

lemma ro_decimal_DecArg [simp]: "ro_decimal (DecArg d) = Some d"
  by (simp add: ro_decimal_def)

definition valid_positive :: "decimal \<Rightarrow> bool" where
  "valid_positive d = (is_finite d \<and> dec_lt dec_zero d)"

definition side_matches :: "decimal \<Rightarrow> string \<Rightarrow> bool" where
  "side_matches position side =
     ((dec_lt dec_zero position \<and> upper side = ''SELL'') \<or> (dec_lt position dec_zero \<and> upper side = ''BUY''))"

subsection \<open>Retry policy\<close>

definition is_retryable_reduce_only_terminal :: "string \<Rightarrow> string \<Rightarrow> quantity_arg \<Rightarrow> bool" where
  "is_retryable_reduce_only_terminal status reason_code filled_quantity =
     (case ro_decimal filled_quantity of
        None \<Rightarrow> False
      | Some filled \<Rightarrow>
          if \<not> is_finite filled \<or> \<not> dec_eq filled dec_zero then False
          else upper status \<in> set RETRYABLE_TERMINAL_STATUSES \<and> reason_code \<in> set RETRYABLE_TERMINAL_REASONS)"

definition is_active_reduce_only_attempt :: "string \<Rightarrow> bool" where
  "is_active_reduce_only_attempt status = (upper status \<in> set ACTIVE_STATUSES)"

definition is_successful_reduce_only_attempt :: "string \<Rightarrow> bool" where
  "is_successful_reduce_only_attempt status = (upper status \<in> set SUCCESS_STATUSES)"

text \<open>\<open>generate_uuid(name)\<close> is the parameter \<open>uuid\<close>.\<close>

definition derive_attempt_order_id :: "(string \<Rightarrow> string) \<Rightarrow> string \<Rightarrow> int \<Rightarrow> py_exc + string" where
  "derive_attempt_order_id uuid key n =
     (if key = [] then Inl (ValueError ''logical_operation_key is required'')
      else if n < 1 then Inl (ValueError ''attempt_number must be a positive integer'')
      else Inr (uuid (key @ '':attempt:'' @ int_str n)))"

definition derive_legacy_order_id :: "(string \<Rightarrow> string) \<Rightarrow> string \<Rightarrow> py_exc + string" where
  "derive_legacy_order_id uuid key =
     (if key = [] then Inl (ValueError ''logical_operation_key is required'') else Inr (uuid key))"

subsection \<open>Preparation\<close>

record preparation =
  rp_allowed :: bool
  rp_position_before :: "decimal option"
  rp_requested :: decimal
  rp_submitted :: decimal
  rp_side :: string
  rp_reason :: string

definition rp_refused :: "decimal option \<Rightarrow> decimal \<Rightarrow> string \<Rightarrow> string \<Rightarrow> preparation" where
  "rp_refused before requested side reason =
     \<lparr>rp_allowed = False, rp_position_before = before, rp_requested = requested, rp_submitted = dec_zero,
      rp_side = side, rp_reason = reason\<rparr>"

text \<open>
  \<open>position_before\<close> is kept as given in the first refusal; as text it would be a string
  there, and only the value read from it is recorded.
\<close>

definition prepare_reduce_only ::
  "quantity_arg option \<Rightarrow> string \<Rightarrow> quantity_arg \<Rightarrow> quantity_arg \<Rightarrow> py_exc + preparation" where
  "prepare_reduce_only position_before side requested_quantity reserved_quantity =
     (let nside = upper side;
          parsed = (case (ro_decimal requested_quantity, ro_decimal reserved_quantity) of
                      (Some a, Some b) \<Rightarrow> (a, b) | _ \<Rightarrow> (dec_zero, dec_zero));
          requested = fst parsed; reserved = snd parsed
      in if \<not> valid_positive requested \<or> \<not> is_finite reserved \<or> dec_lt reserved dec_zero then
           Inr (rp_refused (Option.bind position_before ro_decimal) requested nside REDUCE_ONLY_INVALID_QUANTITY)
         else case position_before of
           None \<Rightarrow> Inr (rp_refused None requested nside REDUCE_ONLY_POSITION_UNKNOWN)
         | Some arg \<Rightarrow>
           let position = (case ro_decimal arg of None \<Rightarrow> DNaN | Some d \<Rightarrow> d) in
           if \<not> is_finite position then Inr (rp_refused None requested nside REDUCE_ONLY_POSITION_UNKNOWN)
           else if dec_eq position dec_zero then Inr (rp_refused (Some position) requested nside REDUCE_ONLY_NO_POSITION)
           else if dec_lt dec_zero reserved then
             Inr (rp_refused (Some position) requested nside REDUCE_ONLY_CONCURRENT_CLAIM_BLOCKED)
           else if \<not> side_matches position nside then
             Inr (rp_refused (Some position) requested nside REDUCE_ONLY_SIDE_MISMATCH)
           else ebind (dec_abs position) (\<lambda>ab. ebind (dec_sub ab reserved) (\<lambda>rest.
             let available = dec_max dec_zero rest in
             if dec_eq available dec_zero then
               Inr (rp_refused (Some position) requested nside REDUCE_ONLY_NO_POSITION)
             else
               let submitted = dec_min requested available in
               Inr \<lparr>rp_allowed = True, rp_position_before = Some position, rp_requested = requested,
                    rp_submitted = submitted, rp_side = nside,
                    rp_reason = (if dec_lt submitted requested then REDUCE_ONLY_QUANTITY_CLAMPED
                                 else REDUCE_ONLY_READY)\<rparr>)))"

subsection \<open>Applying a result\<close>

record outcome =
  oc_applied :: bool
  oc_position_after :: decimal
  oc_remaining :: decimal
  oc_filled :: decimal
  oc_reason :: string
  oc_increase_observed :: bool
  oc_flip_observed :: bool

text \<open>An outcome that leaves the position; the remaining quantity is \<open>abs(before)\<close>.\<close>

definition oc_kept :: "decimal \<Rightarrow> string \<Rightarrow> bool \<Rightarrow> bool \<Rightarrow> py_exc + outcome" where
  "oc_kept before reason inc flip = ebind (dec_abs before) (\<lambda>rem.
     Inr \<lparr>oc_applied = False, oc_position_after = before, oc_remaining = rem, oc_filled = dec_zero,
          oc_reason = reason, oc_increase_observed = inc, oc_flip_observed = flip\<rparr>)"

text \<open>\<open>abs(a) > abs(b)\<close> and \<open>a * b < 0\<close>, with what the arithmetic may raise.\<close>

definition abs_greater :: "decimal \<Rightarrow> decimal \<Rightarrow> py_exc + bool" where
  "abs_greater a b = ebind (dec_abs a) (\<lambda>x. ebind (dec_abs b) (\<lambda>y. dec_lt_r y x))"

definition opposite_signs :: "decimal \<Rightarrow> decimal \<Rightarrow> py_exc + bool" where
  "opposite_signs a b = ebind (dec_mul a b) (\<lambda>x. dec_lt_r x dec_zero)"

definition REJECTING_STATUSES :: "string list" where
  "REJECTING_STATUSES = [''REJECTED'', ''FAILED'', ''CANCELLED'', ''ERROR'']"

definition apply_reduce_only_result ::
  "preparation \<Rightarrow> string \<Rightarrow> quantity_arg \<Rightarrow> bool \<Rightarrow> quantity_arg option \<Rightarrow> py_exc + outcome" where
  "apply_reduce_only_result prep status filled_quantity already_applied persisted_position =
     (let before = (case rp_position_before prep of None \<Rightarrow> dec_zero | Some d \<Rightarrow> d) in
      if already_applied then
        ebind (case persisted_position of None \<Rightarrow> Inr before
               | Some a \<Rightarrow> (case ro_decimal a of None \<Rightarrow> Inl (ValueError ''invalid decimal'') | Some d \<Rightarrow> Inr d))
          (\<lambda>after. ebind (dec_abs after) (\<lambda>rem. ebind (abs_greater after before) (\<lambda>inc.
            ebind (opposite_signs before after) (\<lambda>flip.
              Inr \<lparr>oc_applied = False, oc_position_after = after, oc_remaining = rem, oc_filled = dec_zero,
                   oc_reason = REDUCE_ONLY_DUPLICATE_RESULT, oc_increase_observed = inc, oc_flip_observed = flip\<rparr>))))
      else
        let nstatus = upper status;
            filled = (case ro_decimal filled_quantity of None \<Rightarrow> DNaN | Some d \<Rightarrow> d)
        in if nstatus \<in> set REJECTING_STATUSES then
             (if \<not> is_finite filled \<or> \<not> dec_eq filled dec_zero
              then oc_kept before REDUCE_ONLY_POSITION_INCREASE_BLOCKED False False
              else oc_kept before REDUCE_ONLY_REJECTED False False)
           else if nstatus \<notin> set SUCCESS_STATUSES then
             oc_kept before REDUCE_ONLY_POSITION_INCREASE_BLOCKED False False
           else if \<not> is_finite filled \<or> dec_lt filled dec_zero then
             oc_kept before REDUCE_ONLY_POSITION_INCREASE_BLOCKED False False
           else ebind (dec_lt_r (rp_submitted prep) filled) (\<lambda>over.
             if over \<or> \<not> rp_allowed prep then oc_kept before REDUCE_ONLY_POSITION_INCREASE_BLOCKED False False
             else ebind (if rp_side prep = ''BUY'' then Inr filled else dec_neg filled) (\<lambda>delta.
               ebind (dec_add before delta) (\<lambda>after.
               ebind (abs_greater after before) (\<lambda>inc.
               ebind (opposite_signs before after) (\<lambda>flip.
                 if inc \<or> flip then oc_kept before REDUCE_ONLY_POSITION_INCREASE_BLOCKED inc flip
                 else ebind (dec_abs after) (\<lambda>rem.
                   Inr \<lparr>oc_applied = dec_lt dec_zero filled, oc_position_after = after, oc_remaining = rem,
                        oc_filled = filled,
                        oc_reason = (if dec_lt filled (rp_submitted prep) then REDUCE_ONLY_PARTIAL_FILL
                                     else REDUCE_ONLY_FILLED),
                        oc_increase_observed = False, oc_flip_observed = False\<rparr>)))))))"

subsection \<open>What a preparation allows\<close>

lemma side_matches_iff:
  "is_finite p \<Longrightarrow> side_matches p side \<longleftrightarrow>
     (0 < dec_val p \<and> upper side = ''SELL'') \<or> (dec_val p < 0 \<and> upper side = ''BUY'')"
  by (auto simp: side_matches_def fin_cmp)

lemma upper_upper [simp]: "upper (upper s) = upper s"
proof -
  have "upper_char (upper_char c) = upper_char c" for c
  proof -
    have "of_char (char_of (of_char c - 32 :: nat)) = (of_char c - 32 :: nat)"
      using nat_of_char_less_256[of c] less_imp_diff_less[of "of_char c" 256 32] by simp
    then show ?thesis by (auto simp: upper_char_def Let_def)
  qed
  then show ?thesis by (simp add: upper_def)
qed

lemma available_val:
  assumes "in_context p" "dec_abs p = Inr ab" "dec_sub ab b = Inr rest" "is_finite b" "dec_val b = 0"
  shows "is_finite (dec_max dec_zero rest) \<and> dec_val (dec_max dec_zero rest) = \<bar>dec_val p\<bar>"
proof -
  have ab: "in_context ab" "dec_val ab = \<bar>dec_val p\<bar>" using in_context_abs[OF assms(1)] assms(2) by auto
  obtain s c e where b: "b = DFin s c e" using assms(4) by (rule is_finite_cases)
  have "is_finite (copy_negate b)" "dec_val (copy_negate b) = 0" using assms(5) by (simp_all add: b)
  then have r: "in_context rest" "dec_val rest = \<bar>dec_val p\<bar>"
    using dec_add_zero_right[OF ab(1), of "copy_negate b"] ab(2) assms(3) by (auto simp: dec_sub_def)
  have "is_finite rest" using r(1) by (rule in_context_finite)
  with r(2) show ?thesis by (auto simp: dec_max_val) (simp add: dec_max_def)
qed

text \<open>The refusals, in the order of the guards.\<close>

lemma prepare_reduce_only_cases:
  assumes "prepare_reduce_only pos side req res = Inr r"
  obtains (refused) "\<not> rp_allowed r" "rp_submitted r = dec_zero"
    "\<not> (\<exists>arg position requested reserved. pos = Some arg \<and> ro_decimal arg = Some position \<and> is_finite position
       \<and> dec_val position \<noteq> 0 \<and> ro_decimal req = Some requested \<and> valid_positive requested
       \<and> ro_decimal res = Some reserved \<and> is_finite reserved \<and> dec_val reserved = 0
       \<and> side_matches position (upper side) \<and> in_context position)"
  | (allowed) arg position requested reserved ab rest where
    "pos = Some arg" "ro_decimal arg = Some position" "is_finite position" "dec_val position \<noteq> 0"
    "ro_decimal req = Some requested" "valid_positive requested" "ro_decimal res = Some reserved"
    "is_finite reserved" "dec_val reserved = 0" "side_matches position (upper side)"
    "dec_abs position = Inr ab" "dec_sub ab reserved = Inr rest" "\<not> dec_eq (dec_max dec_zero rest) dec_zero"
    "rp_allowed r" "rp_position_before r = Some position" "rp_requested r = requested"
    "rp_submitted r = dec_min requested (dec_max dec_zero rest)" "rp_side r = upper side"
    "rp_reason r = (if dec_lt (dec_min requested (dec_max dec_zero rest)) requested
       then REDUCE_ONLY_QUANTITY_CLAMPED else REDUCE_ONLY_READY)"
proof -
  note D = prepare_reduce_only_def Let_def rp_refused_def
  have refuse: ?thesis if "\<not> rp_allowed r" "rp_submitted r = dec_zero"
    "\<And>arg position requested reserved. pos = Some arg \<Longrightarrow> ro_decimal arg = Some position \<Longrightarrow> is_finite position
       \<Longrightarrow> dec_val position \<noteq> 0 \<Longrightarrow> ro_decimal req = Some requested \<Longrightarrow> valid_positive requested
       \<Longrightarrow> ro_decimal res = Some reserved \<Longrightarrow> is_finite reserved \<Longrightarrow> dec_val reserved = 0
       \<Longrightarrow> side_matches position (upper side) \<Longrightarrow> in_context position \<Longrightarrow> False"
    using that by (intro refused) blast+
  show ?thesis
  proof (cases "\<exists>requested reserved. ro_decimal req = Some requested \<and> ro_decimal res = Some reserved
      \<and> valid_positive requested \<and> is_finite reserved \<and> \<not> dec_lt reserved dec_zero")
    case False
    have "r = rp_refused (Option.bind pos ro_decimal)
        (fst (case (ro_decimal req, ro_decimal res) of (Some a, Some b) \<Rightarrow> (a, b) | _ \<Rightarrow> (dec_zero, dec_zero)))
        (upper side) REDUCE_ONLY_INVALID_QUANTITY"
      using assms False by (auto simp: prepare_reduce_only_def Let_def valid_positive_def split: option.splits if_splits)
    then show ?thesis using False by (intro refuse) (auto simp: rp_refused_def fin_cmp)
  next
    case True
    then obtain a b where q: "ro_decimal req = Some a" "ro_decimal res = Some b" "valid_positive a" "is_finite b"
      "\<not> dec_lt b dec_zero" by blast
    show ?thesis
    proof (cases "Option.bind pos ro_decimal")
      case None
      then have "r = rp_refused None a (upper side) REDUCE_ONLY_POSITION_UNKNOWN"
        using assms q by (cases pos) (auto simp: prepare_reduce_only_def Let_def)
      then show ?thesis using None by (intro refuse) (auto simp: rp_refused_def)
    next
      case (Some p)
      then obtain arg where arg: "pos = Some arg" "ro_decimal arg = Some p" by (cases pos) auto
      show ?thesis
      proof (cases "is_finite p \<and> dec_val p \<noteq> 0 \<and> dec_val b = 0 \<and> side_matches p (upper side)")
        case False
        have "\<not> rp_allowed r \<and> rp_submitted r = dec_zero"
          using assms q arg False by (auto simp: D fin_cmp split: if_splits)
        with False arg q show ?thesis by (intro refuse) auto
      next
        case ok: True
        obtain ab where ab: "dec_abs p = Inr ab"
          using assms q arg ok by (cases "dec_abs p") (auto simp: D fin_cmp)
        obtain rest where rest: "dec_sub ab b = Inr rest"
          using assms q arg ok ab by (cases "dec_sub ab b") (auto simp: D fin_cmp)
        show ?thesis
        proof (cases "dec_eq (dec_max dec_zero rest) dec_zero")
          case True
          then have "r = rp_refused (Some p) a (upper side) REDUCE_ONLY_NO_POSITION"
            using assms q arg ok ab rest by (auto simp: prepare_reduce_only_def Let_def fin_cmp)
          moreover have "\<not> in_context p"
            using available_val[OF _ ab rest q(4)] True ok by (auto simp: fin_cmp)
          ultimately show ?thesis using arg by (intro refuse) (auto simp: rp_refused_def)
        next
          case False
          then show ?thesis using assms q arg ok ab rest
            by (intro allowed[OF arg _ _ q(1,3,2,4) _ _ ab rest]) (auto simp: D fin_cmp)
        qed
      qed
    qed
  qed
qed

lemma prepare_allows_reductions:
  assumes "prepare_reduce_only (Some arg) side req res = Inr r" "ro_decimal arg = Some position" "in_context position"
  shows "(rp_allowed r \<longleftrightarrow> (\<exists>requested reserved. ro_decimal req = Some requested \<and> is_finite requested \<and> 0 < dec_val requested
        \<and> ro_decimal res = Some reserved \<and> is_finite reserved \<and> dec_val reserved = 0
        \<and> ((0 < dec_val position \<and> upper side = ''SELL'') \<or> (dec_val position < 0 \<and> upper side = ''BUY''))))
    \<and> (rp_allowed r \<longrightarrow> is_finite (rp_submitted r)
        \<and> dec_val (rp_submitted r) = min (dec_val (rp_requested r)) \<bar>dec_val position\<bar>
        \<and> ro_decimal req = Some (rp_requested r) \<and> rp_side r = upper side
        \<and> (rp_reason r = REDUCE_ONLY_QUANTITY_CLAMPED \<longleftrightarrow> \<bar>dec_val position\<bar> < dec_val (rp_requested r)))
    \<and> (\<not> rp_allowed r \<longrightarrow> rp_submitted r = dec_zero)"
  using assms(1)
proof (cases rule: prepare_reduce_only_cases)
  case refused
  have fin: "is_finite position" using assms(3) by (rule in_context_finite)
  have "\<not> (\<exists>requested reserved. ro_decimal req = Some requested \<and> is_finite requested \<and> 0 < dec_val requested
        \<and> ro_decimal res = Some reserved \<and> is_finite reserved \<and> dec_val reserved = 0
        \<and> ((0 < dec_val position \<and> upper side = ''SELL'') \<or> (dec_val position < 0 \<and> upper side = ''BUY'')))"
    using refused(3) assms(2,3) fin by (auto simp: valid_positive_def side_matches_iff fin_cmp)
  with refused(1,2) show ?thesis by blast
next
  case (allowed arg' position' requested reserved ab rest)
  have p: "position' = position" using allowed(1,2) assms(2) by simp
  note av = available_val[OF assms(3) allowed(11)[unfolded p] allowed(12,8,9)]
  have rq: "is_finite requested" "0 < dec_val requested" using allowed(6) by (auto simp: valid_positive_def fin_cmp)
  have sub: "is_finite (rp_submitted r)" "dec_val (rp_submitted r) = min (dec_val requested) \<bar>dec_val position\<bar>"
    using av rq by (simp_all add: allowed(17) dec_min_val)
  have "rp_reason r = REDUCE_ONLY_QUANTITY_CLAMPED \<longleftrightarrow> \<bar>dec_val position\<bar> < dec_val requested"
    using sub av rq by (auto simp: allowed(17,19) fin_cmp dec_min_val ro_codes)
  then show ?thesis
    using allowed(3,5,7,8,9,10,14,16,18) sub rq p by (auto simp: side_matches_iff)
qed

text \<open>
  C29. A preparation allows exactly what reduces. With a known position inside the decimal
  context, a request is allowed if and only if its quantity is positive and finite, nothing is
  reserved, the position is not flat and the side closes it; the submitted quantity is then the
  smaller of the request and the whole position, and the reason tells whether it was clamped.
  Everything else submits nothing.
\<close>

theorem prepare_allows_exactly_reductions:
  assumes "prepare_reduce_only (Some arg) side req res = Inr r" "ro_decimal arg = Some position" "in_context position"
  shows "(rp_allowed r \<longleftrightarrow> (\<exists>requested reserved. ro_decimal req = Some requested \<and> is_finite requested \<and> 0 < dec_val requested
        \<and> ro_decimal res = Some reserved \<and> is_finite reserved \<and> dec_val reserved = 0
        \<and> ((0 < dec_val position \<and> upper side = ''SELL'') \<or> (dec_val position < 0 \<and> upper side = ''BUY''))))
    \<and> (rp_allowed r \<longrightarrow> is_finite (rp_submitted r)
        \<and> dec_val (rp_submitted r) = min (dec_val (rp_requested r)) \<bar>dec_val position\<bar>
        \<and> ro_decimal req = Some (rp_requested r) \<and> rp_side r = upper side
        \<and> (rp_reason r = REDUCE_ONLY_QUANTITY_CLAMPED \<longleftrightarrow> \<bar>dec_val position\<bar> < dec_val (rp_requested r)))
    \<and> (\<not> rp_allowed r \<longrightarrow> rp_submitted r = dec_zero)"
  by (rule prepare_allows_reductions[OF assms])

lemma upper_sell: "upper ''sell'' = ''SELL''"
  by code_simp

lemma upper_SELL: "upper ''SELL'' = ''SELL''"
  by code_simp

theorem prepare_allows_exactly_reductions_witness:
  "\<exists>r. prepare_reduce_only (Some (DecArg (DFin False 150000000 (- 8)))) ''sell'' (TextArg ''2'') (DecArg dec_zero) = Inr r
    \<and> rp_allowed r \<and> dec_val (rp_submitted r) = 3 / 2"
proof -
  let ?p = "DFin False 150000000 (- 8)"
  have t: "ro_decimal (TextArg ''2'') = Some (DFin False 2 0)"
    by (simp add: ro_decimal_def dec_of_string_def strip_def lstrip_def rstrip_def is_space_def split_sign_def
        lower_def lower_char_def parse_number_def is_digit_def parse_exp_def digits_val_def digit_val_def in_limits_def
        MIN_EXP_def MAX_ADJ_def ndigits.simps[of 2])
  have s: "upper ''sell'' = ''SELL''" by (rule upper_sell)
  have ctx: "in_context ?p" by (rule dec_small_in_context) simp
  have f: "dec_fix ?p = Inr ?p" by (rule dec_fix_small) simp
  have "dec_sub ?p dec_zero = Inr ?p"
    using f by (simp add: dec_sub_def dec_scaled_def sgn_of_def Let_def)
  then have "\<exists>r. prepare_reduce_only (Some (DecArg ?p)) ''sell'' (TextArg ''2'') (DecArg dec_zero) = Inr r"
    using f by (simp add: prepare_reduce_only_def Let_def t s valid_positive_def side_matches_def dec_val_pos_iff
        dec_max_def upper_SELL)
  then obtain r where r: "prepare_reduce_only (Some (DecArg ?p)) ''sell'' (TextArg ''2'') (DecArg dec_zero) = Inr r" ..
  have p: "ro_decimal (DecArg ?p) = Some ?p" by (simp add: ro_decimal_def)
  note P = prepare_allows_exactly_reductions[OF r p ctx]
  have v: "dec_val ?p = 3 / 2" "dec_val (DFin False 2 0) = 2"
    by (simp_all add: dec_val_pos_form power_int_def power_one_over)
  have al: "rp_allowed r" using P t s v by auto
  then have "rp_requested r = DFin False 2 0" using P t by auto
  then have "dec_val (rp_submitted r) = 3 / 2" using P al v by auto
  with r al show ?thesis by blast
qed

subsection \<open>What a result can do\<close>

lemma prepare_position:
  "prepare_reduce_only (Some arg) side req res = Inr r \<Longrightarrow> ro_decimal arg = Some p \<Longrightarrow> is_finite p
    \<Longrightarrow> rp_position_before r = Some p"
  by (auto simp: prepare_reduce_only_def Let_def rp_refused_def ebind_eq_Inr split: if_splits)

lemma oc_kept_Inr: "oc_kept before reason inc flip = Inr out \<Longrightarrow>
    oc_position_after out = before \<and> \<not> oc_applied out \<and> dec_abs before = Inr (oc_remaining out)
    \<and> oc_filled out = dec_zero \<and> oc_reason out = reason"
  by (auto simp: oc_kept_def ebind_eq_Inr)

lemma apply_cases:
  assumes "apply_reduce_only_result prep status fq False pers = Inr out" "rp_position_before prep = Some before"
  obtains (kept) "oc_position_after out = before" "\<not> oc_applied out" "dec_abs before = Inr (oc_remaining out)"
      "oc_filled out = dec_zero" "oc_reason out = REDUCE_ONLY_POSITION_INCREASE_BLOCKED \<or> oc_reason out = REDUCE_ONLY_REJECTED"
  | (filled) filled delta after where
      "upper status \<in> set SUCCESS_STATUSES" "ro_decimal fq = Some filled" "is_finite filled" "\<not> dec_lt filled dec_zero"
      "rp_submitted prep \<noteq> DNaN" "\<not> dec_lt (rp_submitted prep) filled" "rp_allowed prep"
      "(if rp_side prep = ''BUY'' then Inr filled else dec_neg filled) = Inr delta" "dec_add before delta = Inr after"
      "abs_greater after before = Inr False" "opposite_signs before after = Inr False"
      "oc_position_after out = after" "dec_abs after = Inr (oc_remaining out)" "oc_filled out = filled"
      "oc_applied out = dec_lt dec_zero filled"
      "oc_reason out = (if dec_lt filled (rp_submitted prep) then REDUCE_ONLY_PARTIAL_FILL else REDUCE_ONLY_FILLED)"
proof -
  have k: thesis if "oc_kept before reason inc flip = Inr out"
    "reason = REDUCE_ONLY_POSITION_INCREASE_BLOCKED \<or> reason = REDUCE_ONLY_REJECTED" for reason inc flip
    using oc_kept_Inr[OF that(1)] that(2) by (intro kept) auto
  let ?f = "case ro_decimal fq of None \<Rightarrow> DNaN | Some d \<Rightarrow> d"
  show ?thesis
  proof (cases "upper status \<in> set SUCCESS_STATUSES \<and> is_finite ?f \<and> \<not> dec_lt ?f dec_zero
      \<and> dec_lt_r (rp_submitted prep) ?f = Inr False \<and> rp_allowed prep")
    case False
    have "\<exists>reason inc flip. oc_kept before reason inc flip = Inr out
        \<and> (reason = REDUCE_ONLY_POSITION_INCREASE_BLOCKED \<or> reason = REDUCE_ONLY_REJECTED)"
      using assms False by (auto simp: apply_reduce_only_result_def Let_def ebind_eq_Inr split: if_splits)
    then show ?thesis using k by blast
  next
    case True
    then obtain filled where f: "ro_decimal fq = Some filled" by (cases "ro_decimal fq") auto
    have nr: "upper status \<notin> set REJECTING_STATUSES"
      using True by (auto simp: SUCCESS_STATUSES_def REJECTING_STATUSES_def)
    note t = True[unfolded f option.case]
    obtain delta where d: "(if rp_side prep = ''BUY'' then Inr filled else dec_neg filled) = Inr delta"
      using assms t f nr
      by (cases "if rp_side prep = ''BUY'' then Inr filled else dec_neg filled")
        (auto simp: apply_reduce_only_result_def Let_def split: if_splits)
    obtain after where a: "dec_add before delta = Inr after"
      using assms t f nr d by (cases "dec_add before delta") (auto simp: apply_reduce_only_result_def Let_def)
    obtain inc where i: "abs_greater after before = Inr inc"
      using assms t f nr d a by (cases "abs_greater after before") (auto simp: apply_reduce_only_result_def Let_def)
    obtain flip where fl: "opposite_signs before after = Inr flip"
      using assms t f nr d a i by (cases "opposite_signs before after") (auto simp: apply_reduce_only_result_def Let_def)
    show ?thesis
    proof (cases "inc \<or> flip")
      case True
      then have "oc_kept before REDUCE_ONLY_POSITION_INCREASE_BLOCKED inc flip = Inr out"
        using assms t f nr d a i fl by (simp add: apply_reduce_only_result_def Let_def)
      then show ?thesis by (rule k) simp
    next
      case False
      then have "ebind (dec_abs after) (\<lambda>rem.
          Inr \<lparr>oc_applied = dec_lt dec_zero filled, oc_position_after = after, oc_remaining = rem, oc_filled = filled,
               oc_reason = (if dec_lt filled (rp_submitted prep) then REDUCE_ONLY_PARTIAL_FILL else REDUCE_ONLY_FILLED),
               oc_increase_observed = False, oc_flip_observed = False\<rparr>) = Inr out"
        using assms t f nr d a i fl by (simp add: apply_reduce_only_result_def Let_def)
      then obtain rem where "dec_abs after = Inr rem" "out = \<lparr>oc_applied = dec_lt dec_zero filled, oc_position_after = after, oc_remaining = rem, oc_filled = filled,
               oc_reason = (if dec_lt filled (rp_submitted prep) then REDUCE_ONLY_PARTIAL_FILL else REDUCE_ONLY_FILLED),
               oc_increase_observed = False, oc_flip_observed = False\<rparr>"
        by (auto simp: ebind_eq_Inr)
      with False t f d a i fl show ?thesis by (intro filled[of filled delta after]) (simp_all add: dec_cmp_r_Inr)
    qed
  qed
qed

lemma result_reduces:
  assumes "prepare_reduce_only (Some arg) side req res = Inr prep" "ro_decimal arg = Some before" "in_context before"
    and "apply_reduce_only_result prep status fq False pers = Inr out"
    and "\<forall>f. ro_decimal fq = Some f \<longrightarrow> is_finite f \<longrightarrow> in_context f"
  shows "\<bar>dec_val (oc_position_after out)\<bar> \<le> \<bar>dec_val before\<bar>
    \<and> 0 \<le> dec_val before * dec_val (oc_position_after out)
    \<and> dec_val (oc_remaining out) = \<bar>dec_val (oc_position_after out)\<bar>
    \<and> (\<not> oc_applied out \<longrightarrow> dec_val (oc_position_after out) = dec_val before)
    \<and> (oc_applied out \<longrightarrow> upper status \<in> {''FILLED'', ''PARTIALLY_FILLED''} \<and> rp_allowed prep
        \<and> ro_decimal fq = Some (oc_filled out)
        \<and> 0 < dec_val (oc_filled out) \<and> dec_val (oc_filled out) \<le> dec_val (rp_submitted prep))"
proof -
  have fin: "is_finite before" using assms(3) by (rule in_context_finite)
  have pb: "rp_position_before prep = Some before" by (rule prepare_position[OF assms(1,2) fin])
  from assms(4) pb show ?thesis
  proof (cases rule: apply_cases)
    case kept
    then show ?thesis using in_context_abs[OF assms(3)] by auto
  next
    case (filled f delta after)
    have fc: "in_context f" using assms(5) filled(2,3) by blast
    have delta: "in_context delta" "dec_val delta = (if rp_side prep = ''BUY'' then dec_val f else - dec_val f)"
      using filled(8) fc in_context_neg[OF fc] by (auto split: if_splits)
    have dfin: "is_finite delta" using delta(1) by (rule in_context_finite)
    from assms(1) have al: "\<exists>ab rest. side_matches before (upper side) \<and> rp_side prep = upper side
        \<and> is_finite (rp_submitted prep) \<and> dec_val (rp_submitted prep) \<le> \<bar>dec_val before\<bar>"
    proof (cases rule: prepare_reduce_only_cases)
      case refused
      with filled(7) show ?thesis by simp
    next
      case (allowed arg' p' requested reserved ab rest)
      have p: "p' = before" using allowed(1,2) assms(2) by simp
      note av = available_val[OF assms(3) allowed(11)[unfolded p] allowed(12,8,9)]
      have "is_finite requested" using allowed(6) by (simp add: valid_positive_def)
      then show ?thesis using av allowed(10,17,18) p by (simp add: dec_min_val)
    qed
    have f0: "0 \<le> dec_val f" "dec_val f \<le> dec_val (rp_submitted prep)"
      using filled(3,4,6) al by (auto simp: fin_cmp)
    have sgn: "(0 < dec_val before \<and> rp_side prep = ''SELL'') \<or> (dec_val before < 0 \<and> rp_side prep = ''BUY'')"
      using al fin by (auto simp: side_matches_iff)
    have "0 \<le> dec_val before * dec_val after"
      using sgn delta(2) f0 al dec_add_sign[OF filled(9) fin dfin] by (auto simp: zero_le_mult_iff)
    moreover have ac: "in_context after" using dec_add_in_context[OF filled(9) fin dfin] .
    moreover have "\<bar>dec_val after\<bar> \<le> \<bar>dec_val before\<bar>"
    proof -
      obtain x y where "dec_abs after = Inr x" "dec_abs before = Inr y" "in_context x" "in_context y"
        "dec_val x = \<bar>dec_val after\<bar>" "dec_val y = \<bar>dec_val before\<bar>"
        using in_context_abs[OF ac] in_context_abs[OF assms(3)] by blast
      with filled(10) in_context_finite show ?thesis by (auto simp: abs_greater_def fin_cmp)
    qed
    moreover have "dec_val (oc_remaining out) = \<bar>dec_val after\<bar>"
      using in_context_abs[OF ac] filled(13) by auto
    moreover have "dec_val after = dec_val before" if "dec_val f = 0"
      using dec_add_zero_right[OF assms(3) dfin] delta(2) that filled(9) by auto
    ultimately show ?thesis
      using filled f0 al by (auto simp: SUCCESS_STATUSES_def fin_cmp)
  qed
qed

lemma dec_fix_keeps_sign: "dec_fix (DFin s c e) = Inr (DFin s' c' e') \<Longrightarrow> s' = s \<and> (c = 0 \<longrightarrow> c' = 0)"
  by (auto simp: dec_fix_def Let_def round_div_def split: if_splits)

lemma opposite_signs_means:
  assumes "opposite_signs a b = Inr True" "is_finite a" "is_finite b"
  shows "dec_val a * dec_val b < 0"
proof -
  obtain s c e where a: "a = DFin s c e" using assms(2) by (rule is_finite_cases)
  obtain s' c' e' where b: "b = DFin s' c' e'" using assms(3) by (rule is_finite_cases)
  from assms(1) obtain x where x: "dec_mul a b = Inr x" "dec_lt_r x dec_zero = Inr True" by (auto simp: opposite_signs_def ebind_eq_Inr)
  have "is_finite x" by (rule dec_mul_finite[OF x(1) assms(2,3)])
  then obtain n k i where d: "x = DFin n k i" by (rule is_finite_cases)
  from x(1) have "dec_fix (DFin (s \<noteq> s') (c * c') (e + e')) = Inr (DFin n k i)" by (simp add: a b d)
  from dec_fix_keeps_sign[OF this] have n: "n = (s \<noteq> s')" "c * c' = 0 \<longrightarrow> k = 0" by auto
  have "dec_val x < 0" using x(2) \<open>is_finite x\<close> by (auto simp: dec_lt_r_def fin_cmp split: if_splits)
  then have "n" "k \<noteq> 0" by (auto simp: d dec_val_def sgn_of_def mult_less_0_iff split: if_splits)
  with n have "s \<noteq> s'" "c \<noteq> 0" "c' \<noteq> 0" by auto
  then show ?thesis by (auto simp: a b dec_val_def sgn_of_def mult_less_0_iff zero_less_mult_iff)
qed

lemma repeated_result:
  assumes "apply_reduce_only_result prep status fq True pers = Inr out" "rp_position_before prep = Some before" "in_context before"
  shows "\<not> oc_applied out \<and> oc_filled out = dec_zero \<and> oc_reason out = REDUCE_ONLY_DUPLICATE_RESULT
    \<and> (case pers of None \<Rightarrow> oc_position_after out = before | Some a \<Rightarrow> ro_decimal a = Some (oc_position_after out))
    \<and> (in_context (oc_position_after out) \<longrightarrow> dec_val (oc_remaining out) = \<bar>dec_val (oc_position_after out)\<bar>
         \<and> (oc_increase_observed out \<longleftrightarrow> \<bar>dec_val before\<bar> < \<bar>dec_val (oc_position_after out)\<bar>)
         \<and> (oc_flip_observed out \<longrightarrow> dec_val before * dec_val (oc_position_after out) < 0))"
proof -
  from assms(1,2) obtain after where a: "case pers of None \<Rightarrow> after = before | Some arg \<Rightarrow> ro_decimal arg = Some after"
    "dec_abs after = Inr (oc_remaining out)" "abs_greater after before = Inr (oc_increase_observed out)"
    "opposite_signs before after = Inr (oc_flip_observed out)" "oc_position_after out = after"
    "\<not> oc_applied out" "oc_filled out = dec_zero" "oc_reason out = REDUCE_ONLY_DUPLICATE_RESULT"
    by (auto simp: apply_reduce_only_result_def Let_def ebind_eq_Inr split: option.splits)
  have "dec_val (oc_remaining out) = \<bar>dec_val after\<bar> \<and> (oc_increase_observed out \<longleftrightarrow> \<bar>dec_val before\<bar> < \<bar>dec_val after\<bar>)
      \<and> (oc_flip_observed out \<longrightarrow> dec_val before * dec_val after < 0)" if c: "in_context after"
  proof -
    obtain x y where xy: "dec_abs after = Inr x" "dec_abs before = Inr y" "in_context x" "in_context y"
      "dec_val x = \<bar>dec_val after\<bar>" "dec_val y = \<bar>dec_val before\<bar>"
      using in_context_abs[OF c] in_context_abs[OF assms(3)] by blast
    have "oc_increase_observed out \<longleftrightarrow> \<bar>dec_val before\<bar> < \<bar>dec_val after\<bar>"
      using a(3) xy in_context_finite[OF xy(3)] in_context_finite[OF xy(4)]
      by (auto simp: abs_greater_def dec_cmp_r_Inr fin_cmp)
    moreover have "dec_val before * dec_val after < 0" if "oc_flip_observed out"
      by (rule opposite_signs_means) (use a(4) that c assms(3) in_context_finite in auto)
    ultimately show ?thesis using a(2) xy by auto
  qed
  then show ?thesis using a by (cases pers) simp_all
qed

text \<open>
  C30. A new result never increases or flips. For a preparation made from a position inside the
  context and any status and any reported quantity of at most 28 digits, a result that was not applied
  before leaves a position that is no larger in magnitude and not on the other side; it changes only
  for a \<open>FILLED\<close> or \<open>PARTIALLY_FILLED\<close> status with a positive quantity of at most the submitted one,
  and the remaining quantity is its magnitude. A result that is said to be applied already applies
  nothing and answers the persisted position, or the one before without one; that position is not
  checked: an increase is reported, exactly, and a flip that is reported is one, but neither is refused.
\<close>

theorem result_never_increases_or_flips:
  assumes "prepare_reduce_only (Some arg) side req res = Inr prep" "ro_decimal arg = Some before" "in_context before"
    and "apply_reduce_only_result prep status fq already_applied pers = Inr out"
    and "\<forall>f. ro_decimal fq = Some f \<longrightarrow> is_finite f \<longrightarrow> in_context f"
  shows "(\<not> already_applied \<longrightarrow>
        \<bar>dec_val (oc_position_after out)\<bar> \<le> \<bar>dec_val before\<bar>
      \<and> 0 \<le> dec_val before * dec_val (oc_position_after out)
      \<and> dec_val (oc_remaining out) = \<bar>dec_val (oc_position_after out)\<bar>
      \<and> (\<not> oc_applied out \<longrightarrow> dec_val (oc_position_after out) = dec_val before)
      \<and> (oc_applied out \<longrightarrow> upper status \<in> {''FILLED'', ''PARTIALLY_FILLED''} \<and> rp_allowed prep
          \<and> ro_decimal fq = Some (oc_filled out)
          \<and> 0 < dec_val (oc_filled out) \<and> dec_val (oc_filled out) \<le> dec_val (rp_submitted prep)))
    \<and> (already_applied \<longrightarrow>
        \<not> oc_applied out \<and> oc_filled out = dec_zero \<and> oc_reason out = REDUCE_ONLY_DUPLICATE_RESULT
      \<and> (case pers of None \<Rightarrow> oc_position_after out = before | Some a \<Rightarrow> ro_decimal a = Some (oc_position_after out))
      \<and> (in_context (oc_position_after out) \<longrightarrow> dec_val (oc_remaining out) = \<bar>dec_val (oc_position_after out)\<bar>
           \<and> (oc_increase_observed out \<longleftrightarrow> \<bar>dec_val before\<bar> < \<bar>dec_val (oc_position_after out)\<bar>)
           \<and> (oc_flip_observed out \<longrightarrow> dec_val before * dec_val (oc_position_after out) < 0)))"
proof (cases already_applied)
  case True
  have "rp_position_before prep = Some before" by (rule prepare_position[OF assms(1,2) in_context_finite[OF assms(3)]])
  from repeated_result[OF _ this assms(3), of status fq pers out] True assms(4) show ?thesis by simp
next
  case False
  from result_reduces[OF assms(1-3) _ assms(5), of status pers out] False assms(4) show ?thesis by simp
qed

text \<open>
  An allowed exit that fills is applied exactly. When position and reported fill are on one
  grid, as the columns of the ledger are, a positive fill of at most the submitted quantity is
  applied, the position moves towards zero by exactly the fill, and the result is a partial
  fill exactly when less than the submitted quantity was filled.
\<close>

theorem fill_is_applied_exactly:
  assumes "prepare_reduce_only (Some (DecArg (DFin s c q))) side req res = Inr prep" "rp_allowed prep"
    and "c < 10 ^ 28" "- 5000 \<le> q" "q \<le> 5000"
    and "0 < k" "dec_val (DFin False k q) \<le> dec_val (rp_submitted prep)"
    and "upper status \<in> {''FILLED'', ''PARTIALLY_FILLED''}"
  shows "\<exists>out. apply_reduce_only_result prep status (DecArg (DFin False k q)) False pers = Inr out
    \<and> oc_applied out \<and> oc_filled out = DFin False k q
    \<and> \<bar>dec_val (oc_position_after out)\<bar> = \<bar>dec_val (DFin s c q)\<bar> - dec_val (DFin False k q)
    \<and> oc_reason out = (if dec_val (DFin False k q) < dec_val (rp_submitted prep)
                       then REDUCE_ONLY_PARTIAL_FILL else REDUCE_ONLY_FILLED)"
proof -
  let ?b = "DFin s c q" and ?f = "DFin False k q"
  have ctx: "in_context ?b" using assms(3-5) by (intro dec_small_in_context) simp
  have al: "side_matches ?b (upper side) \<and> rp_side prep = upper side
        \<and> is_finite (rp_submitted prep) \<and> dec_val (rp_submitted prep) \<le> \<bar>dec_val ?b\<bar>"
    using assms(1)
  proof (cases rule: prepare_reduce_only_cases)
    case (allowed arg' p' requested reserved ab rest)
    have "arg' = DecArg ?b" using allowed(1) by simp
    then have p: "p' = ?b" using allowed(2) by simp
    note av = available_val[OF ctx allowed(11)[unfolded p] allowed(12,8,9)]
    have "is_finite requested" using allowed(6) by (simp add: valid_positive_def)
    then show ?thesis using av allowed(10,17,18) p by (simp add: dec_min_val)
  qed (use assms(2) in simp)
  have pb: "rp_position_before prep = Some ?b" by (rule prepare_position[OF assms(1)]) simp_all
  have abs_b: "\<bar>dec_val ?b\<bar> = of_nat c * 10 powi q" by (simp add: dec_val_def sgn_of_def abs_mult)
  have "of_nat k * (10::rat) powi q \<le> of_nat c * 10 powi q"
    using assms(7) al unfolding abs_b dec_val_pos_form by (meson order_trans)
  then have kc: "k \<le> c" using powi_pos[of q] by (simp only: mult_le_cancel_right_pos of_nat_le_iff)
  have side: "s = (upper side = ''BUY'')" "c \<noteq> 0"
    using al dec_val_pos_iff[of s c q] by (auto simp: side_matches_iff)
  have neg: "dec_neg ?f = Inr (DFin True k q)"
    using assms(3-6) kc by (simp add: dec_fix_small)
  let ?d = "DFin (\<not> s) k q" and ?a = "DFin (s \<and> k < c) (c - k) q"
  have delta: "(if rp_side prep = ''BUY'' then Inr ?f else dec_neg ?f) = Inr ?d"
    using al side(1) neg by auto
  have add: "dec_add ?b ?d = Inr ?a"
  proof -
    have "dec_scaled q ?b + dec_scaled q ?d = sgn_of s * int (c - k)"
      using kc by (simp add: dec_scaled_def sgn_of_def of_nat_diff)
    moreover have "dec_fix (DFin (s \<and> k < c) (c - k) q) = Inr ?a"
      using assms(3-5) by (intro dec_fix_small) simp
    moreover have "nat (int c - int k) = c - k" by linarith
    ultimately show ?thesis
      using kc side(2) by (cases s; cases "k = c") (simp_all add: Let_def sgn_of_def)
  qed
  have small: "c - k < 10 ^ 28" using assms(3) by simp
  have abs_fix: "dec_abs ?a = Inr (DFin False (c - k) q)" "dec_abs ?b = Inr (DFin False c q)"
    using assms(3-5) small by (simp_all add: dec_fix_small)
  have "dec_val (DFin False (c - k) q) \<le> dec_val (DFin False c q)"
    using powi_pos[of q] by (simp add: dec_val_pos_form)
  then have inc: "abs_greater ?a ?b = Inr False" by (simp only: abs_greater_def abs_fix ebind_Inr) (simp add: not_less)
  have "c * (c - k) < 10 ^ 28 * 10 ^ 28" using assms(3) small by (intro mult_strict_mono) simp_all
  then have "c * (c - k) < 10 ^ 100" by simp
  moreover have "- 20000 \<le> q + q" "q + q \<le> 20000" using assms(4,5) by simp_all
  ultimately obtain x y where
    xy: "dec_fix (DFin (s \<noteq> (s \<and> k < c)) (c * (c - k)) (q + q)) = Inr (DFin (s \<noteq> (s \<and> k < c)) x y)"
    using dec_fix_moderate[where s = "s \<noteq> (s \<and> k < c)"] by blast
  have "0 \<le> dec_val (DFin (s \<noteq> (s \<and> k < c)) x y)"
  proof (cases "k = c")
    case True
    then show ?thesis using xy by (auto simp: dec_fix_def)
  next
    case False
    then show ?thesis using kc by (auto simp: dec_val_nonneg_iff)
  qed
  then have flip: "opposite_signs ?b ?a = Inr False"
    unfolding opposite_signs_def dec_mul.simps xy by (simp add: not_less)
  have st: "upper status \<in> set SUCCESS_STATUSES" "upper status \<notin> set REJECTING_STATUSES"
    using assms(8) by (auto simp: SUCCESS_STATUSES_def REJECTING_STATUSES_def)
  have f0: "\<not> dec_lt ?f dec_zero" "dec_lt dec_zero ?f" "dec_lt_r (rp_submitted prep) ?f = Inr False"
    using assms(6,7) al dec_val_pos_iff[of False k q] by (auto simp: fin_cmp not_less)
  have "apply_reduce_only_result prep status (DecArg ?f) False pers =
    Inr \<lparr>oc_applied = True, oc_position_after = ?a, oc_remaining = DFin False (c - k) q, oc_filled = ?f,
         oc_reason = (if dec_lt ?f (rp_submitted prep) then REDUCE_ONLY_PARTIAL_FILL else REDUCE_ONLY_FILLED),
         oc_increase_observed = False, oc_flip_observed = False\<rparr>"
    using st f0 assms(2)
    by (simp only: apply_reduce_only_result_def Let_def pb option.case ro_decimal_DecArg if_False if_True
        is_finite_DFin delta add inc flip abs_fix ebind_Inr simp_thms)
  moreover have "\<bar>dec_val ?a\<bar> = \<bar>dec_val ?b\<bar> - dec_val ?f"
    using kc by (simp add: dec_val_def sgn_of_def abs_mult of_nat_diff left_diff_distrib)
  ultimately show ?thesis using al by (simp add: fin_cmp)
qed

lemma sample_preparation:
  "prepare_reduce_only (Some (DecArg (DFin False 150000000 (- 8)))) ''SELL'' (DecArg (DFin False 2 0)) (DecArg dec_zero)
    = Inr \<lparr>rp_allowed = True, rp_position_before = Some (DFin False 150000000 (- 8)), rp_requested = DFin False 2 0,
        rp_submitted = DFin False 150000000 (- 8), rp_side = ''SELL'', rp_reason = REDUCE_ONLY_QUANTITY_CLAMPED\<rparr>"
proof -
  let ?p = "DFin False 150000000 (- 8)"
  have f: "dec_fix ?p = Inr ?p" by (rule dec_fix_small) simp
  have "dec_sub ?p dec_zero = Inr ?p"
    using f by (simp add: dec_sub_def dec_scaled_def sgn_of_def Let_def)
  moreover have "dec_lt ?p (DFin False 2 0)" by (simp add: dec_val_pos_form power_int_def power_one_over)
  ultimately show ?thesis
    using f by (simp add: prepare_reduce_only_def Let_def upper_SELL valid_positive_def side_matches_def dec_val_pos_iff
        dec_max_def dec_min_def)
qed

theorem fill_is_applied_exactly_witness:
  "\<exists>prep out. prepare_reduce_only (Some (DecArg (DFin False 150000000 (- 8)))) ''SELL'' (DecArg (DFin False 2 0)) (DecArg dec_zero) = Inr prep
    \<and> apply_reduce_only_result prep ''FILLED'' (DecArg (DFin False 50000000 (- 8))) False None = Inr out
    \<and> \<bar>dec_val (oc_position_after out)\<bar> = 1 \<and> oc_reason out = REDUCE_ONLY_PARTIAL_FILL"
proof -
  have u: "upper ''FILLED'' \<in> {''FILLED'', ''PARTIALLY_FILLED''}" by code_simp
  have v: "dec_val (DFin False 50000000 (- 8)) = 1 / 2" "dec_val (DFin False 150000000 (- 8)) = 3 / 2"
    by (simp_all add: dec_val_pos_form power_int_def power_one_over)
  show ?thesis
    using fill_is_applied_exactly[OF sample_preparation _ _ _ _ _ _ u, of 50000000 None] sample_preparation
    by (auto simp: v)
qed

theorem result_never_increases_or_flips_witness:
  "\<exists>prep out. prepare_reduce_only (Some (DecArg (DFin False 150000000 (- 8)))) ''SELL'' (DecArg (DFin False 2 0)) (DecArg dec_zero) = Inr prep
    \<and> apply_reduce_only_result prep ''REJECTED'' (DecArg dec_zero) False None = Inr out
    \<and> \<bar>dec_val (oc_position_after out)\<bar> \<le> 3 / 2"
proof -
  let ?p = "DFin False 150000000 (- 8)"
  have ctx: "in_context ?p" by (rule dec_small_in_context) simp
  have f: "dec_fix ?p = Inr ?p" by (rule dec_fix_small) simp
  have u: "upper ''REJECTED'' = ''REJECTED''" by code_simp
  obtain prep where prep: "prepare_reduce_only (Some (DecArg ?p)) ''SELL'' (DecArg (DFin False 2 0)) (DecArg dec_zero) = Inr prep"
    "rp_position_before prep = Some ?p" using sample_preparation by simp
  obtain out where out: "apply_reduce_only_result prep ''REJECTED'' (DecArg dec_zero) False None = Inr out"
    using prep(2) f by (simp add: apply_reduce_only_result_def u REJECTING_STATUSES_def oc_kept_def Let_def)
  have z: "\<forall>x. ro_decimal (DecArg dec_zero) = Some x \<longrightarrow> is_finite x \<longrightarrow> in_context x"
    by (auto intro: dec_small_in_context)
  have "\<bar>dec_val (oc_position_after out)\<bar> \<le> \<bar>dec_val ?p\<bar>"
    using result_never_increases_or_flips[OF prep(1) _ ctx out z] by simp
  also have "\<bar>dec_val ?p\<bar> = 3 / 2" by (simp add: dec_val_pos_form power_int_def power_one_over)
  finally show ?thesis using prep(1) out by blast
qed

end
