(* ===== verification/ReduceOnlyLedger.thy ===== *)
theory ReduceOnlyLedger
  imports ReduceOnly
begin

text \<open>
  The reduce-only ledger of \<open>services/execution/database.py\<close>: the tables
  \<open>reduce_only_executions\<close> and \<open>positions\<close> as the embedded SQL and the schema
  (\<open>infrastructure/database\<close>) use them, the compare-and-set updates, preparation of an
  order, the scan of the attempts of a logical operation, and finalization.

  Every operation is one transaction of \<open>get_connection\<close>: it commits with the state it
  returns, or raises (\<open>Inl\<close>) and leaves the database alone. Columns \<open>DECIMAL(18, 8)\<close>
  store values rounded half up to eight places and reject ten or more integer digits; the
  \<open>CHECK\<close> constraints of the tables raise \<open>IntegrityError\<close>. Sizes of text columns,
  time stamps and the connection itself are left out.
\<close>

subsection \<open>Tables\<close>

record ledger_row =
  lr_order_id :: string
  lr_symbol :: string
  lr_side :: string
  lr_position_before :: "decimal option"
  lr_requested :: decimal
  lr_submitted :: decimal
  lr_filled :: decimal
  lr_fill_price :: "decimal option"
  lr_realized_pnl_delta :: "decimal option"
  lr_position_after :: "decimal option"
  lr_status :: string
  lr_reason :: string

record position_row =
  pr_id :: int
  pr_symbol :: string
  pr_side :: string
  pr_size :: decimal
  pr_entry_price :: "decimal option"
  pr_current_price :: "decimal option"
  pr_realized_pnl :: "decimal option"
  pr_closed :: bool

record ledger_db =
  db_rows :: "(string \<times> ledger_row) list"
  db_positions :: "position_row list"

text \<open>Assignment to a \<open>DECIMAL(18, 8)\<close> column.\<close>

definition to_numeric :: "decimal \<Rightarrow> py_exc + decimal" where
  "to_numeric d = (case d of
     DFin s c e \<Rightarrow>
       (let c' = rescale ROUND_HALF_UP c e (- 8) in
        if 10 ^ 18 \<le> c' then Inl OtherError else Inr (DFin (s \<and> c' \<noteq> 0) c' (- 8)))
   | DInf _ \<Rightarrow> Inl OtherError
   | DNaN \<Rightarrow> Inr DNaN)"

definition to_numeric_opt :: "decimal option \<Rightarrow> py_exc + decimal option" where
  "to_numeric_opt x = (case x of None \<Rightarrow> Inr None | Some d \<Rightarrow> map_sum id Some (to_numeric d))"

text \<open>\<open>x >= 0\<close> and \<open>x <= y\<close> in the database, where NaN is above every number.\<close>

definition sql_le :: "decimal \<Rightarrow> decimal \<Rightarrow> bool" where
  "sql_le a b = (b = DNaN \<or> (a \<noteq> DNaN \<and> dec_le a b))"

definition row_checks :: "ledger_row \<Rightarrow> bool" where
  "row_checks r =
     (lr_side r \<in> {''BUY'', ''SELL''}
      \<and> lr_status r \<in> {''PREPARED'', ''BLOCKED'', ''FILLED'', ''PARTIALLY_FILLED'', ''REJECTED''}
      \<and> sql_le dec_zero (lr_requested r) \<and> sql_le dec_zero (lr_submitted r) \<and> sql_le dec_zero (lr_filled r)
      \<and> sql_le (lr_filled r) (lr_submitted r)
      \<and> (case lr_fill_price r of None \<Rightarrow> True | Some p \<Rightarrow> \<not> sql_le p dec_zero))"

text \<open>\<open>COALESCE(SUM(submitted_quantity), 0)\<close>; the summands have scale 8.\<close>

definition numeric_sum :: "decimal list \<Rightarrow> decimal" where
  "numeric_sum ds =
     (if ds = [] then dec_zero
      else if \<not> list_all is_finite ds then DNaN
      else let t = sum_list (map (dec_scaled (- 8)) ds) in DFin (t < 0) (nat \<bar>t\<bar>) (- 8))"

definition open_positions :: "ledger_db \<Rightarrow> string \<Rightarrow> position_row list" where
  "open_positions db symbol = filter (\<lambda>p. pr_symbol p = symbol \<and> \<not> pr_closed p) (db_positions db)"

definition prepared_rows :: "ledger_db \<Rightarrow> string \<Rightarrow> ledger_row list" where
  "prepared_rows db symbol =
     filter (\<lambda>r. lr_symbol r = symbol \<and> lr_status r = ''PREPARED'') (map snd (db_rows db))"

subsection \<open>Results\<close>

text \<open>The returned dictionary: the columns of the row it was built from, and the keys added.\<close>

record payload =
  pl_row :: "ledger_row option"
  pl_order_id :: string
  pl_status :: string
  pl_reason :: string
  pl_allowed :: bool
  pl_duplicate :: bool
  pl_adapter_bound :: bool
  pl_dispatch_claimed :: bool
  pl_resume_dispatch :: bool
  pl_persisted :: "bool option"
  pl_submitted :: decimal

definition reduce_only_row :: "ledger_row \<Rightarrow> bool \<Rightarrow> payload" where
  "reduce_only_row r duplicate =
     \<lparr>pl_row = Some r, pl_order_id = lr_order_id r, pl_status = lr_status r,
      pl_reason = (if duplicate then REDUCE_ONLY_DUPLICATE_RESULT else lr_reason r),
      pl_allowed = (lr_status r = ''PREPARED'' \<and> \<not> duplicate), pl_duplicate = duplicate,
      pl_adapter_bound = False, pl_dispatch_claimed = False, pl_resume_dispatch = False,
      pl_persisted = None, pl_submitted = lr_submitted r\<rparr>"

definition reduce_only_claim_mismatch :: "ledger_row \<Rightarrow> payload" where
  "reduce_only_claim_mismatch r =
     (reduce_only_row r False)\<lparr>pl_allowed := False, pl_reason := REDUCE_ONLY_CLAIM_MISMATCH\<rparr>"

definition reduce_only_fields_match :: "ledger_row \<Rightarrow> string \<Rightarrow> string \<Rightarrow> quantity_arg \<Rightarrow> bool" where
  "reduce_only_fields_match existing symbol side requested =
     (case ro_decimal requested of
        None \<Rightarrow> False
      | Some incoming \<Rightarrow>
          if \<not> is_finite (lr_requested existing) \<or> \<not> is_finite incoming then False
          else lr_symbol existing = symbol \<and> upper (lr_side existing) = upper side
             \<and> dec_eq (lr_requested existing) incoming)"

definition signed_position :: "position_row option \<Rightarrow> py_exc + decimal option" where
  "signed_position row =
     (case row of
        None \<Rightarrow> Inr (Some dec_zero)
      | Some p \<Rightarrow>
        let quantity = pr_size p; side = lower (pr_side p) in
        if \<not> is_finite quantity \<or> dec_lt quantity dec_zero then Inr None
        else if side = ''long'' then Inr (Some quantity)
        else if side = ''short'' then map_sum id Some (dec_neg quantity)
        else if side = ''none'' \<and> dec_eq quantity dec_zero then Inr (Some dec_zero)
        else Inr None)"

subsection \<open>Compare and set\<close>

definition bind_prepared_for_adapter :: "string \<Rightarrow> ledger_db \<Rightarrow> payload option \<times> ledger_db" where
  "bind_prepared_for_adapter order_id db =
     (case dget (db_rows db) order_id of
        None \<Rightarrow> (None, db)
      | Some r \<Rightarrow>
        if lr_status r = ''PREPARED'' \<and> lr_reason r \<in> set BINDABLE_REASONS then
          let r' = r\<lparr>lr_reason := REDUCE_ONLY_ADAPTER_BOUND\<rparr> in
          (Some ((reduce_only_row r' False)\<lparr>pl_allowed := True, pl_adapter_bound := True\<rparr>),
           db\<lparr>db_rows := dset order_id r' (db_rows db)\<rparr>)
        else (None, db))"

definition claim_dispatch_ownership :: "string \<Rightarrow> ledger_db \<Rightarrow> payload option \<times> ledger_db" where
  "claim_dispatch_ownership order_id db =
     (case dget (db_rows db) order_id of
        None \<Rightarrow> (None, db)
      | Some r \<Rightarrow>
        if lr_status r = ''PREPARED'' \<and> lr_reason r \<in> set DISPATCH_CLAIMABLE_REASONS then
          let r' = r\<lparr>lr_reason := REDUCE_ONLY_DISPATCH_CLAIMED\<rparr> in
          (Some ((reduce_only_row r' False)\<lparr>pl_allowed := True, pl_dispatch_claimed := True, pl_resume_dispatch := True\<rparr>),
           db\<lparr>db_rows := dset order_id r' (db_rows db)\<rparr>)
        else (None, db))"

subsection \<open>Preparation\<close>

text \<open>The position a new order is prepared against; \<open>None\<close> when it cannot be trusted.\<close>

definition trusted_position :: "ledger_db \<Rightarrow> string \<Rightarrow> py_exc + decimal option" where
  "trusted_position db symbol =
     (case open_positions db symbol of
        [] \<Rightarrow> Inr (Some dec_zero)
      | [p] \<Rightarrow> ebind (signed_position (Some p)) (\<lambda>pos. case pos of
            None \<Rightarrow> Inr None
          | Some d \<Rightarrow>
            if dec_eq d dec_zero then Inr (Some d)
            else case pr_entry_price p of
              None \<Rightarrow> Inr None
            | Some entry \<Rightarrow>
              let realized = (case pr_realized_pnl p of None \<Rightarrow> dec_zero | Some x \<Rightarrow> x) in
              if \<not> is_finite entry \<or> dec_le entry dec_zero \<or> \<not> is_finite realized then Inr None
              else Inr (Some d))
      | _ \<Rightarrow> Inr None)"

text \<open>The inserted row, with the defaults of the columns left out.\<close>

definition insert_row :: "string \<Rightarrow> string \<Rightarrow> string \<Rightarrow> preparation \<Rightarrow> py_exc + ledger_row" where
  "insert_row order_id symbol side prep =
     ebind (to_numeric_opt (rp_position_before prep)) (\<lambda>before.
     ebind (to_numeric (rp_requested prep)) (\<lambda>requested.
     ebind (to_numeric (rp_submitted prep)) (\<lambda>submitted.
       let r = \<lparr>lr_order_id = order_id, lr_symbol = symbol, lr_side = upper side, lr_position_before = before,
                lr_requested = requested, lr_submitted = submitted, lr_filled = dec_zero, lr_fill_price = None,
                lr_realized_pnl_delta = None, lr_position_after = before,
                lr_status = (if rp_allowed prep then ''PREPARED'' else ''BLOCKED''), lr_reason = rp_reason prep\<rparr>
       in if row_checks r then Inr r else Inl IntegrityError)))"

text \<open>After the insert: bind for the adapter, or claim the dispatch.\<close>

definition finish_prepare :: "bool \<Rightarrow> ledger_row \<Rightarrow> preparation \<Rightarrow> ledger_db \<Rightarrow> payload \<times> ledger_db" where
  "finish_prepare bind_for_adapter inserted prep db =
     (if bind_for_adapter \<and> rp_allowed prep \<and> rp_reason prep \<in> set BINDABLE_REASONS then
        (case bind_prepared_for_adapter (lr_order_id inserted) db of
           (None, db') \<Rightarrow> (reduce_only_row inserted True, db')
         | (Some p, db') \<Rightarrow> (p\<lparr>pl_reason := rp_reason prep, pl_persisted := Some True\<rparr>, db'))
      else if \<not> bind_for_adapter \<and> rp_allowed prep \<and> rp_reason prep \<in> set DISPATCH_CLAIMABLE_REASONS then
        (case claim_dispatch_ownership (lr_order_id inserted) db of
           (None, db') \<Rightarrow> (reduce_only_row inserted True, db')
         | (Some p, db') \<Rightarrow> (p\<lparr>pl_persisted := Some True\<rparr>, db'))
      else ((reduce_only_row inserted False)\<lparr>pl_persisted := Some True\<rparr>, db))"

text \<open>The branch for a row that exists already.\<close>

definition reenter_prepared ::
  "ledger_row \<Rightarrow> string \<Rightarrow> string \<Rightarrow> string \<Rightarrow> quantity_arg \<Rightarrow> bool \<Rightarrow> ledger_db \<Rightarrow> payload \<times> ledger_db" where
  "reenter_prepared existing order_id symbol side requested bind_for_adapter db =
     (if lr_status existing = ''PREPARED'' \<and> lr_reason existing \<in> set BINDABLE_REASONS then
        (if \<not> reduce_only_fields_match existing symbol side requested
         then (reduce_only_claim_mismatch existing, db)
         else if bind_for_adapter then
           (case bind_prepared_for_adapter order_id db of
              (Some p, db') \<Rightarrow> (p\<lparr>pl_reason := lr_reason existing\<rparr>, db')
            | (None, db') \<Rightarrow> (reduce_only_row existing True, db'))
         else
           (case claim_dispatch_ownership order_id db of
              (Some p, db') \<Rightarrow> (p, db')
            | (None, db') \<Rightarrow> (reduce_only_row existing True, db')))
      else (reduce_only_row existing True, db))"

definition db_prepare_reduce_only ::
  "string \<Rightarrow> string \<Rightarrow> string \<Rightarrow> quantity_arg \<Rightarrow> bool \<Rightarrow> bool \<Rightarrow> ledger_db \<Rightarrow> py_exc + payload \<times> ledger_db" where
  "db_prepare_reduce_only order_id symbol side requested persist_blocked bind_for_adapter db =
     (if order_id = [] then Inl (ValueError ''reduce-only order_id is required'')
      else case dget (db_rows db) order_id of
        Some existing \<Rightarrow> Inr (reenter_prepared existing order_id symbol side requested bind_for_adapter db)
      | None \<Rightarrow>
        ebind (trusted_position db symbol) (\<lambda>position.
        ebind (prepare_reduce_only (map_option DecArg position) side requested
                 (DecArg (numeric_sum (map lr_submitted (prepared_rows db symbol))))) (\<lambda>prep.
          if \<not> rp_allowed prep \<and> \<not> persist_blocked then
            Inr (\<lparr>pl_row = None, pl_order_id = order_id, pl_status = ''BLOCKED'', pl_reason = rp_reason prep,
                  pl_allowed = False, pl_duplicate = False, pl_adapter_bound = False, pl_dispatch_claimed = False,
                  pl_resume_dispatch = False, pl_persisted = Some False, pl_submitted = rp_submitted prep\<rparr>, db)
          else ebind (insert_row order_id symbol side prep) (\<lambda>inserted.
            Inr (finish_prepare bind_for_adapter inserted prep
                   (db\<lparr>db_rows := dset order_id inserted (db_rows db)\<rparr>))))))"

subsection \<open>Attempts of a logical operation\<close>

datatype attempt_decision =
    CreateAttempt string int
  | ResumeAttempt string int
  | BlockAttempt payload int string

text \<open>
  \<open>range(1, max_attempts + 1)\<close> as a recursion on the attempts that are left;
  \<open>int_str\<close> writes the attempt number into the name.
\<close>

fun scan_attempts :: "(string \<Rightarrow> string) \<Rightarrow> string \<Rightarrow> ledger_db \<Rightarrow> int \<Rightarrow> nat \<Rightarrow> py_exc + attempt_decision" where
  "scan_attempts uuid key db n 0 =
     ebind (derive_attempt_order_id uuid key (n - 1)) (\<lambda>oid.
       Inr (BlockAttempt \<lparr>pl_row = None, pl_order_id = oid, pl_status = ''BLOCKED'',
          pl_reason = REDUCE_ONLY_DUPLICATE_RESULT, pl_allowed = False, pl_duplicate = False,
          pl_adapter_bound = False, pl_dispatch_claimed = False, pl_resume_dispatch = False,
          pl_persisted = None, pl_submitted = dec_zero\<rparr> (n - 1) ''BLOCKED_MAX_ATTEMPTS''))"
| "scan_attempts uuid key db n (Suc k) =
     ebind (derive_attempt_order_id uuid key n) (\<lambda>oid.
       let found = (case dget (db_rows db) oid of
             Some r \<Rightarrow> Some (oid, r)
           | None \<Rightarrow> if n = 1 then map_option (\<lambda>r. (uuid key, r)) (dget (db_rows db) (uuid key)) else None)
       in case found of
         None \<Rightarrow> Inr (CreateAttempt oid n)
       | Some (resolved, r) \<Rightarrow>
         if is_active_reduce_only_attempt (lr_status r) then Inr (ResumeAttempt resolved n)
         else if is_successful_reduce_only_attempt (lr_status r) then
           Inr (BlockAttempt (reduce_only_row r True) n ''BLOCKED_SUCCESS'')
         else if is_retryable_reduce_only_terminal (lr_status r) (lr_reason r) (DecArg (lr_filled r)) then
           scan_attempts uuid key db (n + 1) k
         else Inr (BlockAttempt (reduce_only_row r True) n ''BLOCKED_NON_RETRYABLE''))"

definition decide_reduce_only_attempt ::
  "(string \<Rightarrow> string) \<Rightarrow> string \<Rightarrow> nat \<Rightarrow> ledger_db \<Rightarrow> py_exc + attempt_decision" where
  "decide_reduce_only_attempt uuid key max_attempts db =
     ebind (derive_legacy_order_id uuid key) (\<lambda>_. scan_attempts uuid key db 1 max_attempts)"

record annotated =
  an_payload :: payload
  an_attempt_number :: int
  an_retry_decision :: string

text \<open>
  Decide, then prepare in a second transaction. A unique violation, which another writer's
  insert between the two causes, is answered by preparing again; so is a \<open>CHECK\<close> violation,
  which raises the same error a second time.
\<close>

definition db_prepare_reduce_only_attempt ::
  "(string \<Rightarrow> string) \<Rightarrow> string \<Rightarrow> string \<Rightarrow> string \<Rightarrow> quantity_arg \<Rightarrow> bool \<Rightarrow> bool \<Rightarrow> int \<Rightarrow> ledger_db
   \<Rightarrow> py_exc + annotated \<times> ledger_db" where
  "db_prepare_reduce_only_attempt uuid key symbol side requested persist_blocked bind_for_adapter max_attempts db =
     (if key = [] then Inl (ValueError ''logical_operation_key is required'')
      else if max_attempts < 1 then Inl (ValueError ''max_attempts must be a positive integer'')
      else ebind (decide_reduce_only_attempt uuid key (nat max_attempts) db) (\<lambda>decision.
        let prepare = (\<lambda>oid. db_prepare_reduce_only oid symbol side requested persist_blocked bind_for_adapter db);
            proceed = (\<lambda>oid n retry. case prepare oid of
                Inr (p, db') \<Rightarrow> Inr (\<lparr>an_payload = p, an_attempt_number = n, an_retry_decision = retry\<rparr>, db')
              | Inl e \<Rightarrow>
                if e = IntegrityError then
                  ebind (prepare oid) (\<lambda>(p, db').
                    Inr (\<lparr>an_payload = p, an_attempt_number = n, an_retry_decision = ''RESUME_ACTIVE''\<rparr>, db'))
                else Inl e)
        in case decision of
          BlockAttempt p n retry \<Rightarrow>
            Inr (\<lparr>an_payload = p, an_attempt_number = n, an_retry_decision = retry\<rparr>, db)
        | ResumeAttempt oid n \<Rightarrow> proceed oid n ''RESUME_ACTIVE''
        | CreateAttempt oid n \<Rightarrow> proceed oid n ''NEW_ATTEMPT''))"

subsection \<open>Finalization\<close>

record finalize_result =
  fr_payload :: payload
  fr_applied :: bool
  fr_position_before_apply :: "decimal option"
  fr_position_after :: "decimal option"

definition persisted_status_of :: "string \<Rightarrow> string \<Rightarrow> string" where
  "persisted_status_of nstatus reason =
     (if nstatus \<in> set REJECTING_STATUSES then ''REJECTED''
      else if reason = REDUCE_ONLY_POSITION_INCREASE_BLOCKED then ''BLOCKED''
      else if reason = REDUCE_ONLY_PARTIAL_FILL then ''PARTIALLY_FILLED''
      else ''FILLED'')"

text \<open>Execution price, profit of the fill, and profit of the position after it.\<close>

definition settle ::
  "position_row \<Rightarrow> decimal \<Rightarrow> quantity_arg option \<Rightarrow> decimal \<Rightarrow> py_exc + decimal \<times> decimal \<times> decimal" where
  "settle p current fill_price quantity =
     (case (Option.bind fill_price ro_decimal, pr_entry_price p) of
        (Some price, Some entry) \<Rightarrow>
          if \<not> is_finite price \<or> dec_le price dec_zero \<or> \<not> is_finite entry
          then Inl (ValueError REDUCE_ONLY_POSITION_UNKNOWN)
          else ebind (if dec_lt dec_zero current then dec_sub price entry else dec_sub entry price) (\<lambda>diff.
               ebind (dec_mul diff quantity) (\<lambda>delta.
               ebind (dec_add (case pr_realized_pnl p of None \<Rightarrow> dec_zero | Some x \<Rightarrow> x) delta) (\<lambda>pnl.
                 Inr (price, delta, pnl))))
      | _ \<Rightarrow> Inl (ValueError REDUCE_ONLY_POSITION_UNKNOWN))"

text \<open>The two \<open>UPDATE positions\<close> statements, with the sign constraint on the size.\<close>

definition updated_position :: "position_row \<Rightarrow> decimal \<Rightarrow> decimal \<Rightarrow> decimal \<Rightarrow> py_exc + position_row" where
  "updated_position p position_after price pnl =
     ebind (to_numeric price) (\<lambda>price'. ebind (to_numeric pnl) (\<lambda>pnl'.
       if dec_eq position_after dec_zero then
         Inr (p\<lparr>pr_size := DFin False 0 (- 8), pr_closed := True, pr_current_price := Some price',
               pr_realized_pnl := Some pnl'\<rparr>)
       else ebind (dec_abs position_after) (\<lambda>ab. ebind (to_numeric ab) (\<lambda>size.
         if \<not> sql_le dec_zero size then Inl IntegrityError
         else Inr (p\<lparr>pr_size := size, pr_current_price := Some price', pr_realized_pnl := Some pnl'\<rparr>)))))"

definition replace_position :: "position_row \<Rightarrow> position_row list \<Rightarrow> position_row list" where
  "replace_position p ps = map (\<lambda>q. if pr_id q = pr_id p \<and> \<not> pr_closed q then p else q) ps"

definition settled_row ::
  "ledger_row \<Rightarrow> decimal \<Rightarrow> (decimal \<times> decimal) option \<Rightarrow> decimal \<Rightarrow> string \<Rightarrow> string \<Rightarrow> py_exc + ledger_row" where
  "settled_row r filled price_delta position_after status reason =
     ebind (to_numeric filled) (\<lambda>filled'.
     ebind (to_numeric_opt (map_option fst price_delta)) (\<lambda>price.
     ebind (to_numeric_opt (map_option snd price_delta)) (\<lambda>delta.
     ebind (to_numeric position_after) (\<lambda>after.
       let r' = r\<lparr>lr_filled := filled', lr_fill_price := price, lr_realized_pnl_delta := delta,
                  lr_position_after := Some after, lr_status := status, lr_reason := reason\<rparr>
       in if row_checks r' then Inr r' else Inl IntegrityError))))"

definition db_finalize_reduce_only ::
  "string \<Rightarrow> string \<Rightarrow> quantity_arg \<Rightarrow> quantity_arg option \<Rightarrow> ledger_db \<Rightarrow> py_exc + finalize_result \<times> ledger_db" where
  "db_finalize_reduce_only order_id status filled_quantity fill_price db =
     (case dget (db_rows db) order_id of
        None \<Rightarrow> Inl (ValueError REDUCE_ONLY_POSITION_UNKNOWN)
      | Some r \<Rightarrow>
        if lr_status r \<noteq> ''PREPARED'' then
          Inr (\<lparr>fr_payload = reduce_only_row r True, fr_applied = False, fr_position_before_apply = None,
                fr_position_after = lr_position_after r\<rparr>, db)
        else case open_positions db (lr_symbol r) of
          [p] \<Rightarrow>
            ebind (signed_position (Some p)) (\<lambda>opos. case opos of
              None \<Rightarrow> Inl (ValueError REDUCE_ONLY_POSITION_UNKNOWN)
            | Some current \<Rightarrow>
              (case lr_position_before r of
                 None \<Rightarrow> Inl InvalidOperation
               | Some prepared \<Rightarrow>
                 ebind (prepare_reduce_only (Some (DecArg prepared)) (lr_side r) (DecArg (lr_submitted r)) (DecArg dec_zero)) (\<lambda>prep.
                 ebind (apply_reduce_only_result prep status filled_quantity False None) (\<lambda>out.
                   let same = dec_eq current prepared;
                       applied = (same \<and> oc_applied out);
                       quantity = (if same then oc_filled out else dec_zero);
                       position_after = (if same then oc_position_after out else current);
                       reason = (if same then oc_reason out else REDUCE_ONLY_POSITION_INCREASE_BLOCKED);
                       pstatus = (if same then persisted_status_of (upper status) reason else ''BLOCKED'')
                   in ebind (if applied
                        then ebind (settle p current fill_price quantity) (\<lambda>(price, delta, pnl).
                             ebind (updated_position p position_after price pnl) (\<lambda>p'.
                               Inr (Some (price, delta), db\<lparr>db_positions := replace_position p' (db_positions db)\<rparr>)))
                        else Inr (None, db)) (\<lambda>(price_delta, db').
                      ebind (settled_row r quantity price_delta position_after pstatus reason) (\<lambda>r'.
                        Inr (\<lparr>fr_payload = reduce_only_row r' False, fr_applied = applied,
                              fr_position_before_apply = Some current, fr_position_after = Some position_after\<rparr>,
                             db'\<lparr>db_rows := dset order_id r' (db_rows db')\<rparr>)))))))
        | _ \<Rightarrow> Inl (ValueError REDUCE_ONLY_POSITION_UNKNOWN))"

subsection \<open>Runs of the ledger\<close>

text \<open>
  Any interleaving of transactions by any number of workers; the positions table is also
  written by other services, in any way.
\<close>

datatype ledger_event = PrepareEv string payload | FinalizeEv string finalize_result | PositionsEv

inductive ledger_step :: "ledger_db \<Rightarrow> ledger_event \<Rightarrow> ledger_db \<Rightarrow> bool" where
  prepare_step: "db_prepare_reduce_only oid symbol side req pb bind db = Inr (p, db')
    \<Longrightarrow> ledger_step db (PrepareEv oid p) db'"
| finalize_step: "db_finalize_reduce_only oid status fq fp db = Inr (r, db') \<Longrightarrow> ledger_step db (FinalizeEv oid r) db'"
| positions_step: "ledger_step db PositionsEv (db\<lparr>db_positions := ps\<rparr>)"

inductive event_run :: "('s \<Rightarrow> 'e \<Rightarrow> 's \<Rightarrow> bool) \<Rightarrow> 's \<Rightarrow> 'e list \<Rightarrow> 's \<Rightarrow> bool" for step where
  run_nil: "event_run step s [] s"
| run_cons: "step s e s' \<Longrightarrow> event_run step s' es s'' \<Longrightarrow> event_run step s (e # es) s''"

text \<open>
  An interface for what may happen once: every object has a phase that never decreases, and an
  event that grants an object takes it from below a level to the level or above.
\<close>

locale one_shot =
  fixes step :: "'s \<Rightarrow> 'e \<Rightarrow> 's \<Rightarrow> bool"
    and phase :: "'s \<Rightarrow> 'o \<Rightarrow> nat"
    and level :: nat
    and grants :: "'e \<Rightarrow> 'o option"
  assumes phase_mono: "step s e s' \<Longrightarrow> phase s x \<le> phase s' x"
    and grant_below: "step s e s' \<Longrightarrow> grants e = Some x \<Longrightarrow> phase s x < level"
    and grant_above: "step s e s' \<Longrightarrow> grants e = Some x \<Longrightarrow> level \<le> phase s' x"
begin

lemma run_below: "event_run step s es s' \<Longrightarrow> e \<in> set es \<Longrightarrow> grants e = Some x \<Longrightarrow> phase s x < level"
proof (induction rule: event_run.induct)
  case (run_cons s e' s' es s'')
  then show ?case using grant_below phase_mono[OF run_cons.hyps(1), of x] by fastforce
qed simp

lemma granted_once: "event_run step s es s' \<Longrightarrow> distinct (List.map_filter grants es)"
proof (induction rule: event_run.induct)
  case (run_cons s e s' es s'')
  have "x \<notin> set (List.map_filter grants es)" if "grants e = Some x" for x
    using run_below[OF run_cons.hyps(2), of _ x] grant_above[OF run_cons.hyps(1) that]
    by (fastforce simp: List.map_filter_def)
  with run_cons.IH show ?case by (auto simp: List.map_filter_def split: option.splits)
qed (simp add: List.map_filter_def)

end

text \<open>The phases of an order: absent, claimable, dispatch claimed, bound, settled.\<close>

definition row_phase :: "ledger_row \<Rightarrow> nat" where
  "row_phase r =
     (if lr_status r \<noteq> ''PREPARED'' then 4
      else if lr_reason r = REDUCE_ONLY_DISPATCH_CLAIMED then 2
      else if lr_reason r \<in> set DISPATCH_CLAIMABLE_REASONS then 1
      else 3)"

definition order_phase :: "ledger_db \<Rightarrow> string \<Rightarrow> nat" where
  "order_phase db oid = (case dget (db_rows db) oid of None \<Rightarrow> 0 | Some r \<Rightarrow> row_phase r)"

definition bound_order :: "ledger_event \<Rightarrow> string option" where
  "bound_order e = (case e of PrepareEv oid p \<Rightarrow> if pl_adapter_bound p then Some oid else None | _ \<Rightarrow> None)"

definition claimed_order :: "ledger_event \<Rightarrow> string option" where
  "claimed_order e = (case e of PrepareEv oid p \<Rightarrow> if pl_dispatch_claimed p then Some oid else None | _ \<Rightarrow> None)"

definition settled_order :: "ledger_event \<Rightarrow> string option" where
  "settled_order e = (case e of FinalizeEv oid r \<Rightarrow> if pl_duplicate (fr_payload r) then None else Some oid | _ \<Rightarrow> None)"

lemma bindable_phase:
  "lr_status r = ''PREPARED'' \<and> lr_reason r \<in> set BINDABLE_REASONS \<longleftrightarrow> row_phase r \<in> {1, 2}"
  "lr_status r = ''PREPARED'' \<and> lr_reason r \<in> set DISPATCH_CLAIMABLE_REASONS \<longleftrightarrow> row_phase r = 1"
  by (auto simp: row_phase_def BINDABLE_REASONS_def DISPATCH_CLAIMABLE_REASONS_def ro_codes)

lemma bind_cases:
  obtains (won) r r' p where "dget (db_rows db) oid = Some r" "row_phase r \<in> {1, 2}" "row_phase r' = 3"
      "bind_prepared_for_adapter oid db = (Some p, db\<lparr>db_rows := dset oid r' (db_rows db)\<rparr>)"
      "pl_adapter_bound p" "\<not> pl_dispatch_claimed p" "pl_allowed p" "pl_row p = Some r'"
      "r' = r\<lparr>lr_reason := REDUCE_ONLY_ADAPTER_BOUND\<rparr>" "pl_submitted p = lr_submitted r"
  | (lost) "bind_prepared_for_adapter oid db = (None, db)"
proof (cases "dget (db_rows db) oid")
  case (Some r)
  have "row_phase (r\<lparr>lr_reason := REDUCE_ONLY_ADAPTER_BOUND\<rparr>) = 3" if "lr_status r = ''PREPARED''"
    using that by (simp add: row_phase_def DISPATCH_CLAIMABLE_REASONS_def ro_codes)
  with Some show ?thesis
    using won[of r "r\<lparr>lr_reason := REDUCE_ONLY_ADAPTER_BOUND\<rparr>"] lost bindable_phase(1)[of r]
    by (cases "lr_status r = ''PREPARED'' \<and> lr_reason r \<in> set BINDABLE_REASONS")
      (simp_all add: bind_prepared_for_adapter_def reduce_only_row_def Let_def)
qed (simp add: lost bind_prepared_for_adapter_def)

lemma claim_cases:
  obtains (won) r r' p where "dget (db_rows db) oid = Some r" "row_phase r = 1" "row_phase r' = 2"
      "claim_dispatch_ownership oid db = (Some p, db\<lparr>db_rows := dset oid r' (db_rows db)\<rparr>)"
      "\<not> pl_adapter_bound p" "pl_dispatch_claimed p" "r' = r\<lparr>lr_reason := REDUCE_ONLY_DISPATCH_CLAIMED\<rparr>"
  | (lost) "claim_dispatch_ownership oid db = (None, db)"
proof (cases "dget (db_rows db) oid")
  case (Some r)
  have "row_phase (r\<lparr>lr_reason := REDUCE_ONLY_DISPATCH_CLAIMED\<rparr>) = 2" if "lr_status r = ''PREPARED''"
    using that by (simp add: row_phase_def)
  with Some show ?thesis
    using won[of r "r\<lparr>lr_reason := REDUCE_ONLY_DISPATCH_CLAIMED\<rparr>"] lost bindable_phase(2)[of r]
    by (cases "lr_status r = ''PREPARED'' \<and> lr_reason r \<in> set DISPATCH_CLAIMABLE_REASONS")
      (simp_all add: claim_dispatch_ownership_def reduce_only_row_def Let_def)
qed (simp add: lost claim_dispatch_ownership_def)

lemma order_phase_dset [simp]:
  "order_phase (db\<lparr>db_rows := dset k r (db_rows db)\<rparr>) x = (if x = k then row_phase r else order_phase db x)"
  by (simp add: order_phase_def)

lemma order_phase_positions [simp]: "order_phase (db\<lparr>db_positions := ps\<rparr>) x = order_phase db x"
  by (simp add: order_phase_def)

definition phase_effect :: "string \<Rightarrow> payload \<Rightarrow> ledger_db \<Rightarrow> ledger_db \<Rightarrow> bool" where
  "phase_effect oid p db db' = ((\<forall>x. order_phase db x \<le> order_phase db' x)
     \<and> (pl_adapter_bound p \<longrightarrow> order_phase db oid < 3 \<and> order_phase db' oid = 3)
     \<and> (pl_dispatch_claimed p \<longrightarrow> order_phase db oid < 2 \<and> order_phase db' oid = 2))"

lemma unchanged_effect: "\<not> pl_adapter_bound p \<Longrightarrow> \<not> pl_dispatch_claimed p \<Longrightarrow> phase_effect oid p db db"
  by (simp add: phase_effect_def)

lemma reduce_only_row_flags [simp]:
  "\<not> pl_adapter_bound (reduce_only_row r d)" "\<not> pl_dispatch_claimed (reduce_only_row r d)"
  "pl_duplicate (reduce_only_row r d) = d" "pl_row (reduce_only_row r d) = Some r"
  "pl_allowed (reduce_only_row r d) \<longleftrightarrow> lr_status r = ''PREPARED'' \<and> \<not> d"
  "pl_submitted (reduce_only_row r d) = lr_submitted r"
  "\<not> pl_adapter_bound (reduce_only_claim_mismatch r)" "\<not> pl_dispatch_claimed (reduce_only_claim_mismatch r)"
  "\<not> pl_allowed (reduce_only_claim_mismatch r)"
  by (auto simp: reduce_only_row_def reduce_only_claim_mismatch_def)

lemma reenter_effect:
  assumes "dget (db_rows db) oid = Some r" "reenter_prepared r oid symb side req bind db = (p, db')"
  shows "phase_effect oid p db db'"
proof (cases "(lr_status r = ''PREPARED'' \<and> lr_reason r \<in> set BINDABLE_REASONS) \<and> reduce_only_fields_match r symb side req")
  case False
  then show ?thesis using assms(2) by (auto simp: reenter_prepared_def intro!: unchanged_effect split: if_splits)
next
  case True
  show ?thesis
  proof (cases bind)
    case b: True
    show ?thesis
    proof (cases rule: bind_cases[of db oid])
      case (won r' r'' q)
      then have "p = q\<lparr>pl_reason := lr_reason r\<rparr>" "db' = db\<lparr>db_rows := dset oid r'' (db_rows db)\<rparr>"
        using assms(2) True b by (simp_all add: reenter_prepared_def)
      moreover have "order_phase db oid < 3" using won(1,2) by (auto simp: order_phase_def)
      ultimately show ?thesis using won(3,5,6) by (auto simp: phase_effect_def)
    next
      case lost
      then show ?thesis using assms(2) True b by (auto simp: reenter_prepared_def intro!: unchanged_effect)
    qed
  next
    case b: False
    show ?thesis
    proof (cases rule: claim_cases[of db oid])
      case (won r' r'' q)
      then have "p = q" "db' = db\<lparr>db_rows := dset oid r'' (db_rows db)\<rparr>"
        using assms(2) True b by (simp_all add: reenter_prepared_def)
      moreover have "order_phase db oid = 1" using won(1,2) by (simp add: order_phase_def)
      ultimately show ?thesis using won(3,5,6) by (auto simp: phase_effect_def)
    next
      case lost
      then show ?thesis using assms(2) True b by (auto simp: reenter_prepared_def intro!: unchanged_effect)
    qed
  qed
qed

lemma finish_effect:
  assumes "lr_order_id ins = oid" "order_phase db oid = 0"
    and "finish_prepare bind ins prep (db\<lparr>db_rows := dset oid ins (db_rows db)\<rparr>) = (p, db')"
  shows "phase_effect oid p db db'"
proof -
  let ?db = "db\<lparr>db_rows := dset oid ins (db_rows db)\<rparr>"
  have ins: "phase_effect oid p db ?db" if "\<not> pl_adapter_bound p" "\<not> pl_dispatch_claimed p" for p
    using that assms(2) by (simp add: phase_effect_def)
  consider (bind) "bind \<and> rp_allowed prep \<and> rp_reason prep \<in> set BINDABLE_REASONS"
    | (claim) "\<not> bind \<and> rp_allowed prep \<and> rp_reason prep \<in> set DISPATCH_CLAIMABLE_REASONS"
      "\<not> (bind \<and> rp_allowed prep \<and> rp_reason prep \<in> set BINDABLE_REASONS)"
    | (plain) "\<not> (bind \<and> rp_allowed prep \<and> rp_reason prep \<in> set BINDABLE_REASONS)"
      "\<not> (\<not> bind \<and> rp_allowed prep \<and> rp_reason prep \<in> set DISPATCH_CLAIMABLE_REASONS)" by blast
  then show ?thesis
  proof cases
    case bind
    show ?thesis
    proof (cases rule: bind_cases[of ?db oid])
      case (won r' r'' q)
      then show ?thesis using assms bind by (auto simp: finish_prepare_def phase_effect_def)
    next
      case lost
      then show ?thesis using assms bind by (auto simp: finish_prepare_def phase_effect_def)
    qed
  next
    case claim
    show ?thesis
    proof (cases rule: claim_cases[of ?db oid])
      case (won r' r'' q)
      then show ?thesis using assms claim by (auto simp: finish_prepare_def phase_effect_def)
    next
      case lost
      then show ?thesis using assms claim by (auto simp: finish_prepare_def phase_effect_def)
    qed
  next
    case plain
    then show ?thesis using assms(3) unfolding finish_prepare_def by (auto intro!: ins)
  qed
qed

lemma insert_row_id: "insert_row oid symb side prep = Inr r \<Longrightarrow> lr_order_id r = oid"
  by (auto simp: insert_row_def ebind_eq_Inr Let_def split: if_splits)

text \<open>What a preparation that does not raise was: a re-entry, a refusal without a row, or an insert.\<close>

lemma db_prepare_cases:
  assumes "db_prepare_reduce_only oid symb side req pb bind db = Inr (p, db')"
  obtains (reenter) r where "dget (db_rows db) oid = Some r" "reenter_prepared r oid symb side req bind db = (p, db')"
  | (refused) "dget (db_rows db) oid = None" "db' = db" "\<not> pl_adapter_bound p" "\<not> pl_dispatch_claimed p"
      "\<not> pl_allowed p"
  | (insert) position prep ins where "dget (db_rows db) oid = None" "trusted_position db symb = Inr position"
      "prepare_reduce_only (map_option DecArg position) side req
         (DecArg (numeric_sum (map lr_submitted (prepared_rows db symb)))) = Inr prep"
      "insert_row oid symb side prep = Inr ins" "oid \<noteq> []"
      "finish_prepare bind ins prep (db\<lparr>db_rows := dset oid ins (db_rows db)\<rparr>) = (p, db')"
proof (cases "dget (db_rows db) oid")
  case (Some r)
  then show ?thesis using assms by (intro reenter[of r]) (auto simp: db_prepare_reduce_only_def split: if_splits)
next
  case None
  then obtain position prep where pp: "trusted_position db symb = Inr position"
    "prepare_reduce_only (map_option DecArg position) side req
       (DecArg (numeric_sum (map lr_submitted (prepared_rows db symb)))) = Inr prep"
    using assms by (auto simp: db_prepare_reduce_only_def ebind_eq_Inr split: if_splits)
  show ?thesis
  proof (cases "\<not> rp_allowed prep \<and> \<not> pb")
    case True
    then show ?thesis using assms None pp
      by (intro refused) (auto simp: db_prepare_reduce_only_def split: if_splits)
  next
    case False
    then have "oid \<noteq> [] \<and> (\<exists>ins. insert_row oid symb side prep = Inr ins
        \<and> finish_prepare bind ins prep (db\<lparr>db_rows := dset oid ins (db_rows db)\<rparr>) = (p, db'))"
      using assms None pp by (auto simp: db_prepare_reduce_only_def ebind_eq_Inr split: if_splits)
    with None pp show ?thesis using insert by blast
  qed
qed

lemma db_prepare_effect:
  assumes "db_prepare_reduce_only oid symb side req pb bind db = Inr (p, db')"
  shows "phase_effect oid p db db'"
  using assms
proof (cases rule: db_prepare_cases)
  case (reenter r)
  then show ?thesis by (rule reenter_effect)
next
  case refused
  then show ?thesis by (simp add: unchanged_effect)
next
  case (insert position prep ins)
  then show ?thesis by (intro finish_effect[OF insert_row_id]) (auto simp: order_phase_def)
qed

lemma persisted_status_not_prepared [simp]: "persisted_status_of st reason \<noteq> ''PREPARED''"
  by (simp add: persisted_status_of_def)

lemma settled_row_Inr:
  assumes "settled_row r filled pd after status reason = Inr r'"
  shows "lr_status r' = status" "lr_reason r' = reason" "lr_order_id r' = lr_order_id r" "lr_symbol r' = lr_symbol r"
    "to_numeric filled = Inr (lr_filled r')" "lr_submitted r' = lr_submitted r" "row_checks r'"
  using assms by (auto simp: settled_row_def ebind_eq_Inr Let_def split: if_splits)

text \<open>What a finalization that does not raise was: a duplicate, or the settlement of a prepared row.\<close>

lemma db_finalize_cases:
  assumes "db_finalize_reduce_only oid status fq fp db = Inr (res, db')"
  obtains (duplicate) r where "dget (db_rows db) oid = Some r" "lr_status r \<noteq> ''PREPARED''" "db' = db"
      "pl_duplicate (fr_payload res)" "\<not> fr_applied res"
  | (settled) r p current prepared prep out r' ps where
      "dget (db_rows db) oid = Some r" "lr_status r = ''PREPARED''" "open_positions db (lr_symbol r) = [p]"
      "signed_position (Some p) = Inr (Some current)" "lr_position_before r = Some prepared"
      "prepare_reduce_only (Some (DecArg prepared)) (lr_side r) (DecArg (lr_submitted r)) (DecArg dec_zero) = Inr prep"
      "apply_reduce_only_result prep status fq False None = Inr out"
      "lr_status r' \<noteq> ''PREPARED''" "\<not> pl_duplicate (fr_payload res)" "fr_payload res = reduce_only_row r' False"
      "fr_applied res \<longleftrightarrow> dec_eq current prepared \<and> oc_applied out"
      "db' = db\<lparr>db_positions := ps, db_rows := dset oid r' (db_rows db)\<rparr>"
      "if fr_applied res then \<exists>price pnl p'. updated_position p (oc_position_after out) price pnl = Inr p'
         \<and> ps = replace_position p' (db_positions db) else ps = db_positions db"
      "to_numeric (if dec_eq current prepared then oc_filled out else dec_zero) = Inr (lr_filled r')"
      "lr_submitted r' = lr_submitted r" "row_checks r'"
      "lr_status r' = (if dec_eq current prepared then persisted_status_of (upper status) (oc_reason out) else ''BLOCKED'')"
proof -
  obtain r where r: "dget (db_rows db) oid = Some r"
    using assms by (cases "dget (db_rows db) oid") (auto simp: db_finalize_reduce_only_def)
  show ?thesis
  proof (cases "lr_status r = ''PREPARED''")
    case False
    with r assms show ?thesis by (intro duplicate[OF r]) (auto simp: db_finalize_reduce_only_def)
  next
    case st: True
    note D = assms[unfolded db_finalize_reduce_only_def r option.case]
    obtain p where p: "open_positions db (lr_symbol r) = [p]"
      using D st by (cases "open_positions db (lr_symbol r)" rule: remdups_adj.cases) auto
    note D = D[unfolded p list.case, simplified st simp_thms if_False]
    obtain current where c: "signed_position (Some p) = Inr (Some current)"
      using D by (cases "signed_position (Some p)" rule: sum_option_cases) auto
    obtain prepared where pb: "lr_position_before r = Some prepared"
      using D c by (cases "lr_position_before r") auto
    obtain prep where prep: "prepare_reduce_only (Some (DecArg prepared)) (lr_side r) (DecArg (lr_submitted r)) (DecArg dec_zero) = Inr prep"
      using D c pb by (auto simp: ebind_eq_Inr)
    obtain out where out: "apply_reduce_only_result prep status fq False None = Inr out"
      using D c pb prep by (auto simp: ebind_eq_Inr)
    show ?thesis
    proof (cases "dec_eq current prepared \<and> oc_applied out")
      case True
      then obtain price delta pnl p' r' where s: "settle p current fp (oc_filled out) = Inr (price, delta, pnl)"
        "updated_position p (oc_position_after out) price pnl = Inr p'"
        "settled_row r (oc_filled out) (Some (price, delta)) (oc_position_after out)
           (persisted_status_of (upper status) (oc_reason out)) (oc_reason out) = Inr r'"
        "res = \<lparr>fr_payload = reduce_only_row r' False, fr_applied = True,
                fr_position_before_apply = Some current, fr_position_after = Some (oc_position_after out)\<rparr>"
        "db' = db\<lparr>db_positions := replace_position p' (db_positions db), db_rows := dset oid r' (db_rows db)\<rparr>"
        using D c pb prep out by (auto simp: ebind_eq_Inr Let_def split: prod.splits)
      note R = settled_row_Inr[OF s(3)]
      show ?thesis
        by (rule settled[OF r st p c pb prep out, of r' "replace_position p' (db_positions db)"])
          (use s True R in auto)
    next
      case False
      define q where "q = (if dec_eq current prepared then oc_filled out else dec_zero)"
      define ps where "ps = (if dec_eq current prepared then persisted_status_of (upper status) (oc_reason out) else ''BLOCKED'')"
      obtain r' where s: "settled_row r q None (if dec_eq current prepared then oc_position_after out else current)
          ps (if dec_eq current prepared then oc_reason out else REDUCE_ONLY_POSITION_INCREASE_BLOCKED) = Inr r'"
        "fr_payload res = reduce_only_row r' False" "\<not> fr_applied res" "db' = db\<lparr>db_rows := dset oid r' (db_rows db)\<rparr>"
        using D c pb prep out False unfolding q_def ps_def
        by (cases "dec_eq current prepared") (auto simp: ebind_eq_Inr Let_def)
      note R = settled_row_Inr[OF s(1)]
      have "ps \<noteq> ''PREPARED''" by (simp add: ps_def)
      then show ?thesis
        by (intro settled[OF r st p c pb prep out, of r' "db_positions db"])
          (use s False R in \<open>auto simp: q_def ps_def\<close>)
    qed
  qed
qed

lemma db_finalize_effect:
  assumes "db_finalize_reduce_only oid status fq fp db = Inr (res, db')"
  shows "(\<forall>x. order_phase db x \<le> order_phase db' x)
    \<and> (\<not> pl_duplicate (fr_payload res) \<longrightarrow> order_phase db oid < 4 \<and> order_phase db' oid = 4)"
  using assms
proof (cases rule: db_finalize_cases)
  case (duplicate r)
  then show ?thesis by simp
next
  case (settled r p current prepared prep out r' ps)
  have "order_phase db oid < 4" using settled(1,2) by (simp add: order_phase_def row_phase_def)
  moreover have "row_phase r' = 4" using settled(8) by (simp add: row_phase_def)
  moreover have "order_phase db' x = (if x = oid then row_phase r' else order_phase db x)" for x
    by (simp add: settled(12) order_phase_def)
  ultimately show ?thesis by auto
qed

lemma ledger_step_mono: "ledger_step db e db' \<Longrightarrow> order_phase db x \<le> order_phase db' x"
  by (induction rule: ledger_step.induct)
    (use db_prepare_effect db_finalize_effect in \<open>auto simp: phase_effect_def\<close>)

interpretation binding: one_shot ledger_step order_phase 3 bound_order
proof unfold_locales
  show "ledger_step s e s' \<Longrightarrow> order_phase s x \<le> order_phase s' x" for s e s' x by (rule ledger_step_mono)
  show "ledger_step s e s' \<Longrightarrow> bound_order e = Some x \<Longrightarrow> order_phase s x < 3"
    "ledger_step s e s' \<Longrightarrow> bound_order e = Some x \<Longrightarrow> 3 \<le> order_phase s' x" for s e s' x
    by (induction rule: ledger_step.induct)
      (auto simp: bound_order_def phase_effect_def dest!: db_prepare_effect split: if_splits)
qed

interpretation claiming: one_shot ledger_step order_phase 2 claimed_order
proof unfold_locales
  show "ledger_step s e s' \<Longrightarrow> order_phase s x \<le> order_phase s' x" for s e s' x by (rule ledger_step_mono)
  show "ledger_step s e s' \<Longrightarrow> claimed_order e = Some x \<Longrightarrow> order_phase s x < 2"
    "ledger_step s e s' \<Longrightarrow> claimed_order e = Some x \<Longrightarrow> 2 \<le> order_phase s' x" for s e s' x
    by (induction rule: ledger_step.induct)
      (auto simp: claimed_order_def phase_effect_def dest!: db_prepare_effect split: if_splits)
qed

interpretation settling: one_shot ledger_step order_phase 4 settled_order
proof unfold_locales
  show "ledger_step s e s' \<Longrightarrow> order_phase s x \<le> order_phase s' x" for s e s' x by (rule ledger_step_mono)
  show "ledger_step s e s' \<Longrightarrow> settled_order e = Some x \<Longrightarrow> order_phase s x < 4"
    "ledger_step s e s' \<Longrightarrow> settled_order e = Some x \<Longrightarrow> 4 \<le> order_phase s' x" for s e s' x
    by (induction rule: ledger_step.induct)
      (auto simp: settled_order_def dest!: db_finalize_effect split: if_splits)
qed

text \<open>
  C31. Every exclusive right is granted once. In any run of preparations and finalizations of
  any orders by any workers, with the positions changing in between in any way, no order is
  bound to an adapter twice, no order's dispatch is claimed twice, and no order is settled twice.
\<close>

theorem ledger_grants_once:
  assumes "event_run ledger_step db es db'"
  shows "distinct (List.map_filter bound_order es) \<and> distinct (List.map_filter claimed_order es)
    \<and> distinct (List.map_filter settled_order es)"
  using binding.granted_once[OF assms] claiming.granted_once[OF assms] settling.granted_once[OF assms] by simp

abbreviation sample_row :: ledger_row where
  "sample_row \<equiv> \<lparr>lr_order_id = ''o1'', lr_symbol = ''BTCUSDT'', lr_side = ''SELL'',
     lr_position_before = Some (DFin False 150000000 (- 8)), lr_requested = DFin False 150000000 (- 8),
     lr_submitted = DFin False 150000000 (- 8), lr_filled = DFin False 0 (- 8), lr_fill_price = None,
     lr_realized_pnl_delta = None, lr_position_after = Some (DFin False 150000000 (- 8)),
     lr_status = ''PREPARED'', lr_reason = REDUCE_ONLY_READY\<rparr>"

abbreviation sample_position_row :: position_row where
  "sample_position_row \<equiv> \<lparr>pr_id = 1, pr_symbol = ''BTCUSDT'', pr_side = ''long'', pr_size = DFin False 150000000 (- 8),
     pr_entry_price = Some (DFin False 100 0), pr_current_price = None, pr_realized_pnl = None, pr_closed = False\<rparr>"

abbreviation sample_db :: ledger_db where
  "sample_db \<equiv> \<lparr>db_rows = [(''o1'', sample_row)], db_positions = [sample_position_row]\<rparr>"

lemma sample_bind:
  obtains p db' where "db_prepare_reduce_only ''o1'' ''BTCUSDT'' ''SELL'' (DecArg (DFin False 150000000 (- 8))) True True sample_db = Inr (p, db')"
    "pl_adapter_bound p"
proof -
  have b: "lr_reason sample_row \<in> set BINDABLE_REASONS" by (simp add: BINDABLE_REASONS_def)
  then show ?thesis
    using that by (simp add: db_prepare_reduce_only_def reenter_prepared_def reduce_only_fields_match_def
        bind_prepared_for_adapter_def Let_def)
qed

theorem ledger_grants_once_witness:
  "\<exists>p db'. event_run ledger_step sample_db [PrepareEv ''o1'' p] db' \<and> bound_order (PrepareEv ''o1'' p) = Some ''o1''
    \<and> distinct (List.map_filter bound_order [PrepareEv ''o1'' p])"
proof -
  obtain p db' where p: "db_prepare_reduce_only ''o1'' ''BTCUSDT'' ''SELL'' (DecArg (DFin False 150000000 (- 8))) True True sample_db = Inr (p, db')"
    "pl_adapter_bound p" by (rule sample_bind)
  have r: "event_run ledger_step sample_db [PrepareEv ''o1'' p] db'"
    by (rule run_cons[where step = ledger_step, OF prepare_step[OF p(1)]]) (rule run_nil)
  with ledger_grants_once[OF r] p(2) show ?thesis by (auto simp: bound_order_def)
qed

subsection \<open>One live reservation per symbol\<close>

definition reserves :: "string \<Rightarrow> ledger_row \<Rightarrow> bool" where
  "reserves symbol r = (lr_symbol r = symbol \<and> lr_status r = ''PREPARED'' \<and> 0 < dec_val (lr_submitted r))"

definition live_reservations :: "ledger_db \<Rightarrow> string \<Rightarrow> nat" where
  "live_reservations db symbol = length (filter (reserves symbol) (map snd (db_rows db)))"

definition rows_ok :: "ledger_db \<Rightarrow> bool" where
  "rows_ok db = (distinct (map fst (db_rows db)) \<and> (\<forall>symbol. live_reservations db symbol \<le> 1)
     \<and> (\<forall>r \<in> set (map snd (db_rows db)). lr_status r = ''PREPARED'' \<longrightarrow> (\<exists>c. lr_submitted r = DFin False c (- 8))))"

lemma count_update:
  "distinct (map fst d) \<Longrightarrow> dget d k = Some r \<Longrightarrow>
     length (filter P (map snd (dset k r' d))) + (if P r then 1 else 0)
       = length (filter P (map snd d)) + (if P r' then 1 else 0)"
  by (induction d) (auto split: if_splits)

lemma rows_ok_replace:
  assumes "rows_ok db" "dget (db_rows db) k = Some r" "\<And>symb. reserves symb r' \<Longrightarrow> reserves symb r"
    "lr_status r' = ''PREPARED'' \<Longrightarrow> lr_submitted r' = lr_submitted r \<and> lr_status r = ''PREPARED''"
  shows "rows_ok (db\<lparr>db_rows := dset k r' (db_rows db)\<rparr>)"
proof -
  have r: "r \<in> set (map snd (db_rows db))" using assms(2) by (force dest: map_of_SomeD)
  have "live_reservations (db\<lparr>db_rows := dset k r' (db_rows db)\<rparr>) symb \<le> 1" for symb
  proof -
    have d: "distinct (map fst (db_rows db))" and "live_reservations db symb \<le> 1"
      using assms(1) by (simp_all add: rows_ok_def)
    with count_update[OF d assms(2), of "reserves symb" r'] assms(3)[of symb] show ?thesis
      unfolding live_reservations_def ledger_db.simps by (auto split: if_splits)
  qed
  moreover have "\<exists>c. lr_submitted x = DFin False c (- 8)"
    if "x \<in> set (map snd (dset k r' (db_rows db)))" "lr_status x = ''PREPARED''" for x
  proof -
    from snd_dset[OF that(1)] consider "x = r'" | "x \<in> set (map snd (db_rows db))" by blast
    then show ?thesis
    proof cases
      case 1
      then have "lr_submitted x = lr_submitted r" "lr_status r = ''PREPARED''" using assms(4) that(2) by simp_all
      then show ?thesis using assms(1) r unfolding rows_ok_def by metis
    next
      case 2
      then show ?thesis using assms(1) that(2) unfolding rows_ok_def by blast
    qed
  qed
  moreover have "distinct (map fst (dset k r' (db_rows db)))" using assms(1) by (simp add: rows_ok_def)
  moreover have "db_rows (db\<lparr>db_rows := dset k r' (db_rows db)\<rparr>) = dset k r' (db_rows db)" by simp
  ultimately show ?thesis unfolding rows_ok_def by metis
qed

lemma numeric_sum_zero:
  assumes "\<forall>d \<in> set ds. \<exists>c. d = DFin False c (- 8)" "dec_val (numeric_sum ds) = 0" "d \<in> set ds"
  shows "dec_val d = 0"
proof -
  have fin: "list_all is_finite ds" using assms(1) by (auto simp: list_all_iff)
  have nn: "\<forall>x \<in> set (map (dec_scaled (- 8)) ds). 0 \<le> x" using assms(1) by (auto simp: dec_scaled_def sgn_of_def)
  have "ds \<noteq> []" using assms(3) by auto
  then have "sum_list (map (dec_scaled (- 8)) ds) = 0"
    using assms(2) fin by (simp add: numeric_sum_def Let_def)
  then have "\<forall>x \<in> set (map (dec_scaled (- 8)) ds). x = 0"
    using nn by (subst (asm) sum_list_nonneg_eq_0_iff) blast+
  then have "dec_scaled (- 8) d = 0" using assms(3) by simp
  then show ?thesis using assms(1,3) by (auto simp: dec_scaled_def sgn_of_def)
qed

lemma to_numeric_pos: "to_numeric d = Inr x \<Longrightarrow> is_finite d \<Longrightarrow> 0 < dec_val d \<Longrightarrow> \<exists>c. x = DFin False c (- 8)"
  by (cases d) (auto simp: to_numeric_def Let_def dec_val_pos_iff split: if_splits)

end
