(* ===== verification/PyFloat.thy ===== *)
theory PyFloat
  imports Complex_Main Prelude
begin

text \<open>
  Python's \<open>float\<close>, an IEEE 754 binary64 number: a finite value is a sign, a 53-bit
  significand and an exponent, \<open>fl_val\<close> its rational value. Every operation computes the exact
  result as a fraction and rounds it to nearest, ties to even, with subnormal results and
  overflow to infinity.
\<close>

subsection \<open>Values\<close>

datatype pyfloat = FFin bool nat int | FInf bool | FNaN

definition fl_zero :: pyfloat where "fl_zero = FFin False 0 (- 1074)"

definition signed :: "bool \<Rightarrow> nat \<Rightarrow> int" where
  "signed s n = (if s then - int n else int n)"

fun fl_val :: "pyfloat \<Rightarrow> rat" where
  "fl_val (FFin s m e) = of_int (signed s m) * 2 powi e"
| "fl_val _ = 0"

fun fl_isfinite :: "pyfloat \<Rightarrow> bool" where
  "fl_isfinite (FFin _ _ _) = True"
| "fl_isfinite _ = False"

text \<open>The encodings a computation can produce.\<close>

fun fl_ok :: "pyfloat \<Rightarrow> bool" where
  "fl_ok (FFin s m e) \<longleftrightarrow> - 1074 \<le> e \<and> e \<le> 971 \<and> m < 2 ^ 53 \<and> (2 ^ 52 \<le> m \<or> e = - 1074)"
| "fl_ok _ \<longleftrightarrow> True"

subsection \<open>Rounding\<close>

fun bitlen :: "nat \<Rightarrow> nat" where
  "bitlen n = (if n = 0 then 0 else Suc (bitlen (n div 2)))"
declare bitlen.simps [simp del]

text \<open>\<open>n / d\<close> in units of \<open>2 ^ e\<close>, as a fraction.\<close>

definition scaled :: "nat \<Rightarrow> nat \<Rightarrow> int \<Rightarrow> nat \<times> nat" where
  "scaled n d e = (if 0 \<le> e then (n, d * 2 ^ nat e) else (n * 2 ^ nat (- e), d))"

definition half_even :: "nat \<Rightarrow> nat \<Rightarrow> nat" where
  "half_even a b = (let q = a div b; r = a mod b in
     if b < 2 * r \<or> (2 * r = b \<and> odd q) then Suc q else q)"

definition fl_exp :: "nat \<Rightarrow> nat \<Rightarrow> int" where
  "fl_exp n d = (let e = int (bitlen n) - int (bitlen d) - 53;
                     (a, b) = scaled n d e
                 in max (if a < b * 2 ^ 53 then e else e + 1) (- 1074))"

definition fl_pack :: "bool \<Rightarrow> nat \<Rightarrow> int \<Rightarrow> pyfloat" where
  "fl_pack s m e = (let (m', e') = (if m = 2 ^ 53 then (2 ^ 52, e + 1) else (m, e)) in
     if 971 < e' then FInf s else FFin s m' e')"

definition fl_round :: "bool \<Rightarrow> nat \<Rightarrow> nat \<Rightarrow> pyfloat" where
  "fl_round s n d = (if n = 0 then FFin s 0 (- 1074)
     else let e = fl_exp n d; (a, b) = scaled n d e in fl_pack s (half_even a b) e)"

text \<open>An integer multiple of a power of two.\<close>

definition fl_of_scaled :: "bool \<Rightarrow> nat \<Rightarrow> int \<Rightarrow> pyfloat" where
  "fl_of_scaled s n e = (if 0 \<le> e then fl_round s (n * 2 ^ nat e) 1 else fl_round s n (2 ^ nat (- e)))"

subsection \<open>Operations\<close>

definition fl_int :: "int \<Rightarrow> pyfloat" where
  \<comment> \<open>\<open>float(i)\<close> in range\<close>
  "fl_int i = fl_round (i < 0) (nat \<bar>i\<bar>) 1"

fun fl_neg :: "pyfloat \<Rightarrow> pyfloat" where
  "fl_neg (FFin s m e) = FFin (\<not> s) m e"
| "fl_neg (FInf s) = FInf (\<not> s)"
| "fl_neg FNaN = FNaN"

fun fl_add :: "pyfloat \<Rightarrow> pyfloat \<Rightarrow> pyfloat" where
  "fl_add (FFin s m e) (FFin t n f) =
     (let g = min e f;
          k = signed s (m * 2 ^ nat (e - g)) + signed t (n * 2 ^ nat (f - g))
      in if k = 0 then FFin (s \<and> t) 0 (- 1074) else fl_of_scaled (k < 0) (nat \<bar>k\<bar>) g)"
| "fl_add (FInf s) (FInf t) = (if s = t then FInf s else FNaN)"
| "fl_add (FInf s) (FFin _ _ _) = FInf s"
| "fl_add (FFin _ _ _) (FInf s) = FInf s"
| "fl_add FNaN _ = FNaN"
| "fl_add _ FNaN = FNaN"

definition fl_sub :: "pyfloat \<Rightarrow> pyfloat \<Rightarrow> pyfloat" where
  "fl_sub x y = fl_add x (fl_neg y)"

fun fl_mul :: "pyfloat \<Rightarrow> pyfloat \<Rightarrow> pyfloat" where
  "fl_mul (FFin s m e) (FFin t n f) = fl_of_scaled (s \<noteq> t) (m * n) (e + f)"
| "fl_mul (FInf s) (FInf t) = FInf (s \<noteq> t)"
| "fl_mul (FInf s) (FFin t n _) = (if n = 0 then FNaN else FInf (s \<noteq> t))"
| "fl_mul (FFin t n _) (FInf s) = (if n = 0 then FNaN else FInf (s \<noteq> t))"
| "fl_mul FNaN _ = FNaN"
| "fl_mul _ FNaN = FNaN"

text \<open>Comparison; a NaN is neither less than nor equal to anything.\<close>

fun fl_lt :: "pyfloat \<Rightarrow> pyfloat \<Rightarrow> bool" where
  "fl_lt FNaN _ \<longleftrightarrow> False"
| "fl_lt _ FNaN \<longleftrightarrow> False"
| "fl_lt (FInf s) (FInf t) \<longleftrightarrow> s \<and> \<not> t"
| "fl_lt (FInf s) (FFin _ _ _) \<longleftrightarrow> s"
| "fl_lt (FFin _ _ _) (FInf t) \<longleftrightarrow> \<not> t"
| "fl_lt (FFin s m e) (FFin t n f) \<longleftrightarrow>
     (let g = min e f in signed s (m * 2 ^ nat (e - g)) < signed t (n * 2 ^ nat (f - g)))"

fun fl_eq :: "pyfloat \<Rightarrow> pyfloat \<Rightarrow> bool" where
  "fl_eq (FInf s) (FInf t) \<longleftrightarrow> s = t"
| "fl_eq (FFin s m e) (FFin t n f) \<longleftrightarrow>
     (let g = min e f in signed s (m * 2 ^ nat (e - g)) = signed t (n * 2 ^ nat (f - g)))"
| "fl_eq _ _ \<longleftrightarrow> False"

definition fl_le :: "pyfloat \<Rightarrow> pyfloat \<Rightarrow> bool" where
  "fl_le x y \<longleftrightarrow> fl_lt x y \<or> fl_eq x y"

text \<open>\<open>max(x, y)\<close> and \<open>min(x, y)\<close>: the first argument unless the second is strictly beyond it.\<close>

definition fl_max :: "pyfloat \<Rightarrow> pyfloat \<Rightarrow> pyfloat" where
  "fl_max x y = (if fl_lt x y then y else x)"

definition fl_min :: "pyfloat \<Rightarrow> pyfloat \<Rightarrow> pyfloat" where
  "fl_min x y = (if fl_lt y x then y else x)"

text \<open>\<open>bool(x)\<close> of a float.\<close>

fun fl_truthy :: "pyfloat \<Rightarrow> bool" where
  "fl_truthy (FFin _ m _) = (m \<noteq> 0)"
| "fl_truthy _ = True"

subsection \<open>Comparison is comparison of values\<close>

lemma signed_mult: "signed s (m * k) = signed s m * int k"
  by (simp add: signed_def)

lemma common_exponent:
  assumes "g \<le> e"
  shows "of_int (signed s m) * (2 :: rat) powi e = of_int (signed s (m * 2 ^ nat (e - g))) * 2 powi g"
proof -
  have "(2 :: rat) powi e = 2 powi (e - g) * 2 powi g"
    by (subst power_int_add [symmetric]) simp_all
  also have "(2 :: rat) powi (e - g) = 2 ^ nat (e - g)"
    using assms by (simp add: power_int_def)
  finally show ?thesis by (simp add: signed_mult)
qed

lemma fl_lt_val: "fl_isfinite x \<Longrightarrow> fl_isfinite y \<Longrightarrow> fl_lt x y \<longleftrightarrow> fl_val x < fl_val y"
proof (cases x; cases y)
  fix s m e t n f
  assume xy: "x = FFin s m e" "y = FFin t n f"
  let ?g = "min e f"
  have v: "fl_val x = of_int (signed s (m * 2 ^ nat (e - ?g))) * 2 powi ?g"
    "fl_val y = of_int (signed t (n * 2 ^ nat (f - ?g))) * 2 powi ?g"
    unfolding xy fl_val.simps by (rule common_exponent, simp)+
  have "0 < (2 :: rat) powi ?g" by (rule zero_less_power_int) simp
  then show ?thesis unfolding v by (simp only: xy fl_lt.simps Let_def mult_less_cancel_right_pos of_int_less_iff)
qed simp_all

lemma fl_eq_val: "fl_isfinite x \<Longrightarrow> fl_isfinite y \<Longrightarrow> fl_eq x y \<longleftrightarrow> fl_val x = fl_val y"
proof (cases x; cases y)
  fix s m e t n f
  assume xy: "x = FFin s m e" "y = FFin t n f"
  let ?g = "min e f"
  have v: "fl_val x = of_int (signed s (m * 2 ^ nat (e - ?g))) * 2 powi ?g"
    "fl_val y = of_int (signed t (n * 2 ^ nat (f - ?g))) * 2 powi ?g"
    unfolding xy fl_val.simps by (rule common_exponent, simp)+
  have "(2 :: rat) powi ?g \<noteq> 0" by simp
  then show ?thesis unfolding v by (simp only: xy fl_eq.simps Let_def mult_cancel_right of_int_eq_iff) simp
qed simp_all

lemma fl_le_val: "fl_isfinite x \<Longrightarrow> fl_isfinite y \<Longrightarrow> fl_le x y \<longleftrightarrow> fl_val x \<le> fl_val y"
  by (auto simp: fl_le_def fl_lt_val fl_eq_val)

lemma fl_val_zero [simp]: "fl_val fl_zero = 0" "fl_isfinite fl_zero"
  by (simp_all add: fl_zero_def signed_def)

lemma fl_max_zero: "fl_isfinite x \<Longrightarrow> 0 \<le> fl_val (fl_max x fl_zero)"
  by (auto simp: fl_max_def fl_lt_val)

end
