(* ===== verification/OpenOrders.thy ===== *)
theory OpenOrders
  imports PyFloat Json "HOL-Library.Multiset"
begin

text \<open>
  The open-order registry, \<open>services/execution/open_order_registry.py\<close>: the orders in process
  memory, and the JSON ledger on disk they are written to after every change and read from after
  a restart. The ledger is modelled as the parsed value of the file; the text of a float reads
  back as the same float, so entries hold the number itself. \<open>rg_faults\<close> says which of the
  coming writes fail with an \<open>OSError\<close>. A time is the text of \<open>utcnow().isoformat()\<close>.
  Operations are atomic, as the lock makes them.
\<close>

subsection \<open>Orders\<close>

definition OPEN_STATUSES :: "string list" where
  "OPEN_STATUSES = [''PENDING'', ''SUBMITTED'', ''PARTIALLY_FILLED'']"

definition TERMINAL_STATUSES :: "string list" where
  "TERMINAL_STATUSES = [''FILLED'', ''CANCELLED'', ''REJECTED'']"

record order_record =
  oo_internal_id :: string
  oo_symbol :: string
  oo_status :: string
  oo_venue_id :: "string option"
  oo_filled :: pyfloat
  oo_remaining :: pyfloat
  oo_quantity :: pyfloat
  oo_side :: "string option"
  oo_registered_at :: string
  oo_updated_at :: string
  oo_kc_state :: "string option"
  oo_reason :: "string option"
  oo_residual :: bool
  oo_metadata :: "(string \<times> json) list"

definition is_open :: "order_record \<Rightarrow> bool" where
  "is_open r \<longleftrightarrow> oo_status r \<in> set OPEN_STATUSES \<and> oo_residual r"

subsection \<open>The ledger file\<close>

text \<open>
  A member of a JSON object that may be missing, null or a value of the type the program
  writes there; values of other types are not among the modelled contents.
\<close>

datatype 'a jfield = Absent | Null | Val 'a

record ledger_entry =
  le_internal_id :: "string jfield"
  le_symbol :: "string jfield"
  le_status :: "string jfield"
  le_venue_id :: "string jfield"
  le_filled :: "pyfloat jfield"
  le_remaining :: "pyfloat jfield"
  le_quantity :: "pyfloat jfield"
  le_side :: "string jfield"
  le_registered_at :: "string jfield"
  le_updated_at :: "string jfield"
  le_kc_state :: "string jfield"
  le_reason :: "string jfield"
  le_residual :: "bool jfield"
  le_metadata :: "(string \<times> json) list jfield"

datatype ledger_file =
    LedgerMissing
  | LedgerUnreadable
  | LedgerNotJson
  | LedgerObject "ledger_entry list option" \<comment> \<open>an object; the value of its \<open>orders\<close> member\<close>
  | LedgerList "ledger_entry list" \<comment> \<open>a bare list\<close>

definition opt_field :: "'a option \<Rightarrow> 'a jfield" where
  "opt_field x = (case x of None \<Rightarrow> Null | Some v \<Rightarrow> Val v)"

definition entry_of :: "order_record \<Rightarrow> ledger_entry" where
  \<comment> \<open>\<open>asdict(r)\<close> as \<open>json.dumps\<close> writes it\<close>
  "entry_of r =
     \<lparr>le_internal_id = Val (oo_internal_id r), le_symbol = Val (oo_symbol r), le_status = Val (oo_status r),
      le_venue_id = opt_field (oo_venue_id r), le_filled = Val (oo_filled r),
      le_remaining = Val (oo_remaining r), le_quantity = Val (oo_quantity r), le_side = opt_field (oo_side r),
      le_registered_at = Val (oo_registered_at r), le_updated_at = Val (oo_updated_at r),
      le_kc_state = opt_field (oo_kc_state r), le_reason = opt_field (oo_reason r),
      le_residual = Val (oo_residual r), le_metadata = Val (oo_metadata r)\<rparr>"

text \<open>The readings \<open>str(item[k])\<close>, \<open>str(item.get(k, d))\<close>, \<open>item.get(k)\<close>,
  \<open>float(item.get(k, 0.0))\<close> and \<open>str(item.get(k) or "")\<close>.\<close>

fun field_str :: "string \<Rightarrow> string jfield \<Rightarrow> py_exc + string" where
  "field_str k Absent = Inl (KeyError k)"
| "field_str k Null = Inr ''None''"
| "field_str k (Val s) = Inr s"

fun field_str_default :: "string \<Rightarrow> string jfield \<Rightarrow> string" where
  "field_str_default d Absent = d"
| "field_str_default d Null = ''None''"
| "field_str_default d (Val s) = s"

fun field_get :: "'a jfield \<Rightarrow> 'a option" where
  "field_get (Val v) = Some v"
| "field_get _ = None"

fun field_float :: "pyfloat jfield \<Rightarrow> py_exc + pyfloat" where
  "field_float Absent = Inr fl_zero"
| "field_float Null = Inl TypeError"
| "field_float (Val x) = Inr x"

fun field_bool_default :: "bool \<Rightarrow> bool jfield \<Rightarrow> bool" where
  "field_bool_default d Absent = d"
| "field_bool_default d Null = False"
| "field_bool_default d (Val b) = b"

definition field_text :: "string jfield \<Rightarrow> string" where
  "field_text f = opt_or (field_get f) []"

definition record_of_entry :: "ledger_entry \<Rightarrow> py_exc + order_record" where
  "record_of_entry item =
     ebind (field_str ''internal_order_id'' (le_internal_id item)) (\<lambda>oid.
     ebind (field_str ''symbol'' (le_symbol item)) (\<lambda>sym'.
     ebind (field_float (le_filled item)) (\<lambda>filled.
     ebind (field_float (le_remaining item)) (\<lambda>remaining.
     ebind (field_float (le_quantity item)) (\<lambda>quantity.
     Inr \<lparr>oo_internal_id = oid, oo_symbol = sym', oo_status = field_str_default ''PENDING'' (le_status item),
          oo_venue_id = field_get (le_venue_id item), oo_filled = filled, oo_remaining = remaining,
          oo_quantity = quantity, oo_side = field_get (le_side item),
          oo_registered_at = field_text (le_registered_at item), oo_updated_at = field_text (le_updated_at item),
          oo_kc_state = field_get (le_kc_state item), oo_reason = field_get (le_reason item),
          oo_residual = field_bool_default True (le_residual item),
          oo_metadata = (case field_get (le_metadata item) of None \<Rightarrow> [] | Some m \<Rightarrow> m)\<rparr>)))))"

subsection \<open>The registry\<close>

record registry =
  rg_orders :: "(string, order_record) pydict"
  rg_has_path :: bool
  rg_ledger :: ledger_file
  rg_faults :: "bool list"

definition persist :: "registry \<Rightarrow> registry" where
  "persist rg =
     (if \<not> rg_has_path rg then rg
      else case rg_faults rg of
        True # fs \<Rightarrow> rg\<lparr>rg_faults := fs\<rparr>
      | fs \<Rightarrow> rg\<lparr>rg_ledger := LedgerObject (Some (map (entry_of \<circ> snd) (rg_orders rg))), rg_faults := tl fs\<rparr>)"

definition register ::
  "string \<Rightarrow> string \<Rightarrow> string \<Rightarrow> string \<Rightarrow> string option \<Rightarrow> pyfloat \<Rightarrow> pyfloat \<Rightarrow> pyfloat option
   \<Rightarrow> string option \<Rightarrow> (string \<times> json) list \<Rightarrow> registry \<Rightarrow> py_exc + (order_record \<times> registry)" where
  "register now oid sym' status venue quantity filled remaining_quantity side metadata rg =
     (if oid = [] then Inl (ValueError ''internal_order_id is required'')
      else
        let remaining = (case remaining_quantity of Some x \<Rightarrow> x
                         | None \<Rightarrow> fl_max (fl_sub quantity filled) fl_zero);
            r = (case dget (rg_orders rg) oid of
               Some ex \<Rightarrow> ex\<lparr>oo_symbol := sym', oo_status := status,
                    oo_venue_id := (if opt_truthy venue then venue else oo_venue_id ex),
                    oo_quantity := quantity, oo_filled := filled, oo_remaining := remaining,
                    oo_side := (if side \<noteq> None then side else oo_side ex), oo_updated_at := now,
                    oo_residual := (status \<in> set OPEN_STATUSES),
                    oo_metadata := fold (\<lambda>(k, v). dset k v) metadata (oo_metadata ex)\<rparr>
             | None \<Rightarrow> \<lparr>oo_internal_id = oid, oo_symbol = sym', oo_status = status, oo_venue_id = venue,
                    oo_filled = filled, oo_remaining = remaining, oo_quantity = quantity, oo_side = side,
                    oo_registered_at = now, oo_updated_at = now, oo_kc_state = None, oo_reason = None,
                    oo_residual = (status \<in> set OPEN_STATUSES), oo_metadata = metadata\<rparr>)
        in Inr (r, persist (rg\<lparr>rg_orders := dset oid r (rg_orders rg)\<rparr>)))"

definition update_status ::
  "string \<Rightarrow> string \<Rightarrow> string \<Rightarrow> string option \<Rightarrow> pyfloat option \<Rightarrow> pyfloat option \<Rightarrow> string option
   \<Rightarrow> string option \<Rightarrow> bool \<Rightarrow> registry \<Rightarrow> order_record option \<times> registry" where
  "update_status now oid status venue filled remaining kc_state reason confirmed_terminal rg =
     (case dget (rg_orders rg) oid of
        None \<Rightarrow> (None, rg)
      | Some r0 \<Rightarrow>
        let r1 = r0\<lparr>oo_status := status, oo_updated_at := now,
                    oo_venue_id := (if opt_truthy venue then venue else oo_venue_id r0),
                    oo_filled := (case filled of None \<Rightarrow> oo_filled r0 | Some x \<Rightarrow> x),
                    oo_remaining := (case remaining of None \<Rightarrow> oo_remaining r0 | Some x \<Rightarrow> x),
                    oo_kc_state := (if kc_state \<noteq> None then kc_state else oo_kc_state r0),
                    oo_reason := (if reason \<noteq> None then reason else oo_reason r0)\<rparr>
        in if confirmed_terminal \<and> status \<in> set TERMINAL_STATUSES
           then (Some (r1\<lparr>oo_residual := False\<rparr>), persist (rg\<lparr>rg_orders := ddel oid (rg_orders rg)\<rparr>))
           else let r = (if status \<in> set OPEN_STATUSES then r1\<lparr>oo_residual := True\<rparr> else r1)
                in (Some r, persist (rg\<lparr>rg_orders := dset oid r (rg_orders rg)\<rparr>)))"

definition mark_cancel_outcome ::
  "string \<Rightarrow> string \<Rightarrow> string \<Rightarrow> string \<Rightarrow> string option \<Rightarrow> bool \<Rightarrow> registry \<Rightarrow> order_record option \<times> registry" where
  "mark_cancel_outcome now oid kc_state reason terminal_status confirmed rg =
     (if \<not> confirmed then
        (case dget (rg_orders rg) oid of
           None \<Rightarrow> (None, rg)
         | Some r0 \<Rightarrow>
           let r = r0\<lparr>oo_kc_state := Some kc_state, oo_reason := Some reason, oo_updated_at := now, oo_residual := True\<rparr>
           in (Some r, persist (rg\<lparr>rg_orders := dset oid r (rg_orders rg)\<rparr>)))
      else update_status now oid (opt_or terminal_status ''CANCELLED'') None None None (Some kc_state) (Some reason) True rg)"

definition get_order :: "string \<Rightarrow> registry \<Rightarrow> order_record option" where
  "get_order oid rg = dget (rg_orders rg) oid"

definition order_key :: "order_record \<Rightarrow> string \<times> string" where
  "order_key r = (oo_symbol r, oo_internal_id r)"

definition list_open :: "registry \<Rightarrow> order_record list" where
  "list_open rg = sort_key order_key (filter is_open (map snd (rg_orders rg)))"

definition list_all :: "registry \<Rightarrow> order_record list" where
  "list_all rg = sort_key order_key (map snd (rg_orders rg))"

definition count_open :: "registry \<Rightarrow> nat" where
  "count_open rg = length (list_open rg)"

definition clear_step :: "string \<Rightarrow> (string, order_record) pydict \<Rightarrow> (string, order_record) pydict" where
  "clear_step oid d = (case dget d oid of Some r \<Rightarrow> if \<not> oo_residual r then ddel oid d else d | None \<Rightarrow> d)"

definition clear_confirmed_only :: "string list \<Rightarrow> registry \<Rightarrow> registry" where
  "clear_confirmed_only oids rg = persist (rg\<lparr>rg_orders := fold clear_step oids (rg_orders rg)\<rparr>)"

subsection \<open>Restart\<close>

text \<open>The orders read before the first entry that raises stay in the dictionary.\<close>

fun load_entries :: "ledger_entry list \<Rightarrow> (string, order_record) pydict \<Rightarrow> py_exc option \<times> (string, order_record) pydict" where
  "load_entries [] d = (None, d)"
| "load_entries (item # items) d =
     (case record_of_entry item of
        Inl e \<Rightarrow> (Some e, d)
      | Inr r \<Rightarrow> if oo_residual r \<or> oo_status r \<in> set OPEN_STATUSES
                 then load_entries items (dset (oo_internal_id r) (r\<lparr>oo_residual := True\<rparr>) d)
                 else load_entries items d)"

definition load_from_ledger :: "registry \<Rightarrow> (py_exc + nat) \<times> registry" where
  "load_from_ledger rg =
     (if \<not> rg_has_path rg then (Inr 0, rg)
      else case rg_ledger rg of
        LedgerMissing \<Rightarrow> (Inr 0, rg)
      | LedgerUnreadable \<Rightarrow> (Inl OSError, rg)
      | LedgerNotJson \<Rightarrow> (Inl (ValueError ''JSONDecodeError''), rg)
      | LedgerList items \<Rightarrow> (Inl AttributeError, rg) \<comment> \<open>a list has no \<open>get\<close>\<close>
      | LedgerObject orders \<Rightarrow>
          case load_entries (case orders of None \<Rightarrow> [] | Some items \<Rightarrow> items) [] of
            (Some e, d) \<Rightarrow> (Inl e, rg\<lparr>rg_orders := d\<rparr>)
          | (None, d) \<Rightarrow> (Inr (length d), rg\<lparr>rg_orders := d\<rparr>))"

definition new_registry :: "bool \<Rightarrow> ledger_file \<Rightarrow> bool list \<Rightarrow> py_exc + registry" where
  "new_registry has_path f faults =
     (case load_from_ledger \<lparr>rg_orders = [], rg_has_path = has_path, rg_ledger = f, rg_faults = faults\<rparr> of
        (Inl e, rg) \<Rightarrow> Inl e
      | (Inr n, rg) \<Rightarrow> Inr rg)"


subsection \<open>What every operation keeps\<close>

lemma rg_orders_persist [simp]: "rg_orders (persist rg) = rg_orders rg"
  by (auto simp: persist_def split: list.splits bool.splits)

lemma rg_has_path_persist [simp]: "rg_has_path (persist rg) = rg_has_path rg"
  by (auto simp: persist_def split: list.splits bool.splits)

text \<open>Every order is stored once, under its own identifier.\<close>

definition registry_wf :: "registry \<Rightarrow> bool" where
  "registry_wf rg \<longleftrightarrow> distinct (map fst (rg_orders rg))
     \<and> (\<forall>i r. dget (rg_orders rg) i = Some r \<longrightarrow> oo_internal_id r = i)"

lemma registry_wfI:
  "distinct (map fst d) \<Longrightarrow> (\<And>i r. dget d i = Some r \<Longrightarrow> oo_internal_id r = i) \<Longrightarrow> rg_orders rg = d \<Longrightarrow> registry_wf rg"
  by (simp add: registry_wf_def)

lemma registry_wf_dset:
  "registry_wf rg \<Longrightarrow> oo_internal_id r = i \<Longrightarrow> registry_wf (persist (rg\<lparr>rg_orders := dset i r (rg_orders rg)\<rparr>))"
  by (auto simp: registry_wf_def)

lemma registry_wf_ddel:
  "registry_wf rg \<Longrightarrow> registry_wf (persist (rg\<lparr>rg_orders := ddel i (rg_orders rg)\<rparr>))"
  by (auto simp: registry_wf_def)

lemma register_wf:
  assumes "registry_wf rg"
    "register now oid sy st ve qu fi re sd md rg = Inr (r, rg')"
  shows "registry_wf rg'"
proof -
  have "oo_internal_id r = oid \<and> rg' = persist (rg\<lparr>rg_orders := dset oid r (rg_orders rg)\<rparr>)"
  proof (cases "dget (rg_orders rg) oid")
    case None
    with assms(2) show ?thesis by (simp add: register_def Let_def split: if_splits) auto
  next
    case (Some ex)
    then have "oo_internal_id ex = oid" using assms(1) by (simp add: registry_wf_def)
    with Some assms(2) show ?thesis by (simp add: register_def Let_def split: if_splits) auto
  qed
  with registry_wf_dset[OF assms(1)] show ?thesis by blast
qed

lemma update_status_wf:
  "registry_wf rg \<Longrightarrow> registry_wf (snd (update_status now oid st ve fi re kc rc ct rg))"
proof (cases "dget (rg_orders rg) oid")
  case None
  assume "registry_wf rg"
  with None show ?thesis by (simp add: update_status_def)
next
  case (Some r)
  assume wf: "registry_wf rg"
  with Some have "oo_internal_id r = oid" by (simp add: registry_wf_def)
  with Some show ?thesis
    by (simp add: update_status_def Let_def registry_wf_dset[OF wf] registry_wf_ddel[OF wf])
qed

lemma mark_cancel_outcome_wf:
  "registry_wf rg \<Longrightarrow> registry_wf (snd (mark_cancel_outcome now oid kc rc ts cf rg))"
proof (cases "cf \<or> dget (rg_orders rg) oid = None")
  case True
  assume "registry_wf rg"
  with True show ?thesis
    by (cases cf) (simp_all add: mark_cancel_outcome_def update_status_wf)
next
  case False
  assume wf: "registry_wf rg"
  from False obtain r where r: "\<not> cf" "dget (rg_orders rg) oid = Some r" by auto
  with wf have "oo_internal_id r = oid" by (simp add: registry_wf_def)
  with r show ?thesis
    by (simp add: mark_cancel_outcome_def Let_def registry_wf_dset[OF wf])
qed

lemma fold_clear_wf:
  "distinct (map fst d) \<Longrightarrow> distinct (map fst (fold clear_step oids d))
   \<and> (dget (fold clear_step oids d) i = Some r \<longrightarrow> dget d i = Some r)"
proof (induction oids arbitrary: d)
  case (Cons a oids)
  have "distinct (map fst (clear_step a d))"
    using Cons.prems by (auto simp: clear_step_def split: option.splits)
  from Cons.IH[OF this] show ?case
    by (auto simp: clear_step_def split: option.splits if_splits)
qed simp

lemma clear_confirmed_only_wf: "registry_wf rg \<Longrightarrow> registry_wf (clear_confirmed_only oids rg)"
proof -
  assume wf: "registry_wf rg"
  then have d: "distinct (map fst (rg_orders rg))" by (simp add: registry_wf_def)
  have "distinct (map fst (fold clear_step oids (rg_orders rg)))"
    using fold_clear_wf[OF d] by blast
  moreover have "oo_internal_id r = i" if "dget (fold clear_step oids (rg_orders rg)) i = Some r" for i r
  proof -
    have "dget (rg_orders rg) i = Some r" using fold_clear_wf[OF d] that by blast
    with wf show ?thesis by (simp add: registry_wf_def)
  qed
  ultimately show ?thesis by (simp add: clear_confirmed_only_def registry_wf_def)
qed

lemma list_open_set:
  assumes "registry_wf rg"
  shows "r \<in> set (list_open rg) \<longleftrightarrow> dget (rg_orders rg) (oo_internal_id r) = Some r \<and> is_open r"
proof -
  have d: "distinct (map fst (rg_orders rg))" using assms by (simp add: registry_wf_def)
  have "r \<in> set (map snd (rg_orders rg)) \<longleftrightarrow> dget (rg_orders rg) (oo_internal_id r) = Some r"
  proof
    assume "r \<in> set (map snd (rg_orders rg))"
    then obtain k where "(k, r) \<in> set (rg_orders rg)" by auto
    then have "dget (rg_orders rg) k = Some r" using d by (simp add: map_of_eq_Some_iff)
    with assms show "dget (rg_orders rg) (oo_internal_id r) = Some r" by (auto simp: registry_wf_def)
  qed (force dest: map_of_SomeD)
  then show ?thesis by (auto simp: list_open_def)
qed

lemma list_open_distinct: "registry_wf rg \<Longrightarrow> distinct (map oo_internal_id (list_open rg))"
proof -
  assume wf: "registry_wf rg"
  have d: "distinct (map fst (rg_orders rg))" using wf by (simp add: registry_wf_def)
  have eq: "map oo_internal_id (map snd (rg_orders rg)) = map fst (rg_orders rg)"
  proof (unfold map_map, rule map_cong)
    fix x assume "x \<in> set (rg_orders rg)"
    then have "dget (rg_orders rg) (fst x) = Some (snd x)" using d by (simp add: map_of_eq_Some_iff)
    with wf show "(oo_internal_id \<circ> snd) x = fst x" by (auto simp: registry_wf_def)
  qed simp
  from d have "distinct (map oo_internal_id (map snd (rg_orders rg)))" by (simp only: eq)
  then have "distinct (map oo_internal_id (filter is_open (map snd (rg_orders rg))))" by (rule distinct_map_filter)
  moreover have "mset (map oo_internal_id (list_open rg)) = mset (map oo_internal_id (filter is_open (map snd (rg_orders rg))))"
    by (simp add: list_open_def)
  ultimately show ?thesis by (metis mset_eq_imp_distinct_iff)
qed

subsection \<open>What an operation does to one order\<close>

lemma update_status_dget:
  "dget (rg_orders (snd (update_status now oid st ve fi re kc rc ct rg))) i =
     (if i = oid \<and> dget (rg_orders rg) oid \<noteq> None
      then (if ct \<and> st \<in> set TERMINAL_STATUSES then None else fst (update_status now oid st ve fi re kc rc ct rg))
      else dget (rg_orders rg) i)"
  by (auto simp: update_status_def Let_def split: option.splits)

lemma mark_cancel_outcome_dget:
  "dget (rg_orders (snd (mark_cancel_outcome now oid kc rc ts cf rg))) i =
     (if i = oid \<and> dget (rg_orders rg) oid \<noteq> None
      then (if cf \<and> opt_or ts ''CANCELLED'' \<in> set TERMINAL_STATUSES then None
            else fst (mark_cancel_outcome now oid kc rc ts cf rg))
      else dget (rg_orders rg) i)"
  by (auto simp: mark_cancel_outcome_def update_status_dget Let_def split: option.splits)

lemma mark_unconfirmed_residual:
  "dget (rg_orders rg) oid = Some r \<Longrightarrow>
     fst (mark_cancel_outcome now oid kc rc ts False rg)
       = Some (r\<lparr>oo_kc_state := Some kc, oo_reason := Some rc, oo_updated_at := now, oo_residual := True\<rparr>)"
  by (simp add: mark_cancel_outcome_def Let_def)

subsection \<open>Restart\<close>

lemma field_get_opt_field [simp]: "field_get (opt_field x) = x"
  by (cases x) (simp_all add: opt_field_def)

lemma field_text_Val [simp]: "field_text (Val s) = s"
  by (simp add: field_text_def opt_or_def)

lemma record_of_entry_of [simp]: "record_of_entry (entry_of r) = Inr r"
  by (simp add: record_of_entry_def entry_of_def)

definition surviving :: "order_record \<Rightarrow> bool" where
  "surviving r \<longleftrightarrow> oo_residual r \<or> oo_status r \<in> set OPEN_STATUSES"

lemma load_entries_written:
  assumes "distinct (map fst (acc @ d))" "\<And>i r. (i, r) \<in> set d \<Longrightarrow> oo_internal_id r = i"
  shows "load_entries (map (entry_of \<circ> snd) d) acc
    = (None, acc @ map (\<lambda>(i, r). (i, r\<lparr>oo_residual := True\<rparr>)) (filter (surviving \<circ> snd) d))"
  using assms
proof (induction d arbitrary: acc)
  case (Cons x d)
  obtain i r where x: "x = (i, r)" by (rule prod.exhaust)
  have i: "oo_internal_id r = i" using Cons.prems(2) x by simp
  have new: "dget acc i = None" using Cons.prems(1) x by (auto simp: map_of_eq_None_iff)
  have rest: "distinct (map fst (acc @ d))" using Cons.prems(1) by simp
  have own: "oo_internal_id r' = i'" if "(i', r') \<in> set d" for i' r'
    using Cons.prems(2) that by (meson list.set_intros(2))
  have new': "distinct (map fst ((acc @ [(i, r')]) @ d))" for r' using Cons.prems(1) x by auto
  have step: "load_entries (map (entry_of \<circ> snd) d) (acc @ [(i, r\<lparr>oo_residual := True\<rparr>)])
      = (None, (acc @ [(i, r\<lparr>oo_residual := True\<rparr>)]) @ map (\<lambda>(i, r). (i, r\<lparr>oo_residual := True\<rparr>)) (filter (surviving \<circ> snd) d))"
    by (rule Cons.IH[OF new' own])
  have skip: "load_entries (map (entry_of \<circ> snd) d) acc
      = (None, acc @ map (\<lambda>(i, r). (i, r\<lparr>oo_residual := True\<rparr>)) (filter (surviving \<circ> snd) d))"
    by (rule Cons.IH[OF rest own])
  show ?case
  proof (cases "surviving r")
    case True
    then show ?thesis using step by (simp add: x i dset_new[OF new] surviving_def comp_def)
  next
    case False
    then show ?thesis using skip by (simp add: x surviving_def comp_def)
  qed
qed simp

lemma restart_restores:
  assumes "registry_wf rg" "rg_has_path rg" "rg_faults rg = []"
  obtains rg' where "new_registry True (rg_ledger (persist rg)) [] = Inr rg'"
    "rg_orders rg' = map (\<lambda>(i, r). (i, r\<lparr>oo_residual := True\<rparr>)) (filter (surviving \<circ> snd) (rg_orders rg))"
proof -
  have f: "rg_ledger (persist rg) = LedgerObject (Some (map (entry_of \<circ> snd) (rg_orders rg)))"
    using assms by (simp add: persist_def)
  have "load_entries (map (entry_of \<circ> snd) (rg_orders rg)) []
      = (None, [] @ map (\<lambda>(i, r). (i, r\<lparr>oo_residual := True\<rparr>)) (filter (surviving \<circ> snd) (rg_orders rg)))"
    using assms(1) by (intro load_entries_written) (auto simp: registry_wf_def map_of_eq_Some_iff)
  then have "new_registry True (rg_ledger (persist rg)) []
      = Inr \<lparr>rg_orders = map (\<lambda>(i, r). (i, r\<lparr>oo_residual := True\<rparr>)) (filter (surviving \<circ> snd) (rg_orders rg)),
             rg_has_path = True, rg_ledger = LedgerObject (Some (map (entry_of \<circ> snd) (rg_orders rg))), rg_faults = []\<rparr>"
    unfolding f by (simp add: new_registry_def load_from_ledger_def)
  then show ?thesis by (rule that) simp
qed


subsection \<open>Runs of operations\<close>

text \<open>The calls a client makes, with the clock reading they take.\<close>

datatype rg_op =
    Register string string string string "string option" pyfloat pyfloat "pyfloat option" "string option" "(string \<times> json) list"
  | UpdateStatus string string string "string option" "pyfloat option" "pyfloat option" "string option" "string option" bool
  | MarkCancel string string string string "string option" bool
  | ClearConfirmed "string list"

fun apply_op :: "rg_op \<Rightarrow> registry \<Rightarrow> registry" where
  "apply_op (Register now oid sy st ve qu fi re sd md) rg =
     (case register now oid sy st ve qu fi re sd md rg of Inl e \<Rightarrow> rg | Inr (r, rg') \<Rightarrow> rg')"
| "apply_op (UpdateStatus now oid st ve fi re kc rc ct) rg = snd (update_status now oid st ve fi re kc rc ct rg)"
| "apply_op (MarkCancel now oid kc rc ts cf) rg = snd (mark_cancel_outcome now oid kc rc ts cf rg)"
| "apply_op (ClearConfirmed oids) rg = clear_confirmed_only oids rg"

fun closes :: "rg_op \<Rightarrow> string \<Rightarrow> bool" where
  "closes (Register now oid sy st ve qu fi re sd md) i \<longleftrightarrow> oid = i \<and> st \<notin> set OPEN_STATUSES"
| "closes (UpdateStatus now oid st ve fi re kc rc ct) i \<longleftrightarrow> oid = i \<and> ct \<and> st \<in> set TERMINAL_STATUSES"
| "closes (MarkCancel now oid kc rc ts cf) i \<longleftrightarrow> oid = i \<and> cf \<and> opt_or ts ''CANCELLED'' \<in> set TERMINAL_STATUSES"
| "closes (ClearConfirmed oids) i \<longleftrightarrow> False"

definition tracked :: "string \<Rightarrow> registry \<Rightarrow> bool" where
  "tracked i rg \<longleftrightarrow> (\<exists>r. dget (rg_orders rg) i = Some r \<and> oo_residual r)"

lemma fold_clear_keeps:
  "dget d i = Some r \<Longrightarrow> oo_residual r \<Longrightarrow> dget (fold clear_step oids d) i = Some r"
proof (induction oids arbitrary: d)
  case (Cons a oids)
  then have "dget (clear_step a d) i = Some r"
    by (cases "dget d a") (auto simp: clear_step_def)
  with Cons show ?case by simp
qed simp

lemma apply_op_tracked:
  assumes "tracked i rg" "\<not> closes op i"
  shows "tracked i (apply_op op rg)"
proof -
  obtain r where r: "dget (rg_orders rg) i = Some r" "oo_residual r" using assms(1) by (auto simp: tracked_def)
  show ?thesis
  proof (cases op)
    case (Register now oid sy st ve qu fi re sd md)
    with r assms(2) show ?thesis
      by (cases "oid = []"; cases "oid = i"; cases "dget (rg_orders rg) oid")
        (simp_all add: register_def Let_def tracked_def)
  next
    case (UpdateStatus now oid st ve fi re kc rc ct)
    with r assms(2) show ?thesis
      by (cases "oid = i"; cases "dget (rg_orders rg) oid")
        (simp_all add: update_status_def Let_def tracked_def)
  next
    case (MarkCancel now oid kc rc ts cf)
    with r assms(2) show ?thesis
      by (cases cf; cases "oid = i"; cases "dget (rg_orders rg) oid")
        (simp_all add: mark_cancel_outcome_def update_status_def Let_def tracked_def)
  next
    case (ClearConfirmed oids)
    with fold_clear_keeps[OF r, of oids] r show ?thesis by (auto simp: clear_confirmed_only_def tracked_def)
  qed
qed

lemma fold_apply_op_tracked:
  "tracked i rg \<Longrightarrow> \<forall>op \<in> set ops. \<not> closes op i \<Longrightarrow> tracked i (fold apply_op ops rg)"
  by (induction ops arbitrary: rg) (simp_all add: apply_op_tracked)

text \<open>
  C36. An order that is registered as open stays in the registry, marked residual, through
  every sequence of operations none of which reports a confirmed terminal status of that very
  order (or registers it anew as not open): a failed cancel, an unknown status, a status update
  without confirmation or a clean-up never make it disappear.
\<close>

theorem open_order_never_lost:
  assumes "register now oid sy st ve qu fi re sd md rg0 = Inr (r, rg)" "st \<in> set OPEN_STATUSES"
    and "\<forall>op \<in> set ops. \<not> closes op oid"
  shows "\<exists>r'. get_order oid (fold apply_op ops rg) = Some r' \<and> oo_residual r'"
proof -
  have "tracked oid rg"
    using assms(1,2) by (cases "dget (rg_orders rg0) oid")
      (auto simp: register_def Let_def tracked_def split: if_splits)
  from fold_apply_op_tracked[OF this assms(3)] show ?thesis by (simp add: tracked_def get_order_def)
qed

definition sample_registry :: registry where
  "sample_registry = \<lparr>rg_orders = [], rg_has_path = True, rg_ledger = LedgerMissing, rg_faults = []\<rparr>"

theorem open_order_never_lost_witness:
  "\<exists>r rg r'. register ''t'' ''o1'' ''BTCUSDT'' ''PENDING'' None (fl_int 2) fl_zero None None [] sample_registry = Inr (r, rg)
     \<and> get_order ''o1'' (fold apply_op [UpdateStatus ''u'' ''o1'' ''FAILED'' None None None None None True,
          MarkCancel ''v'' ''o1'' ''CANCEL_ERROR'' ''CANCEL_EXECUTION_ERROR'' None False, ClearConfirmed [''o1'']] rg) = Some r'
     \<and> oo_residual r'"
proof -
  obtain r rg where r: "register ''t'' ''o1'' ''BTCUSDT'' ''PENDING'' None (fl_int 2) fl_zero None None [] sample_registry = Inr (r, rg)"
    by (simp add: register_def Let_def)
  have "\<forall>op \<in> set [UpdateStatus ''u'' ''o1'' ''FAILED'' None None None None None True,
      MarkCancel ''v'' ''o1'' ''CANCEL_ERROR'' ''CANCEL_EXECUTION_ERROR'' None False, ClearConfirmed [''o1'']]. \<not> closes op ''o1''"
    by (simp add: TERMINAL_STATUSES_def)
  from open_order_never_lost[OF r _ this] r show ?thesis by (auto simp: OPEN_STATUSES_def)
qed

subsection \<open>The ledger follows the registry\<close>

text \<open>An order with an open status is residual: the restart has nothing to correct.\<close>

definition registry_inv :: "registry \<Rightarrow> bool" where
  "registry_inv rg \<longleftrightarrow> registry_wf rg
     \<and> (\<forall>i r. dget (rg_orders rg) i = Some r \<longrightarrow> oo_status r \<in> set OPEN_STATUSES \<longrightarrow> oo_residual r)"

lemma apply_op_wf: "registry_wf rg \<Longrightarrow> registry_wf (apply_op op rg)"
  by (cases op) (auto simp: update_status_wf mark_cancel_outcome_wf clear_confirmed_only_wf
      split: sum.split dest: register_wf)

lemma apply_op_inv:
  assumes "registry_inv rg"
  shows "registry_inv (apply_op op rg)"
proof -
  have "oo_residual r" if "dget (rg_orders (apply_op op rg)) i = Some r" "oo_status r \<in> set OPEN_STATUSES" for i r
  proof -
    have old: "oo_residual r" if "dget (rg_orders rg) i = Some r" "oo_status r \<in> set OPEN_STATUSES" for i r
      using assms that by (simp add: registry_inv_def)
    show ?thesis
    proof (cases op)
      case (Register now oid sy st ve qu fi re sd md)
      with that old[of i r] show ?thesis
        by (cases "oid = []"; cases "oid = i"; cases "dget (rg_orders rg) oid")
          (auto simp: register_def Let_def)
    next
      case (UpdateStatus now oid st ve fi re kc rc ct)
      with that old[of i r] show ?thesis
        by (cases "oid = i"; cases "dget (rg_orders rg) oid")
          (auto simp: update_status_def Let_def split: if_splits)
    next
      case (MarkCancel now oid kc rc ts cf)
      with that old[of i r] show ?thesis
        by (cases cf; cases "oid = i"; cases "dget (rg_orders rg) oid")
          (auto simp: mark_cancel_outcome_def update_status_def Let_def split: if_splits)
    next
      case (ClearConfirmed oids)
      have "distinct (map fst (rg_orders rg))" using assms by (simp add: registry_inv_def registry_wf_def)
      from fold_clear_wf[OF this] that ClearConfirmed old[of i r] show ?thesis
        by (auto simp: clear_confirmed_only_def)
    qed
  qed
  with assms apply_op_wf show ?thesis by (simp add: registry_inv_def)
qed


lemma filter_open_restored:
  "(\<And>i r. (i, r) \<in> set d \<Longrightarrow> oo_status r \<in> set OPEN_STATUSES \<Longrightarrow> oo_residual r) \<Longrightarrow>
   filter is_open (map snd (map (\<lambda>(i, r). (i, r\<lparr>oo_residual := True\<rparr>)) (filter (surviving \<circ> snd) d)))
     = filter is_open (map snd d)"
proof (induction d)
  case (Cons x d)
  obtain i r where x: "x = (i, r)" by (rule prod.exhaust)
  have "r\<lparr>oo_residual := True\<rparr> = r" if "oo_residual r" using that by simp
  moreover have "oo_status r \<in> set OPEN_STATUSES \<Longrightarrow> oo_residual r" using Cons.prems[of i r] x by simp
  moreover have "filter is_open (map snd (map (\<lambda>(i, r). (i, r\<lparr>oo_residual := True\<rparr>)) (filter (surviving \<circ> snd) d)))
     = filter is_open (map snd d)"
    using Cons.prems by (intro Cons.IH) (meson list.set_intros(2))
  ultimately show ?case
    by (cases "oo_residual r") (auto simp: x comp_def is_open_def [of r] surviving_def [of r] is_open_def [of "r\<lparr>oo_residual := True\<rparr>"])
qed simp

definition reads_back :: "registry \<Rightarrow> bool" where
  "reads_back rg \<longleftrightarrow> rg_has_path rg \<and> rg_faults rg = []
     \<and> (\<exists>rg'. new_registry True (rg_ledger rg) [] = Inr rg' \<and> list_open rg' = list_open rg)"

lemma persist_reads_back:
  assumes "registry_inv rg" "rg_has_path rg" "rg_faults rg = []"
  shows "reads_back (persist rg)"
proof -
  obtain rg' where rg': "new_registry True (rg_ledger (persist rg)) [] = Inr rg'"
    "rg_orders rg' = map (\<lambda>(i, r). (i, r\<lparr>oo_residual := True\<rparr>)) (filter (surviving \<circ> snd) (rg_orders rg))"
    using restart_restores assms by (metis registry_inv_def)
  have "distinct (map fst (rg_orders rg))" using assms(1) by (simp add: registry_inv_def registry_wf_def)
  then have "oo_residual r" if "(i, r) \<in> set (rg_orders rg)" "oo_status r \<in> set OPEN_STATUSES" for i r
    using assms(1) that by (auto simp: registry_inv_def map_of_eq_Some_iff)
  then have "filter is_open (map snd (rg_orders rg')) = filter is_open (map snd (rg_orders rg))"
    unfolding rg'(2) by (rule filter_open_restored)
  then have "list_open rg' = list_open (persist rg)" by (simp add: list_open_def)
  moreover have "rg_faults (persist rg) = []" using assms by (simp add: persist_def)
  ultimately show ?thesis using rg'(1) assms(2) by (simp add: reads_back_def)
qed

text \<open>Every operation either leaves the registry alone or ends with a write.\<close>

lemma apply_op_persists:
  "apply_op op rg = rg \<or> (\<exists>d. apply_op op rg = persist (rg\<lparr>rg_orders := d\<rparr>))"
proof (cases op)
  case (Register now oid sy st ve qu fi re sd md)
  then show ?thesis by (cases "oid = []") (auto simp: register_def Let_def)
next
  case (UpdateStatus now oid st ve fi re kc rc ct)
  then show ?thesis by (cases "dget (rg_orders rg) oid") (auto simp: update_status_def Let_def)
next
  case (MarkCancel now oid kc rc ts cf)
  then show ?thesis by (cases "dget (rg_orders rg) oid") (auto simp: mark_cancel_outcome_def update_status_def Let_def)
next
  case (ClearConfirmed oids)
  then show ?thesis by (auto simp: clear_confirmed_only_def)
qed

lemma registry_inv_cong: "rg_orders rg = rg_orders rg' \<Longrightarrow> registry_inv rg = registry_inv rg'"
  by (simp add: registry_inv_def registry_wf_def)

lemma apply_op_reads_back:
  assumes "registry_inv rg" "reads_back rg"
  shows "reads_back (apply_op op rg)"
proof -
  consider "apply_op op rg = rg" | d where "apply_op op rg = persist (rg\<lparr>rg_orders := d\<rparr>)"
    using apply_op_persists by blast
  then show ?thesis
  proof cases
    case 1
    with assms show ?thesis by simp
  next
    case (2 d)
    have "registry_inv (apply_op op rg)" using assms(1) by (rule apply_op_inv)
    then have "registry_inv (rg\<lparr>rg_orders := d\<rparr>)" unfolding 2 using registry_inv_cong by (metis rg_orders_persist)
    with assms(2) show ?thesis unfolding 2 by (intro persist_reads_back) (simp_all add: reads_back_def)
  qed
qed

lemma fold_apply_op_reads_back:
  "registry_inv rg \<Longrightarrow> reads_back rg \<Longrightarrow> reads_back (fold apply_op ops rg)"
  by (induction ops arbitrary: rg) (simp_all add: apply_op_inv apply_op_reads_back)

lemma load_entries_inv:
  assumes "load_entries items d = (e, d')" "distinct (map fst d)"
    and "\<forall>i r. dget d i = Some r \<longrightarrow> oo_internal_id r = i \<and> oo_residual r"
  shows "distinct (map fst d') \<and> (\<forall>i r. dget d' i = Some r \<longrightarrow> oo_internal_id r = i \<and> oo_residual r)"
  using assms
proof (induction items arbitrary: d)
  case (Cons item items)
  show ?case
  proof (cases "record_of_entry item")
    case (Inl a)
    with Cons.prems show ?thesis by simp
  next
    case (Inr r)
    let ?d = "if oo_residual r \<or> oo_status r \<in> set OPEN_STATUSES
      then dset (oo_internal_id r) (r\<lparr>oo_residual := True\<rparr>) d else d"
    have "load_entries items ?d = (e, d')" using Cons.prems(1) Inr by (auto split: if_splits)
    moreover have "distinct (map fst ?d)" using Cons.prems(2) by simp
    moreover have "\<forall>i r. dget ?d i = Some r \<longrightarrow> oo_internal_id r = i \<and> oo_residual r"
      using Cons.prems(3) by simp
    ultimately show ?thesis by (rule Cons.IH)
  qed
qed simp

lemma new_registry_inv:
  assumes "new_registry p f fs = Inr rg"
  shows "registry_inv rg" "rg_has_path rg = p" "rg_ledger rg = f" "rg_faults rg = fs"
proof -
  let ?rg0 = "\<lparr>rg_orders = [], rg_has_path = p, rg_ledger = f, rg_faults = fs\<rparr>"
  obtain n where n: "load_from_ledger ?rg0 = (Inr n, rg)"
    using assms by (auto simp: new_registry_def split: prod.splits sum.splits)
  consider "rg = ?rg0" | items d where "load_entries items [] = (None, d)" "rg = ?rg0\<lparr>rg_orders := d\<rparr>"
    using n by (cases p; cases f) (auto simp: load_from_ledger_def split: prod.splits option.splits)
  then have "registry_inv rg \<and> rg_has_path rg = p \<and> rg_ledger rg = f \<and> rg_faults rg = fs"
  proof cases
    case 1
    then show ?thesis by (simp add: registry_inv_def registry_wf_def)
  next
    case (2 items d)
    from load_entries_inv[OF 2(1)] 2(2) show ?thesis by (simp add: registry_inv_def registry_wf_def)
  qed
  then show "registry_inv rg" "rg_has_path rg = p" "rg_ledger rg = f" "rg_faults rg = fs" by simp_all
qed

text \<open>
  C37. A crash between two operations loses no open order. Whatever a registry was loaded from and
  whatever calls were made on it, as long as the ledger could be written, a new process that
  loads the ledger has exactly the open orders, with all their fields, of the process that died.
\<close>

theorem registry_survives_restart:
  assumes "new_registry True f [] = Inr rg"
  shows "\<exists>rg'. new_registry True (rg_ledger (fold apply_op ops rg)) [] = Inr rg'
    \<and> list_open rg' = list_open (fold apply_op ops rg)"
proof -
  have "reads_back rg"
    using assms new_registry_inv[OF assms] by (auto simp: reads_back_def)
  from fold_apply_op_reads_back[OF new_registry_inv(1)[OF assms] this] show ?thesis
    by (auto simp: reads_back_def)
qed

theorem registry_survives_restart_witness:
  "\<exists>rg rg' r. new_registry True LedgerMissing [] = Inr rg
     \<and> new_registry True (rg_ledger (fold apply_op [Register ''t'' ''o1'' ''BTCUSDT'' ''PENDING'' None (fl_int 2) fl_zero None None []] rg)) [] = Inr rg'
     \<and> list_open rg' = [r] \<and> oo_internal_id r = ''o1''"
proof -
  have l: "new_registry True LedgerMissing [] = Inr sample_registry"
    by (simp add: new_registry_def load_from_ledger_def sample_registry_def)
  have "length (list_open (fold apply_op [Register ''t'' ''o1'' ''BTCUSDT'' ''PENDING'' None (fl_int 2) fl_zero None None []] sample_registry)) = 1
    \<and> oo_internal_id (hd (list_open (fold apply_op [Register ''t'' ''o1'' ''BTCUSDT'' ''PENDING'' None (fl_int 2) fl_zero None None []] sample_registry))) = ''o1''"
    by (simp add: register_def Let_def sample_registry_def list_open_def is_open_def OPEN_STATUSES_def)
  with registry_survives_restart[OF l, of "[Register ''t'' ''o1'' ''BTCUSDT'' ''PENDING'' None (fl_int 2) fl_zero None None []]"] l
  show ?thesis by (auto simp: length_Suc_conv)
qed

end
