(* ===== verification/KillCancel.thy ===== *)
theory KillCancel
  imports OpenOrders
begin

text \<open>
  Cancelling open orders when the kill switch is on: \<open>services/execution/kill_cancel.py\<close> with
  the cancel contract of \<open>core/contracts/external_adapter_contracts.py\<close>. The coordinator runs one
  reconciliation per kill event over the registry and an execution adapter; its supervisor is in
  \<open>KillSupervisor\<close>.

  An adapter is its methods over a state of its own; a call returns a value of the contract's type,
  some other value, or raises. Methods run under the coordinator's lock and are atomic. \<open>now\<close> is
  the clock text all readings within one call give; \<open>sha\<close> is the SHA-256 digest, \<open>uuid5\<close> the
  hexadecimal text of a name-based UUID. \<open>raw_status_redacted\<close> is free text that nothing
  reads.
\<close>

subsection \<open>Adapter contract\<close>

record cancel_request =
  cq_internal_id :: string
  cq_venue_id :: "string option"
  cq_symbol :: string
  cq_reason :: string
  cq_kill_event_id :: string
  cq_requested_at :: string

record cancel_response =
  cr_internal_id :: string
  cr_venue_id :: "string option"
  cr_accepted :: bool
  cr_confirmed :: bool
  cr_terminal :: "string option"
  cr_reason :: string
  cr_observed_at :: string

record order_snapshot =
  os_internal_id :: string
  os_venue_id :: "string option"
  os_symbol :: string
  os_status :: string
  os_filled :: pyfloat
  os_remaining :: pyfloat
  os_observed_at :: string

datatype 'r reply = Raises | OtherValue | Returns 'r

type_synonym 'a get_method = "'a \<Rightarrow> string \<Rightarrow> string option \<Rightarrow> order_snapshot reply \<times> 'a"
type_synonym 'a cancel_method = "'a \<Rightarrow> cancel_request \<Rightarrow> cancel_response reply \<times> 'a"

record 'a adapter =
  ad_supports_cancel :: "bool option"
  ad_cancel_order :: "'a cancel_method option"
  ad_get_open_order :: "'a get_method option"

subsection \<open>Constants\<close>

definition RC_KILL_CANCEL_PASS :: string where "RC_KILL_CANCEL_PASS = ''KILL_CANCEL_PASS''"
definition RC_KILL_CANCEL_HOLD :: string where "RC_KILL_CANCEL_HOLD = ''KILL_CANCEL_HOLD''"
definition RC_KILL_STATE_UNEVALUABLE :: string where "RC_KILL_STATE_UNEVALUABLE = ''KILL_STATE_UNEVALUABLE''"
definition RC_OPEN_ORDER_SOURCE_UNAVAILABLE :: string where "RC_OPEN_ORDER_SOURCE_UNAVAILABLE = ''OPEN_ORDER_SOURCE_UNAVAILABLE''"
definition RC_OPEN_ORDER_STATUS_UNKNOWN :: string where "RC_OPEN_ORDER_STATUS_UNKNOWN = ''OPEN_ORDER_STATUS_UNKNOWN''"
definition RC_CANCEL_ADAPTER_UNSUPPORTED :: string where "RC_CANCEL_ADAPTER_UNSUPPORTED = ''CANCEL_ADAPTER_UNSUPPORTED''"
definition RC_CANCEL_REQUEST_REJECTED :: string where "RC_CANCEL_REQUEST_REJECTED = ''CANCEL_REQUEST_REJECTED''"
definition RC_CANCEL_EXECUTION_ERROR :: string where "RC_CANCEL_EXECUTION_ERROR = ''CANCEL_EXECUTION_ERROR''"
definition RC_CANCEL_CONFIRMATION_MISSING :: string where "RC_CANCEL_CONFIRMATION_MISSING = ''CANCEL_CONFIRMATION_MISSING''"
definition RC_CANCEL_ALREADY_CONFIRMED :: string where "RC_CANCEL_ALREADY_CONFIRMED = ''CANCEL_ALREADY_CONFIRMED''"
definition RC_FILL_AFTER_KILL_ACTIVATION :: string where "RC_FILL_AFTER_KILL_ACTIVATION = ''FILL_AFTER_KILL_ACTIVATION''"
definition RC_RESIDUAL_OPEN_ORDERS :: string where "RC_RESIDUAL_OPEN_ORDERS = ''RESIDUAL_OPEN_ORDERS''"
definition RC_RESIDUAL_POSITION_UNKNOWN :: string where "RC_RESIDUAL_POSITION_UNKNOWN = ''RESIDUAL_POSITION_UNKNOWN''"

definition REQUIRED_REASON_CODES :: "string list" where
  "REQUIRED_REASON_CODES = [RC_KILL_CANCEL_PASS, RC_KILL_CANCEL_HOLD, RC_KILL_STATE_UNEVALUABLE,
     RC_OPEN_ORDER_SOURCE_UNAVAILABLE, RC_OPEN_ORDER_STATUS_UNKNOWN, RC_CANCEL_ADAPTER_UNSUPPORTED,
     RC_CANCEL_REQUEST_REJECTED, RC_CANCEL_EXECUTION_ERROR, RC_CANCEL_CONFIRMATION_MISSING,
     RC_CANCEL_ALREADY_CONFIRMED, RC_FILL_AFTER_KILL_ACTIVATION, RC_RESIDUAL_OPEN_ORDERS,
     RC_RESIDUAL_POSITION_UNKNOWN]"

definition EVIDENCE_SCHEMA_VERSION :: string where
  "EVIDENCE_SCHEMA_VERSION = ''cdb-kill-cancel-evidence/v1''"

datatype kc_order_state = DISCOVERED_OPEN | CANCEL_REQUESTED | CANCEL_CONFIRMED | ALREADY_TERMINAL
  | CANCEL_REJECTED | CANCEL_ERROR | STATUS_UNKNOWN | FILL_AFTER_KILL_VIOLATION

fun kc_state_value :: "kc_order_state \<Rightarrow> string" where
  "kc_state_value DISCOVERED_OPEN = ''DISCOVERED_OPEN''"
| "kc_state_value CANCEL_REQUESTED = ''CANCEL_REQUESTED''"
| "kc_state_value CANCEL_CONFIRMED = ''CANCEL_CONFIRMED''"
| "kc_state_value ALREADY_TERMINAL = ''ALREADY_TERMINAL''"
| "kc_state_value CANCEL_REJECTED = ''CANCEL_REJECTED''"
| "kc_state_value CANCEL_ERROR = ''CANCEL_ERROR''"
| "kc_state_value STATUS_UNKNOWN = ''STATUS_UNKNOWN''"
| "kc_state_value FILL_AFTER_KILL_VIOLATION = ''FILL_AFTER_KILL_VIOLATION''"

datatype kc_verdict = PASS | HOLD | FAIL

fun verdict_value :: "kc_verdict \<Rightarrow> string" where
  "verdict_value PASS = ''PASS''"
| "verdict_value HOLD = ''HOLD''"
| "verdict_value FAIL = ''FAIL''"

subsection \<open>Evidence\<close>

record order_evidence =
  pe_internal_id :: string
  pe_venue_id :: "string option"
  pe_symbol :: string
  pe_status_at_kill :: string
  pe_filled_at_kill :: pyfloat
  pe_remaining_at_kill :: pyfloat
  pe_attempts :: nat
  pe_requested_at :: "string option"
  pe_accepted :: "bool option"
  pe_confirmed :: bool
  pe_terminal :: "string option"
  pe_status_after :: "string option"
  pe_reason :: string
  pe_residual :: bool
  pe_position_effect :: string
  pe_state :: kc_order_state

record residual_order =
  ro_internal_id :: string
  ro_venue_id :: "string option"
  ro_symbol :: string
  ro_reason :: string
  ro_state :: kc_order_state

record residual_position =
  rp_symbol :: string
  rp_status :: string
  rp_quantity :: "pyfloat option"
  rp_reason :: string

record fill_event =
  fe_internal_id :: string
  fe_venue_id :: "string option"
  fe_symbol :: string
  fe_quantity :: pyfloat
  fe_observed_at :: string
  fe_reason :: string

record manifest =
  mf_schema_version :: string
  mf_run_id :: string
  mf_commit_sha :: string
  mf_kill_event_id :: string
  mf_kill_state :: string
  mf_kill_reason :: string
  mf_activated_at :: string
  mf_started_at :: string
  mf_completed_at :: string
  mf_source :: string
  mf_source_status :: string
  mf_discovered :: nat
  mf_attempts :: nat
  mf_confirmed :: nat
  mf_already_terminal :: nat
  mf_rejected :: nat
  mf_unknown :: nat
  mf_residual_orders :: "residual_order list"
  mf_residual_positions :: "residual_position list"
  mf_fill_events :: "fill_event list"
  mf_verdict :: kc_verdict
  mf_reason_codes :: "string list"
  mf_per_order :: "order_evidence list"

definition build_kill_event_id :: "(string \<Rightarrow> string) \<Rightarrow> string \<Rightarrow> string \<Rightarrow> string \<Rightarrow> string" where
  "build_kill_event_id sha kill_state kill_reason activated_at =
     ''kill_'' @ take 16 (sha (kill_state @ ''|'' @ kill_reason @ ''|'' @ activated_at))"

subsection \<open>One order\<close>

definition closed_states :: "kc_order_state list" where
  "closed_states = [CANCEL_CONFIRMED, ALREADY_TERMINAL]"

text \<open>The optional arguments in the order of \<open>_residual_evidence\<close>.\<close>

definition residual_evidence ::
  "string \<Rightarrow> order_record \<Rightarrow> kc_order_state \<Rightarrow> string \<Rightarrow> nat \<Rightarrow> bool option \<Rightarrow> bool \<Rightarrow> string option
   \<Rightarrow> string option \<Rightarrow> string option \<Rightarrow> registry \<Rightarrow> order_evidence \<times> registry" where
  "residual_evidence now r state reason attempts accepted confirmed terminal status_after requested_at rg =
     (\<lparr>pe_internal_id = oo_internal_id r, pe_venue_id = oo_venue_id r, pe_symbol = oo_symbol r,
       pe_status_at_kill = oo_status r, pe_filled_at_kill = oo_filled r, pe_remaining_at_kill = oo_remaining r,
       pe_attempts = attempts, pe_requested_at = requested_at, pe_accepted = accepted, pe_confirmed = confirmed,
       pe_terminal = terminal, pe_status_after = status_after, pe_reason = reason,
       pe_residual = (state \<notin> set closed_states), pe_position_effect = ''none'', pe_state = state\<rparr>,
      snd (mark_cancel_outcome now (oo_internal_id r) (kc_state_value state) reason terminal
             (confirmed \<and> state \<in> set closed_states) rg))"

definition read_snapshot :: "'a get_method option \<Rightarrow> 'a \<Rightarrow> string \<Rightarrow> string option \<Rightarrow> order_snapshot reply \<times> 'a" where
  "read_snapshot get_fn a oid venue = (case get_fn of None \<Rightarrow> (OtherValue, a) | Some g \<Rightarrow> g a oid venue)"

text \<open>The readback after a cancel: the status it leaves, the response it may confirm, and
  the terminal status that ends the attempt.\<close>

definition readback ::
  "'a get_method option \<Rightarrow> order_record \<Rightarrow> cancel_response \<Rightarrow> 'a
   \<Rightarrow> (string option \<times> cancel_response \<times> string option) \<times> 'a" where
  "readback get_fn r resp a =
     (case read_snapshot get_fn a (oo_internal_id r)
             (if opt_truthy (cr_venue_id resp) then cr_venue_id resp else oo_venue_id r) of
        (Returns snap, a') \<Rightarrow>
          if os_status snap = ''CANCELLED''
          then ((Some (os_status snap), resp\<lparr>cr_confirmed := True, cr_terminal := Some ''CANCELLED'',
                   cr_observed_at := os_observed_at snap\<rparr>, None), a')
          else if os_status snap \<in> {''FILLED'', ''REJECTED''} then ((Some (os_status snap), resp, Some (os_status snap)), a')
          else ((Some (os_status snap), resp, None), a')
      | (_, a') \<Rightarrow> ((cr_terminal resp, resp, None), a'))"

text \<open>Classification of a response that the readback did not end.\<close>

definition classify_response ::
  "string \<Rightarrow> order_record \<Rightarrow> cancel_response \<Rightarrow> string option \<Rightarrow> string list \<Rightarrow> registry
   \<Rightarrow> (order_evidence \<times> registry) \<times> string list" where
  "classify_response now r resp status_after confirmed_set rg =
     (if cr_confirmed resp \<and> cr_terminal resp = Some ''CANCELLED'' then
        (residual_evidence now r CANCEL_CONFIRMED RC_KILL_CANCEL_PASS 1 (Some (cr_accepted resp)) True (Some ''CANCELLED'')
           (Some (opt_or status_after ''CANCELLED'')) (Some now) rg,
         List.insert (oo_internal_id r) confirmed_set)
      else if cr_accepted resp \<and> \<not> cr_confirmed resp then
        (residual_evidence now r STATUS_UNKNOWN RC_CANCEL_CONFIRMATION_MISSING 1 (Some True) False (cr_terminal resp)
           status_after (Some now) rg, confirmed_set)
      else if \<not> cr_accepted resp then
        (let reason = str_or (cr_reason resp) RC_CANCEL_REQUEST_REJECTED in
         (residual_evidence now r CANCEL_REJECTED
            (if reason \<in> set REQUIRED_REASON_CODES then reason else RC_CANCEL_REQUEST_REJECTED)
            1 (Some False) False (cr_terminal resp) status_after (Some now) rg, confirmed_set))
      else
        (residual_evidence now r STATUS_UNKNOWN RC_OPEN_ORDER_STATUS_UNKNOWN 1 (Some (cr_accepted resp)) False None
           status_after (Some now) rg, confirmed_set))"

definition request_cancel ::
  "string \<Rightarrow> order_record \<Rightarrow> string \<Rightarrow> string list \<Rightarrow> 'a cancel_method \<Rightarrow> 'a get_method option \<Rightarrow> registry \<Rightarrow> 'a
   \<Rightarrow> ((order_evidence \<times> registry) \<times> string list) \<times> 'a" where
  "request_cancel now r kill_event_id confirmed_set cancel_fn get_fn rg a =
     (let rg1 = snd (update_status now (oo_internal_id r) (oo_status r) None None None
                       (Some (kc_state_value CANCEL_REQUESTED)) (Some ''KILL_SWITCH_CANCEL'') False rg)
      in case cancel_fn a \<lparr>cq_internal_id = oo_internal_id r, cq_venue_id = oo_venue_id r, cq_symbol = oo_symbol r,
               cq_reason = ''KILL_SWITCH_CANCEL'', cq_kill_event_id = kill_event_id, cq_requested_at = now\<rparr> of
        (Raises, a1) \<Rightarrow>
          ((residual_evidence now r CANCEL_ERROR RC_CANCEL_EXECUTION_ERROR 1 (Some False) False None
              (Some (oo_status r)) (Some now) rg1, confirmed_set), a1)
      | (OtherValue, a1) \<Rightarrow>
          ((residual_evidence now r STATUS_UNKNOWN RC_OPEN_ORDER_STATUS_UNKNOWN 1 None False None None (Some now) rg1,
            confirmed_set), a1)
      | (Returns resp, a1) \<Rightarrow>
          (case readback get_fn r resp a1 of
             ((status_after, resp', Some terminal), a2) \<Rightarrow>
               ((residual_evidence now r ALREADY_TERMINAL RC_CANCEL_ALREADY_CONFIRMED 1 (Some (cr_accepted resp)) True
                   (Some terminal) (Some terminal) (Some now) rg1, List.insert (oo_internal_id r) confirmed_set), a2)
           | ((status_after, resp', None), a2) \<Rightarrow>
               (classify_response now r resp' status_after confirmed_set rg1, a2)))"

definition cancel_one ::
  "string \<Rightarrow> order_record \<Rightarrow> string \<Rightarrow> string list \<Rightarrow> 'a cancel_method option \<Rightarrow> 'a get_method option \<Rightarrow> registry \<Rightarrow> 'a
   \<Rightarrow> ((order_evidence \<times> registry) \<times> string list) \<times> 'a" where
  "cancel_one now r kill_event_id confirmed_set cancel_fn get_fn rg a =
     (if oo_internal_id r \<in> set confirmed_set then
        ((residual_evidence now r ALREADY_TERMINAL RC_CANCEL_ALREADY_CONFIRMED 0 None True (Some ''CANCELLED'')
            (Some ''CANCELLED'') None rg, confirmed_set), a)
      else case read_snapshot get_fn a (oo_internal_id r) (oo_venue_id r) of (s, a1) \<Rightarrow>
        let terminal = (case s of Returns snap \<Rightarrow> if os_status snap \<in> set TERMINAL_STATUSES then Some (os_status snap) else None
                                | _ \<Rightarrow> None)
        in case terminal of
          Some t \<Rightarrow>
            ((residual_evidence now r ALREADY_TERMINAL RC_CANCEL_ALREADY_CONFIRMED 0 None True (Some t) (Some t) None rg,
              List.insert (oo_internal_id r) confirmed_set), a1)
        | None \<Rightarrow>
            case cancel_fn of
              None \<Rightarrow> ((residual_evidence now r STATUS_UNKNOWN RC_CANCEL_ADAPTER_UNSUPPORTED 0 None False None None None rg,
                         confirmed_set), a1)
            | Some cancel \<Rightarrow> request_cancel now r kill_event_id confirmed_set cancel get_fn rg a1)"


subsection \<open>The coordinator\<close>

record 'a coordinator =
  kc_registry :: registry
  kc_adapter_state :: 'a
  kc_confirmed :: "(string, string list) pydict"
  kc_fills :: "fill_event list"
  kc_last :: "manifest option"
  kc_event :: "string option"
  kc_activated_at :: "string option"

definition note_fill_after_kill ::
  "string \<Rightarrow> string \<Rightarrow> string option \<Rightarrow> string \<Rightarrow> pyfloat \<Rightarrow> 'a coordinator \<Rightarrow> 'a coordinator" where
  "note_fill_after_kill now oid venue symbol quantity c =
     (if \<not> opt_truthy (kc_event c) then c
      else c\<lparr>kc_fills := kc_fills c @ [\<lparr>fe_internal_id = oid, fe_venue_id = venue, fe_symbol = symbol,
               fe_quantity = quantity, fe_observed_at = now, fe_reason = RC_FILL_AFTER_KILL_ACTIVATION\<rparr>],
             kc_registry := snd (mark_cancel_outcome now oid (kc_state_value FILL_AFTER_KILL_VIOLATION)
               RC_FILL_AFTER_KILL_ACTIVATION None False (kc_registry c))\<rparr>)"

text \<open>The loop over the discovered orders, with support for cancelling and without.\<close>

fun cancel_all ::
  "string \<Rightarrow> string \<Rightarrow> 'a cancel_method option \<Rightarrow> 'a get_method option \<Rightarrow> order_record list \<Rightarrow> string list \<Rightarrow> registry \<Rightarrow> 'a
   \<Rightarrow> order_evidence list \<times> registry \<times> string list \<times> 'a" where
  "cancel_all now kill_event_id cancel_fn get_fn [] confirmed_set rg a = ([], rg, confirmed_set, a)"
| "cancel_all now kill_event_id cancel_fn get_fn (r # rs) confirmed_set rg a =
     (case cancel_one now r kill_event_id confirmed_set cancel_fn get_fn rg a of
        (((e, rg1), cs1), a1) \<Rightarrow>
          case cancel_all now kill_event_id cancel_fn get_fn rs cs1 rg1 a1 of
            (es, rg2, cs2, a2) \<Rightarrow> (e # es, rg2, cs2, a2))"

fun mark_unsupported :: "string \<Rightarrow> order_record list \<Rightarrow> registry \<Rightarrow> order_evidence list \<times> registry" where
  "mark_unsupported now [] rg = ([], rg)"
| "mark_unsupported now (r # rs) rg =
     (case residual_evidence now r STATUS_UNKNOWN RC_CANCEL_ADAPTER_UNSUPPORTED 0 None False None None None rg of
        (e, rg1) \<Rightarrow> case mark_unsupported now rs rg1 of (es, rg2) \<Rightarrow> (e # es, rg2))"

definition unknown_position :: residual_position where
  "unknown_position = \<lparr>rp_symbol = ''*'', rp_status = ''UNKNOWN'', rp_quantity = None, rp_reason = RC_RESIDUAL_POSITION_UNKNOWN\<rparr>"

text \<open>The resolver is absent, raises (\<open>Some None\<close>) or answers with a list.\<close>

type_synonym resolver = "residual_position list option option"

definition resolve_positions :: "resolver \<Rightarrow> residual_position list" where
  "resolve_positions res =
     (case res of
        None \<Rightarrow> [unknown_position]
      | Some None \<Rightarrow> [unknown_position]
      | Some (Some ps) \<Rightarrow> if ps = [] then [unknown_position] else ps)"

definition position_unknown :: "residual_position list \<Rightarrow> bool" where
  "position_unknown ps \<longleftrightarrow> (\<exists>p \<in> set ps. rp_status p = ''UNKNOWN'')"

definition verdict_of ::
  "residual_order list \<Rightarrow> residual_position list \<Rightarrow> fill_event list \<Rightarrow> string \<Rightarrow> nat \<Rightarrow> bool \<Rightarrow> kc_verdict" where
  "verdict_of residual_open positions fills source_status discovered supports =
     (if fills \<noteq> [] then FAIL
      else if source_status \<noteq> ''ok'' then HOLD
      else if residual_open \<noteq> [] then HOLD
      else if position_unknown positions then HOLD
      else if 0 < discovered \<and> \<not> supports then HOLD
      else PASS)"

definition residual_order_of :: "order_evidence \<Rightarrow> residual_order" where
  "residual_order_of e = \<lparr>ro_internal_id = pe_internal_id e, ro_venue_id = pe_venue_id e, ro_symbol = pe_symbol e,
     ro_reason = pe_reason e, ro_state = pe_state e\<rparr>"

definition supports_cancel :: "'a adapter option \<Rightarrow> bool" where
  "supports_cancel ad = (case ad of None \<Rightarrow> False
     | Some x \<Rightarrow> ad_supports_cancel x \<noteq> Some False \<and> ad_cancel_order x \<noteq> None)"

definition cancel_method :: "'a adapter option \<Rightarrow> 'a cancel_method option" where
  "cancel_method ad = Option.bind ad ad_cancel_order"

definition get_method :: "'a adapter option \<Rightarrow> 'a get_method option" where
  "get_method ad = Option.bind ad ad_get_open_order"

definition count_states :: "kc_order_state list \<Rightarrow> order_evidence list \<Rightarrow> nat" where
  "count_states states es = length (filter (\<lambda>e. pe_state e \<in> set states) es)"

definition collect_reasons ::
  "bool \<Rightarrow> bool \<Rightarrow> order_evidence list \<Rightarrow> bool \<Rightarrow> bool \<Rightarrow> bool \<Rightarrow> kc_verdict \<Rightarrow> string list" where
  "collect_reasons unevaluable unsupported es has_residual pos_unknown has_fills verdict =
     (let codes = dedup ((if unevaluable then [RC_KILL_STATE_UNEVALUABLE] else [])
            @ (if unsupported then [RC_CANCEL_ADAPTER_UNSUPPORTED]
               else map pe_reason (filter (\<lambda>e. pe_reason e \<noteq> RC_KILL_CANCEL_PASS) es))
            @ (if has_residual then [RC_RESIDUAL_OPEN_ORDERS] else [])
            @ (if pos_unknown then [RC_RESIDUAL_POSITION_UNKNOWN] else [])
            @ (if has_fills then [RC_FILL_AFTER_KILL_ACTIVATION] else [])
            @ (case verdict of PASS \<Rightarrow> [RC_KILL_CANCEL_PASS] | HOLD \<Rightarrow> [RC_KILL_CANCEL_HOLD] | FAIL \<Rightarrow> []))
      in if RC_RESIDUAL_POSITION_UNKNOWN \<in> set codes \<and> RC_KILL_CANCEL_PASS \<in> set codes
         then filter (\<lambda>c. c \<noteq> RC_KILL_CANCEL_PASS) codes else codes)"

definition UNEVALUABLE_REASONS :: "string list" where
  "UNEVALUABLE_REASONS = [''evaluation_error'', ''missing_state'', ''corrupt_state'', ''unreadable_state'']"

text \<open>\<open>list_open\<close> of this registry cannot raise, so the source is always available.\<close>

definition reconcile ::
  "(string \<Rightarrow> string) \<Rightarrow> (string \<Rightarrow> string) \<Rightarrow> string \<Rightarrow> 'a adapter option \<Rightarrow> resolver \<Rightarrow> string \<Rightarrow> string \<Rightarrow> string
   \<Rightarrow> string option \<Rightarrow> string option \<Rightarrow> string \<Rightarrow> 'a coordinator \<Rightarrow> manifest \<times> 'a coordinator" where
  "reconcile sha uuid5 commit_sha ad res now kill_state kill_reason kill_activated_at run_id source c =
     (let activated_at = opt_or kill_activated_at now;
          event = build_kill_event_id sha kill_state kill_reason activated_at;
          rid = opt_or run_id (take 8 (uuid5 (''kill-cancel:'' @ event @ '':'' @ now)));
          confirmed_set = (case dget (kc_confirmed c) event of None \<Rightarrow> [] | Some s \<Rightarrow> s);
          unevaluable = (kill_state \<in> {''unevaluable'', ''UNEVALUABLE''} \<or> kill_reason \<in> set UNEVALUABLE_REASONS);
          discovered = list_open (kc_registry c);
          unsupported = (discovered \<noteq> [] \<and> \<not> supports_cancel ad);
          (es, rg, cs, a) = (if unsupported
             then (case mark_unsupported now discovered (kc_registry c) of (es, rg) \<Rightarrow> (es, rg, confirmed_set, kc_adapter_state c))
             else cancel_all now event (if supports_cancel ad then cancel_method ad else None) (get_method ad)
                    discovered confirmed_set (kc_registry c) (kc_adapter_state c));
          residual = map residual_order_of (filter pe_residual es);
          positions = resolve_positions res;
          fills = kc_fills c;
          verdict = verdict_of residual positions fills ''ok'' (length discovered) (supports_cancel ad \<or> discovered = []);
          m = \<lparr>mf_schema_version = EVIDENCE_SCHEMA_VERSION, mf_run_id = rid, mf_commit_sha = commit_sha,
               mf_kill_event_id = event, mf_kill_state = kill_state, mf_kill_reason = kill_reason,
               mf_activated_at = activated_at, mf_started_at = now, mf_completed_at = now,
               mf_source = source, mf_source_status = ''ok'', mf_discovered = length discovered,
               mf_attempts = (\<Sum>e \<leftarrow> es. pe_attempts e),
               mf_confirmed = count_states [CANCEL_CONFIRMED] es,
               mf_already_terminal = count_states [ALREADY_TERMINAL] es,
               mf_rejected = count_states [CANCEL_REJECTED] es,
               mf_unknown = count_states [CANCEL_ERROR, STATUS_UNKNOWN] es,
               mf_residual_orders = residual, mf_residual_positions = positions, mf_fill_events = fills,
               mf_verdict = verdict,
               mf_reason_codes = collect_reasons unevaluable unsupported es (residual \<noteq> []) (position_unknown positions)
                                   (fills \<noteq> []) verdict,
               mf_per_order = es\<rparr>
      in (m, c\<lparr>kc_registry := rg, kc_adapter_state := a, kc_confirmed := dset event cs (kc_confirmed c),
               kc_last := Some m, kc_event := Some event, kc_activated_at := Some activated_at\<rparr>))"

subsection \<open>What one order's cancel does\<close>

lemma requested_dget:
  "dget (rg_orders (snd (update_status now oid st ve fi re kc rc False rg))) i
     = (if i = oid \<and> dget (rg_orders rg) oid \<noteq> None then fst (update_status now oid st ve fi re kc rc False rg)
        else dget (rg_orders rg) i)"
  by (auto simp: update_status_dget)

lemma update_status_present: "dget (rg_orders rg) oid \<noteq> None \<Longrightarrow> fst (update_status now oid st ve fi re kc rc ct rg) \<noteq> None"
  by (auto simp: update_status_def Let_def)

text \<open>A registry is touched at one order only: the order is gone when the evidence says that
  nothing is residual, and still tracked otherwise.\<close>

definition settled :: "order_evidence \<Rightarrow> string \<Rightarrow> registry \<Rightarrow> registry \<Rightarrow> bool" where
  "settled e i rg rg' \<longleftrightarrow> pe_internal_id e = i \<and> registry_wf rg' \<and> pe_attempts e \<le> 1
     \<and> pe_state e \<in> {CANCEL_CONFIRMED, ALREADY_TERMINAL, CANCEL_REJECTED, CANCEL_ERROR, STATUS_UNKNOWN}
     \<and> pe_residual e = (pe_state e \<notin> set closed_states)
     \<and> (\<forall>j. j \<noteq> i \<longrightarrow> dget (rg_orders rg') j = dget (rg_orders rg) j)
     \<and> (if pe_residual e then tracked i rg' else dget (rg_orders rg') i = None)"

lemma residual_evidence_settled:
  assumes "residual_evidence now r st rc n acc cf t sa rq rg = (e, rg')" "registry_wf rg"
    "dget (rg_orders rg) (oo_internal_id r) \<noteq> None" "n \<le> 1"
    "st \<in> {CANCEL_CONFIRMED, ALREADY_TERMINAL, CANCEL_REJECTED, CANCEL_ERROR, STATUS_UNKNOWN}"
    "st \<in> set closed_states \<longrightarrow> cf \<and> opt_or t ''CANCELLED'' \<in> set TERMINAL_STATUSES"
  shows "settled e (oo_internal_id r) rg rg'"
proof -
  obtain r0 where r0: "dget (rg_orders rg) (oo_internal_id r) = Some r0" using assms(3) by blast
  have rg': "rg' = snd (mark_cancel_outcome now (oo_internal_id r) (kc_state_value st) rc t (cf \<and> st \<in> set closed_states) rg)"
    and e: "pe_internal_id e = oo_internal_id r" "pe_attempts e = n" "pe_state e = st" "pe_residual e = (st \<notin> set closed_states)"
    using assms(1) by (auto simp: residual_evidence_def)
  have gone: "if pe_residual e then tracked (oo_internal_id r) rg' else dget (rg_orders rg') (oo_internal_id r) = None"
  proof (cases "st \<in> set closed_states")
    case True
    with assms(6) r0 show ?thesis unfolding rg' by (simp add: e mark_cancel_outcome_dget)
  next
    case False
    with r0 show ?thesis unfolding rg' by (simp add: e tracked_def mark_cancel_outcome_dget mark_unconfirmed_residual)
  qed
  have "registry_wf rg'" unfolding rg' by (rule mark_cancel_outcome_wf[OF assms(2)])
  moreover have "\<forall>j. j \<noteq> oo_internal_id r \<longrightarrow> dget (rg_orders rg') j = dget (rg_orders rg) j"
    unfolding rg' by (simp add: mark_cancel_outcome_dget)
  ultimately show ?thesis using gone assms(4,5) unfolding settled_def e by blast
qed

lemma settled_after_request:
  assumes "settled e oid (snd (update_status now oid st ve fi re kc rc False rg)) rg'"
  shows "settled e oid rg rg'"
  using assms by (simp add: settled_def update_status_dget)

lemma classify_response_settled:
  assumes "classify_response now r resp sa cs rg = ((e, rg'), cs')" "registry_wf rg"
    "dget (rg_orders rg) (oo_internal_id r) \<noteq> None"
  shows "settled e (oo_internal_id r) rg rg'"
proof -
  note settle = residual_evidence_settled[OF _ assms(2,3)]
  show ?thesis
  proof (cases "cr_confirmed resp \<and> cr_terminal resp = Some ''CANCELLED''")
    case True
    with assms(1) show ?thesis
      by (intro settle) (auto simp: classify_response_def opt_or_def TERMINAL_STATUSES_def)
  next
    case False
    then show ?thesis
    proof (cases "cr_accepted resp")
      case True
      from True False assms(1) show ?thesis
        by (cases "cr_confirmed resp")
          (auto simp: classify_response_def closed_states_def intro!: settle)
    next
      case unaccepted: False
      from unaccepted False assms(1) show ?thesis
        unfolding classify_response_def if_not_P[OF False]
        by (simp add: Let_def) (rule settle, auto simp: closed_states_def)
    qed
  qed
qed

lemma readback_terminal:
  "readback get_fn r resp a = ((sa, resp', Some t), a') \<Longrightarrow> t \<in> set TERMINAL_STATUSES"
  by (auto simp: readback_def TERMINAL_STATUSES_def split: prod.splits reply.splits if_splits)

lemma terminal_opt_or: "t \<in> set TERMINAL_STATUSES \<Longrightarrow> opt_or (Some t) d \<in> set TERMINAL_STATUSES"
  by (auto simp: opt_or_def TERMINAL_STATUSES_def)

lemma request_cancel_settled:
  assumes "request_cancel now r ev cs cf gf rg a = (((e, rg'), cs'), a')" "registry_wf rg"
    "dget (rg_orders rg) (oo_internal_id r) \<noteq> None"
  shows "settled e (oo_internal_id r) rg rg'"
proof -
  let ?rg1 = "snd (update_status now (oo_internal_id r) (oo_status r) None None None
    (Some (kc_state_value CANCEL_REQUESTED)) (Some ''KILL_SWITCH_CANCEL'') False rg)"
  let ?rq = "\<lparr>cq_internal_id = oo_internal_id r, cq_venue_id = oo_venue_id r, cq_symbol = oo_symbol r,
    cq_reason = ''KILL_SWITCH_CANCEL'', cq_kill_event_id = ev, cq_requested_at = now\<rparr>"
  have wf: "registry_wf ?rg1" by (rule update_status_wf[OF assms(2)])
  have here: "dget (rg_orders ?rg1) (oo_internal_id r) \<noteq> None"
    using assms(3) update_status_present[OF assms(3)] by (simp add: requested_dget)
  note settle = residual_evidence_settled[OF _ wf here]
  have "settled e (oo_internal_id r) ?rg1 rg'"
  proof -
    obtain rep a1 where c: "cf a ?rq = (rep, a1)" by (rule prod.exhaust)
    show ?thesis
    proof (cases rep)
      case Raises
      with assms(1) c show ?thesis by (intro settle) (auto simp: request_cancel_def Let_def closed_states_def)
    next
      case OtherValue
      with assms(1) c show ?thesis by (intro settle) (auto simp: request_cancel_def Let_def closed_states_def)
    next
      case (Returns resp)
      obtain sa resp' ot a2 where b: "readback gf r resp a1 = ((sa, resp', ot), a2)" by (metis prod.exhaust)
      show ?thesis
      proof (cases ot)
        case None
        with assms(1) c Returns b have "classify_response now r resp' sa cs ?rg1 = ((e, rg'), cs')"
          by (simp add: request_cancel_def Let_def)
        from classify_response_settled[OF this wf here] show ?thesis .
      next
        case (Some t)
        have "t \<in> set TERMINAL_STATUSES" by (rule readback_terminal[OF b[unfolded Some]])
        from terminal_opt_or[OF this] assms(1) c Returns b Some show ?thesis
          by (intro settle) (auto simp: request_cancel_def Let_def)
      qed
    qed
  qed
  then show ?thesis by (rule settled_after_request)
qed

lemma cancel_one_settled:
  assumes "cancel_one now r ev cs cf gf rg a = (((e, rg'), cs'), a')" "registry_wf rg"
    "dget (rg_orders rg) (oo_internal_id r) \<noteq> None"
  shows "settled e (oo_internal_id r) rg rg'"
proof (cases "oo_internal_id r \<in> set cs")
  case True
  with assms(1) show ?thesis
    by (intro residual_evidence_settled[OF _ assms(2,3)]) (auto simp: cancel_one_def opt_or_def TERMINAL_STATUSES_def)
next
  case False
  obtain s a1 where s: "read_snapshot gf a (oo_internal_id r) (oo_venue_id r) = (s, a1)" by (rule prod.exhaust)
  show ?thesis
  proof (cases "\<exists>snap. s = Returns snap \<and> os_status snap \<in> set TERMINAL_STATUSES")
    case True
    then obtain snap where "s = Returns snap" "os_status snap \<in> set TERMINAL_STATUSES" by blast
    with terminal_opt_or[OF this(2)] False s assms(1) show ?thesis
      by (intro residual_evidence_settled[OF _ assms(2,3)]) (auto simp: cancel_one_def Let_def)
  next
    case nt: False
    then have t: "(case s of Returns snap \<Rightarrow> if os_status snap \<in> set TERMINAL_STATUSES then Some (os_status snap) else None | _ \<Rightarrow> None) = None"
      by (auto split: reply.splits)
    show ?thesis
    proof (cases cf)
      case None
      with False s t assms(1) show ?thesis
        by (intro residual_evidence_settled[OF _ assms(2,3)]) (auto simp: cancel_one_def Let_def closed_states_def)
    next
      case (Some cancel)
      with False s t assms(1) have "request_cancel now r ev cs cancel gf rg a1 = (((e, rg'), cs'), a')"
        by (simp add: cancel_one_def Let_def)
      from request_cancel_settled[OF this assms(2,3)] show ?thesis .
    qed
  qed
qed


subsection \<open>The batch\<close>

definition batch_settled :: "order_evidence list \<Rightarrow> string list \<Rightarrow> registry \<Rightarrow> registry \<Rightarrow> bool" where
  "batch_settled es ids rg rg' \<longleftrightarrow> map pe_internal_id es = ids \<and> registry_wf rg'
     \<and> (\<forall>j. j \<notin> set ids \<longrightarrow> dget (rg_orders rg') j = dget (rg_orders rg) j)
     \<and> (\<forall>e \<in> set es. pe_attempts e \<le> 1
          \<and> pe_state e \<in> {CANCEL_CONFIRMED, ALREADY_TERMINAL, CANCEL_REJECTED, CANCEL_ERROR, STATUS_UNKNOWN}
          \<and> pe_residual e = (pe_state e \<notin> set closed_states)
          \<and> (if pe_residual e then tracked (pe_internal_id e) rg' else dget (rg_orders rg') (pe_internal_id e) = None))"

lemma batch_settled_Nil: "registry_wf rg \<Longrightarrow> batch_settled [] [] rg rg"
  by (simp add: batch_settled_def)

lemma batch_settled_Cons:
  assumes "settled e i rg rg1" "batch_settled es ids rg1 rg2" "i \<notin> set ids"
  shows "batch_settled (e # es) (i # ids) rg rg2"
proof -
  have i: "pe_internal_id e = i" using assms(1) by (simp add: settled_def)
  have same: "dget (rg_orders rg2) i = dget (rg_orders rg1) i"
    using assms(2,3) by (simp add: batch_settled_def)
  have "if pe_residual e then tracked i rg2 else dget (rg_orders rg2) i = None"
    using assms(1) unfolding settled_def tracked_def same by blast
  moreover have "dget (rg_orders rg2) j = dget (rg_orders rg) j" if "j \<notin> set (i # ids)" for j
    using that assms(1,2) by (simp add: settled_def batch_settled_def)
  ultimately show ?thesis
    using assms(1,2) by (simp add: batch_settled_def settled_def i)
qed

lemma settled_rest_present:
  assumes "settled e (oo_internal_id r) rg rg1" "distinct (map oo_internal_id (r # rs))"
    "\<forall>r' \<in> set (r # rs). dget (rg_orders rg) (oo_internal_id r') \<noteq> None"
  shows "\<forall>r' \<in> set rs. dget (rg_orders rg1) (oo_internal_id r') \<noteq> None"
proof
  fix r' assume r': "r' \<in> set rs"
  then have "oo_internal_id r' \<in> set (map oo_internal_id rs)" by simp
  moreover have "oo_internal_id r \<notin> set (map oo_internal_id rs)" using assms(2) by simp
  ultimately have "oo_internal_id r' \<noteq> oo_internal_id r" by metis
  with assms(1,3) r' show "dget (rg_orders rg1) (oo_internal_id r') \<noteq> None" by (simp add: settled_def)
qed

lemma cancel_all_settled:
  assumes "cancel_all now ev cf gf rs cs rg a = (es, rg', cs', a')" "registry_wf rg"
    "distinct (map oo_internal_id rs)" "\<forall>r \<in> set rs. dget (rg_orders rg) (oo_internal_id r) \<noteq> None"
  shows "batch_settled es (map oo_internal_id rs) rg rg'"
  using assms
proof (induction rs arbitrary: cs rg a es cs' a' rg')
  case Nil
  then show ?case by (simp add: batch_settled_Nil)
next
  case (Cons r rs)
  obtain e rg1 cs1 a1 where one: "cancel_one now r ev cs cf gf rg a = (((e, rg1), cs1), a1)" by (metis prod.exhaust)
  obtain es' where rest: "cancel_all now ev cf gf rs cs1 rg1 a1 = (es', rg', cs', a')" and es: "es = e # es'"
    using Cons.prems(1) one by (auto split: prod.splits)
  have s: "settled e (oo_internal_id r) rg rg1"
    using cancel_one_settled[OF one Cons.prems(2)] Cons.prems(4) by simp
  from settled_rest_present[OF s Cons.prems(3,4)] s Cons.prems(3) have "batch_settled es' (map oo_internal_id rs) rg1 rg'"
    by (intro Cons.IH[OF rest]) (simp_all add: settled_def)
  with s Cons.prems(3) show ?case unfolding es list.map by (intro batch_settled_Cons) simp_all
qed

lemma mark_unsupported_settled:
  assumes "mark_unsupported now rs rg = (es, rg')" "registry_wf rg"
    "distinct (map oo_internal_id rs)" "\<forall>r \<in> set rs. dget (rg_orders rg) (oo_internal_id r) \<noteq> None"
  shows "batch_settled es (map oo_internal_id rs) rg rg'"
  using assms
proof (induction rs arbitrary: rg es rg')
  case Nil
  then show ?case by (simp add: batch_settled_Nil)
next
  case (Cons r rs)
  obtain e rg1 where one: "residual_evidence now r STATUS_UNKNOWN RC_CANCEL_ADAPTER_UNSUPPORTED 0 None False None None None rg = (e, rg1)"
    by (rule prod.exhaust)
  obtain es' where rest: "mark_unsupported now rs rg1 = (es', rg')" and es: "es = e # es'"
    using Cons.prems(1) one by (auto split: prod.splits)
  have s: "settled e (oo_internal_id r) rg rg1"
    using Cons.prems(2,4) by (intro residual_evidence_settled[OF one]) (simp_all add: closed_states_def)
  from settled_rest_present[OF s Cons.prems(3,4)] s Cons.prems(3) have "batch_settled es' (map oo_internal_id rs) rg1 rg'"
    by (intro Cons.IH[OF rest]) (simp_all add: settled_def)
  with s Cons.prems(3) show ?case unfolding es list.map by (intro batch_settled_Cons) simp_all
qed

text \<open>What a reconciliation reports and what it leaves, in one statement.\<close>

lemma reconcile_batch:
  assumes "reconcile sha uuid5 commit ad res now ks kr ka run src c = (m, c')" "registry_wf (kc_registry c)"
  shows "batch_settled (mf_per_order m) (map oo_internal_id (list_open (kc_registry c))) (kc_registry c) (kc_registry c')"
    and "mf_discovered m = length (list_open (kc_registry c))"
    and "mf_residual_orders m = map residual_order_of (filter pe_residual (mf_per_order m))"
    and "mf_residual_positions m = resolve_positions res" and "mf_fill_events m = kc_fills c"
    and "mf_verdict m = verdict_of (mf_residual_orders m) (mf_residual_positions m) (mf_fill_events m) ''ok''
           (mf_discovered m) (supports_cancel ad \<or> list_open (kc_registry c) = [])"
    and "mf_attempts m = (\<Sum>e \<leftarrow> mf_per_order m. pe_attempts e)"
    and "mf_confirmed m = count_states [CANCEL_CONFIRMED] (mf_per_order m)"
    and "mf_already_terminal m = count_states [ALREADY_TERMINAL] (mf_per_order m)"
    and "mf_rejected m = count_states [CANCEL_REJECTED] (mf_per_order m)"
    and "mf_unknown m = count_states [CANCEL_ERROR, STATUS_UNKNOWN] (mf_per_order m)"
    and "kc_last c' = Some m" "kc_event c' = Some (mf_kill_event_id m)" "kc_fills c' = kc_fills c"
    and "mf_kill_event_id m = build_kill_event_id sha ks kr (opt_or ka now)"
proof -
  let ?rs = "list_open (kc_registry c)"
  let ?ev = "build_kill_event_id sha ks kr (opt_or ka now)"
  let ?cs = "case dget (kc_confirmed c) ?ev of None \<Rightarrow> [] | Some s \<Rightarrow> s"
  have d: "distinct (map oo_internal_id ?rs)" by (rule list_open_distinct[OF assms(2)])
  have p: "\<forall>r \<in> set ?rs. dget (rg_orders (kc_registry c)) (oo_internal_id r) \<noteq> None"
    using list_open_set[OF assms(2)] by simp
  obtain es rg cs a where r: "(if ?rs \<noteq> [] \<and> \<not> supports_cancel ad
             then (case mark_unsupported now ?rs (kc_registry c) of (es, rg) \<Rightarrow> (es, rg, ?cs, kc_adapter_state c))
             else cancel_all now ?ev (if supports_cancel ad then cancel_method ad else None) (get_method ad)
                    ?rs ?cs (kc_registry c) (kc_adapter_state c)) = (es, rg, cs, a)"
    by (metis prod.exhaust)
  have b: "batch_settled es (map oo_internal_id ?rs) (kc_registry c) rg"
  proof (cases "?rs \<noteq> [] \<and> \<not> supports_cancel ad")
    case True
    with r have "mark_unsupported now ?rs (kc_registry c) = (es, rg)" by (auto split: prod.splits)
    from mark_unsupported_settled[OF this assms(2) d p] show ?thesis .
  next
    case False
    from r[unfolded if_not_P[OF False]] show ?thesis by (rule cancel_all_settled[OF _ assms(2) d p])
  qed
  note R = assms(1)[unfolded reconcile_def Let_def r prod.case]
  show "batch_settled (mf_per_order m) (map oo_internal_id ?rs) (kc_registry c) (kc_registry c')"
    using R b by auto
  show "mf_discovered m = length ?rs" "mf_residual_orders m = map residual_order_of (filter pe_residual (mf_per_order m))"
    "mf_residual_positions m = resolve_positions res" "mf_fill_events m = kc_fills c"
    "mf_verdict m = verdict_of (mf_residual_orders m) (mf_residual_positions m) (mf_fill_events m) ''ok''
           (mf_discovered m) (supports_cancel ad \<or> ?rs = [])"
    "mf_attempts m = (\<Sum>e \<leftarrow> mf_per_order m. pe_attempts e)"
    "mf_confirmed m = count_states [CANCEL_CONFIRMED] (mf_per_order m)"
    "mf_already_terminal m = count_states [ALREADY_TERMINAL] (mf_per_order m)"
    "mf_rejected m = count_states [CANCEL_REJECTED] (mf_per_order m)"
    "mf_unknown m = count_states [CANCEL_ERROR, STATUS_UNKNOWN] (mf_per_order m)"
    "kc_last c' = Some m" "kc_event c' = Some (mf_kill_event_id m)" "kc_fills c' = kc_fills c"
    "mf_kill_event_id m = ?ev"
    using R by auto
qed


subsection \<open>Reconciliation\<close>

lemma residual_ids:
  "ro_internal_id ` set (map residual_order_of (filter pe_residual es)) = pe_internal_id ` {e \<in> set es. pe_residual e}"
  by (auto simp: residual_order_of_def image_iff)

lemma reconcile_order:
  assumes "reconcile sha uuid5 commit ad res now ks kr ka run src c = (m, c')" "registry_wf (kc_registry c)"
    "r \<in> set (list_open (kc_registry c))"
  shows "if oo_internal_id r \<in> ro_internal_id ` set (mf_residual_orders m)
    then \<exists>r'. get_order (oo_internal_id r) (kc_registry c') = Some r' \<and> oo_residual r'
    else get_order (oo_internal_id r) (kc_registry c') = None"
proof -
  note R = reconcile_batch[OF assms(1,2)]
  let ?es = "mf_per_order m"
  have ids: "map pe_internal_id ?es = map oo_internal_id (list_open (kc_registry c))"
    using R(1) by (simp add: batch_settled_def)
  have "oo_internal_id r \<in> set (map pe_internal_id ?es)" unfolding ids using assms(3) by simp
  then obtain e where e: "e \<in> set ?es" "pe_internal_id e = oo_internal_id r" by auto
  have dist: "distinct (map pe_internal_id ?es)" unfolding ids by (rule list_open_distinct[OF assms(2)])
  then have inj: "inj_on pe_internal_id (set ?es)" by (simp only: distinct_map)
  have "pe_internal_id e \<in> pe_internal_id ` {x \<in> set ?es. pe_residual x} \<longleftrightarrow> pe_residual e"
  proof
    assume "pe_internal_id e \<in> pe_internal_id ` {x \<in> set ?es. pe_residual x}"
    then obtain x where "x \<in> set ?es" "pe_residual x" "pe_internal_id e = pe_internal_id x" by blast
    with inj_onD[OF inj this(3) e(1) this(1)] show "pe_residual e" by simp
  qed (use e(1) in blast)
  then have "oo_internal_id r \<in> ro_internal_id ` set (mf_residual_orders m) \<longleftrightarrow> pe_residual e"
    unfolding R(3) residual_ids e(2) .
  moreover have "if pe_residual e then tracked (pe_internal_id e) (kc_registry c')
      else dget (rg_orders (kc_registry c')) (pe_internal_id e) = None"
    using R(1) e(1) by (simp add: batch_settled_def)
  ultimately show ?thesis unfolding e(2) tracked_def get_order_def by (simp only:)
qed

lemma reconcile_other:
  assumes "reconcile sha uuid5 commit ad res now ks kr ka run src c = (m, c')" "registry_wf (kc_registry c)"
    "i \<notin> oo_internal_id ` set (list_open (kc_registry c))"
  shows "get_order i (kc_registry c') = get_order i (kc_registry c)"
  using reconcile_batch(1)[OF assms(1,2)] assms(3) by (simp add: batch_settled_def get_order_def)

text \<open>
  The report of a kill reconciliation is the truth about the registry. Every order that was open
  when it started is afterwards either reported as residual and still in the registry, marked
  residual, or not reported and gone from it; all other orders are exactly what they were.
\<close>

theorem kill_report_is_exact:
  assumes "reconcile sha uuid5 commit ad res now ks kr ka run src c = (m, c')" "registry_wf (kc_registry c)"
  shows "(\<forall>r \<in> set (list_open (kc_registry c)).
       (if oo_internal_id r \<in> ro_internal_id ` set (mf_residual_orders m)
        then \<exists>r'. get_order (oo_internal_id r) (kc_registry c') = Some r' \<and> oo_residual r'
        else get_order (oo_internal_id r) (kc_registry c') = None))
     \<and> (\<forall>i. i \<notin> oo_internal_id ` set (list_open (kc_registry c)) \<longrightarrow>
          get_order i (kc_registry c') = get_order i (kc_registry c))
     \<and> mf_discovered m = length (list_open (kc_registry c))"
  using reconcile_order[OF assms] reconcile_other[OF assms] reconcile_batch(2)[OF assms] by blast

lemma verdict_pass:
  "verdict_of ro ps fs st n spp = PASS \<longleftrightarrow>
     fs = [] \<and> st = ''ok'' \<and> ro = [] \<and> \<not> position_unknown ps \<and> (n = 0 \<or> spp)"
  by (auto simp: verdict_of_def)

lemma resolved_known:
  "\<not> position_unknown (resolve_positions res) \<longleftrightarrow>
     (\<exists>ps. res = Some (Some ps) \<and> ps \<noteq> [] \<and> (\<forall>p \<in> set ps. rp_status p \<noteq> ''UNKNOWN''))"
  by (auto simp: resolve_positions_def position_unknown_def unknown_position_def split: option.splits)

text \<open>
  C32. A reconciliation that passes leaves nothing open. PASS means that no order in the registry is
  open any more, that no fill was seen after a kill, and that the position resolver named at least one
  position and knew the status of each; a missing or failing resolver and an empty answer never pass.
\<close>

theorem kill_pass_leaves_nothing_open:
  assumes "reconcile sha uuid5 commit ad res now ks kr ka run src c = (m, c')" "registry_wf (kc_registry c)"
    and "mf_verdict m = PASS"
  shows "list_open (kc_registry c') = [] \<and> kc_fills c' = []
    \<and> (\<exists>ps. res = Some (Some ps) \<and> ps \<noteq> [] \<and> (\<forall>p \<in> set ps. rp_status p \<noteq> ''UNKNOWN''))"
proof -
  note R = reconcile_batch[OF assms(1,2)]
  from assms(3) have v: "mf_fill_events m = []" "mf_residual_orders m = []" "\<not> position_unknown (resolve_positions res)"
    unfolding R(6) verdict_pass R(4) by simp_all
  have wf': "registry_wf (kc_registry c')" using R(1) by (simp add: batch_settled_def)
  have "r \<notin> set (list_open (kc_registry c'))" for r
  proof
    assume r: "r \<in> set (list_open (kc_registry c'))"
    let ?i = "oo_internal_id r"
    have after: "get_order ?i (kc_registry c') = Some r" "is_open r"
      using r list_open_set[OF wf'] by (simp_all add: get_order_def)
    show False
    proof (cases "?i \<in> oo_internal_id ` set (list_open (kc_registry c))")
      case True
      then obtain r0 where "r0 \<in> set (list_open (kc_registry c))" "oo_internal_id r0 = ?i" by auto
      with reconcile_order[OF assms(1,2)] v(2) after(1) show False by fastforce
    next
      case False
      with reconcile_other[OF assms(1,2)] after(1) have "get_order ?i (kc_registry c) = Some r" by metis
      with after(2) list_open_set[OF assms(2)] False show False by (auto simp: get_order_def)
    qed
  qed
  then have "list_open (kc_registry c') = []" by (metis list.set_intros(1) neq_Nil_conv)
  then show ?thesis using v(1,3) R(5,14) by (simp add: resolved_known)
qed

text \<open>
  The counters of the report add up: confirmed, already terminal, rejected and unknown orders
  partition the discovered ones, and every order costs at most one cancel request.
\<close>

theorem kill_counts_add_up:
  assumes "reconcile sha uuid5 commit ad res now ks kr ka run src c = (m, c')" "registry_wf (kc_registry c)"
  shows "mf_confirmed m + mf_already_terminal m + mf_rejected m + mf_unknown m = mf_discovered m
    \<and> mf_attempts m \<le> mf_discovered m
    \<and> length (mf_residual_orders m) = mf_rejected m + mf_unknown m"
proof -
  note R = reconcile_batch[OF assms]
  let ?es = "mf_per_order m"
  have len: "length ?es = mf_discovered m"
    using R(1,2) by (metis batch_settled_def length_map)
  have st: "\<forall>e \<in> set ?es. pe_attempts e \<le> 1
      \<and> pe_state e \<in> {CANCEL_CONFIRMED, ALREADY_TERMINAL, CANCEL_REJECTED, CANCEL_ERROR, STATUS_UNKNOWN}
      \<and> pe_residual e = (pe_state e \<notin> set closed_states)"
    using R(1) by (simp add: batch_settled_def)
  have "count_states [CANCEL_CONFIRMED] es + count_states [ALREADY_TERMINAL] es + count_states [CANCEL_REJECTED] es
      + count_states [CANCEL_ERROR, STATUS_UNKNOWN] es = length es
    \<and> (\<Sum>e \<leftarrow> es. pe_attempts e) \<le> length es
    \<and> length (filter pe_residual es) = count_states [CANCEL_REJECTED] es + count_states [CANCEL_ERROR, STATUS_UNKNOWN] es"
    if "\<forall>e \<in> set es. pe_attempts e \<le> 1
      \<and> pe_state e \<in> {CANCEL_CONFIRMED, ALREADY_TERMINAL, CANCEL_REJECTED, CANCEL_ERROR, STATUS_UNKNOWN}
      \<and> pe_residual e = (pe_state e \<notin> set closed_states)" for es
    using that by (induction es) (auto simp: count_states_def closed_states_def)
  from this[OF st] show ?thesis by (simp add: R(3,7-11) len)
qed


definition sample_order :: order_record where
  "sample_order = \<lparr>oo_internal_id = ''o1'', oo_symbol = ''BTCUSDT'', oo_status = ''SUBMITTED'', oo_venue_id = Some ''v1'',
     oo_filled = fl_zero, oo_remaining = fl_zero, oo_quantity = fl_zero, oo_side = Some ''BUY'', oo_registered_at = ''t'',
     oo_updated_at = ''t'', oo_kc_state = None, oo_reason = None, oo_residual = True, oo_metadata = []\<rparr>"

definition sample_coordinator :: "unit coordinator" where
  "sample_coordinator = \<lparr>kc_registry = \<lparr>rg_orders = [(''o1'', sample_order)], rg_has_path = False,
       rg_ledger = LedgerMissing, rg_faults = []\<rparr>, kc_adapter_state = (), kc_confirmed = [], kc_fills = [],
     kc_last = None, kc_event = None, kc_activated_at = None\<rparr>"

definition sample_adapter :: "unit adapter" where
  "sample_adapter = \<lparr>ad_supports_cancel = Some True,
     ad_cancel_order = Some (\<lambda>a q. (Returns \<lparr>cr_internal_id = cq_internal_id q, cr_venue_id = cq_venue_id q,
       cr_accepted = True, cr_confirmed = True, cr_terminal = Some ''CANCELLED'', cr_reason = ''KILL_CANCEL_PASS'',
       cr_observed_at = ''t''\<rparr>, a)), ad_get_open_order = None\<rparr>"

definition sample_positions :: resolver where
  "sample_positions = Some (Some [\<lparr>rp_symbol = ''BTCUSDT'', rp_status = ''NONE'', rp_quantity = Some fl_zero, rp_reason = ''RESIDUAL_POSITION_KNOWN''\<rparr>])"

lemma sample_coordinator_wf: "registry_wf (kc_registry sample_coordinator)"
  by (simp add: sample_coordinator_def registry_wf_def sample_order_def)

lemma sample_list_open: "list_open (kc_registry sample_coordinator) = [sample_order]"
  by (simp add: sample_coordinator_def list_open_def is_open_def sample_order_def OPEN_STATUSES_def)

lemma sample_pass:
  "mf_verdict (fst (reconcile (\<lambda>s. s) (\<lambda>s. s) ''sha'' (Some sample_adapter) sample_positions ''t'' ''active'' ''manual''
     None None ''registry'' sample_coordinator)) = PASS"
  by (simp add: reconcile_def Let_def sample_list_open)
    (simp add: sample_adapter_def sample_coordinator_def supports_cancel_def cancel_method_def get_method_def
      cancel_one_def read_snapshot_def request_cancel_def readback_def classify_response_def residual_evidence_def
      closed_states_def verdict_of_def resolve_positions_def sample_positions_def position_unknown_def Let_def)

theorem kill_report_is_exact_witness:
  "\<exists>m c'. reconcile (\<lambda>s. s) (\<lambda>s. s) ''sha'' (None :: unit adapter option) None ''t'' ''active'' ''manual'' None None ''registry'' sample_coordinator
      = (m, c') \<and> mf_discovered m = 1"
proof -
  obtain m c' where r: "reconcile (\<lambda>s. s) (\<lambda>s. s) ''sha'' (None :: unit adapter option) None ''t'' ''active'' ''manual'' None None
      ''registry'' sample_coordinator = (m, c')" by (rule prod.exhaust)
  from kill_report_is_exact[OF r sample_coordinator_wf] r show ?thesis by (auto simp: sample_list_open)
qed

theorem kill_pass_leaves_nothing_open_witness:
  "\<exists>m c'. reconcile (\<lambda>s. s) (\<lambda>s. s) ''sha'' (Some sample_adapter) sample_positions ''t'' ''active'' ''manual'' None None
      ''registry'' sample_coordinator = (m, c') \<and> mf_verdict m = PASS \<and> list_open (kc_registry c') = []"
proof -
  obtain m c' where r: "reconcile (\<lambda>s. s) (\<lambda>s. s) ''sha'' (Some sample_adapter) sample_positions ''t'' ''active'' ''manual''
      None None ''registry'' sample_coordinator = (m, c')" by (rule prod.exhaust)
  then have "mf_verdict m = PASS" using sample_pass by simp
  with kill_pass_leaves_nothing_open[OF r sample_coordinator_wf this] r show ?thesis by blast
qed

theorem kill_counts_add_up_witness:
  "\<exists>m c'. reconcile (\<lambda>s. s) (\<lambda>s. s) ''sha'' (Some sample_adapter) None ''t'' ''active'' ''manual'' None None ''registry''
      sample_coordinator = (m, c')
    \<and> mf_confirmed m + mf_already_terminal m + mf_rejected m + mf_unknown m = mf_discovered m"
proof -
  obtain m c' where r: "reconcile (\<lambda>s. s) (\<lambda>s. s) ''sha'' (Some sample_adapter) None ''t'' ''active'' ''manual'' None None
      ''registry'' sample_coordinator = (m, c')" by (rule prod.exhaust)
  from kill_counts_add_up[OF r sample_coordinator_wf] r show ?thesis by blast
qed

text \<open>
  An order whose submission ended in an unconfirmed status, \<open>FAILED\<close> for instance, stays in the
  registry but is invisible to the kill: a reconciliation neither looks at it nor cancels it nor
  reports it as residual, and can pass although its state at the venue is unknown.
\<close>

theorem unconfirmed_order_escapes_kill:
  assumes "reconcile sha uuid5 commit ad res now ks kr ka run src c = (m, c')" "registry_wf (kc_registry c)"
    and "get_order i (kc_registry c) = Some r" "oo_status r \<notin> set OPEN_STATUSES"
  shows "get_order i (kc_registry c') = Some r \<and> i \<notin> ro_internal_id ` set (mf_residual_orders m)
    \<and> i \<notin> pe_internal_id ` set (mf_per_order m)"
proof -
  note R = reconcile_batch[OF assms(1,2)]
  have "i \<notin> oo_internal_id ` set (list_open (kc_registry c))"
    using assms(3,4) by (auto simp: list_open_set[OF assms(2)] get_order_def is_open_def)
  moreover have "pe_internal_id ` set (mf_per_order m) = oo_internal_id ` set (list_open (kc_registry c))"
    using R(1) by (metis batch_settled_def list.set_map)
  moreover have "ro_internal_id ` set (mf_residual_orders m) \<subseteq> pe_internal_id ` set (mf_per_order m)"
    unfolding R(3) residual_ids by blast
  ultimately show ?thesis using reconcile_other[OF assms(1,2)] assms(3) by auto
qed

definition failed_coordinator :: "unit coordinator" where
  "failed_coordinator = sample_coordinator\<lparr>kc_registry := snd (update_status ''u'' ''o1'' ''FAILED'' None None None None None False
     (kc_registry sample_coordinator))\<rparr>"

theorem unconfirmed_order_escapes_kill_witness:
  "\<exists>m c' r. reconcile (\<lambda>s. s) (\<lambda>s. s) ''sha'' (Some sample_adapter) sample_positions ''t'' ''active'' ''manual'' None None
      ''registry'' failed_coordinator = (m, c') \<and> mf_verdict m = PASS
    \<and> get_order ''o1'' (kc_registry c') = Some r \<and> oo_residual r"
proof -
  let ?r = "sample_order\<lparr>oo_status := ''FAILED'', oo_updated_at := ''u''\<rparr>"
  obtain m c' where r: "reconcile (\<lambda>s. s) (\<lambda>s. s) ''sha'' (Some sample_adapter) sample_positions ''t'' ''active'' ''manual''
      None None ''registry'' failed_coordinator = (m, c')" by (rule prod.exhaust)
  have rg: "rg_orders (kc_registry failed_coordinator) = [(''o1'', ?r)]"
    by (simp add: failed_coordinator_def sample_coordinator_def update_status_def Let_def sample_order_def
        OPEN_STATUSES_def TERMINAL_STATUSES_def persist_def opt_truthy_def)
  have wf: "registry_wf (kc_registry failed_coordinator)" by (simp add: registry_wf_def rg sample_order_def)
  have "list_open (kc_registry failed_coordinator) = []" by (simp add: list_open_def rg is_open_def OPEN_STATUSES_def)
  moreover have "kc_fills failed_coordinator = []" by (simp add: failed_coordinator_def sample_coordinator_def)
  ultimately have "mf_verdict m = PASS"
    using reconcile_batch(2-6)[OF r wf] reconcile_batch(1)[OF r wf]
    by (simp add: verdict_pass batch_settled_def resolve_positions_def sample_positions_def position_unknown_def)
  moreover have "get_order ''o1'' (kc_registry failed_coordinator) = Some ?r" by (simp add: get_order_def rg)
  ultimately show ?thesis
    using unconfirmed_order_escapes_kill[OF r wf, of "''o1''" ?r] r by (auto simp: OPEN_STATUSES_def sample_order_def)
qed

subsection \<open>What the coordinator relies on: a venue that tells the truth\<close>

text \<open>
  \<open>closed a i v\<close>: in the venue's state \<open>a\<close> the order known as \<open>i\<close> here and \<open>v\<close> there can no
  longer trade. A terminal snapshot and a confirmed cancellation are told only of such orders, a
  readback under the identifier of the response is about the order of the request, and no call
  opens an order again.
\<close>

locale venue_contract =
  fixes closed :: "'a \<Rightarrow> string \<Rightarrow> string option \<Rightarrow> bool"
    and get_fn :: "'a get_method"
    and cancel_fn :: "'a cancel_method"
  assumes get_keeps: "get_fn a i v = (rep, a') \<Longrightarrow> closed a j w \<Longrightarrow> closed a' j w"
    and get_tells: "get_fn a i v = (Returns snap, a') \<Longrightarrow> os_status snap \<in> set TERMINAL_STATUSES \<Longrightarrow> closed a' i v"
    and cancel_keeps: "cancel_fn a q = (crep, a') \<Longrightarrow> closed a j w \<Longrightarrow> closed a' j w"
    and cancel_tells: "cancel_fn a q = (Returns resp, a') \<Longrightarrow> cr_confirmed resp \<Longrightarrow> cr_terminal resp = Some ''CANCELLED''
      \<Longrightarrow> closed a' (cq_internal_id q) (cq_venue_id q)"
    and readback_tells: "cancel_fn a q = (Returns resp, a1)
      \<Longrightarrow> get_fn a1 (cq_internal_id q) (if opt_truthy (cr_venue_id resp) then cr_venue_id resp else cq_venue_id q) = (Returns snap, a2)
      \<Longrightarrow> os_status snap \<in> set TERMINAL_STATUSES \<Longrightarrow> closed a2 (cq_internal_id q) (cq_venue_id q)"
begin

definition keeps :: "'a \<Rightarrow> 'a \<Rightarrow> bool" where
  "keeps a a' \<longleftrightarrow> (\<forall>j w. closed a j w \<longrightarrow> closed a' j w)"

lemma request_cancel_closed:
  assumes "request_cancel now r ev cs cancel_fn (Some get_fn) rg a = (((e, rg'), cs'), a')"
  shows "keeps a a' \<and> (\<not> pe_residual e \<longrightarrow> closed a' (oo_internal_id r) (oo_venue_id r))
    \<and> set cs' \<subseteq> insert (oo_internal_id r) (set cs)"
proof -
  let ?q = "\<lparr>cq_internal_id = oo_internal_id r, cq_venue_id = oo_venue_id r, cq_symbol = oo_symbol r,
    cq_reason = ''KILL_SWITCH_CANCEL'', cq_kill_event_id = ev, cq_requested_at = now\<rparr>"
  obtain rep a1 where c: "cancel_fn a ?q = (rep, a1)" by (rule prod.exhaust)
  have k1: "closed a j w \<Longrightarrow> closed a1 j w" for j w by (rule cancel_keeps[OF c])
  show ?thesis
  proof (cases rep)
    case Raises
    with assms c k1 show ?thesis
      by (auto simp: request_cancel_def Let_def residual_evidence_def keeps_def closed_states_def)
  next
    case OtherValue
    with assms c k1 show ?thesis
      by (auto simp: request_cancel_def Let_def residual_evidence_def keeps_def closed_states_def)
  next
    case (Returns resp)
    let ?v = "if opt_truthy (cr_venue_id resp) then cr_venue_id resp else oo_venue_id r"
    obtain srep a2 where g: "get_fn a1 (oo_internal_id r) ?v = (srep, a2)" by (rule prod.exhaust)
    have keep: "keeps a a2" using k1 get_keeps[OF g] by (auto simp: keeps_def)
    have snap: "closed a2 (oo_internal_id r) (oo_venue_id r)"
      if "srep = Returns snap" "os_status snap \<in> set TERMINAL_STATUSES" for snap
      using readback_tells[OF c[unfolded Returns], of snap a2] g that by (simp cong: if_cong)
    have "snd (readback (Some get_fn) r resp a1) = a2"
      using g by (simp add: readback_def read_snapshot_def split: reply.splits)
    then obtain sa resp' ot where b: "readback (Some get_fn) r resp a1 = ((sa, resp', ot), a2)"
      by (metis prod.exhaust prod.sel(2))
    have conf: "closed a2 (oo_internal_id r) (oo_venue_id r)"
      if "cr_confirmed resp'" "cr_terminal resp' = Some ''CANCELLED''"
    proof (cases "\<exists>s. srep = Returns s \<and> os_status s = ''CANCELLED''")
      case True
      then show ?thesis using snap by (auto simp: TERMINAL_STATUSES_def)
    next
      case False
      with b g have "resp' = resp" by (auto simp: readback_def read_snapshot_def split: reply.splits if_splits)
      with that cancel_tells[OF c[unfolded Returns]] get_keeps[OF g] show ?thesis by simp
    qed
    show ?thesis
    proof (cases ot)
      case None
      with assms c Returns b have cl: "classify_response now r resp' sa cs
          (snd (update_status now (oo_internal_id r) (oo_status r) None None None
            (Some (kc_state_value CANCEL_REQUESTED)) (Some ''KILL_SWITCH_CANCEL'') False rg)) = ((e, rg'), cs')" "a' = a2"
        by (simp_all add: request_cancel_def Let_def)
      have "(\<not> pe_residual e \<longrightarrow> cr_confirmed resp' \<and> cr_terminal resp' = Some ''CANCELLED'')
          \<and> set cs' \<subseteq> insert (oo_internal_id r) (set cs)"
        using cl(1) by (auto simp: classify_response_def residual_evidence_def closed_states_def Let_def split: if_splits)
      with keep conf cl(2) show ?thesis by blast
    next
      case (Some t)
      with b g have "\<exists>s. srep = Returns s \<and> os_status s \<in> set TERMINAL_STATUSES"
        by (auto simp: readback_def read_snapshot_def TERMINAL_STATUSES_def split: reply.splits if_splits)
      with snap have "closed a2 (oo_internal_id r) (oo_venue_id r)" by blast
      with assms c Returns b Some keep show ?thesis
        by (auto simp: request_cancel_def Let_def residual_evidence_def)
    qed
  qed
qed

lemma cancel_one_closed:
  assumes "cancel_one now r ev cs (Some cancel_fn) (Some get_fn) rg a = (((e, rg'), cs'), a')"
    "oo_internal_id r \<notin> set cs"
  shows "keeps a a' \<and> (\<not> pe_residual e \<longrightarrow> closed a' (oo_internal_id r) (oo_venue_id r))
    \<and> set cs' \<subseteq> insert (oo_internal_id r) (set cs)"
proof -
  obtain s a1 where g: "get_fn a (oo_internal_id r) (oo_venue_id r) = (s, a1)" by (rule prod.exhaust)
  have k: "keeps a a1" using get_keeps[OF g] by (simp add: keeps_def)
  show ?thesis
  proof (cases "\<exists>snap. s = Returns snap \<and> os_status snap \<in> set TERMINAL_STATUSES")
    case True
    then obtain snap where s: "s = Returns snap" "os_status snap \<in> set TERMINAL_STATUSES" by blast
    from get_tells[OF g[unfolded s(1)] s(2)] k s g assms show ?thesis
      by (auto simp: cancel_one_def read_snapshot_def Let_def residual_evidence_def)
  next
    case False
    then have t: "(case s of Returns snap \<Rightarrow> if os_status snap \<in> set TERMINAL_STATUSES then Some (os_status snap) else None | _ \<Rightarrow> None) = None"
      by (auto split: reply.splits)
    with g assms have "request_cancel now r ev cs cancel_fn (Some get_fn) rg a1 = (((e, rg'), cs'), a')"
      by (simp add: cancel_one_def read_snapshot_def Let_def)
    from request_cancel_closed[OF this] k show ?thesis by (auto simp: keeps_def)
  qed
qed

lemma cancel_all_closed:
  assumes "cancel_all now ev (Some cancel_fn) (Some get_fn) rs cs rg a = (es, rg', cs', a')"
    "distinct (map oo_internal_id rs)" "\<forall>r \<in> set rs. oo_internal_id r \<notin> set cs"
  shows "keeps a a' \<and> map pe_internal_id es = map oo_internal_id rs
    \<and> (\<forall>(e, r) \<in> set (zip es rs). \<not> pe_residual e \<longrightarrow> closed a' (oo_internal_id r) (oo_venue_id r))"
  using assms
proof (induction rs arbitrary: cs rg a es cs' a' rg')
  case Nil
  then show ?case by (simp add: keeps_def)
next
  case (Cons r rs)
  obtain e rg1 cs1 a1 where one: "cancel_one now r ev cs (Some cancel_fn) (Some get_fn) rg a = (((e, rg1), cs1), a1)"
    by (metis prod.exhaust)
  obtain es' where rest: "cancel_all now ev (Some cancel_fn) (Some get_fn) rs cs1 rg1 a1 = (es', rg', cs', a')" and es: "es = e # es'"
    using Cons.prems(1) one by (auto split: prod.splits)
  have o: "keeps a a1" "\<not> pe_residual e \<longrightarrow> closed a1 (oo_internal_id r) (oo_venue_id r)"
    "set cs1 \<subseteq> insert (oo_internal_id r) (set cs)"
    using cancel_one_closed[OF one] Cons.prems(3) by simp_all
  have "oo_internal_id r' \<notin> set cs1" if "r' \<in> set rs" for r'
  proof -
    have "oo_internal_id r' \<in> set (map oo_internal_id rs)" using that by simp
    then have "oo_internal_id r' \<noteq> oo_internal_id r" using Cons.prems(2) by (metis distinct.simps(2) list.map(2))
    with o(3) Cons.prems(3) that show ?thesis by auto
  qed
  with Cons.prems(2) have ih: "keeps a1 a'" "map pe_internal_id es' = map oo_internal_id rs"
    "\<forall>(e, r) \<in> set (zip es' rs). \<not> pe_residual e \<longrightarrow> closed a' (oo_internal_id r) (oo_venue_id r)"
    using Cons.IH[OF rest] by simp_all
  have "pe_internal_id e = oo_internal_id r"
    using one by (auto simp: cancel_one_def request_cancel_def classify_response_def residual_evidence_def Let_def
        split: prod.splits if_splits option.splits reply.splits)
  with o ih show ?case by (auto simp: es keeps_def)
qed

text \<open>In the first reconciliation of a kill event, an open order leaves the registry only when
  the venue has closed it.\<close>

lemma reconcile_closed:
  assumes "reconcile sha uuid5 commit (Some ad) res now ks kr ka run src c = (m, c')" "registry_wf (kc_registry c)"
    and "ad_cancel_order ad = Some cancel_fn" "ad_get_open_order ad = Some get_fn"
    and "dget (kc_confirmed c) (mf_kill_event_id m) = None"
    and "r \<in> set (list_open (kc_registry c))" "get_order (oo_internal_id r) (kc_registry c') = None"
  shows "closed (kc_adapter_state c') (oo_internal_id r) (oo_venue_id r)"
proof -
  let ?rs = "list_open (kc_registry c)"
  note R = reconcile_batch[OF assms(1,2)]
  let ?ev = "build_kill_event_id sha ks kr (opt_or ka now)"
  have fresh: "dget (kc_confirmed c) ?ev = None" using assms(5) R(15) by simp
  have sup: "supports_cancel (Some ad)"
  proof (rule ccontr)
    assume u: "\<not> supports_cancel (Some ad)"
    obtain es rg where mu: "mark_unsupported now ?rs (kc_registry c) = (es, rg)" by (rule prod.exhaust)
    have all: "\<forall>e \<in> set es. pe_residual e" if "mark_unsupported now rs rg0 = (es, rg)" for rs rg0 es rg
      using that by (induction rs arbitrary: rg0 es rg)
        (auto simp: residual_evidence_def closed_states_def split: prod.splits)
    have "?rs \<noteq> []" using assms(6) by auto
    then have "mf_per_order m = es" using assms(1) u mu by (auto simp: reconcile_def Let_def)
    moreover have "oo_internal_id r \<in> set (map pe_internal_id (mf_per_order m))"
      using R(1) assms(6) by (simp add: batch_settled_def)
    ultimately obtain e where e: "e \<in> set (mf_per_order m)" "pe_internal_id e = oo_internal_id r" "pe_residual e"
      using all[OF mu] by auto
    with R(1) have "tracked (oo_internal_id r) (kc_registry c')" by (auto simp: batch_settled_def split: if_splits)
    with assms(7) show False by (simp add: tracked_def get_order_def)
  qed
  obtain es rg cs a where ca: "cancel_all now ?ev (Some cancel_fn) (Some get_fn) ?rs [] (kc_registry c) (kc_adapter_state c) = (es, rg, cs, a)"
    by (metis prod.exhaust)
  then have m: "mf_per_order m = es" "kc_adapter_state c' = a"
    using assms(1,3,4) sup fresh by (auto simp: reconcile_def Let_def cancel_method_def get_method_def)
  have z: "map pe_internal_id es = map oo_internal_id ?rs"
    "\<forall>(e, r) \<in> set (zip es ?rs). \<not> pe_residual e \<longrightarrow> closed a (oo_internal_id r) (oo_venue_id r)"
    using cancel_all_closed[OF ca list_open_distinct[OF assms(2)]] by simp_all
  have len: "length es = length ?rs" using z(1) by (metis length_map)
  obtain i where i: "i < length ?rs" "?rs ! i = r" using assms(6) by (metis in_set_conv_nth)
  then have e: "es ! i \<in> set es" "pe_internal_id (es ! i) = oo_internal_id r"
    using len z(1) by (simp_all add: list_eq_iff_nth_eq)
  have "\<not> pe_residual (es ! i)"
  proof
    assume "pe_residual (es ! i)"
    with R(1) e m(1) have "tracked (oo_internal_id r) (kc_registry c')" by (auto simp: batch_settled_def split: if_splits)
    with assms(7) show False by (simp add: tracked_def get_order_def)
  qed
  moreover have "(es ! i, r) \<in> set (zip es ?rs)" using i len by (metis in_set_zip prod.sel)
  ultimately show ?thesis using z(2) m(2) by auto
qed

end

end
