(* ===== verification/KillSupervisor.thy ===== *)
theory KillSupervisor
  imports KillCancel KillSwitch
begin

text \<open>
  The supervisor of \<open>services/execution/kill_cancel.py\<close>: it reads the kill switch, starts a
  reconciliation when the switch turns on, and decides whether new orders are accepted. The
  coordinator is its \<open>reconcile\<close>, as an argument. The polling thread is a sequence of
  \<open>poll_once\<close> steps.
\<close>

subsection \<open>The supervisor\<close>

record supervisor =
  sv_last_active :: "bool option"
  sv_orders_accepted :: bool
  sv_hold_new_orders :: bool
  sv_last_verdict :: "string option"
  sv_startup_done :: bool

definition new_supervisor :: supervisor where
  "new_supervisor = \<lparr>sv_last_active = None, sv_orders_accepted = False, sv_hold_new_orders = True,
     sv_last_verdict = None, sv_startup_done = False\<rparr>"

text \<open>
  A reading of the kill switch: active, reason, message and the activation time, which may be
  a text (as \<open>core/safety/kill_switch.py\<close> returns it) or an object with \<open>isoformat\<close>.
\<close>

datatype activation = NoTime | TimeText string | TimeObject string

type_synonym kill_reading = "bool \<times> string option \<times> string \<times> activation"

text \<open>\<open>_read_kill\<close>: \<open>None\<close> when the call raises.\<close>

definition read_kill :: "kill_reading option \<Rightarrow> kill_reading" where
  "read_kill d = (case d of None \<Rightarrow> (True, Some ''evaluation_error'', ''kill_details_failed'', NoTime) | Some x \<Rightarrow> x)"

definition switch_reading :: "bool \<times> string option \<times> string \<times> string option \<Rightarrow> kill_reading" where
  \<comment> \<open>the default source, \<open>get_kill_switch_details\<close>\<close>
  "switch_reading d = (case d of (active, reason, message, act_at) \<Rightarrow>
     (active, reason, message, case act_at of None \<Rightarrow> NoTime | Some t \<Rightarrow> TimeText t))"

definition activated_text :: "string \<Rightarrow> activation \<Rightarrow> string" where
  "activated_text now act_at = (case act_at of TimeObject t \<Rightarrow> t | _ \<Rightarrow> now)"

text \<open>What a coordinator does for its supervisor: one reconciliation, given the kill state,
  reason and activation time.\<close>

type_synonym 'a reconciler = "string \<Rightarrow> string \<Rightarrow> string \<Rightarrow> 'a coordinator \<Rightarrow> manifest \<times> 'a coordinator"

definition accept_orders :: "supervisor \<Rightarrow> supervisor" where
  "accept_orders s = s\<lparr>sv_hold_new_orders := False, sv_orders_accepted := True\<rparr>"

definition run_startup_gate ::
  "'a reconciler \<Rightarrow> string \<Rightarrow> kill_reading option \<Rightarrow> supervisor \<times> 'a coordinator \<Rightarrow> manifest option \<times> supervisor \<times> 'a coordinator" where
  "run_startup_gate rec now d w =
     (case w of (s, c) \<Rightarrow> case read_kill d of (active, reason, message, act_at) \<Rightarrow>
        let s1 = s\<lparr>sv_startup_done := True, sv_last_active := Some active\<rparr>
        in if \<not> active then (None, (accept_orders s1)\<lparr>sv_last_verdict := Some ''PASS_IDLE''\<rparr>, c)
           else case rec (if reason = Some ''evaluation_error'' then ''unevaluable'' else ''active'')
                         (opt_or reason (str_or message ''kill_active'')) (activated_text now act_at) c of
             (m, c') \<Rightarrow> (Some m, s1\<lparr>sv_last_verdict := Some (verdict_value (mf_verdict m)), sv_hold_new_orders := True,
                              sv_orders_accepted := (mf_verdict m = PASS)\<rparr>, c'))"

definition on_kill_transition ::
  "'a reconciler \<Rightarrow> string \<Rightarrow> bool \<Rightarrow> string \<Rightarrow> activation \<Rightarrow> supervisor \<times> 'a coordinator \<Rightarrow> manifest option \<times> supervisor \<times> 'a coordinator" where
  "on_kill_transition rec now active reason act_at w =
     (case w of (s, c) \<Rightarrow>
        let s1 = s\<lparr>sv_last_active := Some active\<rparr>
        in if \<not> active then (None, accept_orders s1, c)
           else case rec (if reason = ''evaluation_error'' then ''unevaluable'' else ''active'')
                         (str_or reason ''kill_active'') (activated_text now act_at) c of
             (m, c') \<Rightarrow> (Some m, s1\<lparr>sv_last_verdict := Some (verdict_value (mf_verdict m)), sv_hold_new_orders := True,
                              sv_orders_accepted := (sv_orders_accepted s1 \<and> mf_verdict m = PASS)\<rparr>, c'))"

text \<open>When no state was observed yet the startup gate runs and reads the switch a second time.\<close>

definition poll_once ::
  "'a reconciler \<Rightarrow> string \<Rightarrow> kill_reading option \<Rightarrow> kill_reading option \<Rightarrow> supervisor \<times> 'a coordinator \<Rightarrow> manifest option \<times> supervisor \<times> 'a coordinator" where
  "poll_once rec now d d' w =
     (case w of (s, c) \<Rightarrow> case read_kill d of (active, reason, message, act_at) \<Rightarrow>
        case sv_last_active s of
          None \<Rightarrow> run_startup_gate rec now d' w
        | Some previous \<Rightarrow>
            if \<not> previous \<and> active
            then on_kill_transition rec now True (case reason of None \<Rightarrow> ''None'' | Some r \<Rightarrow> r) act_at w
            else if \<not> active then (None, accept_orders (s\<lparr>sv_last_active := Some False\<rparr>), c)
            else (None, s\<lparr>sv_last_active := Some True\<rparr>, c))"

definition ready_for_new_orders :: "supervisor \<Rightarrow> bool" where
  "ready_for_new_orders s \<longleftrightarrow> sv_orders_accepted s \<and> \<not> sv_hold_new_orders s"

record snapshot_status =
  ss_orders_accepted :: bool
  ss_hold_new_orders :: bool
  ss_last_verdict :: "string option"
  ss_residual_count :: nat
  ss_kill_event_id :: "string option"
  ss_reason_codes :: "string list"
  ss_ready :: bool

definition status_snapshot :: "supervisor \<times> 'a coordinator \<Rightarrow> snapshot_status" where
  "status_snapshot w = (case w of (s, c) \<Rightarrow>
     \<lparr>ss_orders_accepted = sv_orders_accepted s, ss_hold_new_orders = sv_hold_new_orders s,
      ss_last_verdict = sv_last_verdict s, ss_residual_count = count_open (kc_registry c),
      ss_kill_event_id = kc_event c,
      ss_reason_codes = (case kc_last c of None \<Rightarrow> [] | Some m \<Rightarrow> mf_reason_codes m),
      ss_ready = ready_for_new_orders s\<rparr>)"

subsection \<open>Runs\<close>

text \<open>The calls the service makes, each with its clock reading.\<close>

datatype sv_call =
    StartupGate string "kill_reading option"
  | KillTransition string bool string activation
  | PollOnce string "kill_reading option" "kill_reading option"

fun sv_apply :: "'a reconciler \<Rightarrow> sv_call \<Rightarrow> supervisor \<times> 'a coordinator \<Rightarrow> supervisor \<times> 'a coordinator" where
  "sv_apply rec (StartupGate now d) w = snd (run_startup_gate rec now d w)"
| "sv_apply rec (KillTransition now active reason act_at) w = snd (on_kill_transition rec now active reason act_at w)"
| "sv_apply rec (PollOnce now d d') w = snd (poll_once rec now d d' w)"

text \<open>What the call sees of the kill switch; before the first observation a poll sees the second reading.\<close>

fun sv_sees :: "supervisor \<Rightarrow> sv_call \<Rightarrow> bool" where
  "sv_sees s (StartupGate now d) = fst (read_kill d)"
| "sv_sees s (KillTransition now active reason act_at) = active"
| "sv_sees s (PollOnce now d d') = (if sv_last_active s = None then fst (read_kill d') else fst (read_kill d))"

definition sv_consistent :: "supervisor \<Rightarrow> bool" where
  "sv_consistent s \<longleftrightarrow> sv_hold_new_orders s = (sv_last_active s \<noteq> Some False)
     \<and> (sv_last_active s = Some False \<longrightarrow> sv_orders_accepted s)"

lemma run_startup_gate_sees:
  "sv_last_active (fst (snd (run_startup_gate rec now d w))) = Some (fst (read_kill d))
   \<and> sv_consistent (fst (snd (run_startup_gate rec now d w)))"
  by (auto simp: run_startup_gate_def Let_def accept_orders_def sv_consistent_def split: prod.splits)

lemma on_kill_transition_sees:
  "sv_last_active (fst (snd (on_kill_transition rec now active reason act_at w))) = Some active
   \<and> sv_consistent (fst (snd (on_kill_transition rec now active reason act_at w)))"
  by (auto simp: on_kill_transition_def Let_def accept_orders_def sv_consistent_def split: prod.splits)

lemma sv_apply_sees:
  assumes "sv_consistent (fst w)"
  shows "sv_last_active (fst (sv_apply rec call w)) = Some (sv_sees (fst w) call)
    \<and> sv_consistent (fst (sv_apply rec call w))"
proof (cases call)
  case (StartupGate now d)
  then show ?thesis by (simp add: run_startup_gate_sees)
next
  case (KillTransition now active reason act_at)
  then show ?thesis by (simp add: on_kill_transition_sees)
next
  case (PollOnce now d d')
  obtain s c where w: "w = (s, c)" by (rule prod.exhaust)
  obtain active reason message act_at where d: "read_kill d = (active, reason, message, act_at)" by (metis prod.exhaust)
  show ?thesis
  proof (cases "sv_last_active s")
    case None
    then show ?thesis by (simp add: PollOnce w poll_once_def d run_startup_gate_sees)
  next
    case (Some previous)
    with assms show ?thesis
      using on_kill_transition_sees[of rec now True _ act_at w, unfolded sv_consistent_def]
      by (auto simp: PollOnce w poll_once_def d accept_orders_def sv_consistent_def)
  qed
qed

lemma fold_sv_apply_consistent:
  "sv_consistent (fst w) \<Longrightarrow> sv_consistent (fst (fold (sv_apply rec) calls w))"
  by (induction calls arbitrary: w) (simp_all add: sv_apply_sees)


lemma new_supervisor_consistent: "sv_consistent new_supervisor"
  by (simp add: sv_consistent_def new_supervisor_def)

text \<open>
  C34. The service is ready for new orders exactly when the last look at the kill switch found it
  inactive. This holds after every sequence of startup gates, polls and transitions, with any
  coordinator and in particular whatever its reconciliations answered; before the first look, and
  after one that could not read the switch, nothing is accepted.
\<close>

theorem ready_iff_last_reading_inactive:
  "ready_for_new_orders (fst (fold (sv_apply rec) (calls @ [call]) (new_supervisor, c)))
     \<longleftrightarrow> \<not> sv_sees (fst (fold (sv_apply rec) calls (new_supervisor, c))) call"
proof -
  let ?w = "fold (sv_apply rec) calls (new_supervisor, c)"
  have "sv_consistent (fst ?w)" by (rule fold_sv_apply_consistent) (simp add: new_supervisor_consistent)
  from sv_apply_sees[OF this, of rec call] show ?thesis
    by (auto simp: ready_for_new_orders_def sv_consistent_def)
qed

lemma get_details_active:
  "fst (fst (get_kill_switch_details cwd env sf False now w))
     \<longleftrightarrow> kw_files w (resolve_kill_switch_state_file cwd env sf) = NoFile
       \<or> is_active (kw_files w (resolve_kill_switch_state_file cwd env sf)) now"
  by (auto simp: get_kill_switch_details_def ensure_state_file_exists_def get_state_def is_active_def Let_def
      split: if_splits)

text \<open>
  C35. The supervisor obeys the state file. When the reading is the one of
  \<open>get_kill_switch_details\<close>, a poll leaves the service ready exactly if the file exists and the kill
  switch reads as inactive from it: a missing, unreadable, empty or corrupt file stops new orders.
\<close>

theorem supervisor_obeys_state_file:
  "ready_for_new_orders (fst (fold (sv_apply rec) (calls @ [PollOnce now
        (Some (switch_reading (fst (get_kill_switch_details cwd env sf False now w))))
        (Some (switch_reading (fst (get_kill_switch_details cwd env sf False now w))))]) (new_supervisor, c)))
     \<longleftrightarrow> kw_files w (resolve_kill_switch_state_file cwd env sf) \<noteq> NoFile
       \<and> \<not> is_active (kw_files w (resolve_kill_switch_state_file cwd env sf)) now"
proof -
  let ?d = "Some (switch_reading (fst (get_kill_switch_details cwd env sf False now w)))"
  let ?w = "fold (sv_apply rec) calls (new_supervisor, c)"
  have "sv_consistent (fst ?w)" by (rule fold_sv_apply_consistent) (simp add: new_supervisor_consistent)
  moreover have "sv_sees (fst ?w) (PollOnce now ?d ?d) = fst (fst (get_kill_switch_details cwd env sf False now w))"
    by (simp add: read_kill_def switch_reading_def split: prod.split)
  ultimately show ?thesis
    using sv_apply_sees[of ?w rec "PollOnce now ?d ?d"]
    by (auto simp: ready_for_new_orders_def sv_consistent_def get_details_active)
qed

lemma poll_new_kill:
  assumes "fst (read_kill d)" "fst (read_kill d')" "sv_last_active s \<noteq> Some True"
  obtains m s' c' ks kr ka where "poll_once rec now d d' (s, c) = (Some m, s', c')" "rec ks kr ka c = (m, c')"
    "sv_last_verdict s' = Some (verdict_value (mf_verdict m))" "sv_hold_new_orders s'" "sv_last_active s' = Some True"
proof -
  obtain reason message act_at where d: "read_kill d = (True, reason, message, act_at)"
    using assms(1) by (metis prod.collapse)
  obtain reason' message' act_at' where d': "read_kill d' = (True, reason', message', act_at')"
    using assms(2) by (metis prod.collapse)
  show ?thesis
  proof (cases "sv_last_active s")
    case None
    obtain m c' where "rec (if reason' = Some ''evaluation_error'' then ''unevaluable'' else ''active'')
        (opt_or reason' (str_or message' ''kill_active'')) (activated_text now act_at') c = (m, c')" by (rule prod.exhaust)
    with None show ?thesis
      by - (rule that, simp add: poll_once_def run_startup_gate_def Let_def d d', simp_all)
  next
    case (Some previous)
    with assms(3) have p: "\<not> previous" by simp
    let ?reason = "case reason of None \<Rightarrow> ''None'' | Some r \<Rightarrow> r"
    obtain m c' where "rec (if ?reason = ''evaluation_error'' then ''unevaluable'' else ''active'')
        (str_or ?reason ''kill_active'') (activated_text now act_at) c = (m, c')" by (rule prod.exhaust)
    with p Some show ?thesis
      by - (rule that, simp add: poll_once_def on_kill_transition_def Let_def d, simp_all)
  qed
qed

lemma poll_known_kill:
  "sv_last_active s = Some True \<Longrightarrow> sv_hold_new_orders s \<Longrightarrow> fst (read_kill d) \<Longrightarrow>
     \<exists>s'. poll_once rec now d d' (s, c) = (None, s', c) \<and> sv_hold_new_orders s'"
  by (cases "read_kill d") (simp add: poll_once_def)

text \<open>
  A newly seen kill starts exactly one reconciliation: the first poll that finds the switch
  active runs the coordinator and records its verdict, and further polls that still find it active
  leave the coordinator alone and keep new orders on hold.
\<close>

theorem kill_starts_one_reconciliation:
  assumes "fst (read_kill d)" "fst (read_kill d')" "sv_last_active s \<noteq> Some True"
  shows "\<exists>m s' c' ks kr ka. poll_once rec now d d' (s, c) = (Some m, s', c') \<and> rec ks kr ka c = (m, c')
    \<and> sv_last_verdict s' = Some (verdict_value (mf_verdict m)) \<and> sv_hold_new_orders s'
    \<and> (\<forall>now2 d2 d3. fst (read_kill d2) \<longrightarrow>
        (\<exists>s''. poll_once rec now2 d2 d3 (s', c') = (None, s'', c') \<and> sv_hold_new_orders s''))"
  using poll_new_kill[OF assms, of rec now c] poll_known_kill by metis

text \<open>The activation time \<open>core/safety/kill_switch.py\<close> returns is a text, which has no \<open>isoformat\<close>: the
  supervisor replaces it by the current time, so every reconciliation of one and the same kill gets
  a kill event of its own and the set of confirmed cancels is never found again.\<close>

lemma switch_activation_ignored: "activated_text now (snd (snd (snd (switch_reading r)))) = now"
  by (auto simp: activated_text_def switch_reading_def split: prod.split option.split)

definition sample_reconciler :: "unit reconciler" where
  "sample_reconciler ks kr ka c = reconcile (\<lambda>s. s) (\<lambda>s. s) ''sha'' None None ''t'' ks kr (Some ka) None ''registry'' c"

theorem kill_starts_one_reconciliation_witness:
  "\<exists>m s' c'. poll_once sample_reconciler ''t'' None None (new_supervisor, sample_coordinator) = (Some m, s', c')
     \<and> sv_hold_new_orders s'"
proof -
  have "fst (read_kill None)" "sv_last_active new_supervisor \<noteq> Some True"
    by (simp_all add: read_kill_def new_supervisor_def)
  from kill_starts_one_reconciliation[OF this(1,1,2), of sample_reconciler "''t''" sample_coordinator]
  show ?thesis by blast
qed

end
