(* ===== verification/Adapters.thy ===== *)
theory Adapters
  imports KillCancel
begin

text \<open>
  The execution adapters of \<open>core/contracts/external_adapter_registry.py\<close> and the order table of
  \<open>services/execution/mock_executor.py\<close> behind the mock adapter: the cancel side, order lookup and
  the choice of an adapter by its identifier. The simulated fills of \<open>execute_order\<close> (random
  latency, price and success) are not modelled; orders enter the table through
  \<open>place_resting_order\<close>.
\<close>

subsection \<open>The mock executor's orders\<close>

record exec_result =
  er_order_id :: string
  er_symbol :: string
  er_side :: string
  er_quantity :: pyfloat
  er_filled :: pyfloat
  er_status :: string
  er_price :: "pyfloat option"
  er_client_id :: "string option"
  er_error :: "string option"
  er_timestamp :: string
  er_fill_id :: "string option"

record mock_executor =
  mx_orders :: "(string, exec_result) pydict"
  mx_behavior :: string
  mx_behavior_by_id :: "(string, string) pydict"

definition get_order_status :: "string \<Rightarrow> mock_executor \<Rightarrow> exec_result option" where
  "get_order_status oid mx = dget (mx_orders mx) oid"

definition cancel_behavior :: "string \<Rightarrow> mock_executor \<Rightarrow> string" where
  "cancel_behavior oid mx = (case dget (mx_behavior_by_id mx) oid of None \<Rightarrow> mx_behavior mx | Some b \<Rightarrow> b)"

definition last8 :: "string \<Rightarrow> string" where
  "last8 s = drop (length s - 8) s"

definition place_resting_order ::
  "string \<Rightarrow> string \<Rightarrow> string \<Rightarrow> string \<Rightarrow> pyfloat \<Rightarrow> string \<Rightarrow> pyfloat \<Rightarrow> pyfloat option \<Rightarrow> mock_executor
   \<Rightarrow> py_exc + (exec_result \<times> mock_executor)" where
  "place_resting_order now oid symbol side quantity status filled price mx =
     (if status \<notin> set OPEN_STATUSES then Inl (ValueError ''resting status must be open'')
      else let x = \<lparr>er_order_id = oid, er_symbol = symbol, er_side = side, er_quantity = quantity, er_filled = filled,
                    er_status = status, er_price = price, er_client_id = Some (''CDB_'' @ last8 oid), er_error = None,
                    er_timestamp = now, er_fill_id = None\<rparr>
           in Inr (x, mx\<lparr>mx_orders := dset oid x (mx_orders mx)\<rparr>))"

definition force_fill :: "string \<Rightarrow> string \<Rightarrow> pyfloat option \<Rightarrow> mock_executor \<Rightarrow> py_exc + (exec_result \<times> mock_executor)" where
  "force_fill now oid filled mx =
     (case dget (mx_orders mx) oid of
        None \<Rightarrow> Inl (KeyError oid)
      | Some x \<Rightarrow> let x' = x\<lparr>er_status := ''FILLED'',
                       er_filled := (case filled of None \<Rightarrow> er_quantity x | Some q \<Rightarrow> q),
                       er_fill_id := Some oid, er_timestamp := now\<rparr>
                  in Inr (x', mx\<lparr>mx_orders := dset oid x' (mx_orders mx)\<rparr>))"

definition mock_cancel_order :: "string \<Rightarrow> string \<Rightarrow> mock_executor \<Rightarrow> (py_exc + bool) \<times> mock_executor" where
  "mock_cancel_order now oid mx =
     (case dget (mx_orders mx) oid of
        None \<Rightarrow> (Inr False, mx)
      | Some x \<Rightarrow>
          if er_status x \<notin> set OPEN_STATUSES then (Inr False, mx)
          else let behavior = cancel_behavior oid mx in
            if behavior = ''reject'' then (Inr False, mx)
            else if behavior = ''error'' then (Inl (RuntimeError ''mock cancel error''), mx)
            else if behavior \<in> {''accepted_unconfirmed'', ''malformed''} then (Inr False, mx)
            else (Inr True, mx\<lparr>mx_orders := dset oid (x\<lparr>er_status := ''CANCELLED'', er_timestamp := now\<rparr>) (mx_orders mx)\<rparr>))"

subsection \<open>The mock adapter\<close>

definition remaining_of :: "exec_result \<Rightarrow> pyfloat" where
  "remaining_of x = fl_max (fl_sub (er_quantity x) (er_filled x)) fl_zero"

text \<open>The order a venue identifier stands for, or else the one of the internal identifier.\<close>

definition mock_lookup :: "mock_executor \<Rightarrow> string \<Rightarrow> string option \<Rightarrow> (string \<times> exec_result) option" where
  "mock_lookup mx oid venue =
     (let k = opt_or venue oid in
      case get_order_status k mx of
        Some x \<Rightarrow> Some (k, x)
      | None \<Rightarrow> (case get_order_status oid mx of None \<Rightarrow> None | Some x \<Rightarrow> Some (oid, x)))"

definition mock_get_open_order :: "string \<Rightarrow> mock_executor get_method" where
  "mock_get_open_order now mx oid venue =
     (case mock_lookup mx oid venue of
        None \<Rightarrow> (OtherValue, mx)
      | Some (k, x) \<Rightarrow>
          (Returns \<lparr>os_internal_id = oid, os_venue_id = Some k, os_symbol = er_symbol x, os_status = er_status x,
             os_filled = er_filled x, os_remaining = remaining_of x, os_observed_at = now\<rparr>, mx))"

definition cancel_reply :: "string \<Rightarrow> cancel_request \<Rightarrow> string option \<Rightarrow> bool \<Rightarrow> bool \<Rightarrow> string option \<Rightarrow> string \<Rightarrow> cancel_response" where
  "cancel_reply now q venue accepted confirmed terminal reason =
     \<lparr>cr_internal_id = cq_internal_id q, cr_venue_id = venue, cr_accepted = accepted, cr_confirmed = confirmed,
      cr_terminal = terminal, cr_reason = reason, cr_observed_at = now\<rparr>"

definition mock_adapter_cancel :: "string \<Rightarrow> mock_executor cancel_method" where
  "mock_adapter_cancel now mx q =
     (let k0 = opt_or (cq_venue_id q) (cq_internal_id q);
          behavior = cancel_behavior k0 mx
      in if behavior = ''error'' then (Raises, mx)
         else if behavior = ''malformed'' then
           (Returns (cancel_reply now q (cq_venue_id q) False False None ''OPEN_ORDER_STATUS_UNKNOWN''), mx)
         else if behavior = ''reject'' then
           (Returns (cancel_reply now q (Some k0) False False None ''CANCEL_REQUEST_REJECTED''), mx)
         else if behavior = ''accepted_unconfirmed'' then
           (Returns (cancel_reply now q (Some k0) True False None ''CANCEL_CONFIRMATION_MISSING''), mx)
         else case mock_lookup mx (cq_internal_id q) (cq_venue_id q) of
           None \<Rightarrow> (Returns (cancel_reply now q (cq_venue_id q) False False None ''CANCEL_REQUEST_REJECTED''), mx)
         | Some (k, x) \<Rightarrow>
             if er_status x \<in> set TERMINAL_STATUSES then
               (Returns (cancel_reply now q (Some k) True (er_status x = ''CANCELLED'') (Some (er_status x)) ''CANCEL_ALREADY_CONFIRMED''), mx)
             else case mock_cancel_order now k mx of
               (Inl e, mx') \<Rightarrow> (Raises, mx')
             | (Inr False, mx') \<Rightarrow>
                 (Returns (cancel_reply now q (Some k) False False None ''CANCEL_REQUEST_REJECTED''), mx')
             | (Inr True, mx') \<Rightarrow>
                 (Returns (cancel_reply now q (Some k) True True (Some ''CANCELLED'') ''KILL_CANCEL_PASS''), mx'))"

definition mock_list_open_orders :: "string \<Rightarrow> mock_executor \<Rightarrow> order_snapshot list" where
  "mock_list_open_orders now mx =
     map (\<lambda>(k, x). \<lparr>os_internal_id = k, os_venue_id = Some k, os_symbol = er_symbol x, os_status = er_status x,
                    os_filled = er_filled x, os_remaining = remaining_of x, os_observed_at = now\<rparr>)
       (filter (\<lambda>(k, x). er_status x \<in> set OPEN_STATUSES) (sort_key fst (mx_orders mx)))"

definition mock_adapter :: "string \<Rightarrow> mock_executor adapter" where
  "mock_adapter now = \<lparr>ad_supports_cancel = Some True, ad_cancel_order = Some (mock_adapter_cancel now),
     ad_get_open_order = Some (mock_get_open_order now)\<rparr>"

subsection \<open>The MEXC adapter\<close>

definition mexc_adapter_cancel :: "string \<Rightarrow> 'a cancel_method" where
  "mexc_adapter_cancel now a q =
     (Returns (cancel_reply now q (cq_venue_id q) False False None ''CANCEL_ADAPTER_UNSUPPORTED''), a)"

definition mexc_get_open_order :: "'a get_method" where
  "mexc_get_open_order a oid venue = (OtherValue, a)"

definition mexc_adapter :: "string \<Rightarrow> 'a adapter" where
  "mexc_adapter now = \<lparr>ad_supports_cancel = Some False, ad_cancel_order = Some (mexc_adapter_cancel now),
     ad_get_open_order = Some mexc_get_open_order\<rparr>"

subsection \<open>Adapter identifiers\<close>

definition MOMENTUM_BUILTIN :: string where "MOMENTUM_BUILTIN = ''momentum_builtin''"
definition MOCK_BUILTIN :: string where "MOCK_BUILTIN = ''mock_builtin''"
definition MEXC_BUILTIN :: string where "MEXC_BUILTIN = ''mexc_builtin''"

definition list_strategy_adapter_ids :: "string list" where
  "list_strategy_adapter_ids = [MOMENTUM_BUILTIN]"

definition list_execution_adapter_ids :: "string list" where
  "list_execution_adapter_ids = [MOCK_BUILTIN, MEXC_BUILTIN]"

definition default_strategy_adapter_id :: string where
  "default_strategy_adapter_id = MOMENTUM_BUILTIN"

definition default_execution_adapter_id :: "bool \<Rightarrow> string" where
  "default_execution_adapter_id mock_trading = (if mock_trading then MOCK_BUILTIN else MEXC_BUILTIN)"

definition resolve_strategy_adapter_id :: "string option \<Rightarrow> py_exc + string" where
  "resolve_strategy_adapter_id adapter_id =
     (let candidate = strip (opt_or adapter_id default_strategy_adapter_id) in
      if candidate \<in> set list_strategy_adapter_ids then Inr candidate
      else Inl (KeyError (''Unknown strategy adapter id: '' @ candidate)))"

definition resolve_execution_adapter_id :: "string option \<Rightarrow> bool \<Rightarrow> py_exc + string" where
  "resolve_execution_adapter_id adapter_id mock_trading =
     (let candidate = strip (opt_or adapter_id (default_execution_adapter_id mock_trading)) in
      if candidate \<in> set list_execution_adapter_ids then Inr candidate
      else Inl (KeyError (''Unknown execution adapter id: '' @ candidate)))"

subsection \<open>The mock adapter tells the truth\<close>

definition mock_closed :: "mock_executor \<Rightarrow> string \<Rightarrow> string option \<Rightarrow> bool" where
  "mock_closed mx oid venue \<longleftrightarrow>
     (case mock_lookup mx oid venue of None \<Rightarrow> False | Some (k, x) \<Rightarrow> er_status x \<in> set TERMINAL_STATUSES)"

lemma open_not_terminal: "s \<in> set OPEN_STATUSES \<Longrightarrow> s \<notin> set TERMINAL_STATUSES"
  by (auto simp: OPEN_STATUSES_def TERMINAL_STATUSES_def)

lemma mock_cancel_order_cases:
  assumes "mock_cancel_order now k mx = (res, mx')"
  obtains (same) "mx' = mx" "res \<noteq> Inr True"
  | (cancelled) x where "res = Inr True" "dget (mx_orders mx) k = Some x" "er_status x \<in> set OPEN_STATUSES"
      "mx' = mx\<lparr>mx_orders := dset k (x\<lparr>er_status := ''CANCELLED'', er_timestamp := now\<rparr>) (mx_orders mx)\<rparr>"
  using assms by (auto simp: mock_cancel_order_def Let_def split: option.splits if_splits)

lemma mock_closed_dset:
  assumes "mock_closed mx j w" "dget (mx_orders mx) k = Some x" "er_status x \<notin> set TERMINAL_STATUSES"
  shows "mock_closed (mx\<lparr>mx_orders := dset k y (mx_orders mx)\<rparr>) j w"
  using assms by (auto simp: mock_closed_def mock_lookup_def get_order_status_def Let_def split: option.splits if_splits)

lemma mock_cancel_order_keeps:
  "mock_cancel_order now k mx = (res, mx') \<Longrightarrow> mock_closed mx j w \<Longrightarrow> mock_closed mx' j w"
  by (erule mock_cancel_order_cases) (auto intro: mock_closed_dset dest: open_not_terminal)

lemma mock_adapter_cancel_state:
  assumes "mock_adapter_cancel now mx q = (rep, mx')"
  shows "mx' = mx \<or> (\<exists>k res. mock_cancel_order now k mx = (res, mx'))"
  using assms by (auto simp: mock_adapter_cancel_def Let_def split: if_splits option.splits prod.splits sum.splits bool.splits)

lemma mock_get_state: "mock_get_open_order now mx i v = (rep, mx') \<Longrightarrow> mx' = mx"
  by (auto simp: mock_get_open_order_def split: option.splits)

lemma mock_get_tells:
  "mock_get_open_order now mx i v = (Returns snap, mx') \<Longrightarrow> os_status snap \<in> set TERMINAL_STATUSES \<longleftrightarrow> mock_closed mx i v"
  by (auto simp: mock_get_open_order_def mock_closed_def split: option.splits)

text \<open>The identifier a response carries finds the order the request was about.\<close>

lemma mock_lookup_key:
  "mock_lookup mx i v = Some (k, x) \<Longrightarrow> dget (mx_orders mx) k = Some x \<and> (k = opt_or v i \<or> (k = i \<and> dget (mx_orders mx) (opt_or v i) = None))"
  by (auto simp: mock_lookup_def get_order_status_def Let_def split: option.splits)

lemma mock_lookup_set:
  assumes "mock_lookup mx i v = Some (k, x)"
  shows "mock_lookup (mx\<lparr>mx_orders := dset k y (mx_orders mx)\<rparr>) i v = Some (k, y)"
  using assms by (auto simp: mock_lookup_def get_order_status_def Let_def split: option.splits if_splits)

lemma mock_lookup_found:
  assumes "mock_lookup mx i v = Some (k, x)"
  shows "mock_lookup mx i (Some k) = Some (k, x)"
  using mock_lookup_key[OF assms]
  by (auto simp: mock_lookup_def get_order_status_def opt_or_def Let_def split: option.splits if_splits)

lemma mock_lookup_default: "mock_lookup mx i (Some (opt_or v i)) = mock_lookup mx i v"
  by (cases v) (auto simp: mock_lookup_def opt_or_def Let_def)


lemma mock_reply_venue:
  assumes "mock_adapter_cancel now mx q = (Returns resp, mx')"
  shows "mock_lookup mx' (cq_internal_id q) (if opt_truthy (cr_venue_id resp) then cr_venue_id resp else cq_venue_id q)
    = mock_lookup mx' (cq_internal_id q) (cq_venue_id q)"
proof -
  let ?i = "cq_internal_id q" and ?v = "cq_venue_id q"
  consider "cr_venue_id resp = ?v" | "cr_venue_id resp = Some (opt_or ?v ?i)"
    | k x where "cr_venue_id resp = Some k" "mock_lookup mx' ?i ?v = Some (k, x)"
  proof (cases "mock_lookup mx ?i ?v")
    case None
    with assms that(1,2) show ?thesis
      by (auto simp: mock_adapter_cancel_def cancel_reply_def Let_def split: if_splits)
  next
    case (Some kx)
    obtain k x where kx: "mock_lookup mx ?i ?v = Some (k, x)" using Some by (cases kx) simp
    obtain res mx1 where c: "mock_cancel_order now k mx = (res, mx1)" by (rule prod.exhaust)
    have "\<exists>y. mock_lookup mx1 ?i ?v = Some (k, y)"
      using c by (rule mock_cancel_order_cases) (use kx mock_lookup_set[OF kx] in auto)
    with assms that kx c show ?thesis
      by (auto simp: mock_adapter_cancel_def cancel_reply_def Let_def split: if_splits sum.splits bool.splits)
  qed
  then show ?thesis
  proof cases
    case 1
    then show ?thesis by simp
  next
    case 2
    then show ?thesis by (simp add: mock_lookup_default)
  next
    case 3
    then show ?thesis by (simp add: mock_lookup_found)
  qed
qed

lemma mock_cancel_tells:
  assumes "mock_adapter_cancel now mx q = (Returns resp, mx')" "cr_confirmed resp"
  shows "mock_closed mx' (cq_internal_id q) (cq_venue_id q)"
proof -
  let ?i = "cq_internal_id q" and ?v = "cq_venue_id q"
  obtain k x where kx: "mock_lookup mx ?i ?v = Some (k, x)"
    using assms by (cases "mock_lookup mx ?i ?v")
      (auto simp: mock_adapter_cancel_def cancel_reply_def Let_def split: if_splits)
  show ?thesis
  proof (cases "er_status x \<in> set TERMINAL_STATUSES")
    case True
    with assms kx show ?thesis
      by (auto simp: mock_adapter_cancel_def mock_closed_def cancel_reply_def Let_def split: if_splits)
  next
    case False
    obtain res mx1 where c: "mock_cancel_order now k mx = (res, mx1)" by (rule prod.exhaust)
    with assms kx False have "res = Inr True" "mx' = mx1"
      by (auto simp: mock_adapter_cancel_def cancel_reply_def Let_def split: if_splits sum.splits bool.splits)
    with c obtain y where "mx' = mx\<lparr>mx_orders := dset k (y\<lparr>er_status := ''CANCELLED'', er_timestamp := now\<rparr>) (mx_orders mx)\<rparr>"
      by (auto elim: mock_cancel_order_cases)
    with mock_lookup_set[OF kx] show ?thesis by (simp add: mock_closed_def TERMINAL_STATUSES_def)
  qed
qed

interpretation mock: venue_contract mock_closed "mock_get_open_order now" "mock_adapter_cancel now" for now
proof
  show "mock_closed a' j w" if "mock_get_open_order now a i v = (rep, a')" "mock_closed a j w" for a i v rep a' j w
    using mock_get_state[OF that(1)] that(2) by simp
  show "mock_closed a' i v" if "mock_get_open_order now a i v = (Returns snap, a')"
    "os_status snap \<in> set TERMINAL_STATUSES" for a i v snap a'
    using mock_get_tells[OF that(1)] mock_get_state[OF that(1)] that(2) by simp
  show "mock_closed a' j w" if "mock_adapter_cancel now a q = (crep, a')" "mock_closed a j w" for a q crep a' j w
    using mock_adapter_cancel_state[OF that(1)] mock_cancel_order_keeps that(2) by blast
  show "mock_closed a' (cq_internal_id q) (cq_venue_id q)"
    if "mock_adapter_cancel now a q = (Returns resp, a')" "cr_confirmed resp" "cr_terminal resp = Some ''CANCELLED''" for a q resp a'
    using mock_cancel_tells[OF that(1,2)] .
  show "mock_closed a2 (cq_internal_id q) (cq_venue_id q)"
    if "mock_adapter_cancel now a q = (Returns resp, a1)"
      "mock_get_open_order now a1 (cq_internal_id q) (if opt_truthy (cr_venue_id resp) then cr_venue_id resp else cq_venue_id q)
        = (Returns snap, a2)" "os_status snap \<in> set TERMINAL_STATUSES" for a q resp a1 snap a2
    using mock_get_tells[OF that(2)] mock_get_state[OF that(2)] that(3)
    by (simp add: mock_closed_def mock_reply_venue[OF that(1)])
qed

text \<open>
  C33. An order leaves the registry in a kill only when the venue has closed it. With the mock
  adapter, whatever its cancel behaviour, an open order that the first reconciliation of a kill
  event removes from the registry is filled, cancelled or rejected in the executor's order table.
\<close>

theorem kill_removes_only_closed_orders:
  assumes "reconcile sha uuid5 commit (Some (mock_adapter t)) res now ks kr ka run src c = (m, c')"
    and "registry_wf (kc_registry c)" "dget (kc_confirmed c) (mf_kill_event_id m) = None"
    and "r \<in> set (list_open (kc_registry c))" "get_order (oo_internal_id r) (kc_registry c') = None"
  shows "\<exists>k x. mock_lookup (kc_adapter_state c') (oo_internal_id r) (oo_venue_id r) = Some (k, x)
    \<and> er_status x \<in> {''FILLED'', ''CANCELLED'', ''REJECTED''}"
proof -
  have "ad_cancel_order (mock_adapter t) = Some (mock_adapter_cancel t)"
    "ad_get_open_order (mock_adapter t) = Some (mock_get_open_order t)" by (simp_all add: mock_adapter_def)
  from mock.reconcile_closed[OF assms(1,2) this assms(3-5)] show ?thesis
    by (auto simp: mock_closed_def TERMINAL_STATUSES_def split: option.splits)
qed


subsection \<open>The mock adapter cancels everything it knows\<close>

definition known_order :: "mock_executor \<Rightarrow> order_record \<Rightarrow> bool" where
  "known_order mx r \<longleftrightarrow> (\<exists>k x. mock_lookup mx (oo_internal_id r) (oo_venue_id r) = Some (k, x)
     \<and> er_status x \<in> set OPEN_STATUSES \<union> set TERMINAL_STATUSES)"

definition confirms :: "mock_executor \<Rightarrow> bool" where
  "confirms mx \<longleftrightarrow> mx_behavior mx = ''confirm'' \<and> mx_behavior_by_id mx = []"

lemma known_order_cancelled:
  assumes "known_order mx r" "dget (mx_orders mx) k = Some x"
  shows "known_order (mx\<lparr>mx_orders := dset k (x\<lparr>er_status := ''CANCELLED'', er_timestamp := now\<rparr>) (mx_orders mx)\<rparr>) r"
  using assms by (auto simp: known_order_def mock_lookup_def get_order_status_def Let_def TERMINAL_STATUSES_def
      split: option.splits if_splits)

lemma mock_cancel_confirms:
  assumes "confirms mx" "mock_lookup mx (cq_internal_id q) (cq_venue_id q) = Some (k, x)" "er_status x \<in> set OPEN_STATUSES"
  shows "mock_adapter_cancel now mx q = (Returns (cancel_reply now q (Some k) True True (Some ''CANCELLED'') ''KILL_CANCEL_PASS''),
      mx\<lparr>mx_orders := dset k (x\<lparr>er_status := ''CANCELLED'', er_timestamp := now\<rparr>) (mx_orders mx)\<rparr>)"
  using assms open_not_terminal[OF assms(3)] mock_lookup_key[OF assms(2)]
  by (simp add: mock_adapter_cancel_def mock_cancel_order_def confirms_def cancel_behavior_def Let_def)

lemma cancel_one_confirms:
  assumes "cancel_one now r ev cs (Some (mock_adapter_cancel t)) (Some (mock_get_open_order t)) rg mx = (((e, rg'), cs'), mx')"
    "confirms mx" "known_order mx r"
  shows "\<not> pe_residual e \<and> confirms mx' \<and> (\<forall>r'. known_order mx r' \<longrightarrow> known_order mx' r')"
proof (cases "oo_internal_id r \<in> set cs")
  case True
  with assms show ?thesis by (auto simp: cancel_one_def residual_evidence_def closed_states_def)
next
  case False
  obtain k x where kx: "mock_lookup mx (oo_internal_id r) (oo_venue_id r) = Some (k, x)"
    "er_status x \<in> set OPEN_STATUSES \<union> set TERMINAL_STATUSES" using assms(3) by (auto simp: known_order_def)
  show ?thesis
  proof (cases "er_status x \<in> set TERMINAL_STATUSES")
    case True
    with False kx assms show ?thesis
      by (auto simp: cancel_one_def read_snapshot_def mock_get_open_order_def residual_evidence_def closed_states_def Let_def)
  next
    case nt: False
    let ?q = "\<lparr>cq_internal_id = oo_internal_id r, cq_venue_id = oo_venue_id r, cq_symbol = oo_symbol r,
      cq_reason = ''KILL_SWITCH_CANCEL'', cq_kill_event_id = ev, cq_requested_at = now\<rparr>"
    let ?y = "x\<lparr>er_status := ''CANCELLED'', er_timestamp := t\<rparr>"
    let ?mx = "mx\<lparr>mx_orders := dset k ?y (mx_orders mx)\<rparr>"
    have op: "er_status x \<in> set OPEN_STATUSES" using nt kx(2) by blast
    have c: "mock_adapter_cancel t mx ?q = (Returns (cancel_reply t ?q (Some k) True True (Some ''CANCELLED'') ''KILL_CANCEL_PASS''), ?mx)"
      using mock_cancel_confirms[OF assms(2), of ?q] kx(1) op by simp
    have look: "mock_lookup ?mx (oo_internal_id r) (oo_venue_id r) = Some (k, ?y)" by (rule mock_lookup_set[OF kx(1)])
    have v: "mock_lookup ?mx (oo_internal_id r) (if k \<noteq> [] then Some k else oo_venue_id r) = Some (k, ?y)"
      by (cases "k = []") (use look mock_lookup_found[OF look] in simp_all)
    have "cancel_one now r ev cs (Some (mock_adapter_cancel t)) (Some (mock_get_open_order t)) rg mx
        = request_cancel now r ev cs (mock_adapter_cancel t) (Some (mock_get_open_order t)) rg mx"
      using False kx(1) nt by (simp add: cancel_one_def read_snapshot_def mock_get_open_order_def Let_def)
    moreover obtain resp' where rb: "readback (Some (mock_get_open_order t)) r
        (cancel_reply t ?q (Some k) True True (Some ''CANCELLED'') ''KILL_CANCEL_PASS'') ?mx
        = ((Some ''CANCELLED'', resp', None), ?mx)" "cr_confirmed resp'" "cr_terminal resp' = Some ''CANCELLED''"
      by (rule that, simp add: readback_def read_snapshot_def mock_get_open_order_def opt_truthy_def cancel_reply_def v cong: if_cong,
          simp_all)
    ultimately have "\<not> pe_residual e \<and> mx' = ?mx"
      using assms(1) c
      by (auto simp: request_cancel_def classify_response_def residual_evidence_def closed_states_def Let_def)
    moreover have "confirms ?mx" using assms(2) by (simp add: confirms_def)
    ultimately show ?thesis using known_order_cancelled mock_lookup_key[OF kx(1)] by blast
  qed
qed

lemma cancel_all_confirms:
  assumes "cancel_all now ev (Some (mock_adapter_cancel t)) (Some (mock_get_open_order t)) rs cs rg mx = (es, rg', cs', mx')"
    "confirms mx" "\<forall>r \<in> set rs. known_order mx r"
  shows "\<forall>e \<in> set es. \<not> pe_residual e"
  using assms
proof (induction rs arbitrary: cs rg mx es)
  case (Cons r rs)
  obtain e rg1 cs1 mx1 where one: "cancel_one now r ev cs (Some (mock_adapter_cancel t)) (Some (mock_get_open_order t)) rg mx
      = (((e, rg1), cs1), mx1)" by (metis prod.exhaust)
  obtain es' where rest: "cancel_all now ev (Some (mock_adapter_cancel t)) (Some (mock_get_open_order t)) rs cs1 rg1 mx1
      = (es', rg', cs', mx')" and es: "es = e # es'"
    using Cons.prems(1) one by (auto split: prod.splits)
  have o: "\<not> pe_residual e" "confirms mx1" "\<forall>r'. known_order mx r' \<longrightarrow> known_order mx1 r'"
    using cancel_one_confirms[OF one Cons.prems(2)] Cons.prems(3) by simp_all
  with Cons.IH[OF rest o(2)] Cons.prems(3) show ?case by (simp add: es)
qed simp

text \<open>
  A kill cancels everything that can be cancelled. When the mock adapter confirms cancels and
  knows each open order of the registry, in an open or a terminal status, one reconciliation
  reports no residual order and leaves no open one.
\<close>

theorem kill_cancels_all_known_orders:
  assumes "reconcile sha uuid5 commit (Some (mock_adapter t)) res now ks kr ka run src c = (m, c')"
    and "registry_wf (kc_registry c)" "confirms (kc_adapter_state c)"
    and "\<forall>r \<in> set (list_open (kc_registry c)). known_order (kc_adapter_state c) r"
  shows "mf_residual_orders m = [] \<and> (\<forall>r \<in> set (list_open (kc_registry c)). get_order (oo_internal_id r) (kc_registry c') = None)"
proof -
  let ?ev = "build_kill_event_id sha ks kr (opt_or ka now)"
  let ?cs = "case dget (kc_confirmed c) ?ev of None \<Rightarrow> [] | Some s \<Rightarrow> s"
  obtain es rg cs a where ca: "cancel_all now ?ev (Some (mock_adapter_cancel t)) (Some (mock_get_open_order t))
      (list_open (kc_registry c)) ?cs (kc_registry c) (kc_adapter_state c) = (es, rg, cs, a)" by (metis prod.exhaust)
  have "mf_per_order m = es"
    using assms(1) ca by (auto simp: reconcile_def Let_def supports_cancel_def cancel_method_def get_method_def mock_adapter_def)
  with cancel_all_confirms[OF ca assms(3,4)] have "mf_residual_orders m = []"
    using reconcile_batch(3)[OF assms(1,2)] by (simp add: filter_empty_conv)
  with reconcile_order[OF assms(1,2)] show ?thesis by simp
qed

text \<open>
  An adapter identifier is never guessed: a name that is not one of the two built-in execution
  adapters raises, and the default follows the trading mode.
\<close>

theorem adapter_never_guessed:
  "resolve_execution_adapter_id aid mock = Inr k \<Longrightarrow>
     k \<in> {''mock_builtin'', ''mexc_builtin''}
     \<and> (if opt_truthy aid then k = strip (the aid) else k = (if mock then ''mock_builtin'' else ''mexc_builtin''))"
proof -
  have s: "strip ''mock_builtin'' = ''mock_builtin''" "strip ''mexc_builtin'' = ''mexc_builtin''" by code_simp+
  show "resolve_execution_adapter_id aid mock = Inr k \<Longrightarrow>
     k \<in> {''mock_builtin'', ''mexc_builtin''}
     \<and> (if opt_truthy aid then k = strip (the aid) else k = (if mock then ''mock_builtin'' else ''mexc_builtin''))"
    by (auto simp: resolve_execution_adapter_id_def list_execution_adapter_ids_def MOCK_BUILTIN_def MEXC_BUILTIN_def
        default_execution_adapter_id_def opt_or_def opt_truthy_def s Let_def split: option.splits if_splits)
qed

subsection \<open>Witnesses\<close>

definition sample_venue_order :: exec_result where
  "sample_venue_order = \<lparr>er_order_id = ''v1'', er_symbol = ''BTCUSDT'', er_side = ''BUY'', er_quantity = fl_zero,
     er_filled = fl_zero, er_status = ''SUBMITTED'', er_price = None, er_client_id = None, er_error = None,
     er_timestamp = ''t'', er_fill_id = None\<rparr>"

definition mock_coordinator :: "mock_executor coordinator" where
  "mock_coordinator = \<lparr>kc_registry = kc_registry sample_coordinator,
     kc_adapter_state = \<lparr>mx_orders = [(''v1'', sample_venue_order)], mx_behavior = ''confirm'', mx_behavior_by_id = []\<rparr>,
     kc_confirmed = [], kc_fills = [], kc_last = None, kc_event = None, kc_activated_at = None\<rparr>"

lemma mock_coordinator_facts:
  "registry_wf (kc_registry mock_coordinator)" "confirms (kc_adapter_state mock_coordinator)"
  "list_open (kc_registry mock_coordinator) = [sample_order]" "kc_confirmed mock_coordinator = []"
  "known_order (kc_adapter_state mock_coordinator) sample_order"
  using sample_coordinator_wf sample_list_open
  by (simp_all add: mock_coordinator_def confirms_def known_order_def mock_lookup_def get_order_status_def
      sample_order_def opt_or_def sample_venue_order_def OPEN_STATUSES_def Let_def)

theorem kill_cancels_all_known_orders_witness:
  "\<exists>m c'. reconcile (\<lambda>s. s) (\<lambda>s. s) ''sha'' (Some (mock_adapter ''t'')) None ''t'' ''active'' ''manual'' None None
      ''registry'' mock_coordinator = (m, c') \<and> mf_residual_orders m = [] \<and> get_order ''o1'' (kc_registry c') = None"
proof -
  obtain m c' where r: "reconcile (\<lambda>s. s) (\<lambda>s. s) ''sha'' (Some (mock_adapter ''t'')) None ''t'' ''active'' ''manual'' None None
      ''registry'' mock_coordinator = (m, c')" by (rule prod.exhaust)
  have "oo_internal_id sample_order = ''o1''" by (simp add: sample_order_def)
  with kill_cancels_all_known_orders[OF r mock_coordinator_facts(1,2)] r show ?thesis
    by (simp add: mock_coordinator_facts(3,5))
qed

lemma mock_coordinator_gone:
  assumes "reconcile (\<lambda>s. s) (\<lambda>s. s) ''sha'' (Some (mock_adapter ''t'')) None ''t'' ''active'' ''manual'' None None
      ''registry'' mock_coordinator = (m, c')"
  shows "get_order ''o1'' (kc_registry c') = None"
proof -
  let ?ev = "build_kill_event_id (\<lambda>s. s) ''active'' ''manual'' (opt_or None ''t'')"
  obtain es rg cs a where ca: "cancel_all ''t'' ?ev (Some (mock_adapter_cancel ''t'')) (Some (mock_get_open_order ''t''))
      [sample_order] [] (kc_registry mock_coordinator) (kc_adapter_state mock_coordinator) = (es, rg, cs, a)" by (metis prod.exhaust)
  have "mf_per_order m = es"
    using assms ca by (auto simp: reconcile_def Let_def supports_cancel_def cancel_method_def get_method_def mock_adapter_def
        mock_coordinator_facts)
  with cancel_all_confirms[OF ca] have "mf_residual_orders m = []"
    using reconcile_batch(3)[OF assms mock_coordinator_facts(1)] by (simp add: filter_empty_conv mock_coordinator_facts)
  with reconcile_order[OF assms mock_coordinator_facts(1), of sample_order] show ?thesis
    by (simp add: mock_coordinator_facts) (simp add: sample_order_def)
qed

theorem kill_removes_only_closed_orders_witness:
  "\<exists>m c' k x. reconcile (\<lambda>s. s) (\<lambda>s. s) ''sha'' (Some (mock_adapter ''t'')) None ''t'' ''active'' ''manual'' None None
      ''registry'' mock_coordinator = (m, c')
    \<and> mock_lookup (kc_adapter_state c') ''o1'' (Some ''v1'') = Some (k, x) \<and> er_status x \<in> {''FILLED'', ''CANCELLED'', ''REJECTED''}"
proof -
  obtain m c' where r: "reconcile (\<lambda>s. s) (\<lambda>s. s) ''sha'' (Some (mock_adapter ''t'')) None ''t'' ''active'' ''manual'' None None
      ''registry'' mock_coordinator = (m, c')" by (rule prod.exhaust)
  have "oo_internal_id sample_order = ''o1''" "oo_venue_id sample_order = Some ''v1''" by (simp_all add: sample_order_def)
  with kill_removes_only_closed_orders[OF r mock_coordinator_facts(1), of sample_order] mock_coordinator_gone[OF r] r
  show ?thesis by (simp add: mock_coordinator_facts(3,4))
qed

theorem adapter_never_guessed_witness:
  "resolve_execution_adapter_id (Some '' mexc_builtin '') True = Inr ''mexc_builtin'' \<and> ''mexc_builtin'' = strip '' mexc_builtin ''"
proof -
  have r: "resolve_execution_adapter_id (Some '' mexc_builtin '') True = Inr ''mexc_builtin''" by code_simp
  from adapter_never_guessed[OF r] r show ?thesis by (simp add: opt_truthy_def)
qed

end
