(* ===== verification/FloatDecimal.thy ===== *)
theory FloatDecimal
  imports PyFloat PyDecimal
begin

text \<open>
  Between the two number types: \<open>Decimal(str(x))\<close> of a float, which goes through the shortest
  decimal text that reads back as \<open>x\<close> (the one nearest to \<open>x\<close> if there are several), and
  \<open>float(d)\<close> of a \<open>Decimal\<close>, which is correctly rounded.
\<close>

subsection \<open>The shortest decimal\<close>

text \<open>A finite float as a fraction, and the number of integer digits of a positive fraction
  (zero or negative below one tenth).\<close>

definition fl_fraction :: "nat \<Rightarrow> int \<Rightarrow> nat \<times> nat" where
  "fl_fraction m e = (if 0 \<le> e then (m * 2 ^ nat e, 1) else (m, 2 ^ nat (- e)))"

text \<open>\<open>n / d\<close> in units of \<open>10 ^ q\<close>, as a fraction.\<close>

definition scaled10 :: "nat \<Rightarrow> nat \<Rightarrow> int \<Rightarrow> nat \<times> nat" where
  "scaled10 n d q = (if 0 \<le> q then (n, d * 10 ^ nat q) else (n * 10 ^ nat (- q), d))"

definition decpt :: "nat \<Rightarrow> nat \<Rightarrow> int" where
  "decpt n d = (let k = int (ndigits n) - int (ndigits d); (a, b) = scaled10 n d k in if a < b then k else k + 1)"

definition fl_of_digits :: "bool \<Rightarrow> nat \<Rightarrow> int \<Rightarrow> pyfloat" where
  "fl_of_digits s c q = (if 0 \<le> q then fl_round s (c * 10 ^ nat q) 1 else fl_round s c (10 ^ nat (- q)))"

text \<open>The decimal with \<open>p\<close> digits that reads back, if there is one.\<close>

definition digits_candidate :: "pyfloat \<Rightarrow> nat \<Rightarrow> nat \<Rightarrow> nat \<Rightarrow> (nat \<times> int) option" where
  "digits_candidate x n d p =
     (let q = decpt n d - int p; (a, b) = scaled10 n d q; lo = a div b; hi = lo + 1;
          oklo = (fl_of_digits False lo q = x); okhi = (fl_of_digits False hi q = x)
      in if oklo \<and> (\<not> okhi \<or> 2 * (a mod b) < b \<or> (2 * (a mod b) = b \<and> even lo)) then Some (lo, q)
         else if okhi then Some (hi, q) else None)"

fun first_some :: "('a \<Rightarrow> 'b option) \<Rightarrow> 'a list \<Rightarrow> 'b option" where
  "first_some f [] = None"
| "first_some f (x # xs) = (case f x of None \<Rightarrow> first_some f xs | Some y \<Rightarrow> Some y)"

definition shortest_digits :: "nat \<Rightarrow> int \<Rightarrow> nat \<times> int" where
  "shortest_digits m e =
     (let (n, d) = fl_fraction m e in
      case first_some (digits_candidate (FFin False m e) n d) [1..<18] of Some r \<Rightarrow> r | None \<Rightarrow> (0, 0))"

subsection \<open>Conversions\<close>

text \<open>The text has an exponent when the leading digit stands at \<open>10 ^ 16\<close> or above or below
  \<open>10 ^ (- 4)\<close>; otherwise an integral value ends in \<open>.0\<close>.\<close>

fun float_decimal :: "pyfloat \<Rightarrow> decimal" where
  "float_decimal (FFin s m e) =
     (if m = 0 then DFin s 0 (- 1)
      else let (c, q) = shortest_digits m e; k = int (ndigits c) + q in
        if 0 \<le> q \<and> k \<le> 16 then DFin s (c * 10 ^ nat (q + 1)) (- 1) else DFin s c q)"
| "float_decimal (FInf s) = DInf s"
| "float_decimal FNaN = DNaN"

fun float_of_decimal :: "decimal \<Rightarrow> pyfloat" where
  "float_of_decimal (DFin s c e) = fl_of_digits s c e"
| "float_of_decimal (DInf s) = FInf s"
| "float_of_decimal DNaN = FNaN"

lemma float_decimal_finite: "is_finite (float_decimal x) = fl_isfinite x"
  by (cases x) (simp_all add: is_finite_def Let_def split: prod.splits)


subsection \<open>Evaluation on numerals\<close>

lemma bitlen_num: "bitlen (numeral n) = Suc (bitlen (numeral n div 2))" "bitlen 1 = 1" "bitlen (Suc 0) = 1" "bitlen 0 = 0"
  by (subst bitlen.simps, simp)+

lemma ndigits_num:
  "ndigits (numeral n) = (if (numeral n :: nat) < 10 then 1 else Suc (ndigits (numeral n div 10)))"
  "ndigits 1 = 1" "ndigits (Suc 0) = 1"
  by (subst ndigits.simps, simp)+

lemma digit_counts: "[Suc 0..<18] = 1 # 2 # 3 # [4..<18]"
  by (simp add: upt_rec)

lemmas fl_eval = bitlen_num ndigits_num fl_round_def fl_exp_def scaled_def half_even_def fl_pack_def Let_def

lemmas digits_eval = fl_eval digit_counts shortest_digits_def fl_fraction_def decpt_def scaled10_def
  digits_candidate_def fl_of_digits_def

end
