(* ===== verification/ExecutionService.thy ===== *)
theory ExecutionService
  imports KillSupervisor ReduceOnlyLedger FloatDecimal
begin

text \<open>
  \<open>process_order\<close> of \<open>services/execution/service.py\<close>: the gates an order passes, the reduce-only
  preparation and finalization in the ledger, registration before the adapter is called, the second look at
  the kill switch, the call, and what its result does to the open-order registry.

  The order is the validated \<open>Order\<close>, after parsing. The adapter is its \<open>execute\<close> method over the
  state the coordinator's cancel methods share; \<open>es_handoffs\<close> records the requests it was given and is
  read by nothing. A publication either happens or raises before anything is sent, as \<open>es_faults\<close> says.
  Result metadata is not modelled except for whether building it raises: \<open>od_context_ok\<close> is false when the
  order's \<open>market_context\<close> is not an object. The correlation ledger and the replay envelope, whose failures
  are caught, are left out. \<open>d1\<close> and \<open>d2\<close> are the two readings of the kill switch, \<open>now\<close> the clock.
\<close>

subsection \<open>Data\<close>

record order =
  od_symbol :: string
  od_side :: string
  od_quantity :: pyfloat
  od_strategy_id :: "string option"
  od_bot_id :: "string option"
  od_client_id :: "string option"
  od_decision_id :: "string option"
  od_order_id :: "string option"
  od_run_mode :: "string option"
  od_reduce_only :: bool
  od_context_ok :: bool

record exec_request =
  eq_order :: order
  eq_run_mode :: string
  eq_reduce_only :: bool
  eq_position_before :: "string option"
  eq_max_quantity :: "string option"
  eq_contract_version :: "string option"

record exec_response =
  xr_status :: string
  xr_order_id :: string
  xr_filled :: pyfloat
  xr_price :: "pyfloat option"
  xr_error :: "string option"
  xr_acknowledged :: bool

record order_result =
  rs_order_id :: string
  rs_symbol :: string
  rs_side :: string
  rs_quantity :: pyfloat
  rs_filled :: pyfloat
  rs_status :: string
  rs_price :: "pyfloat option"
  rs_error :: "string option"
  rs_fill_id :: "string option"
  rs_reduce_only :: bool

type_synonym 'a exec_method = "'a \<Rightarrow> exec_request \<Rightarrow> exec_response option \<times> 'a"

record 'a exec_config =
  ec_trace_contract :: bool
  ec_mock_trading :: bool
  ec_supports_reduce_only :: bool
  ec_adapter :: "'a exec_method option"

record 'a service =
  es_supervisor :: supervisor
  es_coordinator :: "'a coordinator"
  es_db :: "ledger_db option"
  es_received :: nat
  es_rejected :: nat
  es_filled :: nat
  es_shadow_blocked :: nat
  es_shutdown :: bool
  es_blocked_strategies :: "string list"
  es_blocked_bots :: "string list"
  es_published :: "order_result list"
  es_faults :: "bool list"
  es_handoffs :: "exec_request list"

subsection \<open>Publishing and rejecting\<close>

definition publish_result :: "order_result \<Rightarrow> 'a service \<Rightarrow> py_exc option \<times> 'a service" where
  "publish_result r s =
     (case es_faults s of
        True # fs \<Rightarrow> (Some (RuntimeError ''publish''), s\<lparr>es_faults := fs\<rparr>)
      | fs \<Rightarrow> (None, s\<lparr>es_faults := tl fs, es_published := es_published s @ [r]\<rparr>))"

definition finish_with :: "order_result \<Rightarrow> 'a service \<Rightarrow> (py_exc + order_result) \<times> 'a service" where
  "finish_with r s = (case publish_result r s of (Some e, s') \<Rightarrow> (Inl e, s') | (None, s') \<Rightarrow> (Inr r, s'))"

definition rejected_result :: "order \<Rightarrow> string \<Rightarrow> string \<Rightarrow> order_result" where
  "rejected_result od default_id error =
     \<lparr>rs_order_id = opt_or (od_order_id od) default_id, rs_symbol = od_symbol od, rs_side = od_side od,
      rs_quantity = od_quantity od, rs_filled = fl_zero, rs_status = ''REJECTED'', rs_price = None,
      rs_error = Some error, rs_fill_id = None, rs_reduce_only = False\<rparr>"

definition count_rejected :: "'a service \<Rightarrow> 'a service" where
  "count_rejected s = s\<lparr>es_rejected := es_rejected s + 1\<rparr>"

text \<open>The blocks that build a rejection: its metadata, the counter, the publication.\<close>

definition reject_order :: "order \<Rightarrow> order_result \<Rightarrow> 'a service \<Rightarrow> (py_exc + order_result) \<times> 'a service" where
  "reject_order od r s = (if \<not> od_context_ok od then (Inl AttributeError, s) else finish_with r (count_rejected s))"

definition reject_reduce_only :: "order \<Rightarrow> string \<Rightarrow> 'a service \<Rightarrow> (py_exc + order_result) \<times> 'a service" where
  "reject_reduce_only od reason s =
     (let code = str_or reason REDUCE_ONLY_REJECTED in
      reject_order od ((rejected_result od ''REDUCE_ONLY_BLOCKED'' (''Order blocked: '' @ code))\<lparr>rs_reduce_only := True\<rparr>) s)"

subsection \<open>The registry around a submission\<close>

definition on_registry :: "(registry \<Rightarrow> registry) \<Rightarrow> 'a service \<Rightarrow> 'a service" where
  "on_registry f s = s\<lparr>es_coordinator := (es_coordinator s)\<lparr>kc_registry := f (kc_registry (es_coordinator s))\<rparr>\<rparr>"

definition registered :: "py_exc + (order_record \<times> registry) \<Rightarrow> registry \<Rightarrow> registry" where
  "registered res rg = (case res of Inl e \<Rightarrow> rg | Inr (r, rg') \<Rightarrow> rg')"

text \<open>\<open>uid\<close> is the hexadecimal name-based identifier for an order that has none; it is not empty.\<close>

definition register_order_pre_submit :: "string \<Rightarrow> string \<Rightarrow> order \<Rightarrow> 'a service \<Rightarrow> order \<times> 'a service" where
  "register_order_pre_submit uid now od s =
     (let internal_id = opt_or (od_order_id od) uid in
      (od\<lparr>od_order_id := Some internal_id\<rparr>,
       on_registry (\<lambda>rg. registered (register now internal_id (od_symbol od) ''PENDING'' None (od_quantity od) fl_zero
                           (Some (od_quantity od)) (Some (od_side od)) [] rg) rg) s))"

definition apply_execution_result_to_registry :: "string \<Rightarrow> order \<Rightarrow> order_result \<Rightarrow> 'a service \<Rightarrow> 'a service" where
  "apply_execution_result_to_registry now od r s =
     (let internal_id = opt_or (od_order_id od) (rs_order_id r);
          venue_id = Some (rs_order_id r);
          status = upper (rs_status r);
          filled = rs_filled r;
          remaining = fl_max (fl_sub (od_quantity od) filled) fl_zero
      in if opt_truthy (kc_event (es_coordinator s)) \<and> status = ''FILLED'' \<and> fl_lt fl_zero filled then
           s\<lparr>es_coordinator := note_fill_after_kill now internal_id venue_id (od_symbol od) filled (es_coordinator s)\<rparr>
         else if status \<in> set OPEN_STATUSES then
           on_registry (\<lambda>rg. registered (register now internal_id (od_symbol od) status venue_id (od_quantity od) filled
                               (Some remaining) (Some (od_side od)) [] rg) rg) s
         else on_registry (\<lambda>rg. snd (update_status now internal_id status venue_id (Some filled) (Some remaining) None None
                               (status \<in> set TERMINAL_STATUSES) rg)) s)"

subsection \<open>Reduce-only preparation and finalization\<close>

datatype 'a prepared =
    NotReduceOnly
  | Refused string
  | Granted payload ledger_db

definition prepare_order :: "'a exec_config \<Rightarrow> order \<Rightarrow> 'a service \<Rightarrow> 'a prepared \<times> 'a service" where
  "prepare_order cfg od s =
     (if \<not> od_reduce_only od then (NotReduceOnly, s)
      else if \<not> ec_mock_trading cfg \<or> \<not> ec_supports_reduce_only cfg then (Refused REDUCE_ONLY_REJECTED, s)
      else case es_db s of
        None \<Rightarrow> (Refused REDUCE_ONLY_POSITION_UNKNOWN, s)
      | Some db \<Rightarrow>
          if \<not> opt_truthy (od_order_id od) then (Refused REDUCE_ONLY_POSITION_UNKNOWN, s)
          else case db_prepare_reduce_only (the (od_order_id od)) (od_symbol od) (od_side od)
                      (DecArg (float_decimal (od_quantity od))) True True db of
            Inl e \<Rightarrow> (Refused REDUCE_ONLY_POSITION_UNKNOWN, s)
          | Inr (p, db') \<Rightarrow>
              if \<not> pl_allowed p then (Refused (pl_reason p), s\<lparr>es_db := Some db'\<rparr>)
              else (Granted p db', s\<lparr>es_db := Some db'\<rparr>))"

text \<open>The quantity an order is submitted with, and the request for the adapter.\<close>

definition prepared_quantity :: "'a prepared \<Rightarrow> order \<Rightarrow> order" where
  "prepared_quantity pr od = (case pr of Granted p db \<Rightarrow> od\<lparr>od_quantity := float_of_decimal (pl_submitted p)\<rparr> | _ \<Rightarrow> od)"

definition opt_dec_str :: "decimal option \<Rightarrow> string" where
  "opt_dec_str d = (case d of None \<Rightarrow> ''None'' | Some x \<Rightarrow> dec_str x)"

definition adapter_request :: "'a exec_config \<Rightarrow> 'a prepared \<Rightarrow> order \<Rightarrow> exec_request" where
  "adapter_request cfg pr od =
     \<lparr>eq_order = od,
      eq_run_mode = opt_or (od_run_mode od) (if ec_mock_trading cfg then ''paper'' else ''live''),
      eq_reduce_only = od_reduce_only od,
      eq_position_before = (case pr of
        Granted p db \<Rightarrow> Some (opt_dec_str (Option.bind (pl_row p) lr_position_before)) | _ \<Rightarrow> None),
      eq_max_quantity = (case pr of Granted p db \<Rightarrow> Some (dec_str (pl_submitted p)) | _ \<Rightarrow> None),
      eq_contract_version = (case pr of Granted p db \<Rightarrow> Some ''execution_reduce_only_v1'' | _ \<Rightarrow> None)\<rparr>"

definition executed_result :: "order \<Rightarrow> exec_response \<Rightarrow> order_result" where
  "executed_result od x =
     \<lparr>rs_order_id = xr_order_id x, rs_symbol = od_symbol od, rs_side = od_side od, rs_quantity = od_quantity od,
      rs_filled = xr_filled x, rs_status = xr_status x, rs_price = xr_price x, rs_error = xr_error x,
      rs_fill_id = (if xr_status x \<in> {''FILLED'', ''PARTIALLY_FILLED''} then Some (xr_order_id x) else None),
      rs_reduce_only = False\<rparr>"

definition failed_result :: "string \<Rightarrow> order_result \<Rightarrow> order_result" where
  "failed_result reason r = r\<lparr>rs_status := ''FAILED'', rs_filled := fl_zero, rs_fill_id := None,
     rs_error := Some (''Reduce-only result blocked: '' @ reason)\<rparr>"

definition finalize_order :: "'a prepared \<Rightarrow> order \<Rightarrow> order_result \<Rightarrow> 'a service \<Rightarrow> order_result \<times> 'a service" where
  "finalize_order pr od r s =
     (case pr of
        Granted p _ \<Rightarrow>
          (case es_db s of
             None \<Rightarrow> (failed_result REDUCE_ONLY_POSITION_UNKNOWN r, s)
           | Some db \<Rightarrow>
             (case db_finalize_reduce_only (the (od_order_id od)) (rs_status r) (DecArg (float_decimal (rs_filled r)))
                     (map_option (\<lambda>x. DecArg (float_decimal x)) (rs_price r)) db of
                Inl e \<Rightarrow> (failed_result REDUCE_ONLY_POSITION_UNKNOWN r, s)
              | Inr (f, db') \<Rightarrow>
                  (if pl_reason (fr_payload f) = REDUCE_ONLY_POSITION_INCREASE_BLOCKED
                   then failed_result REDUCE_ONLY_POSITION_INCREASE_BLOCKED r else r,
                   s\<lparr>es_db := Some db'\<rparr>)))
      | _ \<Rightarrow> (r, s))"

subsection \<open>Processing an order\<close>

definition schema_status :: "string \<Rightarrow> string" where
  "schema_status status =
     (if status \<in> {''FILLED'', ''REJECTED'', ''ERROR''} then status
      else if status \<in> {''FAILED'', ''CANCELLED''} then ''ERROR''
      else if status = ''PARTIALLY_FILLED'' then status
      else if status \<in> {''SUBMITTED'', ''PENDING''} then ''ERROR''
      else status)"

text \<open>From the response on.\<close>

definition conclude_order ::
  "string \<Rightarrow> 'a prepared \<Rightarrow> order \<Rightarrow> exec_response \<Rightarrow> 'a service \<Rightarrow> (py_exc + order_result) \<times> 'a service" where
  "conclude_order now pr od x s =
     (if od_reduce_only od \<and> \<not> xr_acknowledged x
      then (Inl (RuntimeError ''Reduce-only adapter response missing contract acknowledgement''), s)
      else case finalize_order pr od (executed_result od x) s of (r, s1) \<Rightarrow>
        let s2 = apply_execution_result_to_registry now od r s1
        in if \<not> od_context_ok od then (Inl AttributeError, s2)
           else
             let r' = (case pr of Granted p _ \<Rightarrow> r\<lparr>rs_reduce_only := True\<rparr> | _ \<Rightarrow> r);
                 s3 = (if schema_status (rs_status r') \<in> {''FILLED'', ''PARTIALLY_FILLED''}
                       then s2\<lparr>es_filled := es_filled s2 + 1\<rparr> else count_rejected s2)
             in finish_with r' s3)"

text \<open>From the registration on: the second look at the kill switch and the call.\<close>

definition submit_order ::
  "'a exec_config \<Rightarrow> 'a reconciler \<Rightarrow> string \<Rightarrow> string \<Rightarrow> kill_reading option \<Rightarrow> 'a prepared \<Rightarrow> order \<Rightarrow> 'a service
   \<Rightarrow> (py_exc + order_result) \<times> 'a service" where
  "submit_order cfg rec uid now d2 pr od s =
     (case ec_adapter cfg of
        None \<Rightarrow> (Inl (RuntimeError ''Execution adapter not initialised''), s)
      | Some exec \<Rightarrow>
        (case register_order_pre_submit uid now od s of (od1, s1) \<Rightarrow>
         case read_kill d2 of (active, reason, message, act_at) \<Rightarrow>
           if active then
             (let why = (case reason of None \<Rightarrow> ''None'' | Some t \<Rightarrow> t) in
              case on_kill_transition rec now True why NoTime (es_supervisor s1, es_coordinator s1) of
                (m, supv, c) \<Rightarrow> reject_order od1 (rejected_result od1 ''KILL_SWITCH_BLOCKED''
                                 (''Order blocked: kill-switch active ('' @ why @ '')''))
                               (s1\<lparr>es_supervisor := supv, es_coordinator := c\<rparr>))
           else
             (let q = adapter_request cfg pr od1 in
              case exec (kc_adapter_state (es_coordinator s1)) q of
                (resp, a) \<Rightarrow>
                  let s2 = s1\<lparr>es_coordinator := (es_coordinator s1)\<lparr>kc_adapter_state := a\<rparr>,
                              es_handoffs := es_handoffs s1 @ [q]\<rparr>
                  in case resp of None \<Rightarrow> (Inl OtherError, s2) | Some x \<Rightarrow> conclude_order now pr od1 x s2)))"

definition shutdown_blocks :: "order \<Rightarrow> 'a service \<Rightarrow> bool" where
  "shutdown_blocks od s \<longleftrightarrow> es_shutdown s
     \<or> (opt_truthy (od_strategy_id od) \<and> the (od_strategy_id od) \<in> set (es_blocked_strategies s))
     \<or> (opt_truthy (od_bot_id od) \<and> the (od_bot_id od) \<in> set (es_blocked_bots s))"

definition process_body ::
  "'a exec_config \<Rightarrow> 'a reconciler \<Rightarrow> string \<Rightarrow> string \<Rightarrow> kill_reading option \<Rightarrow> kill_reading option \<Rightarrow> order \<Rightarrow> 'a service
   \<Rightarrow> (py_exc + order_result) \<times> 'a service" where
  "process_body cfg rec uid now d1 d2 od s0 =
     (let s = s0\<lparr>es_received := es_received s0 + 1\<rparr> in
      if ec_trace_contract cfg \<and> \<not> opt_truthy (od_decision_id od) then
        reject_order od (rejected_result od ''MISSING_ORDER_ID'' ''Order rejected: missing decision_id (not approved by Risk Service)'') s
      else if od_run_mode od = Some ''shadow'' then
        reject_order od (rejected_result od ''SHADOW_BLOCKED'' ''Order blocked: shadow mode (zero execution)'')
          (if od_context_ok od then s\<lparr>es_shadow_blocked := es_shadow_blocked s + 1\<rparr> else s)
      else if fst (read_kill d1) then
        reject_order od (rejected_result od ''KILL_SWITCH_BLOCKED''
          (''Order blocked: kill-switch active ('' @ (case fst (snd (read_kill d1)) of None \<Rightarrow> ''None'' | Some t \<Rightarrow> t) @ '')'')) s
      else if \<not> ready_for_new_orders (es_supervisor s) then
        reject_order od (rejected_result od ''KILL_CANCEL_HOLD'' ''Order blocked: kill-cancel reconciliation HOLD'') s
      else if shutdown_blocks od s then
        reject_order od ((rejected_result od [] ''Order blocked by bot shutdown'')\<lparr>rs_order_id := ''SHUTDOWN_'' @ uid\<rparr>) s
      else case prepare_order cfg od s of
        (Refused reason, s1) \<Rightarrow> reject_reduce_only od reason s1
      | (pr, s1) \<Rightarrow> submit_order cfg rec uid now d2 pr (prepared_quantity pr od) s1)"

text \<open>Every exception ends here.\<close>

definition process_order ::
  "'a exec_config \<Rightarrow> 'a reconciler \<Rightarrow> string \<Rightarrow> string \<Rightarrow> kill_reading option \<Rightarrow> kill_reading option \<Rightarrow> order \<Rightarrow> 'a service
   \<Rightarrow> order_result option \<times> 'a service" where
  "process_order cfg rec uid now d1 d2 od s =
     (case process_body cfg rec uid now d1 d2 od s of
        (Inl e, s') \<Rightarrow> (None, count_rejected s')
      | (Inr r, s') \<Rightarrow> (Some r, s'))"

text \<open>A bot shutdown: block, and reconcile as for a kill. \<open>reason\<close> is the payload's.\<close>

definition handle_bot_shutdown ::
  "'a reconciler \<Rightarrow> string \<Rightarrow> string option \<Rightarrow> string option \<Rightarrow> string option \<Rightarrow> 'a service \<Rightarrow> 'a service" where
  "handle_bot_shutdown rec now strategy_id bot_id reason s =
     s\<lparr>es_blocked_strategies := (if opt_truthy strategy_id then List.insert (the strategy_id) (es_blocked_strategies s)
                               else es_blocked_strategies s),
       es_blocked_bots := (if opt_truthy bot_id then List.insert (the bot_id) (es_blocked_bots s) else es_blocked_bots s),
       es_shutdown := True,
       es_coordinator := snd (rec ''active'' (opt_or reason ''bot_shutdown'') now (es_coordinator s))\<rparr>"


subsection \<open>What each stage leaves alone\<close>

lemma finish_with_state:
  "es_handoffs (snd (finish_with r s)) = es_handoffs s" "es_db (snd (finish_with r s)) = es_db s"
  "es_coordinator (snd (finish_with r s)) = es_coordinator s" "es_supervisor (snd (finish_with r s)) = es_supervisor s"
  by (auto simp: finish_with_def publish_result_def split: list.splits bool.splits)

lemma count_rejected_state [simp]:
  "es_handoffs (count_rejected s) = es_handoffs s" "es_db (count_rejected s) = es_db s"
  "es_coordinator (count_rejected s) = es_coordinator s" "es_supervisor (count_rejected s) = es_supervisor s"
  "es_published (count_rejected s) = es_published s"
  by (simp_all add: count_rejected_def)

lemma reject_order_state:
  "es_handoffs (snd (reject_order od r s)) = es_handoffs s" "es_db (snd (reject_order od r s)) = es_db s"
  "es_coordinator (snd (reject_order od r s)) = es_coordinator s"
  by (simp_all add: reject_order_def finish_with_state)

lemma reject_reduce_only_state:
  "es_handoffs (snd (reject_reduce_only od reason s)) = es_handoffs s" "es_db (snd (reject_reduce_only od reason s)) = es_db s"
  by (simp_all add: reject_reduce_only_def Let_def reject_order_state)

lemma on_registry_state [simp]:
  "es_handoffs (on_registry f s) = es_handoffs s" "es_db (on_registry f s) = es_db s"
  "kc_registry (es_coordinator (on_registry f s)) = f (kc_registry (es_coordinator s))"
  "kc_adapter_state (es_coordinator (on_registry f s)) = kc_adapter_state (es_coordinator s)"
  "kc_event (es_coordinator (on_registry f s)) = kc_event (es_coordinator s)"
  "es_published (on_registry f s) = es_published s"
  by (simp_all add: on_registry_def)

lemma prepare_order_state:
  assumes "prepare_order cfg od s = (pr, s')"
  shows "es_handoffs s' = es_handoffs s" "es_coordinator s' = es_coordinator s" "es_supervisor s' = es_supervisor s"
    "es_published s' = es_published s"
  using assms by (auto simp: prepare_order_def split: if_splits option.splits sum.splits prod.splits)

lemma finalize_order_state:
  assumes "finalize_order pr od r s = (r', s')"
  shows "es_handoffs s' = es_handoffs s" "es_coordinator s' = es_coordinator s" "es_published s' = es_published s"
  using assms by (auto simp: finalize_order_def split: prepared.splits option.splits sum.splits prod.splits)

lemma apply_result_state:
  "es_handoffs (apply_execution_result_to_registry now od r s) = es_handoffs s"
  "es_db (apply_execution_result_to_registry now od r s) = es_db s"
  "es_published (apply_execution_result_to_registry now od r s) = es_published s"
  by (simp_all add: apply_execution_result_to_registry_def Let_def)

lemma conclude_order_handoffs: "es_handoffs (snd (conclude_order now pr od x s)) = es_handoffs s"
proof -
  obtain r s1 where f: "finalize_order pr od (executed_result od x) s = (r, s1)" by (rule prod.exhaust)
  show ?thesis
    using finalize_order_state(1)[OF f]
    by (simp add: conclude_order_def f Let_def finish_with_state apply_result_state)
qed

subsection \<open>Preparation\<close>

lemma prepare_granted:
  assumes "prepare_order cfg od s = (Granted p db', s')"
  obtains db oid where "od_reduce_only od" "es_db s = Some db" "od_order_id od = Some oid" "oid \<noteq> []"
    "db_prepare_reduce_only oid (od_symbol od) (od_side od) (DecArg (float_decimal (od_quantity od))) True True db = Inr (p, db')"
    "pl_allowed p" "es_db s' = Some db'" "ec_mock_trading cfg" "ec_supports_reduce_only cfg"
  using assms
  by (auto simp: prepare_order_def opt_truthy_def split: if_splits option.splits sum.splits prod.splits)

lemma prepare_not_granted:
  assumes "prepare_order cfg od s = (NotReduceOnly, s')"
  shows "\<not> od_reduce_only od" "s' = s"
  using assms by (auto simp: prepare_order_def split: if_splits option.splits sum.splits prod.splits)

text \<open>When the ledger allows an order that is to be bound for the adapter, this caller bound it.\<close>

lemma allowed_is_bound:
  assumes "db_prepare_reduce_only oid symb side req pb True db = Inr (p, db')" "pl_allowed p"
  shows "pl_adapter_bound p"
  using assms(1)
proof (cases rule: db_prepare_cases)
  case (reenter r)
  then show ?thesis using assms(2)
    by (auto simp: reenter_prepared_def reduce_only_claim_mismatch_def bind_prepared_for_adapter_def Let_def
        split: if_splits option.splits)
next
  case refused
  then show ?thesis using assms(2) by simp
next
  case (insert position prep ins)
  have ins: "lr_status ins = (if rp_allowed prep then ''PREPARED'' else ''BLOCKED'')" "lr_order_id ins = oid"
    using insert(4) by (auto simp: insert_row_def ebind_eq_Inr Let_def split: if_splits)
  have reason: "rp_allowed prep \<Longrightarrow> rp_reason prep \<in> set BINDABLE_REASONS"
    using insert(3) by (auto simp: prepare_reduce_only_def Let_def ebind_eq_Inr rp_refused_def BINDABLE_REASONS_def
        split: if_splits option.splits)
  show ?thesis
  proof (cases "rp_allowed prep")
    case True
    with reason insert(6) assms(2) show ?thesis
      by (auto simp: finish_prepare_def bind_prepared_for_adapter_def ins(2) Let_def split: if_splits option.splits)
  next
    case False
    with insert(6) assms(2) ins show ?thesis by (auto simp: finish_prepare_def)
  qed
qed


subsection \<open>An order that is handed over\<close>

lemma submit_handoff:
  assumes "submit_order cfg rec uid now d2 pr od s = (res, s')" "es_handoffs s' \<noteq> es_handoffs s"
  obtains exec od1 s1 a resp s2 where "ec_adapter cfg = Some exec" "\<not> fst (read_kill d2)"
    "register_order_pre_submit uid now od s = (od1, s1)"
    "exec (kc_adapter_state (es_coordinator s1)) (adapter_request cfg pr od1) = (resp, a)"
    "s2 = s1\<lparr>es_coordinator := (es_coordinator s1)\<lparr>kc_adapter_state := a\<rparr>,
             es_handoffs := es_handoffs s1 @ [adapter_request cfg pr od1]\<rparr>"
    "(res, s') = (case resp of None \<Rightarrow> (Inl OtherError, s2) | Some x \<Rightarrow> conclude_order now pr od1 x s2)"
proof -
  obtain exec where exec: "ec_adapter cfg = Some exec"
    using assms by (cases "ec_adapter cfg") (auto simp: submit_order_def)
  obtain od1 s1 where r: "register_order_pre_submit uid now od s = (od1, s1)" by (rule prod.exhaust)
  have h1: "es_handoffs s1 = es_handoffs s" using r by (auto simp: register_order_pre_submit_def Let_def)
  obtain active reason message act_at where d: "read_kill d2 = (active, reason, message, act_at)" by (metis prod.exhaust)
  have inactive: "\<not> active"
  proof
    assume active
    obtain m supv c where t: "on_kill_transition rec now True (case reason of None \<Rightarrow> ''None'' | Some t \<Rightarrow> t) NoTime
        (es_supervisor s1, es_coordinator s1) = (m, supv, c)" by (metis prod.exhaust)
    have "(res, s') = reject_order od1 (rejected_result od1 ''KILL_SWITCH_BLOCKED''
        (''Order blocked: kill-switch active ('' @ (case reason of None \<Rightarrow> ''None'' | Some t \<Rightarrow> t) @ '')''))
        (s1\<lparr>es_supervisor := supv, es_coordinator := c\<rparr>)"
      using assms(1) \<open>active\<close> t by (simp add: submit_order_def exec r d Let_def)
    from arg_cong[OF this, of "\<lambda>x. es_handoffs (snd x)"] have "es_handoffs s' = es_handoffs s1"
      by (simp add: reject_order_state)
    with h1 assms(2) show False by simp
  qed
  obtain resp a where e: "exec (kc_adapter_state (es_coordinator s1)) (adapter_request cfg pr od1) = (resp, a)" by (rule prod.exhaust)
  show ?thesis
    by (rule that[OF exec _ r e refl]) (use assms(1) inactive in \<open>simp_all add: submit_order_def exec r d e Let_def\<close>)
qed

lemma open_gates:
  assumes "ec_trace_contract cfg \<longrightarrow> opt_truthy (od_decision_id od)" "od_run_mode od \<noteq> Some ''shadow''"
    "\<not> fst (read_kill d1)" "ready_for_new_orders (es_supervisor s)" "\<not> shutdown_blocks od s"
  shows "process_body cfg rec uid now d1 d2 od s
    = (case prepare_order cfg od (s\<lparr>es_received := es_received s + 1\<rparr>) of
         (Refused reason, s1) \<Rightarrow> reject_reduce_only od reason s1
       | (pr, s1) \<Rightarrow> submit_order cfg rec uid now d2 pr (prepared_quantity pr od) s1)"
proof -
  have "shutdown_blocks od (s\<lparr>es_received := n\<rparr>) = shutdown_blocks od s" for n by (simp add: shutdown_blocks_def)
  with assms show ?thesis by (auto simp: process_body_def Let_def)
qed

lemma process_handoff:
  assumes "process_order cfg rec uid now d1 d2 od s = (res, s')" "es_handoffs s' \<noteq> es_handoffs s"
  obtains pr s1 out s2 where "ec_trace_contract cfg \<longrightarrow> opt_truthy (od_decision_id od)" "od_run_mode od \<noteq> Some ''shadow''"
    "\<not> fst (read_kill d1)" "ready_for_new_orders (es_supervisor s)" "\<not> shutdown_blocks od s"
    "prepare_order cfg od (s\<lparr>es_received := es_received s + 1\<rparr>) = (pr, s1)" "\<And>reason. pr \<noteq> Refused reason"
    "submit_order cfg rec uid now d2 pr (prepared_quantity pr od) s1 = (out, s2)" "es_handoffs s1 = es_handoffs s"
    "es_handoffs s2 \<noteq> es_handoffs s1" "s' = (case out of Inl e \<Rightarrow> count_rejected s2 | Inr r \<Rightarrow> s2)"
    "res = (case out of Inl e \<Rightarrow> None | Inr r \<Rightarrow> Some r)"
proof -
  let ?s = "s\<lparr>es_received := es_received s + 1\<rparr>"
  obtain out s2 where b: "process_body cfg rec uid now d1 d2 od s = (out, s2)" by (rule prod.exhaust)
  have s': "s' = (case out of Inl e \<Rightarrow> count_rejected s2 | Inr r \<Rightarrow> s2)" "res = (case out of Inl e \<Rightarrow> None | Inr r \<Rightarrow> Some r)"
    using assms(1) b by (auto simp: process_order_def split: sum.splits)
  then have h: "es_handoffs s2 \<noteq> es_handoffs s" using assms(2) by (auto split: sum.splits)
  have sh: "shutdown_blocks od (s\<lparr>es_received := n\<rparr>) = shutdown_blocks od s" for n by (simp add: shutdown_blocks_def)
  have g: "ec_trace_contract cfg \<longrightarrow> opt_truthy (od_decision_id od)" "od_run_mode od \<noteq> Some ''shadow''"
    "\<not> fst (read_kill d1)" "ready_for_new_orders (es_supervisor s)" "\<not> shutdown_blocks od s"
  proof -
    have snd: "snd (process_body cfg rec uid now d1 d2 od s) = s2" using b by simp
    show g1: "ec_trace_contract cfg \<longrightarrow> opt_truthy (od_decision_id od)"
    proof (rule ccontr)
      assume "\<not> ?thesis"
      with snd have "es_handoffs s2 = es_handoffs s" by (auto simp: process_body_def Let_def reject_order_state)
      with h show False by simp
    qed
    show g2: "od_run_mode od \<noteq> Some ''shadow''"
    proof (rule ccontr)
      assume "\<not> ?thesis"
      with snd g1 have "es_handoffs s2 = es_handoffs s" by (auto simp: process_body_def Let_def reject_order_state)
      with h show False by simp
    qed
    show g3: "\<not> fst (read_kill d1)"
    proof (rule ccontr)
      assume "\<not> ?thesis"
      with snd g1 g2 have "es_handoffs s2 = es_handoffs s" by (auto simp: process_body_def Let_def reject_order_state)
      with h show False by simp
    qed
    show g4: "ready_for_new_orders (es_supervisor s)"
    proof (rule ccontr)
      assume "\<not> ?thesis"
      with snd g1 g2 g3 have "es_handoffs s2 = es_handoffs s" by (auto simp: process_body_def Let_def reject_order_state)
      with h show False by simp
    qed
    show "\<not> shutdown_blocks od s"
    proof (rule ccontr)
      assume "\<not> ?thesis"
      with snd g1 g2 g3 g4 have "es_handoffs s2 = es_handoffs s"
        by (auto simp: process_body_def Let_def reject_order_state sh)
      with h show False by simp
    qed
  qed
  obtain pr s1 where p: "prepare_order cfg od ?s = (pr, s1)" by (rule prod.exhaust)
  have h1: "es_handoffs s1 = es_handoffs s" using prepare_order_state(1)[OF p] by simp
  note body = open_gates[OF g, of rec uid now d2, unfolded p]
  have nr: "pr \<noteq> Refused reason" for reason
  proof
    assume "pr = Refused reason"
    with body b have "(out, s2) = reject_reduce_only od reason s1" by simp
    from arg_cong[OF this, of "\<lambda>x. es_handoffs (snd x)"] have "es_handoffs s2 = es_handoffs s1"
      by (simp add: reject_reduce_only_state)
    with h h1 show False by simp
  qed
  have "submit_order cfg rec uid now d2 pr (prepared_quantity pr od) s1 = (out, s2)"
    using body b nr[of "case pr of Refused r \<Rightarrow> r | _ \<Rightarrow> []"] by (cases pr) simp_all
  from that[OF g p nr this h1 _ s'] h h1 show ?thesis by simp
qed


lemma register_pre_submit_facts:
  assumes "register_order_pre_submit uid now od s = (od1, s1)"
  shows "od1 = od\<lparr>od_order_id := Some (opt_or (od_order_id od) uid)\<rparr>"
    "es_handoffs s1 = es_handoffs s" "es_db s1 = es_db s" "es_published s1 = es_published s"
    "kc_adapter_state (es_coordinator s1) = kc_adapter_state (es_coordinator s)"
    "kc_event (es_coordinator s1) = kc_event (es_coordinator s)"
  using assms by (auto simp: register_order_pre_submit_def Let_def)

text \<open>And one that gets that far is handed over.\<close>

lemma submit_hands_over:
  assumes "ec_adapter cfg = Some exec" "\<not> fst (read_kill d2)"
  obtains q where "es_handoffs (snd (submit_order cfg rec uid now d2 pr od s)) = es_handoffs s @ [q]"
    "eq_reduce_only q = od_reduce_only od" "eq_order q = od\<lparr>od_order_id := Some (opt_or (od_order_id od) uid)\<rparr>"
proof -
  obtain od1 s1 where r: "register_order_pre_submit uid now od s = (od1, s1)" by (rule prod.exhaust)
  obtain reason message act_at where d: "read_kill d2 = (False, reason, message, act_at)"
    using assms(2) by (cases "read_kill d2") auto
  obtain resp a where e: "exec (kc_adapter_state (es_coordinator s1)) (adapter_request cfg pr od1) = (resp, a)" by (rule prod.exhaust)
  note F = register_pre_submit_facts[OF r]
  have h: "es_handoffs (snd (submit_order cfg rec uid now d2 pr od s)) = es_handoffs s1 @ [adapter_request cfg pr od1]"
    by (cases resp) (simp_all add: submit_order_def assms(1) r d e Let_def conclude_order_handoffs)
  show ?thesis
    by (rule that[of "adapter_request cfg pr od1"]) (simp_all only: h F(2), simp_all add: F(1) adapter_request_def)
qed

lemma registered_tracked:
  assumes "oid \<noteq> []" "status \<in> set OPEN_STATUSES"
  shows "tracked oid (registered (register now oid sy status ve qu fi re sd md rg) rg)"
  using assms by (cases "dget (rg_orders rg) oid") (simp_all add: registered_def register_def Let_def tracked_def)

lemma pre_submit_tracked:
  assumes "register_order_pre_submit uid now od s = (od1, s1)" "uid \<noteq> []"
  shows "tracked (the (od_order_id od1)) (kc_registry (es_coordinator s1))"
proof -
  have "opt_or (od_order_id od) uid \<noteq> []" using assms(2) by (auto simp: opt_or_def split: option.split)
  from registered_tracked[OF this, of "''PENDING''"] assms(1) show ?thesis
    by (auto simp: register_order_pre_submit_def Let_def OPEN_STATUSES_def)
qed

text \<open>The result of an order keeps it tracked unless it says that the order is over.\<close>

lemma apply_result_tracked:
  assumes "tracked oid (kc_registry (es_coordinator s))" "od_order_id od = Some oid" "oid \<noteq> []"
    "upper (rs_status r) \<notin> set TERMINAL_STATUSES"
  shows "tracked oid (kc_registry (es_coordinator (apply_execution_result_to_registry now od r s)))"
proof (cases "upper (rs_status r) \<in> set OPEN_STATUSES")
  case True
  then have "upper (rs_status r) \<noteq> ''FILLED''" by (auto simp: OPEN_STATUSES_def)
  with True assms(2,3) registered_tracked show ?thesis
    by (simp add: apply_execution_result_to_registry_def Let_def opt_or_def)
next
  case False
  have "upper (rs_status r) \<noteq> ''FILLED''" using assms(4) by (auto simp: TERMINAL_STATUSES_def)
  moreover have "tracked oid (snd (update_status now oid (upper (rs_status r)) v f m None None False (kc_registry (es_coordinator s))))" for v f m
    using apply_op_tracked[OF assms(1), of "UpdateStatus now oid (upper (rs_status r)) v f m None None False"] by simp
  ultimately show ?thesis using False assms(2-4)
    by (simp add: apply_execution_result_to_registry_def Let_def opt_or_def)
qed

lemma conclude_order_registry:
  "kc_registry (es_coordinator (snd (conclude_order now pr od x s)))
     = (if od_reduce_only od \<and> \<not> xr_acknowledged x then kc_registry (es_coordinator s)
        else case finalize_order pr od (executed_result od x) s of (r, s1) \<Rightarrow>
          kc_registry (es_coordinator (apply_execution_result_to_registry now od r s1)))"
  by (auto simp: conclude_order_def Let_def finish_with_state count_rejected_def split: prod.splits)

lemma finalize_order_result:
  assumes "finalize_order pr od r s = (r', s')"
  shows "r' = r \<or> rs_status r' = ''FAILED''"
  using assms by (auto simp: finalize_order_def failed_result_def split: prepared.splits option.splits sum.splits prod.splits if_splits)

lemma conclude_order_tracked:
  assumes "tracked oid (kc_registry (es_coordinator s))" "od_order_id od = Some oid" "oid \<noteq> []"
    "upper (xr_status x) \<notin> set TERMINAL_STATUSES"
  shows "tracked oid (kc_registry (es_coordinator (snd (conclude_order now pr od x s))))"
proof -
  obtain r s1 where f: "finalize_order pr od (executed_result od x) s = (r, s1)" by (rule prod.exhaust)
  have failed: "upper ''FAILED'' \<notin> set TERMINAL_STATUSES" by code_simp
  have "upper (rs_status r) \<notin> set TERMINAL_STATUSES"
    using finalize_order_result[OF f] assms(4) failed by (auto simp: executed_result_def)
  moreover have "tracked oid (kc_registry (es_coordinator s1))" using assms(1) finalize_order_state(2)[OF f] by simp
  ultimately have "tracked oid (kc_registry (es_coordinator (apply_execution_result_to_registry now od r s1)))"
    using assms(2,3) by (intro apply_result_tracked)
  with assms(1) f show ?thesis by (simp add: conclude_order_registry)
qed

text \<open>
  C1. No order reaches the adapter past a closed gate. If processing an order hands a request to the
  adapter, it is exactly one request; the order carries a risk decision when the trace contract is
  on, is not a shadow order, both looks at the kill switch (before and right before the call) found it
  inactive, the supervisor was ready, no bot shutdown applies; and a reduce-only order goes out only
  in the mode and with an adapter that support it, bound to this caller in the ledger, with the
  quantity the ledger granted.
\<close>

theorem handoff_needs_every_gate:
  assumes "process_order cfg rec uid now d1 d2 od s = (res, s')" "es_handoffs s' \<noteq> es_handoffs s"
  shows "\<exists>q. es_handoffs s' = es_handoffs s @ [q]
    \<and> (ec_trace_contract cfg \<longrightarrow> opt_truthy (od_decision_id od)) \<and> od_run_mode od \<noteq> Some ''shadow''
    \<and> \<not> fst (read_kill d1) \<and> \<not> fst (read_kill d2) \<and> ready_for_new_orders (es_supervisor s) \<and> \<not> shutdown_blocks od s
    \<and> eq_reduce_only q = od_reduce_only od
    \<and> (if od_reduce_only od
       then ec_mock_trading cfg \<and> ec_supports_reduce_only cfg
         \<and> (\<exists>db oid p db'. es_db s = Some db \<and> od_order_id od = Some oid \<and> od_order_id (eq_order q) = Some oid
             \<and> db_prepare_reduce_only oid (od_symbol od) (od_side od) (DecArg (float_decimal (od_quantity od))) True True db = Inr (p, db')
             \<and> pl_allowed p \<and> pl_adapter_bound p \<and> od_quantity (eq_order q) = float_of_decimal (pl_submitted p)
             \<and> eq_max_quantity q = Some (dec_str (pl_submitted p)))
       else od_quantity (eq_order q) = od_quantity od)"
proof -
  obtain pr s1 out s2 where P: "ec_trace_contract cfg \<longrightarrow> opt_truthy (od_decision_id od)" "od_run_mode od \<noteq> Some ''shadow''"
    "\<not> fst (read_kill d1)" "ready_for_new_orders (es_supervisor s)" "\<not> shutdown_blocks od s"
    "prepare_order cfg od (s\<lparr>es_received := es_received s + 1\<rparr>) = (pr, s1)" "\<And>reason. pr \<noteq> Refused reason"
    "submit_order cfg rec uid now d2 pr (prepared_quantity pr od) s1 = (out, s2)" "es_handoffs s1 = es_handoffs s"
    "es_handoffs s2 \<noteq> es_handoffs s1" "s' = (case out of Inl e \<Rightarrow> count_rejected s2 | Inr r \<Rightarrow> s2)"
    by (rule process_handoff[OF assms]) blast
  obtain exec od1 s3 a resp s4 where S: "\<not> fst (read_kill d2)"
    "register_order_pre_submit uid now (prepared_quantity pr od) s1 = (od1, s3)"
    "s4 = s3\<lparr>es_coordinator := (es_coordinator s3)\<lparr>kc_adapter_state := a\<rparr>,
             es_handoffs := es_handoffs s3 @ [adapter_request cfg pr od1]\<rparr>"
    "(out, s2) = (case resp of None \<Rightarrow> (Inl OtherError, s4) | Some x \<Rightarrow> conclude_order now pr od1 x s4)"
    by (rule submit_handoff[OF P(8,10)]) blast
  let ?q = "adapter_request cfg pr od1"
  have "es_handoffs s2 = es_handoffs s4"
  proof (cases resp)
    case (Some x)
    with S(4) show ?thesis using conclude_order_handoffs by (metis option.case(2) snd_conv)
  qed (use S(4) in simp)
  then have h: "es_handoffs s' = es_handoffs s @ [?q]"
    using P(9,11) S(3) register_pre_submit_facts(2)[OF S(2)] by (auto split: sum.splits)
  have od1: "od1 = (prepared_quantity pr od)\<lparr>od_order_id := Some (opt_or (od_order_id (prepared_quantity pr od)) uid)\<rparr>"
    by (rule register_pre_submit_facts(1)[OF S(2)])
  have q: "if od_reduce_only od
       then ec_mock_trading cfg \<and> ec_supports_reduce_only cfg
         \<and> (\<exists>db oid p db'. es_db s = Some db \<and> od_order_id od = Some oid \<and> od_order_id (eq_order ?q) = Some oid
             \<and> db_prepare_reduce_only oid (od_symbol od) (od_side od) (DecArg (float_decimal (od_quantity od))) True True db = Inr (p, db')
             \<and> pl_allowed p \<and> pl_adapter_bound p \<and> od_quantity (eq_order ?q) = float_of_decimal (pl_submitted p)
             \<and> eq_max_quantity ?q = Some (dec_str (pl_submitted p)))
       else od_quantity (eq_order ?q) = od_quantity od"
  proof (cases pr)
    case NotReduceOnly
    with prepare_not_granted[OF P(6)[unfolded NotReduceOnly]] show ?thesis
      by (simp add: od1 prepared_quantity_def adapter_request_def)
  next
    case (Refused reason)
    with P(7)[of reason] show ?thesis by blast
  next
    case (Granted p db')
    obtain db oid where g: "od_reduce_only od" "es_db s = Some db" "od_order_id od = Some oid" "oid \<noteq> []"
      "db_prepare_reduce_only oid (od_symbol od) (od_side od) (DecArg (float_decimal (od_quantity od))) True True db = Inr (p, db')"
      "pl_allowed p" "ec_mock_trading cfg" "ec_supports_reduce_only cfg"
      by (rule prepare_granted[OF P(6)[unfolded Granted]]) simp
    from allowed_is_bound[OF g(5,6)] g show ?thesis
      by (simp add: od1 Granted prepared_quantity_def adapter_request_def opt_or_def)
  qed
  have "eq_reduce_only ?q = od_reduce_only od"
    by (cases pr) (simp_all add: od1 prepared_quantity_def adapter_request_def)
  with h q P(1-5) S(1) show ?thesis by blast
qed


text \<open>
  C38. No order that was handed over is lost. Whatever happens after the call (the adapter raises, its
  answer is refused, finalization or publication fails), the order stays in the registry as residual
  unless the adapter answered with a terminal status: filled, cancelled or rejected.
\<close>

theorem handed_over_order_stays_tracked:
  assumes "process_order cfg rec uid now d1 d2 od s = (res, s')" "es_handoffs s' \<noteq> es_handoffs s" "uid \<noteq> []"
  shows "\<exists>exec q resp a. ec_adapter cfg = Some exec \<and> exec (kc_adapter_state (es_coordinator s)) q = (resp, a)
    \<and> es_handoffs s' = es_handoffs s @ [q]
    \<and> ((\<exists>x. resp = Some x \<and> upper (xr_status x) \<in> {''FILLED'', ''CANCELLED'', ''REJECTED''})
       \<or> (\<exists>r. get_order (opt_or (od_order_id od) uid) (kc_registry (es_coordinator s')) = Some r \<and> oo_residual r))"
proof -
  obtain pr s1 out s2 where P: "prepare_order cfg od (s\<lparr>es_received := es_received s + 1\<rparr>) = (pr, s1)"
    "submit_order cfg rec uid now d2 pr (prepared_quantity pr od) s1 = (out, s2)" "es_handoffs s1 = es_handoffs s"
    "es_handoffs s2 \<noteq> es_handoffs s1" "s' = (case out of Inl e \<Rightarrow> count_rejected s2 | Inr r \<Rightarrow> s2)"
    by (rule process_handoff[OF assms(1,2)]) blast
  obtain exec od1 s3 a resp s4 where S: "ec_adapter cfg = Some exec"
    "register_order_pre_submit uid now (prepared_quantity pr od) s1 = (od1, s3)"
    "exec (kc_adapter_state (es_coordinator s3)) (adapter_request cfg pr od1) = (resp, a)"
    "s4 = s3\<lparr>es_coordinator := (es_coordinator s3)\<lparr>kc_adapter_state := a\<rparr>,
             es_handoffs := es_handoffs s3 @ [adapter_request cfg pr od1]\<rparr>"
    "(out, s2) = (case resp of None \<Rightarrow> (Inl OtherError, s4) | Some x \<Rightarrow> conclude_order now pr od1 x s4)"
    by (rule submit_handoff[OF P(2,4)]) blast
  note F = register_pre_submit_facts[OF S(2)]
  let ?oid = "opt_or (od_order_id od) uid"
  have id: "od_order_id od1 = Some ?oid" "?oid \<noteq> []"
    using F(1) assms(3) by (auto simp: prepared_quantity_def opt_or_def split: prepared.split option.split)
  have t: "tracked ?oid (kc_registry (es_coordinator s4))"
    using pre_submit_tracked[OF S(2) assms(3)] id(1) by (simp add: S(4))
  have s': "es_coordinator s' = es_coordinator s2" "es_handoffs s' = es_handoffs s2"
    using P(5) by (auto split: sum.splits)
  have st: "kc_adapter_state (es_coordinator s3) = kc_adapter_state (es_coordinator s)"
    using F(5) prepare_order_state(2)[OF P(1)] by simp
  have h4: "es_handoffs s4 = es_handoffs s @ [adapter_request cfg pr od1]" using S(4) F(2) P(3) by simp
  have h: "es_handoffs s' = es_handoffs s @ [adapter_request cfg pr od1]
    \<and> ((\<exists>x. resp = Some x \<and> upper (xr_status x) \<in> {''FILLED'', ''CANCELLED'', ''REJECTED''})
       \<or> tracked ?oid (kc_registry (es_coordinator s')))"
  proof (cases resp)
    case None
    with S(5) t h4 s' show ?thesis by simp
  next
    case (Some x)
    then have c: "s2 = snd (conclude_order now pr od1 x s4)" using S(5) by (metis option.case(2) snd_conv)
    show ?thesis
    proof (cases "upper (xr_status x) \<in> {''FILLED'', ''CANCELLED'', ''REJECTED''}")
      case True
      with Some h4 s' c show ?thesis by (simp add: conclude_order_handoffs)
    next
      case False
      then have "upper (xr_status x) \<notin> set TERMINAL_STATUSES" by (auto simp: TERMINAL_STATUSES_def)
      from conclude_order_tracked[OF t id this] h4 s' c show ?thesis by (simp add: conclude_order_handoffs)
    qed
  qed
  show ?thesis
    by (rule exI[of _ exec], rule exI[of _ "adapter_request cfg pr od1"], rule exI[of _ resp], rule exI[of _ a])
      (use h S(1,3) st in \<open>simp add: tracked_def get_order_def\<close>)
qed

subsection \<open>Reduce-only orders over restarts and workers\<close>

text \<open>
  A step of the system around one ledger: an order is processed by a process in any state, another
  transaction runs on the ledger, or a process starts or changes anything but the ledger.
\<close>

datatype service_event = Processed "exec_request list" | Elsewhere

inductive service_step :: "'a service \<Rightarrow> service_event \<Rightarrow> 'a service \<Rightarrow> bool" where
  process_step: "process_order cfg rec uid now d1 d2 od s = (res, s') \<Longrightarrow> es_handoffs s' = es_handoffs s @ qs
    \<Longrightarrow> service_step s (Processed qs) s'"
| ledger_elsewhere: "es_db s = Some db \<Longrightarrow> ledger_step db e db' \<Longrightarrow> service_step s Elsewhere (s\<lparr>es_db := Some db'\<rparr>)"
| other_change: "es_db s' = es_db s \<Longrightarrow> service_step s Elsewhere s'"

definition service_phase :: "'a service \<Rightarrow> string \<Rightarrow> nat" where
  "service_phase s oid = (case es_db s of None \<Rightarrow> 0 | Some db \<Rightarrow> order_phase db oid)"

definition handed_reduce_only :: "service_event \<Rightarrow> string option" where
  "handed_reduce_only e = (case e of
     Processed [q] \<Rightarrow> if eq_reduce_only q then od_order_id (eq_order q) else None | _ \<Rightarrow> None)"

lemma finalize_order_phase:
  "finalize_order pr od r s = (r', s') \<Longrightarrow> service_phase s x \<le> service_phase s' x"
  by (auto simp: finalize_order_def service_phase_def dest!: db_finalize_effect
      split: prepared.splits option.splits sum.splits prod.splits)

lemma conclude_order_phase: "service_phase s x \<le> service_phase (snd (conclude_order now pr od y s)) x"
proof -
  obtain r s1 where f: "finalize_order pr od (executed_result od y) s = (r, s1)" by (rule prod.exhaust)
  have "es_db (snd (conclude_order now pr od y s)) = es_db s \<or> es_db (snd (conclude_order now pr od y s)) = es_db s1"
    by (simp add: conclude_order_def f Let_def finish_with_state apply_result_state)
  with finalize_order_phase[OF f, of x] show ?thesis by (auto simp: service_phase_def)
qed

lemma submit_order_phase: "service_phase s x \<le> service_phase (snd (submit_order cfg rec uid now d2 pr od s)) x"
proof -
  obtain od1 s1 where r: "register_order_pre_submit uid now od s = (od1, s1)" by (rule prod.exhaust)
  have db: "service_phase s x = service_phase s1 x" using register_pre_submit_facts(3)[OF r] by (simp add: service_phase_def)
  obtain active reason message act_at where d: "read_kill d2 = (active, reason, message, act_at)" by (metis prod.exhaust)
  show ?thesis
  proof (cases "ec_adapter cfg")
    case None
    then show ?thesis by (simp add: submit_order_def)
  next
    case (Some exec)
    obtain resp a where e: "exec (kc_adapter_state (es_coordinator s1)) (adapter_request cfg pr od1) = (resp, a)" by (rule prod.exhaust)
    have same: "service_phase (s1\<lparr>es_coordinator := c, es_handoffs := h\<rparr>) x = service_phase s1 x" for c h
      by (simp add: service_phase_def)
    show ?thesis
    proof (cases active)
      case True
      obtain m supv c where t: "on_kill_transition rec now True (case reason of None \<Rightarrow> ''None'' | Some t \<Rightarrow> t) NoTime
        (es_supervisor s1, es_coordinator s1) = (m, supv, c)" by (metis prod.exhaust)
      with True db show ?thesis
        by (simp add: submit_order_def Some r d Let_def service_phase_def reject_order_state)
    next
      case False
      with db e conclude_order_phase show ?thesis
        by (cases resp) (auto simp: submit_order_def Some r d Let_def same intro: order_trans[OF _ conclude_order_phase])
    qed
  qed
qed

lemma prepare_order_phase:
  "prepare_order cfg od s = (pr, s1) \<Longrightarrow> service_phase s x \<le> service_phase s1 x"
  by (auto simp: prepare_order_def service_phase_def phase_effect_def dest!: db_prepare_effect
      split: if_splits option.splits sum.splits prod.splits)

lemma process_order_phase:
  assumes "process_order cfg rec uid now d1 d2 od s = (res, s')"
  shows "service_phase s x \<le> service_phase s' x"
proof -
  let ?s = "s\<lparr>es_received := es_received s + 1\<rparr>"
  obtain out s2 where b: "process_body cfg rec uid now d1 d2 od s = (out, s2)" by (rule prod.exhaust)
  obtain pr s1 where p: "prepare_order cfg od ?s = (pr, s1)" by (rule prod.exhaust)
  have r: "service_phase (snd (reject_order od r s0)) x = service_phase s0 x" for r s0
    by (simp add: service_phase_def reject_order_state)
  have "service_phase s x \<le> service_phase s1 x"
    using prepare_order_phase[OF p, of x] by (simp add: service_phase_def)
  moreover have "service_phase (s\<lparr>es_received := n\<rparr>) x = service_phase s x"
    "service_phase (s\<lparr>es_received := n, es_shadow_blocked := k\<rparr>) x = service_phase s x" for n k
    by (simp_all add: service_phase_def)
  moreover have "service_phase s1 x \<le> service_phase (snd (case pr of Refused reason \<Rightarrow> reject_reduce_only od reason s1
      | _ \<Rightarrow> submit_order cfg rec uid now d2 pr (prepared_quantity pr od) s1)) x"
    using submit_order_phase by (cases pr) (simp_all add: service_phase_def reject_reduce_only_state)
  ultimately have "service_phase s x \<le> service_phase (snd (process_body cfg rec uid now d1 d2 od s)) x"
    using p by (cases pr) (auto simp: process_body_def Let_def r)
  moreover have "service_phase s' x = service_phase s2 x"
    using assms b by (auto simp: process_order_def service_phase_def split: sum.splits)
  ultimately show ?thesis using b by simp
qed


lemma process_order_grants:
  assumes "process_order cfg rec uid now d1 d2 od s = (res, s')" "es_handoffs s' = es_handoffs s @ [q]"
    "eq_reduce_only q" "od_order_id (eq_order q) = Some oid"
  shows "service_phase s oid < 3 \<and> 3 \<le> service_phase s' oid"
proof -
  have "es_handoffs s' \<noteq> es_handoffs s" using assms(2) by simp
  then obtain pr s1 out s2 where P: "prepare_order cfg od (s\<lparr>es_received := es_received s + 1\<rparr>) = (pr, s1)"
    "submit_order cfg rec uid now d2 pr (prepared_quantity pr od) s1 = (out, s2)" "es_handoffs s1 = es_handoffs s"
    "es_handoffs s2 \<noteq> es_handoffs s1" "s' = (case out of Inl e \<Rightarrow> count_rejected s2 | Inr r \<Rightarrow> s2)" "\<And>reason. pr \<noteq> Refused reason"
    by (rule process_handoff[OF assms(1)]) blast
  obtain exec od1 s3 a resp s4 where S:
    "register_order_pre_submit uid now (prepared_quantity pr od) s1 = (od1, s3)"
    "s4 = s3\<lparr>es_coordinator := (es_coordinator s3)\<lparr>kc_adapter_state := a\<rparr>,
             es_handoffs := es_handoffs s3 @ [adapter_request cfg pr od1]\<rparr>"
    "(out, s2) = (case resp of None \<Rightarrow> (Inl OtherError, s4) | Some x \<Rightarrow> conclude_order now pr od1 x s4)"
    by (rule submit_handoff[OF P(2,4)]) blast
  note F = register_pre_submit_facts[OF S(1)]
  have "es_handoffs s2 = es_handoffs s4"
  proof (cases resp)
    case (Some x)
    with S(3) show ?thesis using conclude_order_handoffs by (metis option.case(2) snd_conv)
  qed (use S(3) in simp)
  then have "es_handoffs s' = es_handoffs s @ [adapter_request cfg pr od1]"
    using P(3,5) S(2) F(2) by (auto split: sum.splits)
  with assms(2) have q: "q = adapter_request cfg pr od1" by simp
  show ?thesis
  proof (cases pr)
    case NotReduceOnly
    with prepare_not_granted[OF P(1)[unfolded NotReduceOnly]] assms(3) show ?thesis
      by (simp add: q F(1) prepared_quantity_def adapter_request_def)
  next
    case (Refused reason)
    with P(6)[of reason] show ?thesis by blast
  next
    case (Granted p db')
    obtain db oid' where g: "es_db s = Some db" "od_order_id od = Some oid'" "oid' \<noteq> []"
      "db_prepare_reduce_only oid' (od_symbol od) (od_side od) (DecArg (float_decimal (od_quantity od))) True True db = Inr (p, db')"
      "pl_allowed p" "es_db s1 = Some db'"
      by (rule prepare_granted[OF P(1)[unfolded Granted]]) simp
    have oid: "oid = oid'" using assms(4) g(2,3) by (simp add: q F(1) Granted prepared_quantity_def adapter_request_def opt_or_def)
    have "order_phase db oid < 3 \<and> order_phase db' oid = 3"
      using db_prepare_effect[OF g(4)] allowed_is_bound[OF g(4,5)] by (simp add: phase_effect_def oid)
    moreover have "service_phase s1 oid \<le> service_phase s2 oid"
      using submit_order_phase[of s1 oid cfg rec uid now d2 pr "prepared_quantity pr od"] P(2) by simp
    moreover have "service_phase s' oid = service_phase s2 oid" using P(5) by (auto simp: service_phase_def split: sum.splits)
    ultimately show ?thesis using g(1,6) by (simp add: service_phase_def)
  qed
qed

interpretation handing: one_shot service_step service_phase 3 handed_reduce_only
proof unfold_locales
  show "service_step s e s' \<Longrightarrow> service_phase s x \<le> service_phase s' x" for s s' :: "'a service" and e x
  proof (induction rule: service_step.induct)
    case (process_step cfg rec uid now d1 d2 od s res s' qs)
    from process_step(1) show ?case by (rule process_order_phase)
  qed (simp_all add: service_phase_def ledger_step_mono)
  have grant: "service_step s e s' \<Longrightarrow> handed_reduce_only e = Some x \<Longrightarrow> service_phase s x < 3 \<and> 3 \<le> service_phase s' x"
    for s s' :: "'a service" and e x
  proof (induction rule: service_step.induct)
    case (process_step cfg rec uid now d1 d2 od s res s' qs)
    from process_step(3) obtain q where "qs = [q]" "eq_reduce_only q" "od_order_id (eq_order q) = Some x"
      by (auto simp: handed_reduce_only_def split: list.splits if_splits)
    with process_order_grants[OF process_step(1)] process_step(2) show ?case by simp
  qed (simp_all add: handed_reduce_only_def)
  show "service_step s e s' \<Longrightarrow> handed_reduce_only e = Some x \<Longrightarrow> service_phase s x < 3" for s s' :: "'a service" and e x
    using grant by blast
  show "service_step s e s' \<Longrightarrow> handed_reduce_only e = Some x \<Longrightarrow> 3 \<le> service_phase s' x" for s s' :: "'a service" and e x
    using grant by blast
qed

text \<open>
  C2. A reduce-only order reaches an adapter at most once, over all time. In any run of order
  processing by any workers in any states over one ledger, interleaved with any other transactions on
  the ledger and with restarts, no two requests for the same reduce-only order are handed to an adapter.
\<close>

theorem reduce_only_handed_over_once:
  assumes "event_run service_step s es s'"
  shows "distinct (List.map_filter handed_reduce_only es)"
  by (rule handing.granted_once[OF assms])

text \<open>
  An executed order can go unreported. When the order's market context is not an object,
  building the result metadata raises after the adapter was called: \<open>process_order\<close> returns
  nothing and publishes nothing, whatever the adapter did.
\<close>

theorem bad_context_hides_execution:
  assumes "process_order cfg rec uid now d1 d2 od s = (res, s')" "es_handoffs s' \<noteq> es_handoffs s" "\<not> od_context_ok od"
  shows "res = None \<and> es_published s' = es_published s"
proof -
  obtain pr s1 out s2 where P: "prepare_order cfg od (s\<lparr>es_received := es_received s + 1\<rparr>) = (pr, s1)"
    "submit_order cfg rec uid now d2 pr (prepared_quantity pr od) s1 = (out, s2)" "es_handoffs s1 = es_handoffs s"
    "es_handoffs s2 \<noteq> es_handoffs s1" "s' = (case out of Inl e \<Rightarrow> count_rejected s2 | Inr r \<Rightarrow> s2)"
    "res = (case out of Inl e \<Rightarrow> None | Inr r \<Rightarrow> Some r)"
    by (rule process_handoff[OF assms(1,2)]) blast
  obtain exec od1 s3 a resp s4 where S:
    "register_order_pre_submit uid now (prepared_quantity pr od) s1 = (od1, s3)"
    "s4 = s3\<lparr>es_coordinator := (es_coordinator s3)\<lparr>kc_adapter_state := a\<rparr>,
             es_handoffs := es_handoffs s3 @ [adapter_request cfg pr od1]\<rparr>"
    "(out, s2) = (case resp of None \<Rightarrow> (Inl OtherError, s4) | Some x \<Rightarrow> conclude_order now pr od1 x s4)"
    by (rule submit_handoff[OF P(2,4)]) blast
  have bad: "\<not> od_context_ok od1"
    using register_pre_submit_facts(1)[OF S(1)] assms(3) by (simp add: prepared_quantity_def split: prepared.split)
  have pub: "es_published s4 = es_published s"
    using S(2) register_pre_submit_facts(4)[OF S(1)] prepare_order_state(4)[OF P(1)] by simp
  have "(\<exists>e. out = Inl e) \<and> es_published s2 = es_published s4"
  proof (cases resp)
    case None
    with S(3) show ?thesis by simp
  next
    case (Some x)
    obtain r s5 where f: "finalize_order pr od1 (executed_result od1 x) s4 = (r, s5)" by (rule prod.exhaust)
    from Some S(3) bad finalize_order_state(3)[OF f] show ?thesis
      by (auto simp: conclude_order_def f apply_result_state Let_def split: if_splits)
  qed
  with P(5,6) pub show ?thesis by auto
qed

text \<open>A fill while a kill event is remembered.\<close>

lemma poisoned_fill:
  assumes "process_order cfg rec uid now d1 d2 od s = (res, s')" "es_handoffs s' \<noteq> es_handoffs s" "uid \<noteq> []"
    and "opt_truthy (kc_event (es_coordinator s))" "\<not> od_reduce_only od" "ec_adapter cfg = Some exec"
    and "\<forall>q. \<exists>x a. exec (kc_adapter_state (es_coordinator s)) q = (Some x, a) \<and> xr_status x = ''FILLED'' \<and> fl_lt fl_zero (xr_filled x)"
  shows "\<exists>r. get_order (opt_or (od_order_id od) uid) (kc_registry (es_coordinator s')) = Some r \<and> oo_residual r"
    "\<exists>f \<in> set (kc_fills (es_coordinator s')). fe_internal_id f = opt_or (od_order_id od) uid"
    "opt_truthy (kc_event (es_coordinator s'))"
proof -
  obtain pr s1 out s2 where P: "prepare_order cfg od (s\<lparr>es_received := es_received s + 1\<rparr>) = (pr, s1)"
    "submit_order cfg rec uid now d2 pr (prepared_quantity pr od) s1 = (out, s2)" "es_handoffs s1 = es_handoffs s"
    "es_handoffs s2 \<noteq> es_handoffs s1" "s' = (case out of Inl e \<Rightarrow> count_rejected s2 | Inr r \<Rightarrow> s2)"
    by (rule process_handoff[OF assms(1,2)]) blast
  obtain od1 s3 a resp s4 where S:
    "register_order_pre_submit uid now (prepared_quantity pr od) s1 = (od1, s3)"
    "exec (kc_adapter_state (es_coordinator s3)) (adapter_request cfg pr od1) = (resp, a)"
    "s4 = s3\<lparr>es_coordinator := (es_coordinator s3)\<lparr>kc_adapter_state := a\<rparr>,
             es_handoffs := es_handoffs s3 @ [adapter_request cfg pr od1]\<rparr>"
    "(out, s2) = (case resp of None \<Rightarrow> (Inl OtherError, s4) | Some x \<Rightarrow> conclude_order now pr od1 x s4)"
    by (rule submit_handoff[OF P(2,4)]) (use assms(6) in auto)
  note F = register_pre_submit_facts[OF S(1)]
  have pr: "pr = NotReduceOnly" "\<not> od_reduce_only od1"
    using P(1) assms(5) F(1) by (auto simp: prepare_order_def prepared_quantity_def)
  have c1: "es_coordinator s1 = es_coordinator s" using prepare_order_state(2)[OF P(1)] by simp
  obtain x where x: "resp = Some x" "xr_status x = ''FILLED''" "fl_lt fl_zero (xr_filled x)"
    using assms(7)[rule_format, of "adapter_request cfg pr od1"] S(2) F(5) c1 by auto
  let ?oid = "opt_or (od_order_id od) uid"
  have id: "od_order_id od1 = Some ?oid" "?oid \<noteq> []"
    using F(1) assms(3) by (auto simp: pr(1) prepared_quantity_def opt_or_def split: option.split)
  have t: "tracked ?oid (kc_registry (es_coordinator s4))"
    using pre_submit_tracked[OF S(1) assms(3)] id(1) by (simp add: S(3))
  have ev: "opt_truthy (kc_event (es_coordinator s4))" using F(6) c1 assms(4) by (simp add: S(3))
  have up: "upper ''FILLED'' = ''FILLED''" by code_simp
  have "es_coordinator s' = es_coordinator s2" using P(5) by (auto split: sum.splits)
  moreover have "s2 = snd (conclude_order now pr od1 x s4)" using S(4) x(1) by (metis option.case(2) snd_conv)
  ultimately have c': "es_coordinator s' = note_fill_after_kill now ?oid (Some (xr_order_id x)) (od_symbol od1) (xr_filled x) (es_coordinator s4)"
    using id ev x(2,3) up pr by (simp add: conclude_order_def finalize_order_def executed_result_def Let_def
        apply_execution_result_to_registry_def opt_or_def finish_with_state count_rejected_def)
  have "tracked ?oid (kc_registry (es_coordinator s'))"
    using apply_op_tracked[OF t, of "MarkCancel now ?oid (kc_state_value FILL_AFTER_KILL_VIOLATION) RC_FILL_AFTER_KILL_ACTIVATION None False"] ev
    by (simp add: c' note_fill_after_kill_def)
  moreover have "\<exists>f \<in> set (kc_fills (es_coordinator s')). fe_internal_id f = ?oid" "opt_truthy (kc_event (es_coordinator s'))"
    using ev by (simp_all add: c' note_fill_after_kill_def)
  ultimately show "\<exists>r. get_order ?oid (kc_registry (es_coordinator s')) = Some r \<and> oo_residual r"
    "\<exists>f \<in> set (kc_fills (es_coordinator s')). fe_internal_id f = ?oid" "opt_truthy (kc_event (es_coordinator s'))"
    by (simp_all add: tracked_def get_order_def)
qed

text \<open>
  The life of one process of the service after a kill. The reconciler is the coordinator's
  \<open>reconcile\<close>, with any adapter, clock, positions and reading of the switch; between the steps
  anything but the coordinator's own memory may change. A restart makes a new coordinator.
\<close>

definition coordinator_reconciler ::
  "(string \<Rightarrow> string) \<Rightarrow> (string \<Rightarrow> string) \<Rightarrow> string \<Rightarrow> 'a adapter option \<Rightarrow> resolver \<Rightarrow> string \<Rightarrow> string \<Rightarrow> 'a reconciler" where
  "coordinator_reconciler sha uuid5 commit ad pos t src =
     (\<lambda>ks kr ka c. reconcile sha uuid5 commit ad pos t ks kr (Some ka) None src c)"

inductive service_life :: "'a service \<Rightarrow> 'a service \<Rightarrow> bool" where
  life_start: "service_life s s"
| life_order: "service_life s s1 \<Longrightarrow> rec = coordinator_reconciler sha uuid5 commit ad pos t src
    \<Longrightarrow> process_order cfg rec uid now d1 d2 od s1 = (res, s2) \<Longrightarrow> service_life s s2"
| life_supervisor: "service_life s s1 \<Longrightarrow> rec = coordinator_reconciler sha uuid5 commit ad pos t src
    \<Longrightarrow> sv_apply rec call (es_supervisor s1, es_coordinator s1) = (sv, c)
    \<Longrightarrow> service_life s (s1\<lparr>es_supervisor := sv, es_coordinator := c\<rparr>)"
| life_shutdown: "service_life s s1 \<Longrightarrow> rec = coordinator_reconciler sha uuid5 commit ad pos t src
    \<Longrightarrow> service_life s (handle_bot_shutdown rec now strategy_id bot_id reason s1)"
| life_elsewhere: "service_life s s1
    \<Longrightarrow> es_coordinator s2 = (es_coordinator s1)\<lparr>kc_registry := rg, kc_adapter_state := a\<rparr> \<Longrightarrow> service_life s s2"

text \<open>A coordinator forgets no kill event and no fill.\<close>

definition remembers :: "'a coordinator \<Rightarrow> 'a coordinator \<Rightarrow> bool" where
  "remembers c c' \<longleftrightarrow> (opt_truthy (kc_event c) \<longrightarrow> opt_truthy (kc_event c')) \<and> (\<exists>fs. kc_fills c' = kc_fills c @ fs)"

lemma remembers_refl [simp]: "remembers c c" by (simp add: remembers_def)

lemma remembers_trans: "remembers c c1 \<Longrightarrow> remembers c1 c2 \<Longrightarrow> remembers c c2"
  by (auto simp: remembers_def)

lemma remembers_update [simp]: "remembers c (c1\<lparr>kc_registry := rg\<rparr>) = remembers c c1"
  "remembers c (c1\<lparr>kc_adapter_state := a\<rparr>) = remembers c c1"
  by (simp_all add: remembers_def)

lemma reconcile_memory:
  "opt_truthy (kc_event (snd (coordinator_reconciler sha uuid5 commit ad pos t src ks kr ka c)))"
  "kc_fills (snd (coordinator_reconciler sha uuid5 commit ad pos t src ks kr ka c)) = kc_fills c"
  by (simp_all add: coordinator_reconciler_def reconcile_def Let_def opt_truthy_def build_kill_event_id_def split: prod.split)

lemma reconcile_remembers: "remembers c (snd (coordinator_reconciler sha uuid5 commit ad pos t src ks kr ka c))"
  by (simp add: remembers_def reconcile_memory)

lemma note_fill_remembers: "remembers c (note_fill_after_kill now oid v sy q c)"
  by (simp add: note_fill_after_kill_def remembers_def)

lemma conclude_order_remembers: "remembers (es_coordinator s) (es_coordinator (snd (conclude_order now pr od x s)))"
proof -
  obtain r s1 where f: "finalize_order pr od (executed_result od x) s = (r, s1)" by (rule prod.exhaust)
  have "remembers (es_coordinator s1) (es_coordinator (apply_execution_result_to_registry now od r s1))"
    by (simp add: apply_execution_result_to_registry_def Let_def note_fill_remembers on_registry_def)
  with finalize_order_state(2)[OF f] show ?thesis
    by (simp add: conclude_order_def f Let_def finish_with_state count_rejected_def)
qed

lemma submit_order_remembers:
  assumes "\<And>ks kr ka c. remembers c (snd (rec ks kr ka c))"
  shows "remembers (es_coordinator s) (es_coordinator (snd (submit_order cfg rec uid now d2 pr od s)))"
proof -
  obtain od1 s1 where r: "register_order_pre_submit uid now od s = (od1, s1)" by (rule prod.exhaust)
  have s1: "remembers (es_coordinator s) (es_coordinator s1)"
    using r by (auto simp: register_order_pre_submit_def Let_def on_registry_def)
  obtain active reason message act_at where d: "read_kill d2 = (active, reason, message, act_at)" by (metis prod.exhaust)
  show ?thesis
  proof (cases "ec_adapter cfg")
    case None
    then show ?thesis by (simp add: submit_order_def)
  next
    case (Some exec)
    obtain resp a where e: "exec (kc_adapter_state (es_coordinator s1)) (adapter_request cfg pr od1) = (resp, a)" by (rule prod.exhaust)
    show ?thesis
    proof (cases active)
      case True
      have "remembers (es_coordinator s1) (snd (snd (on_kill_transition rec now True why NoTime (es_supervisor s1, es_coordinator s1))))" for why
        using assms by (auto simp: on_kill_transition_def Let_def split: prod.split) (metis snd_conv)+
      with True s1 show ?thesis
        by (auto simp: submit_order_def Some r d Let_def reject_order_state split: prod.split intro: remembers_trans) (metis remembers_trans snd_conv)+
    next
      case False
      let ?s = "s1\<lparr>es_coordinator := (es_coordinator s1)\<lparr>kc_adapter_state := a\<rparr>, es_handoffs := es_handoffs s1 @ [adapter_request cfg pr od1]\<rparr>"
      have "remembers (es_coordinator s) (es_coordinator ?s)" using s1 by simp
      with False e s1 remembers_trans[OF this conclude_order_remembers] show ?thesis
        by (cases resp) (simp_all add: submit_order_def Some r d Let_def)
    qed
  qed
qed

lemma process_order_remembers:
  assumes "process_order cfg rec uid now d1 d2 od s = (res, s')" "\<And>ks kr ka c. remembers c (snd (rec ks kr ka c))"
  shows "remembers (es_coordinator s) (es_coordinator s')"
proof -
  let ?s = "s\<lparr>es_received := es_received s + 1\<rparr>"
  obtain out s2 where b: "process_body cfg rec uid now d1 d2 od s = (out, s2)" by (rule prod.exhaust)
  obtain pr s1 where p: "prepare_order cfg od ?s = (pr, s1)" by (rule prod.exhaust)
  have s1: "es_coordinator s1 = es_coordinator s" using prepare_order_state(2)[OF p] by simp
  have "remembers (es_coordinator s) (es_coordinator (snd (case pr of Refused reason \<Rightarrow> reject_reduce_only od reason s1
      | _ \<Rightarrow> submit_order cfg rec uid now d2 pr (prepared_quantity pr od) s1)))"
    using submit_order_remembers[OF assms(2), of s1] s1
    by (cases pr) (simp_all add: reject_reduce_only_def Let_def reject_order_state)
  then have "remembers (es_coordinator s) (es_coordinator (snd (process_body cfg rec uid now d1 d2 od s)))"
    using p by (cases pr) (auto simp: process_body_def Let_def reject_order_state)
  moreover have "es_coordinator s' = es_coordinator s2" using assms(1) b by (auto simp: process_order_def split: sum.splits)
  ultimately show ?thesis using b by simp
qed

lemma sv_apply_remembers:
  assumes "\<And>ks kr ka c. remembers c (snd (rec ks kr ka c))"
  shows "remembers (snd w) (snd (sv_apply rec call w))"
proof -
  have gate: "remembers (snd w) (snd (snd (run_startup_gate rec now d w)))" for now d
    using assms by (auto simp: run_startup_gate_def Let_def split: prod.split) (metis snd_conv)+
  have transition: "remembers (snd w) (snd (snd (on_kill_transition rec now active reason act_at w)))" for now active reason act_at
    using assms by (auto simp: on_kill_transition_def Let_def split: prod.split) (metis snd_conv)+
  have "remembers (snd w) (snd (snd (poll_once rec now d d' w)))" for now d d'
    using gate transition by (auto simp: poll_once_def split: prod.split option.split)
  with gate transition show ?thesis by (cases call) simp_all
qed

lemma service_life_remembers: "service_life s s' \<Longrightarrow> remembers (es_coordinator s) (es_coordinator s')"
proof (induction rule: service_life.induct)
  case (life_order s s1 rec sha uuid5 commit ad pos t src cfg uid now d1 d2 od res s2)
  from process_order_remembers[OF life_order(3)] life_order(4) show ?case
    by (auto simp: life_order(2) reconcile_remembers intro: remembers_trans)
next
  case (life_supervisor s s1 rec sha uuid5 commit ad pos t src call sv c)
  from sv_apply_remembers[of rec "(es_supervisor s1, es_coordinator s1)" call] life_supervisor(3,4) show ?case
    by (auto simp: life_supervisor(2) reconcile_remembers intro: remembers_trans)
next
  case (life_shutdown s s1 rec sha uuid5 commit ad pos t src now strategy_id bot_id reason)
  then show ?case by (auto simp: handle_bot_shutdown_def reconcile_remembers intro: remembers_trans)
qed simp_all

text \<open>
  C40. A kill that is over still poisons every later fill. Once the coordinator has reconciled for a
  kill, it remembers the event through all orders, supervisor calls, bot shutdowns and reconciliations
  that follow, until the process restarts. An order that is not reduce-only and is then handed over to
  an adapter that answers FILLED, also with the switch inactive and the supervisor ready, is taken for a
  fill after the kill: processing leaves it in the registry as a residual order, the fill is never
  forgotten, and every reconciliation after it, however much happens in between, fails.
\<close>

theorem fill_after_released_kill:
  assumes "es_coordinator killed = snd (coordinator_reconciler sha0 uuid0 commit0 ad0 pos0 t0 src0 ks0 kr0 ka0 c0)"
    and "service_life killed s"
    and "process_order cfg rec uid now d1 d2 od s = (res, s')" "es_handoffs s' \<noteq> es_handoffs s" "uid \<noteq> []"
    and "\<not> od_reduce_only od" "ec_adapter cfg = Some exec"
    and "\<forall>q. \<exists>x a. exec (kc_adapter_state (es_coordinator s)) q = (Some x, a) \<and> xr_status x = ''FILLED'' \<and> fl_lt fl_zero (xr_filled x)"
    and "service_life s' s''"
  shows "(\<exists>r. get_order (opt_or (od_order_id od) uid) (kc_registry (es_coordinator s')) = Some r \<and> oo_residual r)
    \<and> opt_truthy (kc_event (es_coordinator s''))
    \<and> (\<exists>f \<in> set (kc_fills (es_coordinator s'')). fe_internal_id f = opt_or (od_order_id od) uid)
    \<and> mf_verdict (fst (reconcile sha uuid5 commit ad pos t ks kr ka run src (es_coordinator s''))) = FAIL"
proof -
  have "opt_truthy (kc_event (es_coordinator s))"
    using service_life_remembers[OF assms(2)] by (simp add: remembers_def assms(1) reconcile_memory(1))
  note F = poisoned_fill[OF assms(3-5) this assms(6-8)]
  from service_life_remembers[OF assms(9)] F(2,3)
  have m: "opt_truthy (kc_event (es_coordinator s''))"
    "\<exists>f \<in> set (kc_fills (es_coordinator s'')). fe_internal_id f = opt_or (od_order_id od) uid"
    by (auto simp: remembers_def)
  then have "kc_fills (es_coordinator s'') \<noteq> []" by auto
  then have "mf_verdict (fst (reconcile sha uuid5 commit ad pos t ks kr ka run src (es_coordinator s''))) = FAIL"
    by (simp add: reconcile_def Let_def verdict_of_def split: prod.split)
  with F(1) m show ?thesis by blast
qed

text \<open>
  C39. The gates block nothing else. An ordinary order with a risk decision that meets no closed gate is
  handed to the adapter exactly once, as it came, under its own identifier or, if it has none, the new one.
\<close>

theorem open_gates_hand_over:
  assumes "ec_trace_contract cfg \<longrightarrow> opt_truthy (od_decision_id od)" "od_run_mode od \<noteq> Some ''shadow''"
    "\<not> fst (read_kill d1)" "\<not> fst (read_kill d2)" "ready_for_new_orders (es_supervisor s)" "\<not> shutdown_blocks od s"
    and "\<not> od_reduce_only od" "ec_adapter cfg = Some exec"
  shows "\<exists>q. es_handoffs (snd (process_order cfg rec uid now d1 d2 od s)) = es_handoffs s @ [q]
    \<and> eq_order q = od\<lparr>od_order_id := Some (opt_or (od_order_id od) uid)\<rparr>"
proof -
  let ?s = "s\<lparr>es_received := es_received s + 1\<rparr>"
  have "prepare_order cfg od ?s = (NotReduceOnly, ?s)" using assms(7) by (simp add: prepare_order_def)
  with open_gates[OF assms(1-3,5,6), of rec uid now d2]
  have b: "process_body cfg rec uid now d1 d2 od s = submit_order cfg rec uid now d2 NotReduceOnly od ?s"
    by (simp add: prepared_quantity_def)
  obtain q where q: "es_handoffs (snd (submit_order cfg rec uid now d2 NotReduceOnly od ?s)) = es_handoffs ?s @ [q]"
    "eq_order q = od\<lparr>od_order_id := Some (opt_or (od_order_id od) uid)\<rparr>"
    by (rule submit_hands_over[OF assms(8,4)])
  have "es_handoffs (snd (process_order cfg rec uid now d1 d2 od s)) = es_handoffs s @ [q]"
    using q(1) by (auto simp: process_order_def b split: prod.split sum.split)
  with q(2) show ?thesis by blast
qed

text \<open>A worked example.\<close>

definition sample_reduce_only :: order where
  "sample_reduce_only = \<lparr>od_symbol = ''BTCUSDT'', od_side = ''SELL'', od_quantity = FFin False 6755399441055744 (- 52),
     od_strategy_id = None, od_bot_id = None, od_client_id = None, od_decision_id = Some ''d1'', od_order_id = Some ''o1'',
     od_run_mode = Some ''paper'', od_reduce_only = True, od_context_ok = True\<rparr>"

definition sample_exec :: "unit exec_method" where
  "sample_exec a q = (Some \<lparr>xr_status = ''FILLED'', xr_order_id = ''v1'', xr_filled = FFin False 6755399441055744 (- 52),
     xr_price = None, xr_error = None, xr_acknowledged = True\<rparr>, a)"

definition sample_exec_config :: "unit exec_config" where
  "sample_exec_config = \<lparr>ec_trace_contract = True, ec_mock_trading = True, ec_supports_reduce_only = True,
     ec_adapter = Some sample_exec\<rparr>"

definition sample_service :: "unit service" where
  "sample_service = \<lparr>es_supervisor = new_supervisor\<lparr>sv_orders_accepted := True, sv_hold_new_orders := False\<rparr>,
     es_coordinator = sample_coordinator, es_db = Some sample_db, es_received = 0, es_rejected = 0, es_filled = 0,
     es_shadow_blocked = 0, es_shutdown = False, es_blocked_strategies = [], es_blocked_bots = [],
     es_published = [], es_faults = [], es_handoffs = []\<rparr>"

definition killed_before :: "unit service" where
  "killed_before = sample_service\<lparr>es_coordinator :=
     snd (coordinator_reconciler (\<lambda>s. s) (\<lambda>s. s) ''sha'' None None ''t'' ''registry'' ''active'' ''manual'' ''t'' sample_coordinator)\<rparr>"

definition no_kill :: "kill_reading option" where
  "no_kill = Some (False, None, [], NoTime)"

lemma sample_rounds:
  "fl_round False 1 1 = FFin False 4503599627370496 (- 52)" "fl_round False 2 1 = FFin False 4503599627370496 (- 51)"
  "fl_round False 15 10 = FFin False 6755399441055744 (- 52)" "fl_round False 16 10 = FFin False 7205759403792794 (- 52)"
  by (simp_all add: fl_eval)

lemma sample_decpt: "decpt 6755399441055744 4503599627370496 = 1"
  by (simp add: decpt_def fl_eval scaled10_def)

lemma sample_digits:
  "digits_candidate (FFin False 6755399441055744 (- 52)) 6755399441055744 4503599627370496 1 = None"
  "digits_candidate (FFin False 6755399441055744 (- 52)) 6755399441055744 4503599627370496 2 = Some (15, - 1)"
  by (simp_all add: digits_candidate_def sample_decpt scaled10_def fl_of_digits_def sample_rounds[unfolded One_nat_def] sample_rounds numeral_2_eq_2[symmetric] Let_def)

lemma sample_quantity: "float_decimal (FFin False 6755399441055744 (- 52)) = DFin False 15 (- 1)"
  by (simp add: shortest_digits_def fl_fraction_def digit_counts sample_digits[unfolded One_nat_def] sample_digits del: upt_rec_numeral)

lemma sample_bound:
  obtains p db' where "db_prepare_reduce_only ''o1'' ''BTCUSDT'' ''SELL'' (DecArg (DFin False 15 (- 1))) True True sample_db = Inr (p, db')"
    "pl_allowed p"
proof -
  have "dec_eq (lr_requested sample_row) (DFin False 15 (- 1))" by (simp add: dec_val_def sgn_of_def power_int_def power_divide)
  then show ?thesis
    using that by (simp add: db_prepare_reduce_only_def reenter_prepared_def reduce_only_fields_match_def is_finite_def
        bind_prepared_for_adapter_def Let_def BINDABLE_REASONS_def)
qed

lemma sample_prepared:
  obtains p db' s1 where "prepare_order sample_exec_config sample_reduce_only (sample_service\<lparr>es_coordinator := c, es_received := 1\<rparr>) = (Granted p db', s1)"
    "es_handoffs s1 = []"
proof -
  obtain p db' where "db_prepare_reduce_only ''o1'' ''BTCUSDT'' ''SELL'' (DecArg (DFin False 15 (- 1))) True True sample_db = Inr (p, db')"
    "pl_allowed p" by (rule sample_bound)
  then have "prepare_order sample_exec_config sample_reduce_only (sample_service\<lparr>es_coordinator := c, es_received := 1\<rparr>)
      = (Granted p db', sample_service\<lparr>es_coordinator := c, es_received := 1, es_db := Some db'\<rparr>)"
    by (simp add: prepare_order_def sample_reduce_only_def sample_exec_config_def sample_service_def opt_truthy_def
        sample_quantity del: float_decimal.simps)
  then show ?thesis by (rule that) (simp add: sample_service_def)
qed

lemma sample_process:
  assumes "od = sample_reduce_only \<or> od = sample_reduce_only\<lparr>od_reduce_only := False, od_context_ok := ok\<rparr>"
    and s: "s = sample_service \<or> s = killed_before"
  obtains pr s1 where "process_body sample_exec_config rec uid now no_kill no_kill od s
      = submit_order sample_exec_config rec uid now no_kill pr (prepared_quantity pr od) s1"
    "es_handoffs s1 = []"
proof -
  obtain c where c: "s\<lparr>es_received := es_received s + 1\<rparr> = sample_service\<lparr>es_coordinator := c, es_received := 1\<rparr>"
    using s by (auto simp: killed_before_def sample_service_def)
  have "od_decision_id od = Some ''d1''" "od_run_mode od = Some ''paper''" "od_strategy_id od = None" "od_bot_id od = None"
    using assms by (auto simp: sample_reduce_only_def)
  then have body: "process_body sample_exec_config rec uid now no_kill no_kill od s
    = (case prepare_order sample_exec_config od (s\<lparr>es_received := es_received s + 1\<rparr>) of
         (Refused reason, s1) \<Rightarrow> reject_reduce_only od reason s1
       | (pr, s1) \<Rightarrow> submit_order sample_exec_config rec uid now no_kill pr (prepared_quantity pr od) s1)"
    using s by (intro open_gates) (auto simp: no_kill_def read_kill_def ready_for_new_orders_def shutdown_blocks_def
        opt_truthy_def killed_before_def sample_service_def)
  show ?thesis
  proof (cases "od = sample_reduce_only")
    case True
    obtain p db' s1 where "prepare_order sample_exec_config od (sample_service\<lparr>es_coordinator := c, es_received := 1\<rparr>) = (Granted p db', s1)"
      "es_handoffs s1 = []" unfolding True by (rule sample_prepared)
    with body that[of "Granted p db'" s1] show ?thesis unfolding c by simp
  next
    case False
    with assms have "prepare_order sample_exec_config od (sample_service\<lparr>es_coordinator := c, es_received := 1\<rparr>)
        = (NotReduceOnly, sample_service\<lparr>es_coordinator := c, es_received := 1\<rparr>)" by (auto simp: prepare_order_def)
    moreover have "es_handoffs (sample_service\<lparr>es_coordinator := c, es_received := 1\<rparr>) = []" by (simp add: sample_service_def)
    ultimately show ?thesis using body unfolding c by (intro that[of NotReduceOnly]) (simp_all only: prod.case prepared.case)
  qed
qed

lemma sample_handoff:
  assumes "od = sample_reduce_only \<or> od = sample_reduce_only\<lparr>od_reduce_only := False, od_context_ok := ok\<rparr>"
    and s: "s = sample_service \<or> s = killed_before"
  obtains res s' q where "process_order sample_exec_config rec uid now no_kill no_kill od s = (res, s')"
    "es_handoffs s' = es_handoffs s @ [q]" "es_handoffs s' \<noteq> es_handoffs s"
    "eq_reduce_only q = od_reduce_only od" "od_order_id (eq_order q) = Some ''o1''"
proof -
  obtain pr s1 where b: "process_body sample_exec_config rec uid now no_kill no_kill od s
      = submit_order sample_exec_config rec uid now no_kill pr (prepared_quantity pr od) s1" "es_handoffs s1 = []"
    by (rule sample_process[OF assms])
  have c: "ec_adapter sample_exec_config = Some sample_exec" "\<not> fst (read_kill no_kill)"
    by (simp_all add: sample_exec_config_def no_kill_def read_kill_def)
  obtain q where q: "es_handoffs (snd (submit_order sample_exec_config rec uid now no_kill pr (prepared_quantity pr od) s1)) = es_handoffs s1 @ [q]"
    "eq_reduce_only q = od_reduce_only (prepared_quantity pr od)"
    "eq_order q = (prepared_quantity pr od)\<lparr>od_order_id := Some (opt_or (od_order_id (prepared_quantity pr od)) uid)\<rparr>"
    by (rule submit_hands_over[OF c])
  obtain res s' where p: "process_order sample_exec_config rec uid now no_kill no_kill od s = (res, s')" by (rule prod.exhaust)
  have "es_handoffs s = []" using s by (auto simp: killed_before_def sample_service_def)
  then have h: "es_handoffs s' = es_handoffs s @ [q]"
    using p q(1) b by (auto simp: process_order_def split: prod.splits sum.splits)
  have "od_order_id od = Some ''o1''" using assms by (auto simp: sample_reduce_only_def)
  then have f: "od_order_id (eq_order q) = Some ''o1''" "eq_reduce_only q = od_reduce_only od"
    using q(2,3) by (cases pr; simp add: prepared_quantity_def opt_or_def)+
  show ?thesis by (rule that[OF p h _ f(2,1)]) (simp add: h)
qed

theorem handoff_needs_every_gate_witness:
  "\<exists>res s' q. process_order sample_exec_config sample_reconciler ''uid'' ''t'' no_kill no_kill sample_reduce_only sample_service = (res, s')
    \<and> es_handoffs s' = [q] \<and> eq_reduce_only q \<and> ready_for_new_orders (es_supervisor sample_service)"
proof -
  obtain res s' q where p: "process_order sample_exec_config sample_reconciler ''uid'' ''t'' no_kill no_kill sample_reduce_only sample_service = (res, s')"
    "es_handoffs s' = es_handoffs sample_service @ [q]" "es_handoffs s' \<noteq> es_handoffs sample_service"
    "eq_reduce_only q = od_reduce_only sample_reduce_only"
    by (rule sample_handoff[of sample_reduce_only]) auto
  from handoff_needs_every_gate[OF p(1,3)] p show ?thesis
    by (auto simp: sample_service_def sample_reduce_only_def)
qed

theorem handed_over_order_stays_tracked_witness:
  "\<exists>res s'. process_order sample_exec_config sample_reconciler ''uid'' ''t'' no_kill no_kill sample_reduce_only sample_service = (res, s')
    \<and> (\<exists>exec q. ec_adapter sample_exec_config = Some exec \<and> es_handoffs s' = es_handoffs sample_service @ [q])"
proof -
  obtain res s' where p: "process_order sample_exec_config sample_reconciler ''uid'' ''t'' no_kill no_kill sample_reduce_only sample_service = (res, s')"
    "es_handoffs s' \<noteq> es_handoffs sample_service"
    by (rule sample_handoff[of sample_reduce_only]) auto
  from handed_over_order_stays_tracked[OF p] p(1) show ?thesis by auto
qed

theorem reduce_only_handed_over_once_witness:
  "\<exists>q s'. event_run service_step sample_service [Processed [q]] s' \<and> handed_reduce_only (Processed [q]) = Some ''o1''
    \<and> distinct (List.map_filter handed_reduce_only [Processed [q]])"
proof -
  obtain res s' q where p: "process_order sample_exec_config sample_reconciler ''uid'' ''t'' no_kill no_kill sample_reduce_only sample_service = (res, s')"
    "es_handoffs s' = es_handoffs sample_service @ [q]" "eq_reduce_only q = od_reduce_only sample_reduce_only"
    "od_order_id (eq_order q) = Some ''o1''"
    by (rule sample_handoff[of sample_reduce_only]) auto
  have r: "event_run service_step sample_service [Processed [q]] s'"
    by (rule run_cons[where step = service_step, OF process_step[OF p(1,2)]]) (rule run_nil)
  with reduce_only_handed_over_once[OF r] p(3,4) show ?thesis
    by (auto simp: handed_reduce_only_def sample_reduce_only_def)
qed

theorem bad_context_hides_execution_witness:
  "\<exists>s' q. process_order sample_exec_config sample_reconciler ''uid'' ''t'' no_kill no_kill
       (sample_reduce_only\<lparr>od_reduce_only := False, od_context_ok := False\<rparr>) sample_service = (None, s')
     \<and> es_handoffs s' = [q] \<and> es_published s' = []"
proof -
  let ?od = "sample_reduce_only\<lparr>od_reduce_only := False, od_context_ok := False\<rparr>"
  obtain res s' q where p: "process_order sample_exec_config sample_reconciler ''uid'' ''t'' no_kill no_kill ?od sample_service = (res, s')"
    "es_handoffs s' = es_handoffs sample_service @ [q]" "es_handoffs s' \<noteq> es_handoffs sample_service"
    by (rule sample_handoff[of ?od]) auto
  from bad_context_hides_execution[OF p(1,3)] p show ?thesis by (auto simp: sample_service_def)
qed

theorem fill_after_released_kill_witness:
  "\<exists>res s'. process_order sample_exec_config sample_reconciler ''uid'' ''t'' no_kill no_kill
       (sample_reduce_only\<lparr>od_reduce_only := False, od_context_ok := True\<rparr>) killed_before = (res, s')
     \<and> mf_verdict (fst (reconcile (\<lambda>s. s) (\<lambda>s. s) ''sha'' (None :: unit adapter option) None ''t'' ''active'' ''manual'' None None ''registry''
          (es_coordinator s'))) = FAIL"
proof -
  let ?od = "sample_reduce_only\<lparr>od_reduce_only := False, od_context_ok := True\<rparr>"
  obtain res s' where p: "process_order sample_exec_config sample_reconciler ''uid'' ''t'' no_kill no_kill ?od killed_before = (res, s')"
    "es_handoffs s' \<noteq> es_handoffs killed_before" 
    by (rule sample_handoff[of ?od True killed_before sample_reconciler "''uid''" "''t''"]) auto
  have x: "\<forall>q. \<exists>x a. sample_exec (kc_adapter_state (es_coordinator killed_before)) q = (Some x, a) \<and> xr_status x = ''FILLED'' \<and> fl_lt fl_zero (xr_filled x)"
    by (simp add: sample_exec_def fl_zero_def signed_def)
  have k: "es_coordinator killed_before =
      snd (coordinator_reconciler (\<lambda>s. s) (\<lambda>s. s) ''sha'' None None ''t'' ''registry'' ''active'' ''manual'' ''t'' sample_coordinator)"
    by (simp add: killed_before_def)
  have "\<not> od_reduce_only ?od" "ec_adapter sample_exec_config = Some sample_exec" "''uid'' \<noteq> []" by (simp_all add: sample_exec_config_def)
  from fill_after_released_kill[OF k life_start p this(3,1,2) x life_start] p(1) show ?thesis by blast
qed

theorem open_gates_hand_over_witness:
  "\<exists>q. es_handoffs (snd (process_order sample_exec_config sample_reconciler ''uid'' ''t'' no_kill no_kill
       (sample_reduce_only\<lparr>od_reduce_only := False\<rparr>) sample_service)) = es_handoffs sample_service @ [q]"
  using open_gates_hand_over[of sample_exec_config "sample_reduce_only\<lparr>od_reduce_only := False\<rparr>" no_kill no_kill sample_service sample_exec sample_reconciler "''uid''" "''t''"]
  by (auto simp: sample_exec_config_def sample_reduce_only_def no_kill_def read_kill_def ready_for_new_orders_def
      shutdown_blocks_def opt_truthy_def sample_service_def)

end
