(* ===== verification/PyValue.thy ===== *)
theory PyValue
  imports FloatDecimal Json
begin

text \<open>
  Values as a caller hands them over: what \<open>json.loads\<close> returns, and decimals. Truth value,
  \<open>str\<close> and \<open>repr\<close> of them, \<open>int(text)\<close> on digit strings. Dictionary keys are texts; the text of a
  float is the shortest that reads back.
\<close>

subsection \<open>Texts of numbers\<close>

definition float_digits_text :: "string \<Rightarrow> int \<Rightarrow> string" where
  \<comment> \<open>digits with the point after \<open>k\<close> of them, scientific beyond sixteen and below minus four\<close>
  "float_digits_text ds k =
     (if - 4 < k \<and> k \<le> 16
      then place_point ds k @ (if int (length ds) \<le> k then ''.0'' else [])
      else (case ds of d # rest \<Rightarrow> d # (if rest = [] then [] else CHR ''.'' # rest) | [] \<Rightarrow> [])
         @ CHR ''e'' # (if k - 1 < 0 then CHR ''-'' else CHR ''+'')
         # (let e = nat_str (nat \<bar>k - 1\<bar>) in if length e < 2 then CHR ''0'' # e else e))"

fun float_str :: "pyfloat \<Rightarrow> string" where
  "float_str (FFin s m e) = sign_str s
     @ (if m = 0 then ''0.0''
        else (case shortest_digits m e of (c, q) \<Rightarrow> float_digits_text (nat_str c) (int (ndigits c) + q)))"
| "float_str (FInf s) = sign_str s @ ''inf''"
| "float_str FNaN = ''nan''"

subsection \<open>Values\<close>

datatype pyval =
    PNone
  | PBool bool
  | PInt int
  | PFloat pyfloat
  | PStr string
  | PDec decimal
  | PList "pyval list"
  | PMap "(string \<times> pyval) list"

definition map_get :: "(string \<times> pyval) list \<Rightarrow> string \<Rightarrow> pyval" where
  "map_get d k = (case dget d k of None \<Rightarrow> PNone | Some v \<Rightarrow> v)"

definition map_get_or :: "(string \<times> pyval) list \<Rightarrow> string \<Rightarrow> pyval \<Rightarrow> pyval" where
  "map_get_or d k v0 = (case dget d k of None \<Rightarrow> v0 | Some v \<Rightarrow> v)"

fun truthy :: "pyval \<Rightarrow> bool" where
  "truthy PNone \<longleftrightarrow> False"
| "truthy (PBool b) \<longleftrightarrow> b"
| "truthy (PInt i) \<longleftrightarrow> i \<noteq> 0"
| "truthy (PFloat x) \<longleftrightarrow> fl_truthy x"
| "truthy (PStr s) \<longleftrightarrow> s \<noteq> []"
| "truthy (PDec d) \<longleftrightarrow> (case d of DFin _ c _ \<Rightarrow> c \<noteq> 0 | _ \<Rightarrow> True)"
| "truthy (PList xs) \<longleftrightarrow> xs \<noteq> []"
| "truthy (PMap d) \<longleftrightarrow> d \<noteq> []"

text \<open>\<open>repr\<close> of a text: quoted with the quote it does not contain, other characters escaped.\<close>

definition printable_char :: "char \<Rightarrow> bool" where
  "printable_char c = (let n = (of_char c :: nat) in (32 \<le> n \<and> n < 127) \<or> (161 \<le> n \<and> n \<noteq> 173))"

definition repr_char :: "char \<Rightarrow> char \<Rightarrow> string" where
  "repr_char quote c = (let n = (of_char c :: nat) in
     if c = quote \<or> n = 92 then [CHR 0x5C, c]
     else if n = 9 then [CHR 0x5C, CHR ''t''] else if n = 10 then [CHR 0x5C, CHR ''n'']
     else if n = 13 then [CHR 0x5C, CHR ''r'']
     else if printable_char c then [c]
     else [CHR 0x5C, CHR ''x'', hex_digit (n div 16), hex_digit (n mod 16)])"

definition repr_text :: "string \<Rightarrow> string" where
  "repr_text s = (let quote = (if CHR 0x27 \<in> set s \<and> CHR 0x22 \<notin> set s then CHR 0x22 else CHR 0x27)
     in quote # concat (map (repr_char quote) s) @ [quote])"

fun py_repr :: "pyval \<Rightarrow> string"
  and repr_items :: "pyval list \<Rightarrow> string"
  and repr_members :: "(string \<times> pyval) list \<Rightarrow> string" where
  "py_repr PNone = ''None''"
| "py_repr (PBool b) = (if b then ''True'' else ''False'')"
| "py_repr (PInt i) = int_str i"
| "py_repr (PFloat x) = float_str x"
| "py_repr (PStr s) = repr_text s"
| "py_repr (PDec d) = ''Decimal('' @ [CHR 0x27] @ dec_str d @ [CHR 0x27] @ '')''"
| "py_repr (PList xs) = ''['' @ repr_items xs @ '']''"
| "py_repr (PMap d) = ''{'' @ repr_members d @ ''}''"
| "repr_items [] = []"
| "repr_items (x # xs) = py_repr x @ (if xs = [] then [] else '', '' @ repr_items xs)"
| "repr_members [] = []"
| "repr_members ((k, x) # d) = repr_text k @ '': '' @ py_repr x @ (if d = [] then [] else '', '' @ repr_members d)"

fun py_str :: "pyval \<Rightarrow> string" where
  "py_str (PStr s) = s"
| "py_str (PDec d) = dec_str d"
| "py_str v = py_repr v"

text \<open>\<open>str.isdigit\<close> also accepts the superscripts two, three and one, which \<open>int\<close> then refuses.\<close>

definition digit_like :: "char \<Rightarrow> bool" where
  "digit_like c \<longleftrightarrow> is_digit c \<or> (of_char c :: nat) \<in> {178, 179, 185}"

definition isdigit :: "string \<Rightarrow> bool" where
  "isdigit s \<longleftrightarrow> s \<noteq> [] \<and> list_all digit_like s"

definition int_of_digits :: "bool \<Rightarrow> string \<Rightarrow> py_exc + int" where
  "int_of_digits neg s = (if list_all is_digit s then Inr (if neg then - int (digits_val s) else int (digits_val s))
     else Inl (ValueError ''int''))"

text \<open>A JSON value as a Python value, and \<open>json.dumps\<close> seen from there: decimals are not serializable.\<close>

primrec of_json :: "json \<Rightarrow> pyval" where
  "of_json JNull = PNone"
| "of_json (JBool b) = PBool b"
| "of_json (JInt i) = PInt i"
| "of_json (JStr s) = PStr s"
| "of_json (JList xs) = PList (map of_json xs)"
| "of_json (JObj ms) = PMap (map (map_prod id of_json) ms)"

end
