(* ===== verification/DecisionContract.thy ===== *)
theory DecisionContract
  imports PyValue
begin

text \<open>
  \<open>core/contracts/decision_contract_v1.py\<close>: an order, the account and the limits are normalized to
  fixed-point texts, evaluated to 0 or 1 with reason codes, and bound together by digests; whoever
  gets such a bundle verifies it by evaluating again.

  The normalized input is a record (\<open>contract_input\<close>) with \<open>input_json\<close> as its dictionary; the output
  likewise. A \<open>DecisionContractError\<close> is \<open>dc_error\<close>, without its message. The SHA-256 digest is the
  parameter \<open>sha\<close>.
\<close>

subsection \<open>Data\<close>

definition CONTRACT_NAME :: string where "CONTRACT_NAME = ''decision_contract_v1''"
definition CONTRACT_VERSION :: string where "CONTRACT_VERSION = ''v1''"

definition ALLOWED_RUN_MODES :: "string list" where
  "ALLOWED_RUN_MODES = [''shadow'', ''paper'', ''replay'', ''live'']"

definition ALLOWED_ORDER_SIDES :: "string list" where
  "ALLOWED_ORDER_SIDES = [''BUY'', ''SELL'']"

text \<open>The exponents of the three quanta.\<close>

definition MONEY_EXP :: int where "MONEY_EXP = - 8"
definition RATIO_EXP :: int where "RATIO_EXP = - 6"
definition QTY_EXP :: int where "QTY_EXP = - 8"

definition dc_error :: py_exc where "dc_error = ValueError ''DecisionContractError''"

record contract_input =
  ci_run_mode :: string
  ci_symbol :: string
  ci_side :: string
  ci_quantity :: string
  ci_price_ref :: string
  ci_timestamp :: int
  ci_reduce_only :: bool
  ci_balance :: string
  ci_exposure :: string
  ci_drawdown :: string
  ci_positions :: "(string \<times> string) list"
  ci_max_notional :: string
  ci_max_exposure :: string
  ci_max_drawdown :: string
  ci_system :: "(string \<times> json) list"
  ci_source :: string
  ci_signal_id :: string
  ci_strategy_id :: string
  ci_bot_id :: string

record contract_output =
  co_decision :: int
  co_reasons :: "string list"
  co_limits :: "(string \<times> json) list"
  co_metrics :: "(string \<times> json) list"
  co_canonical_input :: string
  co_input_hash :: string
  co_canonical_output :: string
  co_decision_hash :: string

subsection \<open>Reading values\<close>

definition dc_to_decimal :: "pyval \<Rightarrow> py_exc + decimal" where
  "dc_to_decimal v =
     ebind (case v of
        PDec d \<Rightarrow> Inr d
      | PInt i \<Rightarrow> (case dec_of_string (strip (py_str v)) of Inl e \<Rightarrow> Inl dc_error | Inr d \<Rightarrow> Inr d)
      | PStr s \<Rightarrow> (if strip s = [] then Inl dc_error
                   else case dec_of_string (strip s) of Inl e \<Rightarrow> Inl dc_error | Inr d \<Rightarrow> Inr d)
      | _ \<Rightarrow> Inl dc_error)
     (\<lambda>d. if is_finite d then Inr d else Inl dc_error)"

definition q_str :: "int \<Rightarrow> decimal \<Rightarrow> py_exc + string" where
  "q_str q d = ebind (dec_quantize ROUND_HALF_EVEN q d) (\<lambda>x.
     Inr (dec_format_f (if dec_eq x (DFin True 0 q) then DFin False 0 q else x)))"

definition dc_to_int :: "pyval \<Rightarrow> py_exc + int" where
  "dc_to_int v = (case v of
     PInt i \<Rightarrow> Inr i
   | PStr s \<Rightarrow>
      (case strip s of
         [] \<Rightarrow> Inl dc_error
       | c # cs \<Rightarrow>
          if c \<in> {CHR ''+'', CHR ''-''} then
            (if isdigit cs then int_of_digits (c = CHR ''-'') cs else Inl dc_error)
          else if isdigit (c # cs) then int_of_digits False (c # cs) else Inl dc_error)
   | _ \<Rightarrow> Inl dc_error)"

definition clean_string :: "bool \<Rightarrow> pyval \<Rightarrow> py_exc + string" where
  "clean_string uppercase v =
     (if v = PNone then Inl dc_error
      else let text = strip (py_str v) in
        if text = [] then Inl dc_error else Inr (if uppercase then upper text else text))"

text \<open>A decimal read from a field and put on its grid.\<close>

definition quantized_field :: "int \<Rightarrow> pyval \<Rightarrow> py_exc + string" where
  "quantized_field q v = ebind (dc_to_decimal v) (q_str q)"

subsection \<open>Normalization\<close>

definition position_entry :: "pyval \<Rightarrow> pyval \<Rightarrow> py_exc + (string \<times> string)" where
  "position_entry symbol quantity =
     ebind (clean_string False symbol) (\<lambda>s. ebind (quantized_field QTY_EXP quantity) (\<lambda>q. Inr (s, q)))"

definition normalize_open_positions :: "pyval \<Rightarrow> py_exc + (string \<times> string) list" where
  "normalize_open_positions v = (case v of
     PNone \<Rightarrow> Inr []
   | PMap d \<Rightarrow> ebind (emap (\<lambda>(k, q). position_entry (PStr k) q) d) (\<lambda>ps. Inr (sort_key fst ps))
   | PList xs \<Rightarrow>
       ebind (emap (\<lambda>x. case x of PMap e \<Rightarrow> position_entry (map_get e ''symbol'') (map_get e ''quantity'')
                        | _ \<Rightarrow> Inl dc_error) xs) (\<lambda>ps. Inr (sort_key fst ps))
   | _ \<Rightarrow> Inl dc_error)"

definition system_value :: "pyval \<Rightarrow> py_exc + json" where
  "system_value v = (case v of
     PStr s \<Rightarrow> Inr (JStr s)
   | PBool b \<Rightarrow> Inr (JBool b)
   | PInt i \<Rightarrow> Inr (JInt i)
   | PNone \<Rightarrow> Inr JNull
   | PDec d \<Rightarrow> ebind (q_str MONEY_EXP d) (\<lambda>s. Inr (JStr s))
   | PFloat x \<Rightarrow> Inl dc_error
   | _ \<Rightarrow> Inr (JStr (py_str v)))"

definition normalize_system_config :: "pyval \<Rightarrow> py_exc + (string \<times> json) list" where
  "normalize_system_config v = (case v of
     PNone \<Rightarrow> Inr []
   | PMap d \<Rightarrow> emap (\<lambda>(k, x). ebind (system_value x) (\<lambda>j. Inr (k, j))) (sort_key fst d)
   | _ \<Rightarrow> Inl dc_error)"

definition map_of_val :: "pyval \<Rightarrow> py_exc + (string \<times> pyval) list" where
  "map_of_val v = (case v of PMap d \<Rightarrow> Inr d | _ \<Rightarrow> Inl dc_error)"

definition normalize_contract_input :: "pyval \<Rightarrow> py_exc + contract_input" where
  "normalize_contract_input raw =
     ebind (map_of_val raw) (\<lambda>r.
     ebind (map_of_val (map_get r ''order'')) (\<lambda>od.
     ebind (map_of_val (map_get r ''account_state'')) (\<lambda>ac.
     ebind (map_of_val (map_get r ''risk_policy'')) (\<lambda>rp.
     ebind (map_of_val (if truthy (map_get r ''context'') then map_get r ''context'' else PMap [])) (\<lambda>cx.
     ebind (clean_string False (map_get r ''run_mode'')) (\<lambda>mode.
     ebind (clean_string True (map_get od ''side'')) (\<lambda>side.
     ebind (clean_string False (map_get od ''symbol'')) (\<lambda>symbol.
     ebind (quantized_field QTY_EXP (map_get od ''quantity'')) (\<lambda>quantity.
     ebind (quantized_field MONEY_EXP (map_get od ''price_ref'')) (\<lambda>price.
     ebind (dc_to_int (map_get od ''timestamp_input_ms'')) (\<lambda>ts.
     ebind (quantized_field MONEY_EXP (map_get ac ''balance_usdt'')) (\<lambda>balance.
     ebind (quantized_field MONEY_EXP (map_get ac ''total_exposure_usdt'')) (\<lambda>exposure.
     ebind (quantized_field RATIO_EXP (map_get ac ''daily_drawdown_pct'')) (\<lambda>drawdown.
     ebind (normalize_open_positions (map_get r ''open_positions'')) (\<lambda>positions.
     ebind (quantized_field MONEY_EXP (map_get rp ''max_notional_usdt'')) (\<lambda>max_notional.
     ebind (quantized_field MONEY_EXP (map_get rp ''max_total_exposure_usdt'')) (\<lambda>max_exposure.
     ebind (quantized_field RATIO_EXP (map_get rp ''max_daily_drawdown_pct'')) (\<lambda>max_drawdown.
     ebind (normalize_system_config (map_get r ''system_config'')) (\<lambda>config.
     Inr \<lparr>ci_run_mode = lower mode, ci_symbol = symbol, ci_side = side, ci_quantity = quantity,
       ci_price_ref = price, ci_timestamp = ts,
       ci_reduce_only = truthy (map_get_or od ''reduce_only'' (PBool False)),
       ci_balance = balance, ci_exposure = exposure, ci_drawdown = drawdown, ci_positions = positions,
       ci_max_notional = max_notional, ci_max_exposure = max_exposure, ci_max_drawdown = max_drawdown,
       ci_system = config,
       ci_source = py_str (map_get_or cx ''source'' (PStr ''unspecified'')),
       ci_signal_id = py_str (map_get_or cx ''signal_id'' (PStr [])),
       ci_strategy_id = py_str (map_get_or cx ''strategy_id'' (PStr [])),
       ci_bot_id = py_str (map_get_or cx ''bot_id'' (PStr []))\<rparr>)))))))))))))))))))"

text \<open>The dictionary of a normalized input.\<close>

definition input_json :: "contract_input \<Rightarrow> json" where
  "input_json ci = JObj
     [(''contract_name'', JStr CONTRACT_NAME), (''contract_version'', JStr CONTRACT_VERSION),
      (''run_mode'', JStr (ci_run_mode ci)),
      (''order'', JObj [(''symbol'', JStr (ci_symbol ci)), (''side'', JStr (ci_side ci)),
        (''quantity'', JStr (ci_quantity ci)), (''price_ref'', JStr (ci_price_ref ci)),
        (''timestamp_input_ms'', JInt (ci_timestamp ci)), (''reduce_only'', JBool (ci_reduce_only ci))]),
      (''account_state'', JObj [(''balance_usdt'', JStr (ci_balance ci)),
        (''total_exposure_usdt'', JStr (ci_exposure ci)), (''daily_drawdown_pct'', JStr (ci_drawdown ci))]),
      (''open_positions'', JList (map (\<lambda>(s, q). JObj [(''symbol'', JStr s), (''quantity'', JStr q)]) (ci_positions ci))),
      (''risk_policy'', JObj [(''max_notional_usdt'', JStr (ci_max_notional ci)),
        (''max_total_exposure_usdt'', JStr (ci_max_exposure ci)), (''max_daily_drawdown_pct'', JStr (ci_max_drawdown ci))]),
      (''system_config'', JObj (ci_system ci)),
      (''context'', JObj [(''source'', JStr (ci_source ci)), (''signal_id'', JStr (ci_signal_id ci)),
        (''strategy_id'', JStr (ci_strategy_id ci)), (''bot_id'', JStr (ci_bot_id ci))])]"

subsection \<open>Evaluation\<close>

record contract_numbers =
  cn_quantity :: decimal
  cn_price :: decimal
  cn_balance :: decimal
  cn_exposure :: decimal
  cn_drawdown :: decimal
  cn_max_notional :: decimal
  cn_max_exposure :: decimal
  cn_max_drawdown :: decimal

definition contract_numbers_of :: "contract_input \<Rightarrow> py_exc + contract_numbers" where
  "contract_numbers_of ci =
     ebind (dec_of_string (ci_quantity ci)) (\<lambda>q. ebind (dec_of_string (ci_price_ref ci)) (\<lambda>p.
     ebind (dec_of_string (ci_balance ci)) (\<lambda>b. ebind (dec_of_string (ci_exposure ci)) (\<lambda>e.
     ebind (dec_of_string (ci_drawdown ci)) (\<lambda>d. ebind (dec_of_string (ci_max_notional ci)) (\<lambda>mn.
     ebind (dec_of_string (ci_max_exposure ci)) (\<lambda>me. ebind (dec_of_string (ci_max_drawdown ci)) (\<lambda>md.
     Inr \<lparr>cn_quantity = q, cn_price = p, cn_balance = b, cn_exposure = e, cn_drawdown = d,
          cn_max_notional = mn, cn_max_exposure = me, cn_max_drawdown = md\<rparr>))))))))"

definition projected_exposure :: "string \<Rightarrow> bool \<Rightarrow> decimal \<Rightarrow> decimal \<Rightarrow> py_exc + decimal" where
  "projected_exposure side reduce_only exposure notional =
     (if side = ''BUY'' \<and> \<not> reduce_only then dec_add exposure notional
      else ebind (dec_sub exposure notional) (\<lambda>p. Inr (if dec_lt p dec_zero then dec_zero else p)))"

definition is_reduce_only_sell :: "contract_input \<Rightarrow> bool" where
  "is_reduce_only_sell ci \<longleftrightarrow> upper (ci_side ci) = ''SELL'' \<and> ci_reduce_only ci"

definition when_code :: "bool \<Rightarrow> string \<Rightarrow> string list" where
  "when_code b code = (if b then [code] else [])"

definition contract_reasons :: "contract_input \<Rightarrow> contract_numbers \<Rightarrow> decimal \<Rightarrow> decimal \<Rightarrow> string list" where
  "contract_reasons ci n notional projected =
     when_code (lower (ci_run_mode ci) \<notin> set ALLOWED_RUN_MODES) ''RC_INVALID_RUN_MODE''
     @ when_code (upper (ci_side ci) \<notin> set ALLOWED_ORDER_SIDES) ''RC_INVALID_ORDER_SIDE''
     @ when_code (dec_le (cn_quantity n) dec_zero) ''RC_NON_POSITIVE_QTY''
     @ when_code (dec_le (cn_price n) dec_zero) ''RC_NON_POSITIVE_PRICE''
     @ when_code (dec_lt (cn_balance n) dec_zero) ''RC_NEGATIVE_BALANCE''
     @ when_code (dec_lt (cn_exposure n) dec_zero) ''RC_NEGATIVE_EXPOSURE''
     @ when_code (dec_lt (cn_drawdown n) dec_zero) ''RC_NEGATIVE_DRAWDOWN''
     @ when_code (dec_le (cn_max_notional n) dec_zero) ''RC_INVALID_LIMIT_MAX_NOTIONAL''
     @ when_code (dec_le (cn_max_exposure n) dec_zero) ''RC_INVALID_LIMIT_MAX_EXPOSURE''
     @ when_code (dec_le (cn_max_drawdown n) dec_zero) ''RC_INVALID_LIMIT_MAX_DRAWDOWN''
     @ when_code (\<not> is_reduce_only_sell ci \<and> dec_lt dec_zero (cn_max_notional n)
         \<and> dec_lt (cn_max_notional n) notional) ''RC_LIMIT_NOTIONAL''
     @ when_code (\<not> is_reduce_only_sell ci \<and> dec_lt dec_zero (cn_max_exposure n)
         \<and> dec_lt (cn_max_exposure n) projected) ''RC_LIMIT_EXPOSURE''
     @ when_code (dec_lt dec_zero (cn_max_drawdown n) \<and> dec_lt (cn_max_drawdown n) (cn_drawdown n)) ''RC_LIMIT_DRAWDOWN''"

definition q_field :: "string \<Rightarrow> int \<Rightarrow> decimal \<Rightarrow> py_exc + (string \<times> json)" where
  "q_field name q d = ebind (q_str q d) (\<lambda>s. Inr (name, JStr s))"

definition applied_limits :: "contract_numbers \<Rightarrow> py_exc + (string \<times> json) list" where
  "applied_limits n = emap (\<lambda>(name, q, d). q_field name q d)
     [(''max_notional_usdt'', MONEY_EXP, cn_max_notional n),
      (''max_total_exposure_usdt'', MONEY_EXP, cn_max_exposure n),
      (''max_daily_drawdown_pct'', RATIO_EXP, cn_max_drawdown n)]"

definition contract_metrics :: "contract_numbers \<Rightarrow> decimal \<Rightarrow> decimal \<Rightarrow> py_exc + (string \<times> json) list" where
  "contract_metrics n notional projected = emap (\<lambda>(name, q, d). q_field name q d)
     [(''order_notional_usdt'', MONEY_EXP, notional), (''projected_exposure_usdt'', MONEY_EXP, projected),
      (''current_exposure_usdt'', MONEY_EXP, cn_exposure n), (''daily_drawdown_pct'', RATIO_EXP, cn_drawdown n),
      (''balance_usdt'', MONEY_EXP, cn_balance n)]"

definition hashed_output :: "int \<Rightarrow> string list \<Rightarrow> (string \<times> json) list \<Rightarrow> (string \<times> json) list \<Rightarrow> string \<Rightarrow> json" where
  "hashed_output decision reasons limits metrics input_hash = JObj
     [(''contract_version'', JStr CONTRACT_VERSION), (''decision'', JInt decision),
      (''reason_codes'', JList (map JStr reasons)), (''applied_limits'', JObj limits),
      (''metrics'', JObj metrics), (''input_hash'', JStr input_hash)]"

definition decided ::
  "(string \<Rightarrow> string) \<Rightarrow> contract_input \<Rightarrow> string list \<Rightarrow> (string \<times> json) list \<Rightarrow> (string \<times> json) list \<Rightarrow> contract_output" where
  "decided sha ci reasons limits metrics =
     (let decision = (if reasons \<noteq> [] then 0 else 1);
          canonical_input = canonical_json (input_json ci);
          input_hash = sha canonical_input;
          canonical_output = canonical_json (hashed_output decision reasons limits metrics input_hash)
      in \<lparr>co_decision = decision, co_reasons = reasons, co_limits = limits, co_metrics = metrics,
          co_canonical_input = canonical_input, co_input_hash = input_hash,
          co_canonical_output = canonical_output, co_decision_hash = sha canonical_output\<rparr>)"

definition evaluate_normalized :: "(string \<Rightarrow> string) \<Rightarrow> contract_input \<Rightarrow> py_exc + contract_output" where
  "evaluate_normalized sha ci =
     ebind (contract_numbers_of ci) (\<lambda>n.
     ebind (dec_mul (cn_quantity n) (cn_price n)) (\<lambda>notional.
     ebind (projected_exposure (upper (ci_side ci)) (ci_reduce_only ci) (cn_exposure n) notional) (\<lambda>projected.
     ebind (applied_limits n) (\<lambda>limits.
     ebind (contract_metrics n notional projected) (\<lambda>metrics.
     Inr (decided sha ci (sort (contract_reasons ci n notional projected)) limits metrics))))))"

definition output_json :: "contract_output \<Rightarrow> json" where
  "output_json co = JObj
     [(''contract_version'', JStr CONTRACT_VERSION), (''decision'', JInt (co_decision co)),
      (''reason_codes'', JList (map JStr (co_reasons co))), (''applied_limits'', JObj (co_limits co)),
      (''metrics'', JObj (co_metrics co)),
      (''evidence'', JObj [(''canonical_input'', JStr (co_canonical_input co)), (''input_hash'', JStr (co_input_hash co)),
        (''canonical_output'', JStr (co_canonical_output co)), (''decision_hash'', JStr (co_decision_hash co))])]"

definition evaluate_decision_contract :: "(string \<Rightarrow> string) \<Rightarrow> pyval \<Rightarrow> py_exc + contract_output" where
  "evaluate_decision_contract sha raw = ebind (normalize_contract_input raw) (evaluate_normalized sha)"

subsection \<open>Bundles\<close>

definition bundle_json :: "contract_input \<Rightarrow> contract_output \<Rightarrow> json" where
  "bundle_json ci co = JObj [(''contract_name'', JStr CONTRACT_NAME), (''contract_version'', JStr CONTRACT_VERSION),
     (''input'', input_json ci), (''output'', output_json co)]"

definition build_bundle :: "(string \<Rightarrow> string) \<Rightarrow> pyval \<Rightarrow> py_exc + json" where
  "build_bundle sha raw = ebind (normalize_contract_input raw) (\<lambda>ci.
     ebind (evaluate_normalized sha ci) (\<lambda>co. Inr (bundle_json ci co)))"

text \<open>
  \<open>json.dumps\<close> of what a bundle claims as its output, compared with the text of the evaluation.
  Decimals are not serializable; a float makes the text different from any text without one, and
  the evaluation's has none.
\<close>

fun has_decimal :: "pyval \<Rightarrow> bool" where
  "has_decimal (PDec d) = True"
| "has_decimal (PList xs) = list_ex has_decimal xs"
| "has_decimal (PMap d) = list_ex (\<lambda>x. has_decimal (snd x)) d"
| "has_decimal _ = False"

fun to_json :: "pyval \<Rightarrow> json option" where
  "to_json PNone = Some JNull"
| "to_json (PBool b) = Some (JBool b)"
| "to_json (PInt i) = Some (JInt i)"
| "to_json (PStr s) = Some (JStr s)"
| "to_json (PList xs) = map_option JList (those (map to_json xs))"
| "to_json (PMap d) = map_option JObj (those (map (\<lambda>x. map_option (Pair (fst x)) (to_json (snd x))) d))"
| "to_json _ = None"

definition same_output :: "pyval \<Rightarrow> json \<Rightarrow> py_exc + bool" where
  "same_output provided expected =
     (if has_decimal provided then Inl TypeError
      else Inr (case to_json provided of None \<Rightarrow> False | Some j \<Rightarrow> canonical_json j = canonical_json expected))"

definition verify_bundle :: "(string \<Rightarrow> string) \<Rightarrow> pyval \<Rightarrow> bool \<Rightarrow> bool \<times> string" where
  "verify_bundle sha bundle require_allow = (case bundle of
     PMap b \<Rightarrow>
       if map_get b ''contract_name'' \<noteq> PStr CONTRACT_NAME then (False, ''unsupported contract_name'')
       else if map_get b ''contract_version'' \<noteq> PStr CONTRACT_VERSION then (False, ''unsupported contract_version'')
       else (case (map_get b ''input'', map_get b ''output'') of
         (PMap i, PMap out) \<Rightarrow>
           (case ebind (normalize_contract_input (PMap i)) (\<lambda>ci.
                 ebind (evaluate_normalized sha ci) (\<lambda>co.
                 ebind (same_output (PMap out) (output_json co)) (\<lambda>same.
                 Inr (if \<not> same then (False, ''output does not match deterministic evaluation'')
                      else if require_allow \<and> co_decision co \<noteq> 1 then (False, ''decision contract denied execution'')
                      else (True, ''OK''))))) of
              Inl e \<Rightarrow> (False, if e = dc_error then ''invalid decision contract input'' else ''verification error'')
            | Inr r \<Rightarrow> r)
       | (PMap i, _) \<Rightarrow> (False, ''missing output payload'')
       | _ \<Rightarrow> (False, ''missing input payload''))
   | _ \<Rightarrow> (False, ''bundle must be object''))"

subsection \<open>Texts on a grid\<close>

definition grid_text :: "int \<Rightarrow> string \<Rightarrow> bool" where
  "grid_text q s \<longleftrightarrow> (\<exists>neg c. s = dec_format_f (DFin neg c q) \<and> c < 10 ^ 28 \<and> (c = 0 \<longrightarrow> \<not> neg))"

lemma grid_exps [simp]: "- 8 \<le> MONEY_EXP" "MONEY_EXP \<le> 0" "- 8 \<le> RATIO_EXP" "RATIO_EXP \<le> 0" "- 8 \<le> QTY_EXP" "QTY_EXP \<le> 0"
  by (simp_all add: MONEY_EXP_def RATIO_EXP_def QTY_EXP_def)

lemma strip_no_space: "(\<And>x. x \<in> set s \<Longrightarrow> \<not> is_space x) \<Longrightarrow> strip s = s"
  by (cases s) (auto intro!: strip_ident)

lemma format_f_no_space:
  assumes "q \<le> 0"
  shows "strip (dec_format_f (DFin neg c q)) = dec_format_f (DFin neg c q)" "dec_format_f (DFin neg c q) \<noteq> []"
proof -
  obtain ip fp where f: "dec_format_f (DFin neg c q) = sign_str neg @ fixed_body ip fp"
    "list_all is_digit ip" "list_all is_digit fp" "ip \<noteq> []" using format_f_body[OF assms] by metis
  have "\<not> is_space x" if "x \<in> set (sign_str neg @ fixed_body ip fp)" for x
  proof -
    have "is_digit x \<or> x = CHR ''-'' \<or> x = CHR ''.''"
      using that f(2,3) by (auto simp: sign_str_def fixed_body_def list_all_iff split: if_splits)
    moreover have "\<not> is_space (CHR ''-'')" "\<not> is_space (CHR ''.'')" by (simp_all add: is_space_def)
    ultimately show ?thesis using digit_not_space by blast
  qed
  then show "strip (dec_format_f (DFin neg c q)) = dec_format_f (DFin neg c q)" unfolding f(1) by (rule strip_no_space)
  show "dec_format_f (DFin neg c q) \<noteq> []" unfolding f(1) using f(4) by (simp add: fixed_body_def)
qed

lemma grid_text_cases:
  assumes "grid_text q s" "- 8 \<le> q" "q \<le> 0"
  obtains neg c where "dec_of_string s = Inr (DFin neg c q)" "c < 10 ^ 28" "c = 0 \<longrightarrow> \<not> neg" "s = dec_format_f (DFin neg c q)"
    "strip s = s" "s \<noteq> []"
proof -
  obtain neg c where s: "s = dec_format_f (DFin neg c q)" "c < 10 ^ 28" "c = 0 \<longrightarrow> \<not> neg"
    using assms(1) by (auto simp: grid_text_def)
  have "ndigits c \<le> 28" using s(2) by (simp only: ndigits_le_iff zero_less_numeral)
  then have "dec_of_string s = Inr (DFin neg c q)"
    unfolding s(1) using assms(2,3) by (intro dec_of_string_format_f) (simp_all add: MIN_EXP_def MAX_ADJ_def)
  with s format_f_no_space[OF assms(3)] show ?thesis by (auto intro: that)
qed

lemma q_str_same:
  assumes "c < 10 ^ 28" "c = 0 \<longrightarrow> \<not> neg"
  shows "q_str q (DFin neg c q) = Inr (dec_format_f (DFin neg c q))"
  using assms by (simp add: q_str_def dec_quantize_same del: dec_format_f.simps dec_quantize.simps)

lemma q_str_grid:
  assumes "q_str q d = Inr s" "is_finite d"
  shows "grid_text q s"
proof -
  obtain x where x: "dec_quantize ROUND_HALF_EVEN q d = Inr x" "s = dec_format_f (if dec_eq x (DFin True 0 q) then DFin False 0 q else x)"
    using assms(1) by (auto simp: q_str_def ebind_eq_Inr)
  obtain neg c where c: "x = DFin neg c q" "c < 10 ^ 28"
    using dec_quantize_on_grid[OF x(1) assms(2)] by (cases x) (auto simp: on_grid_def)
  show ?thesis
  proof (cases "c = 0")
    case True
    with x(2) c have "s = dec_format_f (DFin False 0 q)" by (simp del: dec_format_f.simps)
    then show ?thesis unfolding grid_text_def by (intro exI[of _ False] exI[of _ 0]) (simp del: dec_format_f.simps)
  next
    case False
    with x(2) c have "s = dec_format_f (DFin neg c q)" by (simp del: dec_format_f.simps)
    with False c(2) show ?thesis unfolding grid_text_def by (intro exI[of _ neg] exI[of _ c]) simp
  qed
qed

lemma quantized_field_grid: "quantized_field q v = Inr s \<Longrightarrow> grid_text q s"
  by (auto simp: quantized_field_def dc_to_decimal_def ebind_eq_Inr split: if_splits intro: q_str_grid)

lemma quantized_field_text:
  assumes "grid_text q s" "- 8 \<le> q" "q \<le> 0"
  shows "quantized_field q (PStr s) = Inr s"
proof -
  obtain neg c where "dec_of_string s = Inr (DFin neg c q)" "c < 10 ^ 28" "c = 0 \<longrightarrow> \<not> neg" "s = dec_format_f (DFin neg c q)"
    "strip s = s" "s \<noteq> []" by (rule grid_text_cases[OF assms])
  then show ?thesis
    by (simp add: quantized_field_def dc_to_decimal_def q_str_same del: dec_format_f.simps)
qed
subsection \<open>Normalized inputs\<close>

definition scalar_json :: "json \<Rightarrow> bool" where
  "scalar_json j \<longleftrightarrow> (case j of JList _ \<Rightarrow> False | JObj _ \<Rightarrow> False | _ \<Rightarrow> True)"

definition clean_text :: "string \<Rightarrow> bool" where
  "clean_text s \<longleftrightarrow> s \<noteq> [] \<and> strip s = s"

definition normal_input :: "contract_input \<Rightarrow> bool" where
  "normal_input ci \<longleftrightarrow>
     clean_text (ci_run_mode ci) \<and> lower (ci_run_mode ci) = ci_run_mode ci
     \<and> clean_text (ci_symbol ci) \<and> clean_text (ci_side ci) \<and> upper (ci_side ci) = ci_side ci
     \<and> grid_text QTY_EXP (ci_quantity ci) \<and> grid_text MONEY_EXP (ci_price_ref ci)
     \<and> grid_text MONEY_EXP (ci_balance ci) \<and> grid_text MONEY_EXP (ci_exposure ci) \<and> grid_text RATIO_EXP (ci_drawdown ci)
     \<and> grid_text MONEY_EXP (ci_max_notional ci) \<and> grid_text MONEY_EXP (ci_max_exposure ci) \<and> grid_text RATIO_EXP (ci_max_drawdown ci)
     \<and> sorted (map fst (ci_positions ci)) \<and> (\<forall>(s, q) \<in> set (ci_positions ci). clean_text s \<and> grid_text QTY_EXP q)
     \<and> sorted (map fst (ci_system ci)) \<and> (\<forall>(k, j) \<in> set (ci_system ci). scalar_json j)"

lemma clean_string_clean: "clean_string False v = Inr s \<Longrightarrow> clean_text s"
  by (auto simp: clean_string_def clean_text_def Let_def split: if_splits)

lemma case_char_space: "is_space (lower_char c) = is_space c" "is_space (upper_char c) = is_space c"
  by (auto simp: is_space_def lower_char_def upper_char_def Let_def of_char_of take_bit_nat_eq_self)

lemma strip_map:
  assumes "\<And>c. is_space (f c) = is_space c"
  shows "strip (map f s) = map f (strip s)"
  by (simp add: strip_def rstrip_def lstrip_def dropWhile_map comp_def assms rev_map)

lemma case_idem: "lower_char (lower_char c) = lower_char c" "upper_char (upper_char c) = upper_char c"
  by (auto simp: lower_char_def upper_char_def Let_def of_char_of take_bit_nat_eq_self)

lemma clean_case: "clean_text s \<Longrightarrow> clean_text (lower s) \<and> lower (lower s) = lower s"
  "clean_text s \<Longrightarrow> clean_text (upper s) \<and> upper (upper s) = upper s"
  by (simp_all add: clean_text_def lower_def upper_def strip_map case_char_space case_idem)

lemma clean_string_upper: "clean_string True v = Inr s \<Longrightarrow> clean_text s \<and> upper s = s"
  using clean_case(2)[of "strip (py_str v)"]
  by (auto simp: clean_string_def clean_text_def Let_def split: if_splits)

lemma emap_Inr_ball: "emap f xs = Inr ys \<Longrightarrow> (\<And>x y. f x = Inr y \<Longrightarrow> P y) \<Longrightarrow> \<forall>y \<in> set ys. P y"
  by (induction xs arbitrary: ys) (auto simp: ebind_eq_Inr)

lemma position_entry_normal: "position_entry v w = Inr (s, q) \<Longrightarrow> clean_text s \<and> grid_text QTY_EXP q"
  by (auto simp: position_entry_def ebind_eq_Inr clean_string_clean quantized_field_grid)

lemma open_positions_normal:
  assumes "normalize_open_positions v = Inr ps"
  shows "sorted (map fst ps)" "(s, q) \<in> set ps \<Longrightarrow> clean_text s \<and> grid_text QTY_EXP q"
proof -
  have "\<exists>ys. ps = sort_key fst ys \<and> (\<forall>y \<in> set ys. \<exists>v w. position_entry v w = Inr y)"
  proof (cases v)
    case (PList xs)
    with assms obtain ys where ys: "ps = sort_key fst ys" "emap (\<lambda>x. case x of
        PMap e \<Rightarrow> position_entry (map_get e ''symbol'') (map_get e ''quantity'') | _ \<Rightarrow> Inl dc_error) xs = Inr ys"
      by (auto simp: normalize_open_positions_def ebind_eq_Inr)
    from ys(2) have "\<forall>y \<in> set ys. \<exists>v w. position_entry v w = Inr y"
      by (rule emap_Inr_ball) (auto split: pyval.splits)
    with ys(1) show ?thesis by blast
  next
    case (PMap d)
    with assms obtain ys where ys: "ps = sort_key fst ys" "emap (\<lambda>(k, q). position_entry (PStr k) q) d = Inr ys"
      by (auto simp: normalize_open_positions_def ebind_eq_Inr)
    from ys(2) have "\<forall>y \<in> set ys. \<exists>v w. position_entry v w = Inr y"
      by (rule emap_Inr_ball) auto
    with ys(1) show ?thesis by blast
  qed (use assms in \<open>auto simp: normalize_open_positions_def intro: exI[of _ "[]"]\<close>)
  then obtain ys where ps: "ps = sort_key fst ys" and e: "\<And>y. y \<in> set ys \<Longrightarrow> \<exists>v w. position_entry v w = Inr y"
    by blast
  show "sorted (map fst ps)" unfolding ps by simp
  show "clean_text s \<and> grid_text QTY_EXP q" if "(s, q) \<in> set ps"
    using e[of "(s, q)"] that ps by (auto dest: position_entry_normal)
qed
lemma system_config_normal:
  assumes "normalize_system_config v = Inr c"
  shows "sorted (map fst c)" "(k, j) \<in> set c \<Longrightarrow> scalar_json j"
proof -
  have keys: "emap (\<lambda>(k, x). ebind (system_value x) (\<lambda>j. Inr (k, j))) d = Inr c \<Longrightarrow> map fst c = map fst d" for d c
    by (induction d arbitrary: c) (auto simp: ebind_eq_Inr)
  show "sorted (map fst c)"
    using assms by (cases v) (auto simp: normalize_system_config_def dest!: keys)
  have sc: "system_value x = Inr j \<Longrightarrow> scalar_json j" for x j
    by (auto simp: system_value_def scalar_json_def ebind_eq_Inr split: pyval.splits)
  have sj: "\<forall>y \<in> set c. scalar_json (snd y)" if "emap (\<lambda>(k, x). ebind (system_value x) (\<lambda>j. Inr (k, j))) d = Inr c" for d
    using that by (rule emap_Inr_ball) (auto simp: ebind_eq_Inr dest: sc)
  show "scalar_json j" if "(k, j) \<in> set c"
    using assms that by (cases v) (auto simp: normalize_system_config_def dest!: sj)
qed

lemma normalize_normal: "normalize_contract_input v = Inr ci \<Longrightarrow> normal_input ci"
  by (auto simp: normalize_contract_input_def ebind_eq_Inr normal_input_def clean_string_upper clean_string_clean
      quantized_field_grid clean_case open_positions_normal system_config_normal)

lemma map_get_Cons [simp]: "map_get ((k, v) # d) k' = (if k = k' then v else map_get d k')"
  by (simp add: map_get_def)

lemma map_get_or_Cons [simp]: "map_get_or ((k, v) # d) k' x = (if k = k' then v else map_get_or d k' x)"
  by (simp add: map_get_or_def)

lemma clean_string_text: "clean_text s \<Longrightarrow> clean_string False (PStr s) = Inr s"
  "clean_text s \<Longrightarrow> upper s = s \<Longrightarrow> clean_string True (PStr s) = Inr s"
  by (simp_all add: clean_string_def clean_text_def Let_def)

lemma emap_map_eq: "(\<And>x. x \<in> set xs \<Longrightarrow> f (g x) = Inr x) \<Longrightarrow> emap f (map g xs) = Inr xs"
  by (induction xs) auto

text \<open>A normalized input, read back from its dictionary, is normalized to itself.\<close>

lemma normalize_input_json:
  assumes "normal_input ci"
  shows "normalize_contract_input (of_json (input_json ci)) = Inr ci"
proof -
  note n = assms[unfolded normal_input_def]
  have qty: "quantized_field QTY_EXP (PStr s) = Inr s" if "grid_text QTY_EXP s" for s
    using that by (rule quantized_field_text) simp_all
  have money: "quantized_field MONEY_EXP (PStr s) = Inr s" if "grid_text MONEY_EXP s" for s
    using that by (rule quantized_field_text) simp_all
  have ratio: "quantized_field RATIO_EXP (PStr s) = Inr s" if "grid_text RATIO_EXP s" for s
    using that by (rule quantized_field_text) simp_all
  let ?entry = "\<lambda>(s, q). JObj [(''symbol'', JStr s), (''quantity'', JStr q)]"
  have "emap (\<lambda>x. case x of PMap e \<Rightarrow> position_entry (map_get e ''symbol'') (map_get e ''quantity'') | _ \<Rightarrow> Inl dc_error)
      (map (of_json \<circ> ?entry) (ci_positions ci)) = Inr (ci_positions ci)"
    using n by (intro emap_map_eq) (auto simp: position_entry_def clean_string_text qty split: prod.splits)
  moreover have "sort_key fst (ci_positions ci) = ci_positions ci" using n by (intro sort_key_id_if_sorted) simp
  ultimately have pos: "normalize_open_positions (of_json (JList (map ?entry (ci_positions ci)))) = Inr (ci_positions ci)"
    by (simp add: normalize_open_positions_def)
  let ?sys = "map (map_prod id of_json) (ci_system ci)"
  have "sort_key fst ?sys = ?sys" using n by (intro sort_key_id_if_sorted) (simp add: comp_def)
  moreover have "system_value (of_json j) = Inr j" if "scalar_json j" for j
    using that by (cases j) (auto simp: system_value_def scalar_json_def)
  then have "emap (\<lambda>(k, x). ebind (system_value x) (\<lambda>j. Inr (k, j))) ?sys = Inr (ci_system ci)"
    using n by (intro emap_map_eq) auto
  ultimately have sys: "normalize_system_config (PMap ?sys) = Inr (ci_system ci)"
    by (simp add: normalize_system_config_def)
  show ?thesis
    using n by (simp add: normalize_contract_input_def input_json_def map_of_val_def clean_string_text qty money ratio
        sys pos[simplified] dc_to_int_def)
qed

subsection \<open>Evaluation\<close>

lemma round_div_le: "0 < d \<Longrightarrow> round_div r c d \<le> c div d + 1"
  by (cases r) (auto simp: round_div_def Let_def)

lemma q_str_total:
  assumes "c < 10 ^ 28" "e \<le> q \<or> c = 0"
  shows "\<exists>s. q_str q (DFin neg c e) = Inr s"
proof -
  have "rescale ROUND_HALF_EVEN c e q < 10 ^ 28"
  proof (cases "q \<le> e")
    case True
    with assms show ?thesis by (auto simp: rescale_def)
  next
    case False
    define k where "k = nat (q - e)"
    have k: "1 \<le> k" using False by (simp add: k_def)
    have "rescale ROUND_HALF_EVEN c e q = round_div ROUND_HALF_EVEN c (10 ^ k)" using False by (simp add: rescale_def k_def)
    also have "\<dots> \<le> c div 10 ^ k + 1" by (rule round_div_le) simp
    also have "c div 10 ^ k \<le> c div 10" using k by (intro div_le_mono2) (simp_all add: self_le_power)
    also have "c div 10 < 10 ^ 27" using assms(1) by simp
    finally show ?thesis by simp
  qed
  then show ?thesis by (auto simp: q_str_def dec_quantize_fin)
qed

lemma normal_numbers:
  assumes "normal_input ci"
  obtains n where "contract_numbers_of ci = Inr n"
    "on_grid QTY_EXP (cn_quantity n)" "on_grid MONEY_EXP (cn_price n)" "on_grid MONEY_EXP (cn_balance n)"
    "on_grid MONEY_EXP (cn_exposure n)" "on_grid RATIO_EXP (cn_drawdown n)" "on_grid MONEY_EXP (cn_max_notional n)"
    "on_grid MONEY_EXP (cn_max_exposure n)" "on_grid RATIO_EXP (cn_max_drawdown n)"
proof -
  have g: "\<exists>d. dec_of_string s = Inr d \<and> on_grid q d" if "grid_text q s" "- 8 \<le> q" "q \<le> 0" for q s
    by (rule grid_text_cases[OF that]) (auto simp: on_grid_def)
  note m = g[OF _ grid_exps(1,2)] and r = g[OF _ grid_exps(3,4)] and q = g[OF _ grid_exps(5,6)]
  from assms[unfolded normal_input_def] show ?thesis
    using that q[of "ci_quantity ci"] m[of "ci_price_ref ci"] m[of "ci_balance ci"] m[of "ci_exposure ci"] r[of "ci_drawdown ci"]
      m[of "ci_max_notional ci"] m[of "ci_max_exposure ci"] r[of "ci_max_drawdown ci"]
    by (auto simp: contract_numbers_of_def)
qed

text \<open>What the contract promises, on exact numbers.\<close>

definition contract_permits ::
  "string \<Rightarrow> string \<Rightarrow> bool \<Rightarrow> rat \<Rightarrow> rat \<Rightarrow> rat \<Rightarrow> rat \<Rightarrow> rat \<Rightarrow> rat \<Rightarrow> rat \<Rightarrow> rat \<Rightarrow> bool" where
  "contract_permits mode side reduce_only quantity price balance exposure drawdown max_notional max_exposure max_drawdown \<longleftrightarrow>
     mode \<in> {''shadow'', ''paper'', ''replay'', ''live''} \<and> side \<in> {''BUY'', ''SELL''}
     \<and> 0 < quantity \<and> 0 < price \<and> 0 \<le> balance \<and> 0 \<le> exposure \<and> 0 \<le> drawdown
     \<and> 0 < max_notional \<and> 0 < max_exposure \<and> 0 < max_drawdown \<and> drawdown \<le> max_drawdown
     \<and> (side = ''SELL'' \<and> reduce_only
        \<or> quantity * price \<le> max_notional
          \<and> (if side = ''BUY'' \<and> \<not> reduce_only then exposure + quantity * price else exposure - quantity * price) \<le> max_exposure)"

lemma when_code_Nil [simp]: "when_code b c = [] \<longleftrightarrow> \<not> b"
  by (simp add: when_code_def)

lemma on_grid_form: "on_grid q d \<Longrightarrow> \<exists>s c. d = DFin s c q \<and> c < 10 ^ 28"
  by (cases d) (auto simp: on_grid_def)

lemma contract_reasons_exact:
  assumes "normal_input ci" "contract_numbers_of ci = Inr n" "is_finite notional" "is_finite projected"
    and fin: "is_finite (cn_quantity n)" "is_finite (cn_price n)" "is_finite (cn_balance n)" "is_finite (cn_exposure n)" "is_finite (cn_drawdown n)"
      "is_finite (cn_max_notional n)" "is_finite (cn_max_exposure n)" "is_finite (cn_max_drawdown n)"
    and v: "dec_val notional = dec_val (cn_quantity n) * dec_val (cn_price n)"
      "dec_val projected = (let e = dec_val (cn_exposure n); x = dec_val (cn_quantity n) * dec_val (cn_price n) in
         if ci_side ci = ''BUY'' \<and> \<not> ci_reduce_only ci then e + x else max 0 (e - x))"
  shows "contract_reasons ci n notional projected = [] \<longleftrightarrow>
    contract_permits (ci_run_mode ci) (ci_side ci) (ci_reduce_only ci) (dec_val (cn_quantity n)) (dec_val (cn_price n))
      (dec_val (cn_balance n)) (dec_val (cn_exposure n)) (dec_val (cn_drawdown n)) (dec_val (cn_max_notional n))
      (dec_val (cn_max_exposure n)) (dec_val (cn_max_drawdown n))"
proof -
  have case_id: "lower (ci_run_mode ci) = ci_run_mode ci" "upper (ci_side ci) = ci_side ci"
    using assms(1) by (simp_all add: normal_input_def)
  have z: "is_finite dec_zero" "dec_val dec_zero = 0" by simp_all
  show ?thesis
    unfolding contract_reasons_def case_id is_reduce_only_sell_def append_is_Nil_conv when_code_Nil
    by (simp only: fin_cmp[OF fin(1) z(1)] fin_cmp[OF fin(2) z(1)] fin_cmp[OF fin(3) z(1)] fin_cmp[OF fin(4) z(1)]
      fin_cmp[OF fin(5) z(1)] fin_cmp[OF fin(6) z(1)] fin_cmp[OF fin(7) z(1)] fin_cmp[OF fin(8) z(1)]
      fin_cmp[OF z(1) fin(6)] fin_cmp[OF z(1) fin(7)] fin_cmp[OF z(1) fin(8)] fin_cmp[OF fin(6) assms(3)]
      fin_cmp[OF fin(7) assms(4)] fin_cmp[OF fin(8,5)] z(2) v)
     (auto simp: contract_permits_def ALLOWED_RUN_MODES_def ALLOWED_ORDER_SIDES_def Let_def max_def not_less not_le)
qed

definition moderate :: "contract_numbers \<Rightarrow> bool" where
  "moderate n \<longleftrightarrow> \<bar>dec_val (cn_quantity n) * dec_val (cn_price n)\<bar> + \<bar>dec_val (cn_exposure n)\<bar> < 10 ^ 12"

lemma grid_abs: "\<bar>dec_val (DFin s c e)\<bar> = of_nat c * 10 powi e"
  by (simp add: dec_val_def sgn_of_def abs_mult)

lemma sum_exact:
  assumes c: "c < 10 ^ 28" "c' < 10 ^ 28" and b: "\<bar>dec_val (DFin s c (- 8))\<bar> + \<bar>dec_val (DFin s' c' (- 16))\<bar> < 10 ^ 12"
  shows "\<exists>n t. dec_add (DFin s c (- 8)) (DFin s' c' (- 16)) = Inr (DFin n t (- 16)) \<and> t < 10 ^ 28
    \<and> dec_val (DFin n t (- 16)) = dec_val (DFin s c (- 8)) + dec_val (DFin s' c' (- 16))"
proof -
  have p: "(10::rat) powi (- 8) = 10 ^ 8 * 10 powi (- 16)" using powi_split[of "- 16" "- 8"] by simp
  have "of_nat (c * 10 ^ 8 + c') * (10::rat) powi (- 16) < 10 ^ 12"
    using b by (simp only: grid_abs p) (simp add: algebra_simps)
  then have "(of_nat (c * 10 ^ 8 + c') :: rat) < of_nat (10 ^ 28)" by (simp add: power_int_def field_simps)
  then have lt: "c * 10 ^ 8 + c' < 10 ^ 28" by (simp only: of_nat_less_iff)
  let ?t = "dec_scaled (- 16) (DFin s c (- 8)) + dec_scaled (- 16) (DFin s' c' (- 16))"
  have "\<bar>?t\<bar> \<le> int (c * 10 ^ 8 + c')" by (auto simp: dec_scaled_def sgn_of_def)
  with lt have "nat \<bar>?t\<bar> < 10 ^ 28" by linarith
  then obtain r where r: "dec_add (DFin s c (- 8)) (DFin s' c' (- 16)) = Inr r" "dec_small r"
    "dec_val r = dec_val (DFin s c (- 8)) + dec_val (DFin s' c' (- 16))" "d_exp r = - 16"
    using dec_add_exact[of "- 8" "- 16" s c s' c'] by auto
  then show ?thesis by (cases r) (auto simp: dec_small_def)
qed

lemma product_exact:
  assumes "\<bar>dec_val (DFin s c (- 8)) * dec_val (DFin s' c' (- 8))\<bar> < 10 ^ 12"
  shows "dec_mul (DFin s c (- 8)) (DFin s' c' (- 8)) = Inr (DFin (s \<noteq> s') (c * c') (- 16))" "c * c' < 10 ^ 28"
proof -
  have "of_nat (c * c') * (10::rat) powi (- 16) < 10 ^ 12"
    using assms by (simp only: abs_mult grid_abs) (simp add: power_int_def algebra_simps)
  then have "(of_nat (c * c') :: rat) < of_nat (10 ^ 28)" by (simp add: power_int_def field_simps)
  then show lt: "c * c' < 10 ^ 28" by (simp only: of_nat_less_iff)
  show "dec_mul (DFin s c (- 8)) (DFin s' c' (- 8)) = Inr (DFin (s \<noteq> s') (c * c') (- 16))"
    using dec_mul_exact[OF lt, of "- 8" "- 8" s s'] by simp
qed

text \<open>Projecting is exact.\<close>

lemma projected_exact:
  assumes c: "c < 10 ^ 28" "c' < 10 ^ 28" and b: "\<bar>dec_val (DFin s c (- 8))\<bar> + \<bar>dec_val (DFin s' c' (- 16))\<bar> < 10 ^ 12"
  obtains p where "projected_exposure side ro (DFin s c (- 8)) (DFin s' c' (- 16)) = Inr p" "is_finite p" "\<exists>t. q_str MONEY_EXP p = Inr t"
    "dec_val p = (let e = dec_val (DFin s c (- 8)); x = dec_val (DFin s' c' (- 16)) in
       if side = ''BUY'' \<and> \<not> ro then e + x else max 0 (e - x))"
proof (cases "side = ''BUY'' \<and> \<not> ro")
  case True
  obtain n t where t: "dec_add (DFin s c (- 8)) (DFin s' c' (- 16)) = Inr (DFin n t (- 16))" "t < 10 ^ 28"
    "dec_val (DFin n t (- 16)) = dec_val (DFin s c (- 8)) + dec_val (DFin s' c' (- 16))"
    using sum_exact[OF c b] by blast
  show ?thesis
    by (rule that[of "DFin n t (- 16)"]) (use True t q_str_total[OF t(2), of "- 16" MONEY_EXP n] in
      \<open>simp_all add: projected_exposure_def MONEY_EXP_def del: dec_add.simps\<close>)
next
  case False
  have "\<bar>dec_val (DFin s c (- 8))\<bar> + \<bar>dec_val (DFin (\<not> s') c' (- 16))\<bar> < 10 ^ 12" using b by (simp only: grid_abs)
  from sum_exact[OF c this] obtain n t where t: "dec_sub (DFin s c (- 8)) (DFin s' c' (- 16)) = Inr (DFin n t (- 16))" "t < 10 ^ 28"
    "dec_val (DFin n t (- 16)) = dec_val (DFin s c (- 8)) - dec_val (DFin s' c' (- 16))"
    by (auto simp: dec_sub_def dec_val_neg simp del: dec_add.simps)
  let ?p = "if dec_lt (DFin n t (- 16)) dec_zero then dec_zero else DFin n t (- 16)"
  have q: "\<exists>x. q_str MONEY_EXP ?p = Inr x"
    using q_str_total[OF t(2), of "- 16" MONEY_EXP n] q_str_total[of 0 0 MONEY_EXP False] by (auto simp: MONEY_EXP_def)
  show ?thesis
    by (rule that[of ?p]) (use False t q in \<open>auto simp: projected_exposure_def Let_def max_def not_less simp del: dec_add.simps\<close>)
qed
lemma q_field_total: "\<exists>t. q_str q d = Inr t \<Longrightarrow> \<exists>m. q_field name q d = Inr m"
  by (auto simp: q_field_def)

lemma on_grid_q_str: "on_grid q d \<Longrightarrow> \<exists>t. q_str q d = Inr t"
  using q_str_total by (auto dest!: on_grid_form)

lemma decided_decision:
  "co_decision (decided sha ci reasons limits metrics) = (if reasons = [] then 1 else 0)"
  "co_reasons (decided sha ci reasons limits metrics) = reasons"
  by (simp_all add: decided_def Let_def)

lemma evaluate_moderate:
  assumes "normal_input ci" "contract_numbers_of ci = Inr n" "moderate n"
  obtains co where "evaluate_normalized sha ci = Inr co"
    "co_decision co = (if contract_permits (ci_run_mode ci) (ci_side ci) (ci_reduce_only ci) (dec_val (cn_quantity n))
        (dec_val (cn_price n)) (dec_val (cn_balance n)) (dec_val (cn_exposure n)) (dec_val (cn_drawdown n))
        (dec_val (cn_max_notional n)) (dec_val (cn_max_exposure n)) (dec_val (cn_max_drawdown n)) then 1 else 0)"
    "co_reasons co = [] \<longleftrightarrow> co_decision co = 1"
proof -
  have g: "on_grid QTY_EXP (cn_quantity n)" "on_grid MONEY_EXP (cn_price n)" "on_grid MONEY_EXP (cn_balance n)"
    "on_grid MONEY_EXP (cn_exposure n)" "on_grid RATIO_EXP (cn_drawdown n)" "on_grid MONEY_EXP (cn_max_notional n)"
    "on_grid MONEY_EXP (cn_max_exposure n)" "on_grid RATIO_EXP (cn_max_drawdown n)"
    by (rule normal_numbers[OF assms(1)], simp add: assms(2))+
  note fin = g[THEN on_grid_finite]
  obtain s c s' c' s'' c'' where n: "cn_quantity n = DFin s c (- 8)" "cn_price n = DFin s' c' (- 8)"
    "cn_exposure n = DFin s'' c'' (- 8)" "c'' < 10 ^ 28"
    using g(1,2,4) by (auto simp: QTY_EXP_def MONEY_EXP_def dest!: on_grid_form)
  let ?x = "DFin (s \<noteq> s') (c * c') (- 16)"
  have x: "dec_mul (cn_quantity n) (cn_price n) = Inr ?x" "c * c' < 10 ^ 28"
    using product_exact[of s c s' c'] assms(3) by (simp_all add: moderate_def n del: dec_mul.simps)
  have xv: "dec_val ?x = dec_val (cn_quantity n) * dec_val (cn_price n)"
    using dec_val_mul[of s s' c c' "- 8" "- 8"] by (simp add: n)
  have side: "upper (ci_side ci) = ci_side ci" using assms(1) by (simp add: normal_input_def)
  have b: "\<bar>dec_val (DFin s'' c'' (- 8))\<bar> + \<bar>dec_val ?x\<bar> < 10 ^ 12"
    unfolding xv using assms(3) by (simp add: moderate_def n)
  obtain p where p: "projected_exposure (ci_side ci) (ci_reduce_only ci) (cn_exposure n) ?x = Inr p" "is_finite p" "\<exists>t. q_str MONEY_EXP p = Inr t"
    "dec_val p = (let e = dec_val (cn_exposure n); x = dec_val (cn_quantity n) * dec_val (cn_price n) in
       if ci_side ci = ''BUY'' \<and> \<not> ci_reduce_only ci then e + x else max 0 (e - x))"
    unfolding xv[symmetric] n(3) by (rule projected_exact[OF n(4) x(2) b])
  have "\<exists>t. q_str MONEY_EXP ?x = Inr t" using q_str_total[OF x(2), of "- 16" MONEY_EXP] by (simp add: MONEY_EXP_def)
  note q = g(3-8)[THEN on_grid_q_str] p(3) this
  note q = q[THEN q_field_total]
  obtain l where l: "applied_limits n = Inr l"
    using q(4)[of "''max_notional_usdt''"] q(5)[of "''max_total_exposure_usdt''"] q(6)[of "''max_daily_drawdown_pct''"]
    by (auto simp: applied_limits_def)
  obtain m where m: "contract_metrics n ?x p = Inr m"
    using q(8)[of "''order_notional_usdt''"] q(7)[of "''projected_exposure_usdt''"] q(2)[of "''current_exposure_usdt''"]
      q(3)[of "''daily_drawdown_pct''"] q(1)[of "''balance_usdt''"]
    by (auto simp: contract_metrics_def)
  have "contract_reasons ci n ?x p = [] \<longleftrightarrow> contract_permits (ci_run_mode ci) (ci_side ci) (ci_reduce_only ci) (dec_val (cn_quantity n))
        (dec_val (cn_price n)) (dec_val (cn_balance n)) (dec_val (cn_exposure n)) (dec_val (cn_drawdown n))
        (dec_val (cn_max_notional n)) (dec_val (cn_max_exposure n)) (dec_val (cn_max_drawdown n))"
    by (rule contract_reasons_exact[OF assms(1,2) _ p(2) fin xv p(4)]) simp
  then have r: "sort (contract_reasons ci n ?x p) = [] \<longleftrightarrow> contract_permits (ci_run_mode ci) (ci_side ci) (ci_reduce_only ci) (dec_val (cn_quantity n))
        (dec_val (cn_price n)) (dec_val (cn_balance n)) (dec_val (cn_exposure n)) (dec_val (cn_drawdown n))
        (dec_val (cn_max_notional n)) (dec_val (cn_max_exposure n)) (dec_val (cn_max_drawdown n))"
    by (metis set_empty set_sort)
  have "evaluate_normalized sha ci = Inr (decided sha ci (sort (contract_reasons ci n ?x p)) l m)"
    by (simp only: evaluate_normalized_def assms(2) x(1) side p(1) l m ebind_Inr)
  then show ?thesis by (rule that) (simp_all only: decided_decision r split: if_split, simp_all)
qed

end
