(* ===== verification/DecisionBundle.thy ===== *)
theory DecisionBundle
  imports DecisionContract
begin

text \<open>
  What a bundle of the decision contract is worth: it is built, verified, written to the audit
  directory, and described by a JSON schema. The properties of \<open>DecisionContract\<close> are here.
\<close>

subsection \<open>Bundles\<close>

lemma of_json_plain: "\<not> has_decimal (of_json j) \<and> to_json (of_json j) = Some j"
proof (induction j)
  case (JList xs)
  then have "those (map (to_json \<circ> of_json) xs) = Some xs" by (induction xs) auto
  with JList show ?case by (auto simp: list_ex_iff)
next
  case (JObj ms)
  then have m: "\<not> has_decimal (of_json (snd m))" "to_json (of_json (snd m)) = Some (snd m)" if "m \<in> set ms" for m
    using that by (cases m, auto)+
  then have "those (map (\<lambda>x. map_option (Pair (fst x)) (to_json (of_json (snd x)))) ms) = Some ms"
    by (induction ms) auto
  with m show ?case by (auto simp: list_ex_iff comp_def map_prod_def split_beta)
qed simp_all

lemma same_output_of_json: "same_output (of_json j) k = Inr (canonical_json j = canonical_json k)"
  by (simp add: same_output_def of_json_plain)

lemma built_is_normal:
  assumes "build_bundle sha raw = Inr b"
  obtains ci co where "normalize_contract_input raw = Inr ci" "evaluate_normalized sha ci = Inr co" "b = bundle_json ci co" "normal_input ci"
  using assms normalize_normal by (auto simp: build_bundle_def ebind_eq_Inr)

lemma verify_bundle_json:
  assumes "normal_input ci"
  shows "verify_bundle sha (of_json (bundle_json ci co)) require_allow =
    (case evaluate_normalized sha ci of
       Inl e \<Rightarrow> (False, if e = dc_error then ''invalid decision contract input'' else ''verification error'')
     | Inr co' \<Rightarrow> if canonical_json (output_json co) \<noteq> canonical_json (output_json co')
         then (False, ''output does not match deterministic evaluation'')
         else if require_allow \<and> co_decision co' \<noteq> 1 then (False, ''decision contract denied execution'') else (True, ''OK''))"
proof -
  obtain i where i: "of_json (input_json ci) = PMap i" by (simp add: input_json_def)
  obtain out where out: "of_json (output_json co) = PMap out" by (simp add: output_json_def)
  have n: "normalize_contract_input (PMap i) = Inr ci" using normalize_input_json[OF assms] by (simp only: i)
  have same: "same_output (PMap out) k = Inr (canonical_json (output_json co) = canonical_json k)" for k
    using same_output_of_json[of "output_json co" k] by (simp only: out)
  show ?thesis
    by (simp add: bundle_json_def verify_bundle_def i out n same split: sum.split)
qed

subsection \<open>The audit file\<close>

text \<open>For bundles that are JSON values without fractions, as the ones the module builds are.\<close>

definition member :: "json \<Rightarrow> string \<Rightarrow> py_exc + json" where
  "member j k = (case j of
     JObj ms \<Rightarrow> (case map_of ms k of Some x \<Rightarrow> Inr x | None \<Rightarrow> Inl (KeyError k))
   | _ \<Rightarrow> Inl TypeError)"

definition build_audit_record :: "(string \<Rightarrow> string) \<Rightarrow> json \<Rightarrow> py_exc + json" where
  "build_audit_record sha b =
     (if \<not> fst (verify_bundle sha (of_json b) False) then Inl dc_error
      else ebind (member b ''output'') (\<lambda>out. ebind (member out ''evidence'') (\<lambda>ev.
           ebind (member b ''input'') (\<lambda>inp. ebind (member ev ''input_hash'') (\<lambda>ih. ebind (member ev ''decision_hash'') (\<lambda>dh.
           Inr (JObj [(''contract_name'', JStr CONTRACT_NAME), (''contract_version'', JStr CONTRACT_VERSION),
             (''input'', inp), (''output'', out), (''input_hash'', ih), (''decision_hash'', dh)])))))))"

text \<open>The name of the file in the output directory, and what is written to it.\<close>

definition audit_file :: "(string \<Rightarrow> string) \<Rightarrow> json \<Rightarrow> py_exc + (string \<times> string)" where
  "audit_file sha b = ebind (build_audit_record sha b) (\<lambda>r. ebind (member r ''decision_hash'') (\<lambda>dh.
     let decision_hash = py_str (of_json dh) in
     if length decision_hash < 12 then Inl dc_error
     else Inr (decision_hash @ ''.json'', canonical_json r @ [CHR 0x0A])))"

subsection \<open>The schema\<close>

text \<open>
  The keywords the schema uses. Every object with listed properties is closed and requires all of
  them. \<open>SDecimal\<close> and \<open>SDigest\<close> are strings with the two patterns.
\<close>

datatype schema =
    SConst json
  | SEnum "json list"
  | SString nat
  | SDecimal
  | SDigest
  | SInteger
  | SBoolean
  | SAnyObject
  | SArray schema
  | SObject "(string \<times> schema) list"

definition unsigned_decimal :: "string \<Rightarrow> bool" where
  "unsigned_decimal s \<longleftrightarrow> (let rest = dropWhile is_digit s in
     takeWhile is_digit s \<noteq> []
     \<and> (case rest of [] \<Rightarrow> True | c # cs \<Rightarrow> c = CHR ''.'' \<and> cs \<noteq> [] \<and> list_all is_digit cs))"

definition decimal_pattern :: "string \<Rightarrow> bool" where
  "decimal_pattern s \<longleftrightarrow> (case s of [] \<Rightarrow> False | c # cs \<Rightarrow> if c = CHR ''-'' then unsigned_decimal cs else unsigned_decimal s)"

definition digest_pattern :: "string \<Rightarrow> bool" where
  "digest_pattern s \<longleftrightarrow> length s = 64 \<and> list_all (\<lambda>c. is_digit c \<or> c \<in> set ''abcdef'') s"

fun conforms :: "schema \<Rightarrow> json \<Rightarrow> bool" where
  "conforms (SConst c) j \<longleftrightarrow> j = c"
| "conforms (SEnum cs) j \<longleftrightarrow> j \<in> set cs"
| "conforms (SString n) j \<longleftrightarrow> (case j of JStr s \<Rightarrow> n \<le> length s | _ \<Rightarrow> False)"
| "conforms SDecimal j \<longleftrightarrow> (case j of JStr s \<Rightarrow> decimal_pattern s | _ \<Rightarrow> False)"
| "conforms SDigest j \<longleftrightarrow> (case j of JStr s \<Rightarrow> digest_pattern s | _ \<Rightarrow> False)"
| "conforms SInteger j \<longleftrightarrow> (case j of JInt _ \<Rightarrow> True | _ \<Rightarrow> False)"
| "conforms SBoolean j \<longleftrightarrow> (case j of JBool _ \<Rightarrow> True | _ \<Rightarrow> False)"
| "conforms SAnyObject j \<longleftrightarrow> (case j of JObj _ \<Rightarrow> True | _ \<Rightarrow> False)"
| "conforms (SArray s) j \<longleftrightarrow> (case j of JList xs \<Rightarrow> list_all (conforms s) xs | _ \<Rightarrow> False)"
| "conforms (SObject fs) j \<longleftrightarrow> (case j of
     JObj ms \<Rightarrow> list_all (\<lambda>m. fst m \<in> set (map fst fs)) ms
       \<and> list_all (\<lambda>f. case map_of ms (fst f) of Some x \<Rightarrow> conforms (snd f) x | None \<Rightarrow> False) fs
   | _ \<Rightarrow> False)"

definition decision_contract_schema :: schema where
  "decision_contract_schema = SObject
     [(''contract_name'', SConst (JStr CONTRACT_NAME)), (''contract_version'', SConst (JStr CONTRACT_VERSION)),
      (''input'', SObject
        [(''contract_name'', SConst (JStr CONTRACT_NAME)), (''contract_version'', SConst (JStr CONTRACT_VERSION)),
         (''run_mode'', SEnum (map JStr (sort ALLOWED_RUN_MODES))),
         (''order'', SObject [(''symbol'', SString 1), (''side'', SEnum (map JStr (sort ALLOWED_ORDER_SIDES))),
           (''quantity'', SDecimal), (''price_ref'', SDecimal), (''timestamp_input_ms'', SInteger), (''reduce_only'', SBoolean)]),
         (''account_state'', SObject [(''balance_usdt'', SDecimal), (''total_exposure_usdt'', SDecimal), (''daily_drawdown_pct'', SDecimal)]),
         (''open_positions'', SArray (SObject [(''symbol'', SString 1), (''quantity'', SDecimal)])),
         (''risk_policy'', SObject [(''max_notional_usdt'', SDecimal), (''max_total_exposure_usdt'', SDecimal),
           (''max_daily_drawdown_pct'', SDecimal)]),
         (''system_config'', SAnyObject),
         (''context'', SObject [(''source'', SString 0), (''signal_id'', SString 0), (''strategy_id'', SString 0), (''bot_id'', SString 0)])]),
      (''output'', SObject
        [(''contract_version'', SConst (JStr CONTRACT_VERSION)), (''decision'', SEnum [JInt 0, JInt 1]),
         (''reason_codes'', SArray (SString 0)), (''applied_limits'', SAnyObject), (''metrics'', SAnyObject),
         (''evidence'', SObject [(''canonical_input'', SString 0), (''input_hash'', SDigest),
           (''canonical_output'', SString 0), (''decision_hash'', SDigest)])])]"

lemma grid_decimal_pattern:
  assumes "grid_text q s" "q \<le> 0"
  shows "decimal_pattern s"
proof -
  obtain neg c where "s = dec_format_f (DFin neg c q)" using assms(1) by (auto simp: grid_text_def)
  then obtain ip fp where f: "s = sign_str neg @ fixed_body ip fp" "list_all is_digit ip" "list_all is_digit fp" "ip \<noteq> []"
    using format_f_body[OF assms(2)] by metis
  have u: "unsigned_decimal (fixed_body ip fp)"
    using f(2-4) by (cases "fp = []") (simp_all add: unsigned_decimal_def fixed_body_def Let_def)
  obtain a as where ip: "ip = a # as" using f(4) by (cases ip) auto
  have "a \<noteq> CHR ''-''" using f(2) ip by auto
  with u ip show ?thesis by (auto simp: f(1) decimal_pattern_def sign_str_def fixed_body_def)
qed

lemma evaluation_shape:
  assumes "evaluate_normalized sha ci = Inr co"
  obtains reasons limits metrics where "co = decided sha ci reasons limits metrics"
  using assms by (auto simp: evaluate_normalized_def ebind_eq_Inr)

lemma normal_input_conforms:
  assumes "normal_input ci"
  shows "conforms (SObject
        [(''contract_name'', SConst (JStr CONTRACT_NAME)), (''contract_version'', SConst (JStr CONTRACT_VERSION)),
         (''run_mode'', SEnum (map JStr (sort ALLOWED_RUN_MODES))),
         (''order'', SObject [(''symbol'', SString 1), (''side'', SEnum (map JStr (sort ALLOWED_ORDER_SIDES))),
           (''quantity'', SDecimal), (''price_ref'', SDecimal), (''timestamp_input_ms'', SInteger), (''reduce_only'', SBoolean)]),
         (''account_state'', SObject [(''balance_usdt'', SDecimal), (''total_exposure_usdt'', SDecimal), (''daily_drawdown_pct'', SDecimal)]),
         (''open_positions'', SArray (SObject [(''symbol'', SString 1), (''quantity'', SDecimal)])),
         (''risk_policy'', SObject [(''max_notional_usdt'', SDecimal), (''max_total_exposure_usdt'', SDecimal),
           (''max_daily_drawdown_pct'', SDecimal)]),
         (''system_config'', SAnyObject),
         (''context'', SObject [(''source'', SString 0), (''signal_id'', SString 0), (''strategy_id'', SString 0), (''bot_id'', SString 0)])])
      (input_json ci)
    \<longleftrightarrow> ci_run_mode ci \<in> set ALLOWED_RUN_MODES \<and> ci_side ci \<in> set ALLOWED_ORDER_SIDES"
proof -
  note n = assms[unfolded normal_input_def clean_text_def]
  have d: "grid_text QTY_EXP s \<Longrightarrow> decimal_pattern s" "grid_text MONEY_EXP s \<Longrightarrow> decimal_pattern s" "grid_text RATIO_EXP s \<Longrightarrow> decimal_pattern s" for s
    by (auto intro: grid_decimal_pattern)
  have p: "list_all (conforms (SObject [(''symbol'', SString 1), (''quantity'', SDecimal)]))
      (map (\<lambda>(s, q). JObj [(''symbol'', JStr s), (''quantity'', JStr q)]) (ci_positions ci))"
    using n d(1) by (auto simp: list_all_iff Suc_le_eq)
  have s: "Suc 0 \<le> length (ci_symbol ci)" using n by (simp add: Suc_le_eq)
  show ?thesis using n d p s by (auto simp: input_json_def)
qed

subsection \<open>What a hash determines\<close>

lemma jsort_members:
  assumes "jsort (JObj ms) = jsort (JObj ns)" "(k, x) \<in> set ms"
  shows "\<exists>y. (k, y) \<in> set ns \<and> jsort y = jsort x"
proof -
  have "sort_key fst (map (map_prod id jsort) ms) = sort_key fst (map (map_prod id jsort) ns)" using assms(1) by simp
  from arg_cong[OF this, of set] have "map_prod id jsort ` set ms = map_prod id jsort ` set ns" by simp
  moreover have "map_prod id jsort (k, x) \<in> map_prod id jsort ` set ms" using assms(2) by (rule imageI)
  ultimately obtain k' y where "(k', y) \<in> set ns" "map_prod id jsort (k', y) = map_prod id jsort (k, x)" by auto
  then show ?thesis by auto
qed

lemma jsort_scalar:
  "jsort y = JStr t \<longleftrightarrow> y = JStr t" "jsort y = JInt i \<longleftrightarrow> y = JInt i" "jsort y = JBool b \<longleftrightarrow> y = JBool b"
  by (cases y; simp)+

lemma decided_hashes:
  "co_input_hash (decided sha ci r l m) = sha (co_canonical_input (decided sha ci r l m))"
  "co_decision_hash (decided sha ci r l m) = sha (co_canonical_output (decided sha ci r l m))"
  "co_canonical_input (decided sha ci r l m) = canonical_json (input_json ci)"
  by (simp_all add: decided_def Let_def)

lemma canonical_output_input_hash:
  assumes "co_canonical_output (decided sha ci r l m) = co_canonical_output (decided sha ci' r' l' m')"
  shows "co_input_hash (decided sha ci r l m) = co_input_hash (decided sha ci' r' l' m')"
proof -
  from canonical_json_inj[OF assms[unfolded decided_def Let_def contract_output.select_convs]]
  show ?thesis unfolding hashed_output_def
    by (auto dest!: jsort_members[where k = "''input_hash''"] simp: jsort_scalar decided_def Let_def)
qed

lemma position_json_inj:
  assumes "jsort (JObj [(''symbol'', JStr s), (''quantity'', JStr q)]) = jsort (JObj [(''symbol'', JStr s'), (''quantity'', JStr q')])"
  shows "s = s' \<and> q = q'"
  using jsort_members[OF assms, of "''symbol''" "JStr s"] jsort_members[OF assms, of "''quantity''" "JStr q"]
  by (auto simp: jsort_scalar)

lemma scalar_jsort: "scalar_json j \<Longrightarrow> jsort j = j"
  by (cases j) (simp_all add: scalar_json_def)

lemma sorted_config_jsort:
  assumes "sorted (map fst c)" "\<forall>(k, j) \<in> set c. scalar_json j"
  shows "jsort (JObj c) = JObj c"
proof -
  have "map (map_prod id jsort) c = c" using assms(2) by (intro map_idI) (auto simp: scalar_jsort)
  moreover have "sort_key fst c = c" using assms(1) by (rule sort_key_id_if_sorted)
  ultimately show ?thesis by simp
qed

lemma input_json_inj:
  assumes n: "normal_input a" "normal_input b" and "canonical_json (input_json a) = canonical_json (input_json b)"
  shows "a = b"
proof -
  note top = jsort_members[OF canonical_json_inj[OF assms(3)[unfolded input_json_def]]]
  have "ci_run_mode a = ci_run_mode b" using top[of "''run_mode''" "JStr (ci_run_mode a)"] by (auto simp: jsort_scalar)
  moreover have "jsort (JObj [(''symbol'', JStr (ci_symbol a)), (''side'', JStr (ci_side a)),
        (''quantity'', JStr (ci_quantity a)), (''price_ref'', JStr (ci_price_ref a)),
        (''timestamp_input_ms'', JInt (ci_timestamp a)), (''reduce_only'', JBool (ci_reduce_only a))])
     = jsort (JObj [(''symbol'', JStr (ci_symbol b)), (''side'', JStr (ci_side b)),
        (''quantity'', JStr (ci_quantity b)), (''price_ref'', JStr (ci_price_ref b)),
        (''timestamp_input_ms'', JInt (ci_timestamp b)), (''reduce_only'', JBool (ci_reduce_only b))])"
    using top[of "''order''"] by (simp del: jsort.simps)
  note od = jsort_members[OF this]
  have "ci_symbol a = ci_symbol b" "ci_side a = ci_side b" "ci_quantity a = ci_quantity b" "ci_price_ref a = ci_price_ref b"
    "ci_timestamp a = ci_timestamp b" "ci_reduce_only a = ci_reduce_only b"
    using od[of "''symbol''" "JStr (ci_symbol a)"] od[of "''side''" "JStr (ci_side a)"] od[of "''quantity''" "JStr (ci_quantity a)"]
      od[of "''price_ref''" "JStr (ci_price_ref a)"] od[of "''timestamp_input_ms''" "JInt (ci_timestamp a)"]
      od[of "''reduce_only''" "JBool (ci_reduce_only a)"] by (auto simp: jsort_scalar)
  moreover have "jsort (JObj [(''balance_usdt'', JStr (ci_balance a)),
        (''total_exposure_usdt'', JStr (ci_exposure a)), (''daily_drawdown_pct'', JStr (ci_drawdown a))])
      = jsort (JObj [(''balance_usdt'', JStr (ci_balance b)),
        (''total_exposure_usdt'', JStr (ci_exposure b)), (''daily_drawdown_pct'', JStr (ci_drawdown b))])"
    using top[of "''account_state''"] by (simp del: jsort.simps)
  note ac = jsort_members[OF this]
  have "ci_balance a = ci_balance b" "ci_exposure a = ci_exposure b" "ci_drawdown a = ci_drawdown b"
    using ac[of "''balance_usdt''" "JStr (ci_balance a)"] ac[of "''total_exposure_usdt''" "JStr (ci_exposure a)"]
      ac[of "''daily_drawdown_pct''" "JStr (ci_drawdown a)"] by (auto simp: jsort_scalar)
  moreover have "jsort (JObj [(''max_notional_usdt'', JStr (ci_max_notional a)),
        (''max_total_exposure_usdt'', JStr (ci_max_exposure a)), (''max_daily_drawdown_pct'', JStr (ci_max_drawdown a))])
      = jsort (JObj [(''max_notional_usdt'', JStr (ci_max_notional b)),
        (''max_total_exposure_usdt'', JStr (ci_max_exposure b)), (''max_daily_drawdown_pct'', JStr (ci_max_drawdown b))])"
    using top[of "''risk_policy''"] by (simp del: jsort.simps)
  note rp = jsort_members[OF this]
  have "ci_max_notional a = ci_max_notional b" "ci_max_exposure a = ci_max_exposure b" "ci_max_drawdown a = ci_max_drawdown b"
    using rp[of "''max_notional_usdt''" "JStr (ci_max_notional a)"] rp[of "''max_total_exposure_usdt''" "JStr (ci_max_exposure a)"]
      rp[of "''max_daily_drawdown_pct''" "JStr (ci_max_drawdown a)"] by (auto simp: jsort_scalar)
  moreover have "jsort (JObj [(''source'', JStr (ci_source a)), (''signal_id'', JStr (ci_signal_id a)),
        (''strategy_id'', JStr (ci_strategy_id a)), (''bot_id'', JStr (ci_bot_id a))])
      = jsort (JObj [(''source'', JStr (ci_source b)), (''signal_id'', JStr (ci_signal_id b)),
        (''strategy_id'', JStr (ci_strategy_id b)), (''bot_id'', JStr (ci_bot_id b))])"
    using top[of "''context''"] by (simp del: jsort.simps)
  note cx = jsort_members[OF this]
  have "ci_source a = ci_source b" "ci_signal_id a = ci_signal_id b" "ci_strategy_id a = ci_strategy_id b" "ci_bot_id a = ci_bot_id b"
    using cx[of "''source''" "JStr (ci_source a)"] cx[of "''signal_id''" "JStr (ci_signal_id a)"]
      cx[of "''strategy_id''" "JStr (ci_strategy_id a)"] cx[of "''bot_id''" "JStr (ci_bot_id a)"] by (auto simp: jsort_scalar)
  moreover have "jsort (JObj (ci_system a)) = jsort (JObj (ci_system b))"
    using top[of "''system_config''"] by (simp del: jsort.simps)
  then have "ci_system a = ci_system b" using n by (simp add: normal_input_def sorted_config_jsort del: jsort.simps)
  moreover let ?p = "\<lambda>(s, q). JObj [(''symbol'', JStr s), (''quantity'', JStr q)]"
  have "jsort (JList (map ?p (ci_positions a))) = jsort (JList (map ?p (ci_positions b)))"
    using top[of "''open_positions''"] by (simp del: jsort.simps)
  then have "map (jsort \<circ> ?p) (ci_positions a) = map (jsort \<circ> ?p) (ci_positions b)" by simp
  moreover have "inj (jsort \<circ> ?p)" by (rule injI) (auto simp del: jsort.simps dest: position_json_inj)
  ultimately show ?thesis by (intro contract_input.equality) (auto dest: map_injective)
qed


subsection \<open>Properties\<close>

text \<open>
  C21. The contract decides as promised. On normalized inputs whose notional and exposure together
  stay below a million millions, evaluation raises nothing, its decision involves no rounding (the
  reported metrics are rounded to eight places), and it answers 1 exactly when mode and side are known, all quantities and limits have the right sign, the drawdown is
  within its limit and, unless the order is a reduce-only sell, neither its notional nor the
  projected exposure exceeds its limit; it answers 0 and gives a reason otherwise.
\<close>

theorem contract_decides:
  assumes "normalize_contract_input raw = Inr ci" "contract_numbers_of ci = Inr n" "moderate n"
  shows "\<exists>co. evaluate_decision_contract sha raw = Inr co
    \<and> co_decision co = (if contract_permits (ci_run_mode ci) (ci_side ci) (ci_reduce_only ci) (dec_val (cn_quantity n))
        (dec_val (cn_price n)) (dec_val (cn_balance n)) (dec_val (cn_exposure n)) (dec_val (cn_drawdown n))
        (dec_val (cn_max_notional n)) (dec_val (cn_max_exposure n)) (dec_val (cn_max_drawdown n)) then 1 else 0)
    \<and> (co_reasons co = [] \<longleftrightarrow> co_decision co = 1)"
  by (rule evaluate_moderate[OF normalize_normal[OF assms(1)] assms(2,3), of sha])
    (simp add: evaluate_decision_contract_def assms(1))

text \<open>
  C22. Normalizing is stable and built bundles verify. A normalized input read back from its
  dictionary is normalized to itself, so a bundle that was built is verified by everybody who
  evaluates it again; with \<open>require_allow\<close>, exactly if its decision is 1.
\<close>

theorem built_bundle_verifies:
  assumes "build_bundle sha raw = Inr b"
  shows "\<exists>ci co. normalize_contract_input raw = Inr ci \<and> evaluate_decision_contract sha raw = Inr co \<and> b = bundle_json ci co
    \<and> normalize_contract_input (of_json (input_json ci)) = Inr ci
    \<and> verify_bundle sha (of_json b) False = (True, ''OK'')
    \<and> (fst (verify_bundle sha (of_json b) True) \<longleftrightarrow> co_decision co = 1)"
proof -
  obtain ci co where b: "normalize_contract_input raw = Inr ci" "evaluate_normalized sha ci = Inr co" "b = bundle_json ci co" "normal_input ci"
    by (rule built_is_normal[OF assms])
  then show ?thesis
    using normalize_input_json[OF b(4)] verify_bundle_json[OF b(4), of sha co]
    by (intro exI[of _ ci] exI[of _ co]) (simp add: evaluate_decision_contract_def)
qed

text \<open>
  A verified bundle cannot carry a forged output. If verification accepts, the input of the
  bundle normalizes, its evaluation is 1 if allowance was required, and what the bundle calls its
  output is the evaluation's, member by member, up to the order of keys.
\<close>

theorem verified_bundle_is_evaluated:
  assumes "verify_bundle sha (PMap b) require_allow = (True, reason)"
  shows "\<exists>ci co j. evaluate_decision_contract sha (map_get b ''input'') = Inr co
    \<and> normalize_contract_input (map_get b ''input'') = Inr ci
    \<and> (require_allow \<longrightarrow> co_decision co = 1)
    \<and> to_json (map_get b ''output'') = Some j \<and> jsort j = jsort (output_json co)"
proof -
  obtain i out where io: "map_get b ''input'' = PMap i" "map_get b ''output'' = PMap out"
    using assms by (auto simp: verify_bundle_def split: if_splits pyval.splits)
  obtain ci co same where e: "normalize_contract_input (PMap i) = Inr ci" "evaluate_normalized sha ci = Inr co"
    "same_output (PMap out) (output_json co) = Inr same" "same" "require_allow \<longrightarrow> co_decision co = 1"
    using assms io by (auto simp: verify_bundle_def ebind_eq_Inr split: if_splits sum.splits)
  from e(3,4) obtain j where j: "to_json (PMap out) = Some j" "canonical_json j = canonical_json (output_json co)"
    by (auto simp: same_output_def simp del: to_json.simps split: if_splits option.splits)
  have "evaluate_decision_contract sha (PMap i) = Inr co" by (simp add: evaluate_decision_contract_def e(1,2))
  with e(1,5) j(1) canonical_json_inj[OF j(2)] show ?thesis
    unfolding io by (intro exI[of _ ci] exI[of _ co] exI[of _ j] conjI)
qed

text \<open>
  The decision hash binds everything. When two evaluations give the same decision hash and the
  digest does not collide on the texts it was applied to, the normalized inputs are equal and so are
  the outputs.
\<close>

theorem decision_hash_binds:
  assumes "normalize_contract_input raw1 = Inr ci1" "normalize_contract_input raw2 = Inr ci2"
    "evaluate_decision_contract sha raw1 = Inr co1" "evaluate_decision_contract sha raw2 = Inr co2"
    and hash: "co_decision_hash co1 = co_decision_hash co2"
    and col: "inj_on sha {co_canonical_input co1, co_canonical_input co2, co_canonical_output co1, co_canonical_output co2}"
  shows "ci1 = ci2 \<and> co1 = co2"
proof -
  have n: "normal_input ci1" "normal_input ci2" using assms(1,2) normalize_normal by blast+
  have e: "evaluate_normalized sha ci1 = Inr co1" "evaluate_normalized sha ci2 = Inr co2"
    using assms(1-4) by (simp_all add: evaluate_decision_contract_def)
  obtain r1 l1 m1 where 1: "co1 = decided sha ci1 r1 l1 m1" by (rule evaluation_shape[OF e(1)])
  obtain r2 l2 m2 where 2: "co2 = decided sha ci2 r2 l2 m2" by (rule evaluation_shape[OF e(2)])
  have "sha (co_canonical_output co1) = sha (co_canonical_output co2)" using hash by (simp only: 1 2 decided_hashes(2))
  then have "co_canonical_output co1 = co_canonical_output co2" by (rule inj_onD[OF col]) simp_all
  then have "co_input_hash co1 = co_input_hash co2" unfolding 1 2 by (rule canonical_output_input_hash)
  then have "sha (co_canonical_input co1) = sha (co_canonical_input co2)" by (simp only: 1 2 decided_hashes(1))
  then have "co_canonical_input co1 = co_canonical_input co2" by (rule inj_onD[OF col]) simp_all
  then have "canonical_json (input_json ci1) = canonical_json (input_json ci2)" by (simp only: 1 2 decided_hashes(3))
  then have "ci1 = ci2" by (rule input_json_inj[OF n])
  with e show ?thesis by simp
qed

text \<open>
  C23. The bundles are what the published schema says. With a digest of 64 hexadecimal digits, a
  bundle that was built conforms to the schema exactly when its run mode and its side are among the
  allowed ones; every other member always does.
\<close>

theorem bundle_conforms:
  assumes "build_bundle sha raw = Inr b" "\<forall>t. digest_pattern (sha t)"
  shows "conforms decision_contract_schema b \<longleftrightarrow>
    (\<exists>ci. normalize_contract_input raw = Inr ci \<and> ci_run_mode ci \<in> set ALLOWED_RUN_MODES \<and> ci_side ci \<in> set ALLOWED_ORDER_SIDES)"
proof -
  obtain ci co where b: "normalize_contract_input raw = Inr ci" "evaluate_normalized sha ci = Inr co" "b = bundle_json ci co" "normal_input ci"
    by (rule built_is_normal[OF assms(1)])
  obtain reasons limits metrics where co: "co = decided sha ci reasons limits metrics" by (rule evaluation_shape[OF b(2)])
  have out: "conforms (SObject
        [(''contract_version'', SConst (JStr CONTRACT_VERSION)), (''decision'', SEnum [JInt 0, JInt 1]),
         (''reason_codes'', SArray (SString 0)), (''applied_limits'', SAnyObject), (''metrics'', SAnyObject),
         (''evidence'', SObject [(''canonical_input'', SString 0), (''input_hash'', SDigest),
           (''canonical_output'', SString 0), (''decision_hash'', SDigest)])]) (output_json co)"
    using assms(2) by (simp add: co output_json_def decided_def Let_def list_all_iff)
  show ?thesis
    unfolding decision_contract_schema_def b(3) bundle_json_def conforms.simps(10)
    using out normal_input_conforms[OF b(4)] b(1) by (simp del: conforms.simps(10))
qed

lemma sell_at_limit_permitted:
  fixes q p b d mn me md :: rat
  assumes mode: "mode \<in> set ALLOWED_RUN_MODES" and v: "0 < q" "0 < p" "0 \<le> b" "0 \<le> d" "d \<le> md" "0 < md"
    and n: "q * p \<le> mn" and me: "0 < me"
  shows "contract_permits mode ''SELL'' False q p b me d mn me md"
proof -
  have pos: "0 < q * p" using v(1,2) by simp
  have mn: "0 < mn" using pos n by (rule less_le_trans)
  have e: "me - q * p \<le> me" using pos by linarith
  have m: "mode \<in> {''shadow'', ''paper'', ''replay'', ''live''}" using mode by (simp add: ALLOWED_RUN_MODES_def)
  show ?thesis unfolding contract_permits_def
    by (intro conjI m v mn me n disjI2 less_imp_le[OF me]) (simp_all add: e)
qed

text \<open>
  C24. A sell that opens a short is not stopped by the exposure limit. The projection subtracts the
  notional of every order that is not an opening buy, so with the account at its exposure limit an
  opening sell within the notional limit is still allowed, although it takes the exposure beyond.
\<close>

theorem opening_sell_escapes_limit:
  assumes "normalize_contract_input raw = Inr ci" "contract_numbers_of ci = Inr n" "moderate n"
    and "ci_run_mode ci \<in> set ALLOWED_RUN_MODES" "ci_side ci = ''SELL''" "\<not> ci_reduce_only ci"
    and "0 < dec_val (cn_quantity n)" "0 < dec_val (cn_price n)" "0 \<le> dec_val (cn_balance n)" "0 \<le> dec_val (cn_drawdown n)"
      "dec_val (cn_drawdown n) \<le> dec_val (cn_max_drawdown n)" "0 < dec_val (cn_max_drawdown n)"
      "dec_val (cn_quantity n) * dec_val (cn_price n) \<le> dec_val (cn_max_notional n)"
    and "0 < dec_val (cn_max_exposure n)" "dec_val (cn_exposure n) = dec_val (cn_max_exposure n)"
  shows "\<exists>co. evaluate_decision_contract sha raw = Inr co \<and> co_decision co = 1
    \<and> dec_val (cn_max_exposure n) < dec_val (cn_exposure n) + dec_val (cn_quantity n) * dec_val (cn_price n)"
proof -
  have pos: "0 < dec_val (cn_quantity n) * dec_val (cn_price n)" using assms(7,8) by simp
  have "contract_permits (ci_run_mode ci) ''SELL'' False (dec_val (cn_quantity n))
        (dec_val (cn_price n)) (dec_val (cn_balance n)) (dec_val (cn_max_exposure n)) (dec_val (cn_drawdown n))
        (dec_val (cn_max_notional n)) (dec_val (cn_max_exposure n)) (dec_val (cn_max_drawdown n))"
    by (rule sell_at_limit_permitted[OF assms(4,7-14)])
  then have permits: "contract_permits (ci_run_mode ci) (ci_side ci) (ci_reduce_only ci) (dec_val (cn_quantity n))
        (dec_val (cn_price n)) (dec_val (cn_balance n)) (dec_val (cn_exposure n)) (dec_val (cn_drawdown n))
        (dec_val (cn_max_notional n)) (dec_val (cn_max_exposure n)) (dec_val (cn_max_drawdown n))"
    using assms(6) by (simp only: assms(5,15))
  obtain co where co: "evaluate_normalized sha ci = Inr co" "co_decision co = 1"
    by (rule evaluate_moderate[OF normalize_normal[OF assms(1)] assms(2,3), of sha]) (simp only: permits if_True)
  have "dec_val (cn_max_exposure n) < dec_val (cn_exposure n) + dec_val (cn_quantity n) * dec_val (cn_price n)"
    using pos by (simp only: assms(15) less_add_same_cancel1)
  with co show ?thesis by (intro exI[of _ co] conjI) (simp_all only: evaluate_decision_contract_def assms(1) ebind_Inr)
qed

text \<open>A worked example.\<close>

definition eight_places :: "nat \<Rightarrow> string" where
  "eight_places c = dec_format_f (DFin False c (- 8))"

definition sample_input :: "string \<Rightarrow> nat \<Rightarrow> contract_input" where
  "sample_input side exposure = \<lparr>ci_run_mode = ''paper'', ci_symbol = ''BTCUSDT'', ci_side = side,
     ci_quantity = eight_places 10000000, ci_price_ref = eight_places 5000000000000, ci_timestamp = 1,
     ci_reduce_only = False, ci_balance = eight_places 10000000000000, ci_exposure = eight_places exposure,
     ci_drawdown = dec_format_f (DFin False 0 (- 6)), ci_positions = [],
     ci_max_notional = eight_places 1000000000000, ci_max_exposure = eight_places 3000000000000,
     ci_max_drawdown = dec_format_f (DFin False 5000000 (- 6)), ci_system = [],
     ci_source = ''test'', ci_signal_id = [], ci_strategy_id = [], ci_bot_id = []\<rparr>"

lemma eight_places_grid: "c < 10 ^ 28 \<Longrightarrow> grid_text (- 8) (eight_places c)"
  unfolding grid_text_def eight_places_def by blast

lemma sample_normal:
  assumes "side \<in> {''BUY'', ''SELL''}" "e < 10 ^ 28"
  shows "normal_input (sample_input side e)"
proof -
  have "grid_text (- 6) (dec_format_f (DFin False c (- 6)))" if "c < 10 ^ 28" for c
    using that unfolding grid_text_def by blast
  moreover have "clean_text ''paper''" "lower ''paper'' = ''paper''" "clean_text ''BTCUSDT''" "clean_text side" "upper side = side"
    using assms(1) by (auto simp: clean_text_def, code_simp+)
  ultimately show ?thesis
    using assms(2) by (simp add: normal_input_def sample_input_def QTY_EXP_def MONEY_EXP_def RATIO_EXP_def eight_places_grid
        del: dec_format_f.simps)
qed

lemma sample_numbers:
  assumes "e < 10 ^ 20"
  shows "contract_numbers_of (sample_input side e) = Inr \<lparr>cn_quantity = DFin False 10000000 (- 8),
    cn_price = DFin False 5000000000000 (- 8), cn_balance = DFin False 10000000000000 (- 8),
    cn_exposure = DFin False e (- 8), cn_drawdown = DFin False 0 (- 6), cn_max_notional = DFin False 1000000000000 (- 8),
    cn_max_exposure = DFin False 3000000000000 (- 8), cn_max_drawdown = DFin False 5000000 (- 6)\<rparr>"
proof -
  have r: "dec_of_string (dec_format_f (DFin False c q)) = Inr (DFin False c q)" if "c < 10 ^ 20" "q \<in> {- 8, - 6}" for c q
  proof (rule dec_of_string_format_f)
    have "ndigits c \<le> 20" using that(1) by (subst ndigits_le_iff) simp_all
    then show "q + int (ndigits c) - 1 \<le> MAX_ADJ" using that(2) by (auto simp: MAX_ADJ_def)
  qed (use that(2) in \<open>auto simp: MIN_EXP_def\<close>)
  show ?thesis using assms
    by (simp add: contract_numbers_of_def sample_input_def eight_places_def r del: dec_format_f.simps)
qed

lemma sample_values:
  "dec_val (DFin False 10000000 (- 8)) = 1 / 10" "dec_val (DFin False 5000000000000 (- 8)) = 50000"
  "dec_val (DFin False 10000000000000 (- 8)) = 100000" "dec_val (DFin False 1000000000000 (- 8)) = 10000"
  "dec_val (DFin False 3000000000000 (- 8)) = 30000" "dec_val (DFin False 5000000 (- 6)) = 5"
  by (simp_all add: dec_val_def sgn_of_def power_int_def power_divide)

definition sample_raw :: "string \<Rightarrow> nat \<Rightarrow> pyval" where
  "sample_raw side e = of_json (input_json (sample_input side e))"

definition sample_sha :: "string \<Rightarrow> string" where
  "sample_sha t = replicate 64 (CHR ''0'')"

lemma sample_normalized:
  assumes "side \<in> {''BUY'', ''SELL''}" "e < 10 ^ 20"
  shows "normalize_contract_input (sample_raw side e) = Inr (sample_input side e)"
proof -
  have "e < 10 ^ 28" using assms(2) by simp
  then show ?thesis unfolding sample_raw_def by (rule normalize_input_json[OF sample_normal[OF assms(1)]])
qed

lemma sample_evaluates:
  assumes "side \<in> {''BUY'', ''SELL''}" "e = 0 \<or> e = 3000000000000"
  obtains n where "contract_numbers_of (sample_input side e) = Inr n" "moderate n" "dec_val (cn_exposure n) = (if e = 0 then 0 else 30000)"
    "dec_val (cn_quantity n) = 1 / 10" "dec_val (cn_price n) = 50000" "dec_val (cn_balance n) = 100000" "dec_val (cn_drawdown n) = 0"
    "dec_val (cn_max_notional n) = 10000" "dec_val (cn_max_exposure n) = 30000" "dec_val (cn_max_drawdown n) = 5"
  using assms(2) by (intro that[OF sample_numbers]) (auto simp: moderate_def sample_values)

lemma sample_allowed:
  obtains co where "evaluate_decision_contract sha (sample_raw ''BUY'' 0) = Inr co" "co_decision co = 1"
    "build_bundle sha (sample_raw ''BUY'' 0) = Inr (bundle_json (sample_input ''BUY'' 0) co)"
proof -
  have s: "''BUY'' \<in> {''BUY'', ''SELL''}" by simp
  have n: "normalize_contract_input (sample_raw ''BUY'' 0) = Inr (sample_input ''BUY'' 0)" by (rule sample_normalized) simp_all
  obtain n where v: "contract_numbers_of (sample_input ''BUY'' 0) = Inr n" "moderate n" "dec_val (cn_exposure n) = 0"
    "dec_val (cn_quantity n) = 1 / 10" "dec_val (cn_price n) = 50000" "dec_val (cn_balance n) = 100000" "dec_val (cn_drawdown n) = 0"
    "dec_val (cn_max_notional n) = 10000" "dec_val (cn_max_exposure n) = 30000" "dec_val (cn_max_drawdown n) = 5"
    by (rule sample_evaluates[OF s, of 0]) auto
  obtain co where co: "evaluate_normalized sha (sample_input ''BUY'' 0) = Inr co"
    "co_decision co = (if contract_permits (ci_run_mode (sample_input ''BUY'' 0)) (ci_side (sample_input ''BUY'' 0)) (ci_reduce_only (sample_input ''BUY'' 0))
        (dec_val (cn_quantity n)) (dec_val (cn_price n)) (dec_val (cn_balance n)) (dec_val (cn_exposure n)) (dec_val (cn_drawdown n))
        (dec_val (cn_max_notional n)) (dec_val (cn_max_exposure n)) (dec_val (cn_max_drawdown n)) then 1 else 0)"
    by (rule evaluate_moderate[OF normalize_normal[OF n] v(1,2)])
  from co(2) have "co_decision co = 1" by (simp add: v contract_permits_def sample_input_def)
  with co(1) n show ?thesis by (intro that[of co]) (simp_all add: evaluate_decision_contract_def build_bundle_def)
qed

theorem contract_decides_witness:
  "\<exists>co. evaluate_decision_contract sample_sha (sample_raw ''BUY'' 0) = Inr co \<and> co_decision co = 1"
proof -
  have n: "normalize_contract_input (sample_raw ''BUY'' 0) = Inr (sample_input ''BUY'' 0)" by (rule sample_normalized) simp_all
  obtain n where v: "contract_numbers_of (sample_input ''BUY'' 0) = Inr n" "moderate n" "dec_val (cn_exposure n) = 0"
    "dec_val (cn_quantity n) = 1 / 10" "dec_val (cn_price n) = 50000" "dec_val (cn_balance n) = 100000" "dec_val (cn_drawdown n) = 0"
    "dec_val (cn_max_notional n) = 10000" "dec_val (cn_max_exposure n) = 30000" "dec_val (cn_max_drawdown n) = 5"
    by (rule sample_evaluates[of "''BUY''" 0]) auto
  from contract_decides[OF n v(1,2), of sample_sha] show ?thesis
    by (auto simp: v(3-) contract_permits_def sample_input_def)
qed

theorem built_bundle_verifies_witness:
  "\<exists>b. build_bundle sample_sha (sample_raw ''BUY'' 0) = Inr b \<and> verify_bundle sample_sha (of_json b) False = (True, ''OK'')"
proof -
  obtain co where "build_bundle sample_sha (sample_raw ''BUY'' 0) = Inr (bundle_json (sample_input ''BUY'' 0) co)"
    by (rule sample_allowed)
  with built_bundle_verifies[OF this] show ?thesis by blast
qed

theorem verified_bundle_is_evaluated_witness:
  "\<exists>co b. evaluate_decision_contract sample_sha (sample_raw ''BUY'' 0) = Inr co
     \<and> verify_bundle sample_sha (PMap b) True = (True, ''OK'') \<and> map_get b ''input'' = sample_raw ''BUY'' 0"
proof -
  obtain co where co: "evaluate_decision_contract sample_sha (sample_raw ''BUY'' 0) = Inr co" "co_decision co = 1"
    by (rule sample_allowed)
  have n: "normal_input (sample_input ''BUY'' 0)" by (rule sample_normal) simp_all
  have e: "evaluate_normalized sample_sha (sample_input ''BUY'' 0) = Inr co"
    using co(1) sample_normalized[of "''BUY''" 0] by (simp add: evaluate_decision_contract_def)
  obtain b where b: "of_json (bundle_json (sample_input ''BUY'' 0) co) = PMap b" by (simp add: bundle_json_def)
  then have i: "map_get b ''input'' = sample_raw ''BUY'' 0" by (auto simp: bundle_json_def sample_raw_def)
  have v: "verify_bundle sample_sha (PMap b) True = (True, ''OK'')"
    using verify_bundle_json[OF n, of sample_sha co True] e co(2) by (simp add: b)
  from verified_bundle_is_evaluated[OF v] i v show ?thesis by auto
qed

theorem decision_hash_binds_witness:
  "\<exists>co. evaluate_decision_contract (\<lambda>t. t) (sample_raw ''BUY'' 0) = Inr co \<and> sample_input ''BUY'' 0 = sample_input ''BUY'' 0 \<and> co = co"
proof -
  have n: "normalize_contract_input (sample_raw ''BUY'' 0) = Inr (sample_input ''BUY'' 0)" by (rule sample_normalized) simp_all
  obtain co where co: "evaluate_decision_contract (\<lambda>t. t) (sample_raw ''BUY'' 0) = Inr co" by (rule sample_allowed)
  from decision_hash_binds[OF n n co co refl] co show ?thesis by auto
qed

theorem bundle_conforms_witness:
  "\<exists>b. build_bundle sample_sha (sample_raw ''BUY'' 0) = Inr b \<and> conforms decision_contract_schema b"
proof -
  obtain co where b: "build_bundle sample_sha (sample_raw ''BUY'' 0) = Inr (bundle_json (sample_input ''BUY'' 0) co)"
    by (rule sample_allowed)
  have "\<forall>t. digest_pattern (sample_sha t)" by (simp add: digest_pattern_def sample_sha_def list_all_iff)
  from bundle_conforms[OF b this] sample_normalized[of "''BUY''" 0] b show ?thesis
    by (auto simp: sample_input_def ALLOWED_RUN_MODES_def ALLOWED_ORDER_SIDES_def)
qed

theorem opening_sell_escapes_limit_witness:
  "\<exists>co. evaluate_decision_contract sample_sha (sample_raw ''SELL'' 3000000000000) = Inr co \<and> co_decision co = 1"
proof -
  have n: "normalize_contract_input (sample_raw ''SELL'' 3000000000000) = Inr (sample_input ''SELL'' 3000000000000)"
    by (rule sample_normalized) simp_all
  obtain n where v: "contract_numbers_of (sample_input ''SELL'' 3000000000000) = Inr n" "moderate n" "dec_val (cn_exposure n) = 30000"
    "dec_val (cn_quantity n) = 1 / 10" "dec_val (cn_price n) = 50000" "dec_val (cn_balance n) = 100000" "dec_val (cn_drawdown n) = 0"
    "dec_val (cn_max_notional n) = 10000" "dec_val (cn_max_exposure n) = 30000" "dec_val (cn_max_drawdown n) = 5"
    by (rule sample_evaluates[of "''SELL''" 3000000000000]) auto
  have "ci_run_mode (sample_input ''SELL'' 3000000000000) \<in> set ALLOWED_RUN_MODES" "ci_side (sample_input ''SELL'' 3000000000000) = ''SELL''"
    "\<not> ci_reduce_only (sample_input ''SELL'' 3000000000000)" by (simp_all add: sample_input_def ALLOWED_RUN_MODES_def)
  from opening_sell_escapes_limit[OF n v(1,2) this, of sample_sha] show ?thesis by (auto simp: v(3-))
qed

end
