(* ===== verification/FloatOps.thy ===== *)
theory FloatOps
  imports FloatDecimal
begin

text \<open>
  More of Python's \<open>float\<close>: division, \<open>float(text)\<close>, conversion from and to integers, \<open>sum\<close>,
  fixed-point formatting; and how far a rounded result can be from the exact one.
\<close>

subsection \<open>Operations\<close>

fun fl_abs :: "pyfloat \<Rightarrow> pyfloat" where
  "fl_abs (FFin s m e) = FFin False m e"
| "fl_abs (FInf s) = FInf False"
| "fl_abs FNaN = FNaN"

definition fl_iszero :: "pyfloat \<Rightarrow> bool" where
  "fl_iszero x = (case x of FFin _ m _ \<Rightarrow> m = 0 | _ \<Rightarrow> False)"

fun fl_div_nonzero :: "pyfloat \<Rightarrow> pyfloat \<Rightarrow> pyfloat" where
  "fl_div_nonzero (FFin s m e) (FFin t n f) =
     (let g = min e f in fl_round (s \<noteq> t) (m * 2 ^ nat (e - g)) (n * 2 ^ nat (f - g)))"
| "fl_div_nonzero (FInf s) (FFin t _ _) = FInf (s \<noteq> t)"
| "fl_div_nonzero (FFin s _ _) (FInf t) = FFin (s \<noteq> t) 0 (- 1074)"
| "fl_div_nonzero _ _ = FNaN"

definition fl_div :: "pyfloat \<Rightarrow> pyfloat \<Rightarrow> py_exc + pyfloat" where
  \<comment> \<open>division by zero raises\<close>
  "fl_div x y = (if fl_iszero y then Inl OtherError else Inr (fl_div_nonzero x y))"

text \<open>\<open>float(i)\<close>, which raises an \<open>OverflowError\<close> when the integer is too large, and \<open>int(x)\<close>.\<close>

definition fl_of_int :: "int \<Rightarrow> py_exc + pyfloat" where
  "fl_of_int i = (case fl_int i of FFin s m e \<Rightarrow> Inr (FFin s m e) | _ \<Rightarrow> Inl OtherError)"

fun fl_trunc :: "pyfloat \<Rightarrow> py_exc + int" where
  "fl_trunc (FFin s m e) = Inr (signed s (if 0 \<le> e then m * 2 ^ nat e else m div 2 ^ nat (- e)))"
| "fl_trunc (FInf s) = Inl OtherError"
| "fl_trunc FNaN = Inl (ValueError ''int'')"

fun fl_is_integer :: "pyfloat \<Rightarrow> bool" where
  "fl_is_integer (FFin s m e) \<longleftrightarrow> 0 \<le> e \<or> m mod 2 ^ nat (- e) = 0"
| "fl_is_integer _ \<longleftrightarrow> False"

text \<open>\<open>float(text)\<close> of a stripped text: an underscore must stand between two digits.\<close>

fun underscores_ok :: "char option \<Rightarrow> string \<Rightarrow> bool" where
  "underscores_ok prev [] \<longleftrightarrow> prev \<noteq> Some (CHR ''_'')"
| "underscores_ok prev (c # cs) \<longleftrightarrow>
     (if c = CHR ''_'' then (case prev of Some p \<Rightarrow> is_digit p | None \<Rightarrow> False)
      else prev = Some (CHR ''_'') \<longrightarrow> is_digit c) \<and> underscores_ok (Some c) cs"

definition fl_of_text :: "string \<Rightarrow> py_exc + pyfloat" where
  "fl_of_text text =
     (case split_sign text of (neg, body) \<Rightarrow>
        let low = lower body in
        if low = ''inf'' \<or> low = ''infinity'' then Inr (FInf neg)
        else if low = ''nan'' then Inr FNaN
        else if \<not> underscores_ok None body then Inl (ValueError ''float'')
        else case parse_number neg (filter (\<lambda>c. c \<noteq> CHR ''_'') body) of
            Some d \<Rightarrow> Inr (float_of_decimal d)
          | None \<Rightarrow> Inl (ValueError ''float''))"

text \<open>\<open>sum\<close> of floats keeps a running compensation, which is added at the end.\<close>

definition sum_step :: "pyfloat \<times> pyfloat \<Rightarrow> pyfloat \<Rightarrow> pyfloat \<times> pyfloat" where
  "sum_step acc x = (case acc of (hi, lo) \<Rightarrow>
     let t = fl_add hi x in
     (t, fl_add lo (if fl_le (fl_abs x) (fl_abs hi) then fl_add (fl_sub hi t) x else fl_add (fl_sub x t) hi)))"

definition fl_sum :: "pyfloat list \<Rightarrow> pyfloat" where
  "fl_sum xs = (case xs of [] \<Rightarrow> fl_zero
     | x # rest \<Rightarrow> (case foldl sum_step (fl_add fl_zero x, fl_zero) rest of (hi, lo) \<Rightarrow>
         if fl_truthy lo \<and> fl_isfinite lo then fl_add hi lo else hi))"

text \<open>\<open>format(x, ".<p>f")\<close>: the exact value, rounded half to even.\<close>

fun fl_format :: "nat \<Rightarrow> pyfloat \<Rightarrow> string" where
  "fl_format p (FFin s m e) =
     (case fl_fraction m e of (n, d) \<Rightarrow>
        let c = half_even (n * 10 ^ p) d; ds = nat_str c in
        sign_str s @ (if p = 0 then ds else place_point ds (int (ndigits c) - int p)))"
| "fl_format p (FInf s) = sign_str s @ ''inf''"
| "fl_format p FNaN = ''nan''"

subsection \<open>How far rounding moves a value\<close>

lemma bitlen_bounds: "0 < n \<Longrightarrow> n < 2 ^ bitlen n \<and> 2 ^ bitlen n \<le> 2 * n"
proof (induction n rule: bitlen.induct)
  case (1 n)
  show ?case
  proof (cases "n = 1")
    case False
    with 1 have "0 < n div 2" by (simp add: div_greater_zero_iff)
    with 1 have h: "n div 2 < 2 ^ bitlen (n div 2)" "2 ^ bitlen (n div 2) \<le> 2 * (n div 2)" by auto
    have "bitlen n = Suc (bitlen (n div 2))" using 1(2) by (subst bitlen.simps) simp
    then show ?thesis using h by simp linarith
  qed (simp add: bitlen.simps)
qed

lemma scaled_ratio:
  assumes "scaled n d e = (a, b)" "0 < d"
  shows "0 < b" "(of_nat a :: rat) / of_nat b = of_nat n / of_nat d / 2 powi e"
proof -
  show "0 < b" using assms by (auto simp: scaled_def split: if_splits)
  show "(of_nat a :: rat) / of_nat b = of_nat n / of_nat d / 2 powi e"
  proof (cases "0 \<le> e")
    case True
    with assms(1) have "a = n" "b = d * 2 ^ nat e" by (simp_all add: scaled_def)
    with True show ?thesis by (simp add: power_int_def)
  next
    case False
    with assms(1) have "a = n * 2 ^ nat (- e)" "b = d" by (simp_all add: scaled_def)
    with False show ?thesis by (simp add: power_int_def field_simps)
  qed
qed

lemma ratio_less_iff:
  assumes "scaled n d e = (a, b)" "0 < d"
  shows "a < b * k \<longleftrightarrow> (of_nat n / of_nat d :: rat) < of_nat k * 2 powi e"
proof -
  note r = scaled_ratio[OF assms]
  have "a < b * k \<longleftrightarrow> (of_nat a :: rat) < of_nat b * of_nat k" by (metis of_nat_less_iff of_nat_mult)
  also have "\<dots> \<longleftrightarrow> (of_nat a :: rat) / of_nat b < of_nat k" using r(1) by (simp add: divide_less_eq mult.commute)
  also have "\<dots> \<longleftrightarrow> (of_nat n / of_nat d :: rat) < of_nat k * 2 powi e"
    unfolding r(2) by (subst pos_divide_less_eq) simp_all
  finally show ?thesis .
qed

lemma bitlen_ratio:
  assumes "0 < n" "0 < d"
  defines "k \<equiv> int (bitlen n) - int (bitlen d)"
  shows "(2 :: rat) powi (k - 1) < of_nat n / of_nat d" "(of_nat n / of_nat d :: rat) < 2 powi (k + 1)"
proof -
  have n: "(of_nat n :: rat) < 2 ^ bitlen n" "(2 :: rat) ^ bitlen n \<le> 2 * of_nat n"
    using bitlen_bounds[OF assms(1)] by (metis of_nat_less_iff of_nat_numeral of_nat_power, metis of_nat_le_iff of_nat_mult of_nat_numeral of_nat_power)
  have d: "(of_nat d :: rat) < 2 ^ bitlen d" "(2 :: rat) ^ bitlen d \<le> 2 * of_nat d"
    using bitlen_bounds[OF assms(2)] by (metis of_nat_less_iff of_nat_numeral of_nat_power, metis of_nat_le_iff of_nat_mult of_nat_numeral of_nat_power)
  have dp: "(0 :: rat) < of_nat d" using assms(2) by simp
  have k: "(2 :: rat) powi k = 2 ^ bitlen n / 2 ^ bitlen d" by (simp add: k_def power_int_diff)
  have "(2 :: rat) powi (k - 1) = 2 ^ bitlen n / 2 ^ bitlen d / 2" by (simp add: power_int_diff k)
  also have "\<dots> \<le> 2 * of_nat n / 2 ^ bitlen d / 2" using divide_right_mono[OF n(2), of "2 ^ bitlen d * 2"] by simp
  also have "\<dots> < of_nat n / of_nat d" using d(1) dp assms(1) by (simp add: frac_less2)
  finally show "(2 :: rat) powi (k - 1) < of_nat n / of_nat d" .
  have "(of_nat n / of_nat d :: rat) < 2 ^ bitlen n / of_nat d" using n(1) dp by (simp add: divide_strict_right_mono)
  also have "\<dots> \<le> 2 ^ bitlen n / (2 ^ bitlen d / 2)" using d(2) dp by (intro divide_left_mono) simp_all
  also have "\<dots> = 2 powi (k + 1)" by (simp add: power_int_add k)
  finally show "(of_nat n / of_nat d :: rat) < 2 powi (k + 1)" .
qed

text \<open>The exponent chosen leaves a significand of at most 53 bits, and of exactly 53 above the
  subnormal range.\<close>

lemma fl_exp_range:
  assumes "0 < n" "0 < d"
  shows "- 1074 \<le> fl_exp n d" "(of_nat n / of_nat d :: rat) < 2 ^ 53 * 2 powi fl_exp n d"
    "fl_exp n d = - 1074 \<or> (2 :: rat) ^ 52 * 2 powi fl_exp n d \<le> of_nat n / of_nat d"
proof -
  define e where "e = int (bitlen n) - int (bitlen d) - 53"
  obtain a b where ab: "scaled n d e = (a, b)" by fastforce
  define e1 where "e1 = (if a < b * 2 ^ 53 then e else e + 1)"
  have fe: "fl_exp n d = max e1 (- 1074)" using ab by (simp add: fl_exp_def Let_def e_def e1_def)
  have iff: "a < b * 2 ^ 53 \<longleftrightarrow> (of_nat n / of_nat d :: rat) < 2 ^ 53 * 2 powi e"
    using ratio_less_iff[OF ab assms(2), of "2 ^ 53"] by simp
  have r: "(2 :: rat) ^ 52 * 2 powi e < of_nat n / of_nat d" "(of_nat n / of_nat d :: rat) < 2 ^ 54 * 2 powi e"
    using bitlen_ratio[OF assms] by (simp_all add: e_def power_int_diff power_int_add mult.commute)
  have s: "(2 :: rat) powi (e + 1) = 2 * 2 powi e" by (simp add: power_int_add)
  have up: "(of_nat n / of_nat d :: rat) < 2 ^ 53 * 2 powi e1" and lo: "(2 :: rat) ^ 52 * 2 powi e1 \<le> of_nat n / of_nat d"
    using r iff by (auto simp: e1_def s)
  have mono: "(2 :: rat) powi e1 \<le> 2 powi fl_exp n d" unfolding fe by (rule power_int_increasing) simp_all
  show "- 1074 \<le> fl_exp n d" by (simp add: fe)
  show "(of_nat n / of_nat d :: rat) < 2 ^ 53 * 2 powi fl_exp n d" using up mono by simp
  show "fl_exp n d = - 1074 \<or> (2 :: rat) ^ 52 * 2 powi fl_exp n d \<le> of_nat n / of_nat d"
    using lo by (auto simp: fe max_def)
qed

lemma half_even_near: "0 < b \<Longrightarrow> 2 * \<bar>int (half_even a b) * int b - int a\<bar> \<le> int b"
proof -
  assume b: "0 < b"
  have a: "int a = int (a div b) * int b + int (a mod b)" by (metis div_mult_mod_eq of_nat_add of_nat_mult)
  have m: "a mod b < b" using b by simp
  show ?thesis
  proof (cases "b < 2 * (a mod b) \<or> (2 * (a mod b) = b \<and> odd (a div b))")
    case True
    then have "half_even a b = Suc (a div b)" by (simp add: half_even_def Let_def)
    then have "int (half_even a b) * int b - int a = int b - int (a mod b)" using a by (simp add: algebra_simps)
    with True m show ?thesis by auto
  next
    case False
    then have "half_even a b = a div b" by (auto simp: half_even_def Let_def)
    then have "int (half_even a b) * int b - int a = - int (a mod b)" using a by simp
    with False show ?thesis by auto
  qed
qed

lemma fl_pack_val: "fl_isfinite (fl_pack s m e) \<Longrightarrow> fl_val (fl_pack s m e) = of_int (signed s m) * 2 powi e"
proof (cases "m = 2 ^ 53")
  case True
  assume f: "fl_isfinite (fl_pack s m e)"
  have p: "(2 :: rat) powi (e + 1) = 2 * 2 powi e" by (simp add: power_int_add)
  show ?thesis using f True by (auto simp: fl_pack_def p signed_def split: if_splits)
qed (auto simp: fl_pack_def split: if_splits)

lemma signed_rat: "(of_int (signed s m) :: rat) = (if s then - 1 else 1) * of_nat m"
  by (simp add: signed_def)

lemma half_even_rat: "0 < b \<Longrightarrow> \<bar>(of_nat (half_even a b) :: rat) - of_nat a / of_nat b\<bar> \<le> 1 / 2"
proof -
  assume b: "0 < b"
  have "(of_int (2 * \<bar>int (half_even a b) * int b - int a\<bar>) :: rat) \<le> of_int (int b)"
    using half_even_near[OF b] by (simp only: of_int_le_iff)
  then have "2 * \<bar>(of_nat (half_even a b) :: rat) * of_nat b - of_nat a\<bar> \<le> of_nat b" by simp
  moreover have "(of_nat (half_even a b) :: rat) * of_nat b - of_nat a = (of_nat (half_even a b) - of_nat a / of_nat b) * of_nat b"
    using b by (simp add: field_simps)
  ultimately have "2 * \<bar>(of_nat (half_even a b) :: rat) - of_nat a / of_nat b\<bar> * of_nat b \<le> 1 * of_nat b"
    by (simp add: abs_mult)
  then have "2 * \<bar>(of_nat (half_even a b) :: rat) - of_nat a / of_nat b\<bar> \<le> 1"
    using b by (subst (asm) mult_le_cancel_right_pos) simp_all
  then show ?thesis by simp
qed

definition ULP :: rat where "ULP = 1 / 2 ^ 53"
definition TINY :: rat where "TINY = 1 / 2 ^ 1075"

lemma rounding_units [simp]: "0 < ULP" "0 < TINY" "ULP < 1 / 2 ^ 52"
  by (simp_all add: ULP_def TINY_def)

theorem fl_round_error:
  assumes "0 < d" "fl_isfinite (fl_round s n d)"
  shows "\<bar>fl_val (fl_round s n d) - (if s then - 1 else 1) * (of_nat n / of_nat d)\<bar> \<le> ULP * (of_nat n / of_nat d) + TINY"
proof (cases "n = 0")
  case True
  then show ?thesis by (simp add: fl_round_def signed_def less_imp_le)
next
  case False
  define e where "e = fl_exp n d"
  define x :: rat where "x = of_nat n / of_nat d"
  obtain a b where ab: "scaled n d e = (a, b)" by fastforce
  have r: "fl_round s n d = fl_pack s (half_even a b) e" using False ab by (simp add: fl_round_def e_def Let_def)
  note q = scaled_ratio[OF ab assms(1)]
  have pe: "(0 :: rat) < 2 powi e" by simp
  have v: "fl_val (fl_round s n d) = (if s then - 1 else 1) * (of_nat (half_even a b) * 2 powi e)"
    using assms(2) fl_pack_val[of s "half_even a b" e] by (simp add: r signed_rat)
  have x: "x = of_nat a / of_nat b * 2 powi e" using q(2) pe by (simp add: x_def)
  have "\<bar>fl_val (fl_round s n d) - (if s then - 1 else 1) * x\<bar> = \<bar>(of_nat (half_even a b) - of_nat a / of_nat b) * 2 powi e\<bar>"
    unfolding v x by (cases s) (simp_all add: left_diff_distrib abs_minus_commute)
  also have "\<dots> = \<bar>of_nat (half_even a b) - of_nat a / of_nat b\<bar> * 2 powi e" by (simp add: abs_mult)
  also have "\<dots> \<le> 1 / 2 * 2 powi e"
    by (rule mult_right_mono[OF half_even_rat[OF q(1)]]) simp
  also have "\<dots> \<le> ULP * x + TINY"
    using fl_exp_range(3)[OF _ assms(1), of n]
  proof
    assume "fl_exp n d = - 1074"
    then have "(1 :: rat) / 2 * 2 powi e = TINY" by (simp add: e_def TINY_def power_int_minus)
    moreover have "0 \<le> ULP * x" using less_imp_le[OF rounding_units(1)] by (simp add: x_def)
    ultimately show ?thesis by simp
  next
    assume "(2 :: rat) ^ 52 * 2 powi fl_exp n d \<le> of_nat n / of_nat d"
    then have "ULP * (2 ^ 52 * 2 powi e) \<le> ULP * x"
      by (intro mult_left_mono) (simp_all add: e_def x_def less_imp_le)
    moreover have "ULP * (2 ^ 52 * 2 powi e) = 1 / 2 * 2 powi e" by (simp add: ULP_def)
    ultimately show ?thesis using less_imp_le[OF rounding_units(2)] by linarith
  qed (use False in simp)
  finally show ?thesis by (simp only: x_def)
qed

definition near :: "rat \<Rightarrow> rat \<Rightarrow> bool" where
  \<comment> \<open>\<open>v\<close> is \<open>x\<close> up to one rounding\<close>
  "near v x \<longleftrightarrow> \<bar>v - x\<bar> \<le> ULP * \<bar>x\<bar> + TINY"

lemma near_lower: "near v x \<Longrightarrow> 0 \<le> x \<Longrightarrow> x * (1 - ULP) - TINY \<le> v"
  by (auto simp: near_def algebra_simps)

lemma near_upper: "near v x \<Longrightarrow> 0 \<le> x \<Longrightarrow> v \<le> x * (1 + ULP) + TINY"
  by (auto simp: near_def algebra_simps)

lemma near_round: "0 < d \<Longrightarrow> fl_isfinite (fl_round s n d) \<Longrightarrow> near (fl_val (fl_round s n d)) ((if s then - 1 else 1) * (of_nat n / of_nat d))"
  using fl_round_error[of d s n] by (cases s) (simp_all add: near_def abs_mult)

lemma near_of_scaled:
  assumes "fl_isfinite (fl_of_scaled s n e)"
  shows "near (fl_val (fl_of_scaled s n e)) (of_int (signed s n) * 2 powi e)"
proof (cases "0 \<le> e")
  case True
  then have "(of_int (signed s n) * 2 powi e :: rat) = (if s then - 1 else 1) * (of_nat (n * 2 ^ nat e) / of_nat 1)"
    by (simp add: signed_rat power_int_def)
  then show ?thesis using near_round[of 1 s "n * 2 ^ nat e"] assms True by (simp add: fl_of_scaled_def)
next
  case False
  then have "(of_int (signed s n) * 2 powi e :: rat) = (if s then - 1 else 1) * (of_nat n / of_nat (2 ^ nat (- e)))"
    by (simp add: signed_rat power_int_def field_simps)
  then show ?thesis using near_round[of "2 ^ nat (- e)" s n] assms False by (simp add: fl_of_scaled_def)
qed

lemma fl_add_finite: "fl_isfinite (fl_add x y) \<Longrightarrow> fl_isfinite x \<and> fl_isfinite y"
  by (cases x; cases y) (auto split: if_splits)

lemma fl_mul_finite: "fl_isfinite (fl_mul x y) \<Longrightarrow> fl_isfinite x \<and> fl_isfinite y"
  by (cases x; cases y) (auto split: if_splits)

lemma fl_add_near:
  assumes "fl_isfinite (fl_add x y)"
  shows "near (fl_val (fl_add x y)) (fl_val x + fl_val y)"
proof -
  from fl_add_finite[OF assms] obtain s m e t n f where xy: "x = FFin s m e" "y = FFin t n f"
    by (cases x; cases y) auto
  let ?g = "min e f"
  let ?k = "signed s (m * 2 ^ nat (e - ?g)) + signed t (n * 2 ^ nat (f - ?g))"
  have v: "fl_val x = of_int (signed s (m * 2 ^ nat (e - ?g))) * 2 powi ?g"
    "fl_val y = of_int (signed t (n * 2 ^ nat (f - ?g))) * 2 powi ?g"
    unfolding xy fl_val.simps by (rule common_exponent, simp)+
  have sum: "fl_val x + fl_val y = of_int ?k * 2 powi ?g" unfolding v by (simp add: distrib_right)
  show ?thesis
  proof (cases "?k = 0")
    case True
    then show ?thesis using sum by (simp add: xy Let_def signed_def near_def less_imp_le)
  next
    case False
    then have r: "fl_add x y = fl_of_scaled (?k < 0) (nat \<bar>?k\<bar>) ?g" by (simp add: xy Let_def)
    have "signed (?k < 0) (nat \<bar>?k\<bar>) = ?k" by (simp add: signed_def)
    then show ?thesis using near_of_scaled[of "?k < 0" "nat \<bar>?k\<bar>" ?g] assms by (simp only: r sum)
  qed
qed

lemma fl_mul_near:
  assumes "fl_isfinite (fl_mul x y)"
  shows "near (fl_val (fl_mul x y)) (fl_val x * fl_val y)"
proof -
  from fl_mul_finite[OF assms] obtain s m e t n f where xy: "x = FFin s m e" "y = FFin t n f"
    by (cases x; cases y) auto
  have "fl_val x * fl_val y = of_int (signed (s \<noteq> t) (m * n)) * 2 powi (e + f)"
    by (cases s; cases t) (simp_all add: xy signed_def power_int_add)
  then show ?thesis using near_of_scaled[of "s \<noteq> t" "m * n" "e + f"] assms by (simp add: xy)
qed

lemma fl_div_near:
  assumes "fl_div x y = Inr z" "fl_isfinite x" "fl_isfinite y" "fl_isfinite z"
  shows "near (fl_val z) (fl_val x / fl_val y)"
proof -
  from assms obtain s m e t n f where xy: "x = FFin s m e" "y = FFin t n f" by (cases x; cases y) auto
  let ?g = "min e f"
  have n: "0 < n" using assms(1) by (auto simp: fl_div_def fl_iszero_def xy split: if_splits)
  have z: "z = fl_round (s \<noteq> t) (m * 2 ^ nat (e - ?g)) (n * 2 ^ nat (f - ?g))"
    using assms(1) by (auto simp: fl_div_def xy Let_def split: if_splits)
  have v: "fl_val x = of_int (signed s (m * 2 ^ nat (e - ?g))) * 2 powi ?g"
    "fl_val y = of_int (signed t (n * 2 ^ nat (f - ?g))) * 2 powi ?g"
    unfolding xy fl_val.simps by (rule common_exponent, simp)+
  have "fl_val x / fl_val y = (if s \<noteq> t then - 1 else 1) * (of_nat (m * 2 ^ nat (e - ?g)) / of_nat (n * 2 ^ nat (f - ?g)))"
    unfolding v by (cases s; cases t) (simp_all add: signed_rat)
  then show ?thesis using near_round[of "n * 2 ^ nat (f - ?g)" "s \<noteq> t" "m * 2 ^ nat (e - ?g)"] n assms(4)
    by (simp only: z) simp
qed

lemma fl_int_near: "fl_isfinite (fl_int i) \<Longrightarrow> near (fl_val (fl_int i)) (of_int i)"
  using near_round[of 1 "i < 0" "nat \<bar>i\<bar>"] by (auto simp: fl_int_def split: if_splits)

lemma fl_neg_val [simp]: "fl_val (fl_neg x) = - fl_val x" "fl_isfinite (fl_neg x) = fl_isfinite x"
  by (cases x; simp add: signed_def)+

lemma fl_abs_val [simp]: "fl_val (fl_abs x) = \<bar>fl_val x\<bar>" "fl_isfinite (fl_abs x) = fl_isfinite x"
  by (cases x; simp add: signed_def abs_mult)+

subsection \<open>Integers up to \<open>2 ^ 53\<close> are exact; quotients of moderate size are finite\<close>

lemma half_even_one [simp]: "half_even a (Suc 0) = a"
  by (simp add: half_even_def)

lemma fl_int_exact:
  assumes "\<bar>i\<bar> < 2 ^ 53"
  shows "fl_isfinite (fl_int i)" "fl_val (fl_int i) = of_int i"
proof -
  have "fl_isfinite (fl_int i) \<and> fl_val (fl_int i) = of_int i"
  proof (cases "i = 0")
    case True
    then show ?thesis by (simp add: fl_int_def fl_round_def signed_def)
  next
    case False
    define n where "n = nat \<bar>i\<bar>"
    have n: "0 < n" "n < 2 ^ 53" using False assms by (simp_all add: n_def nat_less_iff)
    define e where "e = fl_exp n 1"
    have "e \<le> 0"
    proof (rule ccontr)
      assume "\<not> e \<le> 0"
      then have "(2 :: rat) powi 1 \<le> 2 powi e" by (intro power_int_increasing) simp_all
      moreover have "(2 :: rat) ^ 52 * 2 powi e \<le> of_nat n"
        using fl_exp_range(3)[OF n(1), of 1] \<open>\<not> e \<le> 0\<close> by (simp add: e_def)
      moreover have "(of_nat n :: rat) < 2 ^ 53" using n(2) by (metis of_nat_less_iff of_nat_numeral of_nat_power)
      ultimately show False by simp
    qed
    then have s: "scaled n 1 e = (n * 2 ^ nat (- e), 1)" by (auto simp: scaled_def)
    have r: "fl_int i = fl_pack (i < 0) (n * 2 ^ nat (- e)) e"
    proof -
      have "fl_int i = fl_round (i < 0) n 1" by (simp only: fl_int_def n_def)
      then show ?thesis using n(1) s[unfolded e_def] by (simp add: fl_round_def e_def Let_def)
    qed
    have fin: "fl_isfinite (fl_int i)" using \<open>e \<le> 0\<close> by (simp add: r fl_pack_def Let_def)
    have "fl_val (fl_int i) = of_int (signed (i < 0) (n * 2 ^ nat (- e))) * 2 powi e"
      using fl_pack_val[of "i < 0" "n * 2 ^ nat (- e)" e] fin by (simp only: r)
    also have "\<dots> = (if i < 0 then - 1 else 1) * of_nat n"
      using \<open>e \<le> 0\<close> by (simp add: signed_rat power_int_def field_simps)
    also have "\<dots> = of_int i" by (simp add: n_def)
    finally show ?thesis using fin by simp
  qed
  then show "fl_isfinite (fl_int i)" "fl_val (fl_int i) = of_int i" by auto
qed

lemma fl_round_isfinite:
  assumes "0 < d" "(of_nat n / of_nat d :: rat) < 2 ^ 1023"
  shows "fl_isfinite (fl_round s n d)"
proof (cases "n = 0")
  case False
  define e where "e = fl_exp n d"
  have "e < 971"
  proof (rule ccontr)
    assume "\<not> e < 971"
    then have "(2 :: rat) powi 971 \<le> 2 powi e" by (intro power_int_increasing) simp_all
    moreover have "(2 :: rat) ^ 52 * 2 powi e \<le> of_nat n / of_nat d"
      using fl_exp_range(3)[OF _ assms(1), of n] False \<open>\<not> e < 971\<close> by (simp add: e_def)
    ultimately have "(2 :: rat) ^ 52 * 2 powi 971 \<le> of_nat n / of_nat d" by simp
    with assms(2) show False by simp
  qed
  moreover obtain a b where "scaled n d e = (a, b)" by fastforce
  ultimately show ?thesis using False by (simp add: fl_round_def fl_pack_def Let_def flip: e_def)
qed (simp add: fl_round_def)

lemma fl_round_bound:
  assumes "0 < d" "fl_isfinite (fl_round s n d)"
  shows "\<bar>fl_val (fl_round s n d)\<bar> \<le> 2 ^ 1024"
proof (cases "n = 0")
  case False
  define e where "e = fl_exp n d"
  obtain a b where ab: "scaled n d e = (a, b)" by fastforce
  have r: "fl_round s n d = fl_pack s (half_even a b) e" using False ab by (simp add: fl_round_def e_def Let_def)
  have b: "0 < b" by (rule scaled_ratio(1)[OF ab assms(1)])
  have "a < b * 2 ^ 53"
    using ratio_less_iff[OF ab assms(1), of "2 ^ 53"] fl_exp_range(2)[OF _ assms(1), of n] False by (simp add: e_def)
  then have "a div b < 2 ^ 53" using b by (simp add: less_mult_imp_div_less mult.commute)
  then have m: "half_even a b \<le> 2 ^ 53" by (simp add: half_even_def Let_def)
  have e: "e \<le> 971" using assms(2) by (auto simp: r fl_pack_def split: if_splits)
  have "\<bar>fl_val (fl_round s n d)\<bar> = of_nat (half_even a b) * 2 powi e"
    using fl_pack_val[of s "half_even a b" e] assms(2) by (simp add: r signed_rat abs_mult)
  also have "\<dots> \<le> 2 ^ 53 * 2 powi 971"
  proof (rule mult_mono)
    show "(of_nat (half_even a b) :: rat) \<le> 2 ^ 53" using m by (metis of_nat_le_iff of_nat_numeral of_nat_power)
    show "(2 :: rat) powi e \<le> 2 powi 971" using e by (intro power_int_increasing) simp_all
  qed simp_all
  also have "\<dots> = 2 ^ 1024" by simp
  finally show ?thesis .
qed (simp add: fl_round_def signed_def)

lemma fl_of_int_near:
  assumes "fl_of_int i = Inr x"
  shows "fl_isfinite x" "near (fl_val x) (of_int i)" "\<bar>fl_val x\<bar> \<le> 2 ^ 1024"
proof -
  obtain s m e where f: "fl_int i = FFin s m e"
    using assms by (cases "fl_int i") (simp_all add: fl_of_int_def)
  have x: "x = fl_int i" using assms by (simp add: fl_of_int_def f)
  have fin: "fl_isfinite (fl_int i)" by (simp add: f)
  then show "fl_isfinite x" "near (fl_val x) (of_int i)" unfolding x by (assumption, rule fl_int_near)
  show "\<bar>fl_val x\<bar> \<le> 2 ^ 1024" using fl_round_bound[OF zero_less_one fin[unfolded fl_int_def]] by (simp only: x fl_int_def)
qed

lemma fl_div_isfinite:
  assumes "fl_div x y = Inr z" "fl_isfinite x" "fl_isfinite y" "\<bar>fl_val x / fl_val y\<bar> < 2 ^ 1023"
  shows "fl_isfinite z"
proof -
  from assms(2,3) obtain s m e t n f where xy: "x = FFin s m e" "y = FFin t n f" by (cases x; cases y) auto
  let ?g = "min e f"
  have n: "0 < n" using assms(1) by (auto simp: fl_div_def fl_iszero_def xy split: if_splits)
  have z: "z = fl_round (s \<noteq> t) (m * 2 ^ nat (e - ?g)) (n * 2 ^ nat (f - ?g))"
    using assms(1) by (auto simp: fl_div_def xy Let_def split: if_splits)
  have v: "fl_val x = of_int (signed s (m * 2 ^ nat (e - ?g))) * 2 powi ?g"
    "fl_val y = of_int (signed t (n * 2 ^ nat (f - ?g))) * 2 powi ?g"
    unfolding xy fl_val.simps by (rule common_exponent, simp)+
  have "\<bar>fl_val x / fl_val y\<bar> = of_nat (m * 2 ^ nat (e - ?g)) / of_nat (n * 2 ^ nat (f - ?g))"
    unfolding v by (cases s; cases t) (simp_all add: signed_rat abs_mult)
  with assms(4) show ?thesis unfolding z using n by (intro fl_round_isfinite) simp_all
qed

subsection \<open>Signs, and overflow only upwards\<close>

lemma fl_pack_signed: "fl_pack s m e = FInf s \<or> (\<exists>m' e'. fl_pack s m e = FFin s m' e')"
  by (simp add: fl_pack_def Let_def split: prod.split)

lemma fl_round_signed: "fl_round s n d = FInf s \<or> (\<exists>m e. fl_round s n d = FFin s m e)"
  using fl_pack_signed by (auto simp: fl_round_def Let_def split: prod.split)

lemma fl_of_scaled_signed: "fl_of_scaled s n k = FInf s \<or> (\<exists>m e. fl_of_scaled s n k = FFin s m e)"
  using fl_round_signed by (simp add: fl_of_scaled_def)

lemma plus_sign_nonneg: "0 \<le> fl_val (FFin False m e)"
  by (simp add: signed_def)

lemma two_powi_pos [simp]: "(0 :: rat) < 2 powi e" "\<not> 2 powi e < (0 :: rat)" "\<not> 2 powi e \<le> (0 :: rat)"
proof -
  show p: "(0 :: rat) < 2 powi e" by (rule zero_less_power_int) simp
  show "\<not> 2 powi e < (0 :: rat)" "\<not> 2 powi e \<le> (0 :: rat)" using p by (simp_all only: not_less not_le less_imp_le)
qed

text \<open>A sum or product of non-negative numbers is non-negative, or overflows to infinity.\<close>

definition nonneg_or_inf :: "pyfloat \<Rightarrow> bool" where
  "nonneg_or_inf x \<longleftrightarrow> (fl_isfinite x \<and> 0 \<le> fl_val x) \<or> x = FInf False"

lemma fl_of_scaled_nonneg: "nonneg_or_inf (fl_of_scaled False n k)"
  using fl_of_scaled_signed[of False n k] by (auto simp: nonneg_or_inf_def plus_sign_nonneg simp del: fl_val.simps)

lemma signed_nonneg: "0 \<le> (of_int (signed s m) * 2 powi e :: rat) \<Longrightarrow> 0 \<le> signed s m"
  by (simp add: zero_le_mult_iff)

lemma fl_add_nonneg:
  assumes "fl_isfinite x" "fl_isfinite y" "0 \<le> fl_val x" "0 \<le> fl_val y"
  shows "nonneg_or_inf (fl_add x y)"
proof -
  from assms(1,2) obtain s m e t n f where xy: "x = FFin s m e" "y = FFin t n f" by (cases x; cases y) auto
  let ?g = "min e f"
  have "0 \<le> signed s m" "0 \<le> signed t n" using assms(3,4) signed_nonneg[of s m e] signed_nonneg[of t n f] by (simp_all add: xy)
  then have k: "\<not> signed s (m * 2 ^ nat (e - ?g)) + signed t (n * 2 ^ nat (f - ?g)) < 0"
    by (simp add: signed_mult not_less)
  show ?thesis
    using k fl_of_scaled_nonneg by (auto simp: xy Let_def nonneg_or_inf_def signed_def)
qed

lemma fl_mul_pos:
  assumes "fl_isfinite x" "fl_isfinite y" "0 < fl_val x" "0 < fl_val y"
  shows "nonneg_or_inf (fl_mul x y)"
proof -
  from assms(1,2) obtain s m e t n f where xy: "x = FFin s m e" "y = FFin t n f" by (cases x; cases y) auto
  have "0 < signed s m" "0 < signed t n" using assms(3,4) by (simp_all add: xy zero_less_mult_iff)
  then have "\<not> s" "\<not> t" by (cases s; cases t; simp add: signed_def)+
  then show ?thesis by (simp add: xy fl_of_scaled_nonneg)
qed

lemma fl_add_isfinite:
  assumes "fl_isfinite x" "fl_isfinite y" "\<bar>fl_val x + fl_val y\<bar> < 2 ^ 1023"
  shows "fl_isfinite (fl_add x y)"
proof -
  from assms(1,2) obtain s m e t n f where xy: "x = FFin s m e" "y = FFin t n f" by (cases x; cases y) auto
  define g where "g = min e f"
  define k where "k = signed s (m * 2 ^ nat (e - g)) + signed t (n * 2 ^ nat (f - g))"
  have v: "fl_val x = of_int (signed s (m * 2 ^ nat (e - g))) * 2 powi g"
    "fl_val y = of_int (signed t (n * 2 ^ nat (f - g))) * 2 powi g"
    unfolding xy fl_val.simps by (rule common_exponent, simp add: g_def)+
  have "fl_val x + fl_val y = of_int k * 2 powi g" unfolding v by (simp add: distrib_right k_def)
  then have "\<bar>fl_val x + fl_val y\<bar> = of_nat (nat \<bar>k\<bar>) * 2 powi g" by (simp only: abs_mult) simp
  with assms(3) have b: "(of_nat (nat \<bar>k\<bar>) * 2 powi g :: rat) < 2 ^ 1023" by (simp only:)
  have "fl_isfinite (fl_of_scaled (k < 0) (nat \<bar>k\<bar>) g)"
  proof (cases "0 \<le> g")
    case True
    then have "(of_nat (nat \<bar>k\<bar>) * 2 powi g :: rat) = of_nat (nat \<bar>k\<bar> * 2 ^ nat g) / of_nat 1"
      by (simp add: power_int_def)
    with b have "(of_nat (nat \<bar>k\<bar> * 2 ^ nat g) / of_nat 1 :: rat) < 2 ^ 1023" by (simp only:)
    from fl_round_isfinite[OF _ this] True show ?thesis by (simp add: fl_of_scaled_def)
  next
    case False
    then have "(of_nat (nat \<bar>k\<bar>) * 2 powi g :: rat) = of_nat (nat \<bar>k\<bar>) / of_nat (2 ^ nat (- g))"
      by (simp add: power_int_def field_simps)
    with b have "(of_nat (nat \<bar>k\<bar>) / of_nat (2 ^ nat (- g)) :: rat) < 2 ^ 1023" by (simp only:)
    from fl_round_isfinite[OF _ this] False show ?thesis by (simp add: fl_of_scaled_def)
  qed
  then show ?thesis by (simp add: xy Let_def flip: g_def k_def)
qed

lemma fl_le_finite_inf: "fl_isfinite x \<Longrightarrow> fl_le x (FInf False)"
  by (cases x) (simp_all add: fl_le_def)

lemma ULP_num: "1 - ULP = 9007199254740991 / 9007199254740992" "1 + ULP = 9007199254740993 / 9007199254740992"
  "1 + 4 * ULP = 2251799813685249 / 2251799813685248"
  by (simp_all add: ULP_def)

lemma three_roundings:
  fixes t p n p' c e :: rat
  assumes "p' * 9007199254740992 \<le> (p + n) * 9007199254740993 + e * 9007199254740992"
    "(t + p + n) * 81129638414606663681390495662081 < (c + 2 * e) * 81129638414606681695789005144064"
    "0 \<le> t" "0 \<le> p" "0 \<le> n" "0 < e"
  shows "(t + p') * 2251799813685248 < c * 2251799813685249 + 4 * e * 2251799813685248"
  using assms by simp

text \<open>An exposure below a cap, with what is added to it and reserved.\<close>

lemma reserved_below_cap:
  assumes fin: "fl_isfinite (fl_add t p)" and pos: "0 \<le> fl_val t" "0 \<le> fl_val p"
    and q: "fl_isfinite q" "0 < fl_val q" "fl_isfinite x" "0 < fl_val x"
    and cap: "fl_isfinite c" "fl_val c \<le> 10 ^ 18" "\<not> fl_le c (fl_add (fl_add t p) (fl_mul q x))"
  shows "fl_isfinite (fl_add p (fl_mul q x))"
    "fl_val t + fl_val (fl_add p (fl_mul q x)) < fl_val c * (1 + 4 * ULP) + 4 * TINY"
    "0 \<le> fl_val (fl_add p (fl_mul q x))"
proof -
  let ?n = "fl_mul q x"
  have tp: "fl_isfinite t" "fl_isfinite p" using fl_add_finite[OF fin] by auto
  have s1: "0 \<le> fl_val (fl_add t p)" using fl_add_nonneg[OF tp pos] fin by (auto simp: nonneg_or_inf_def)
  have n: "fl_isfinite ?n" "0 \<le> fl_val ?n"
  proof -
    have "?n \<noteq> FInf False"
    proof
      assume "?n = FInf False"
      with fin have "fl_add (fl_add t p) ?n = FInf False" by (cases "fl_add t p") simp_all
      with cap fl_le_finite_inf show False by simp
    qed
    with fl_mul_pos[OF q(1,3,2,4)] show "fl_isfinite ?n" "0 \<le> fl_val ?n" by (auto simp: nonneg_or_inf_def)
  qed
  let ?s = "fl_add (fl_add t p) ?n"
  have s: "fl_isfinite ?s" using fl_add_nonneg[OF fin n(1) s1 n(2)] cap(1,3) fl_le_finite_inf by (auto simp: nonneg_or_inf_def)
  have lt: "fl_val ?s < fl_val c" using cap(1,3) s by (simp add: fl_le_val not_le)
  have l1: "(fl_val t + fl_val p) * (1 - ULP) - TINY \<le> fl_val (fl_add t p)"
    by (rule near_lower[OF fl_add_near[OF fin]]) (use pos in simp)
  have l2: "(fl_val (fl_add t p) + fl_val ?n) * (1 - ULP) - TINY \<le> fl_val ?s"
    by (rule near_lower[OF fl_add_near[OF s]]) (use s1 n in simp)
  have t: "0 < TINY" "TINY \<le> 1" by (simp_all add: TINY_def)
  define c1 :: rat where "c1 = 1 - ULP"
  have c1: "0 \<le> c1" "c1 \<le> 1" by (simp_all add: c1_def ULP_def)
  have "((fl_val t + fl_val p) * c1 - TINY) * c1 \<le> fl_val (fl_add t p) * c1"
    by (rule mult_right_mono[OF l1[folded c1_def] c1(1)])
  moreover have "fl_val ?n * c1 * c1 \<le> fl_val ?n * c1" using mult_left_le[OF c1(2), of "fl_val ?n * c1"] n(2) c1(1) by simp
  moreover have "TINY * c1 \<le> TINY" using mult_left_le[OF c1(2), of TINY] t by simp
  ultimately have b: "(fl_val t + fl_val p + fl_val ?n) * (c1 * c1) - 2 * TINY < fl_val c"
    using l2[folded c1_def] lt by (simp only: algebra_simps)
  have "c1 * c1 = 81129638414606663681390495662081 / 81129638414606681695789005144064"
    by (simp add: c1_def ULP_num)
  with b have b': "(fl_val t + fl_val p + fl_val ?n) * 81129638414606663681390495662081 < (fl_val c + 2 * TINY) * 81129638414606681695789005144064"
    by (simp add: field_simps)
  have "fl_val c \<le> 1000000000000000000" using cap(2) by simp
  then have "fl_val p + fl_val ?n < 2000000000000000000" using b' pos n(2) t by simp
  also have "\<dots> < 2 ^ 1023" by simp
  finally have "fl_val p + fl_val ?n < 2 ^ 1023" .
  then show r: "fl_isfinite (fl_add p ?n)" using pos n by (intro fl_add_isfinite tp) simp_all
  have u: "fl_val (fl_add p ?n) \<le> (fl_val p + fl_val ?n) * (1 + ULP) + TINY"
    by (rule near_upper[OF fl_add_near[OF r]]) (use pos n in simp)
  then have u': "fl_val (fl_add p ?n) * 9007199254740992 \<le> (fl_val p + fl_val ?n) * 9007199254740993 + TINY * 9007199254740992"
    unfolding ULP_num by (simp add: field_simps)
  have "(fl_val t + fl_val (fl_add p ?n)) * 2251799813685248 < fl_val c * 2251799813685249 + 4 * TINY * 2251799813685248"
    by (rule three_roundings[OF u' b' pos n(2) t(1)])
  then show "fl_val t + fl_val (fl_add p ?n) < fl_val c * (1 + 4 * ULP) + 4 * TINY"
    unfolding ULP_num by (simp add: field_simps)
  show "0 \<le> fl_val (fl_add p ?n)"
    using fl_add_nonneg[OF tp(2) n(1) pos(2) n(2)] r by (auto simp: nonneg_or_inf_def)
qed

end
