(* ===== verification/PyText.thy ===== *)
theory PyText
  imports FloatOps PyValue
begin

text \<open>
  What the stream consumers share: messages are dictionaries of texts, and numbers are read from
  them with \<open>int(text)\<close> and \<open>float(text)\<close>.
\<close>

type_synonym fields = "(string, string) pydict"

text \<open>\<open>d.get(a) or d.get(b)\<close> on texts.\<close>

definition get_or :: "fields \<Rightarrow> string \<Rightarrow> string \<Rightarrow> string option" where
  "get_or d a b = (case dget d a of Some (c # cs) \<Rightarrow> Some (c # cs) | _ \<Rightarrow> dget d b)"

definition text_of :: "string option \<Rightarrow> string" where
  \<comment> \<open>\<open>t or ""\<close>\<close>
  "text_of t = (case t of None \<Rightarrow> [] | Some s \<Rightarrow> s)"

lemma text_of_simps [simp]: "text_of None = []" "text_of (Some s) = s"
  by (simp_all add: text_of_def)

text \<open>\<open>int(text)\<close>: an optional sign, digits, single underscores between digits.\<close>

definition int_of_text :: "string \<Rightarrow> py_exc + int" where
  "int_of_text text =
     (case split_sign (strip text) of (neg, body) \<Rightarrow>
        let digits = filter (\<lambda>c. c \<noteq> CHR ''_'') body in
        if digits \<noteq> [] \<and> list_all is_digit digits \<and> underscores_ok None body
        then Inr (if neg then - int (digits_val digits) else int (digits_val digits))
        else Inl (ValueError ''int''))"

definition float_of_text :: "string \<Rightarrow> py_exc + pyfloat" where
  "float_of_text text = fl_of_text (strip text)"

text \<open>A \<open>defaultdict\<close> that is read.\<close>

definition dd :: "('k, 'v) pydict \<Rightarrow> 'k \<Rightarrow> 'v \<Rightarrow> 'v" where
  "dd d k v0 = (case dget d k of None \<Rightarrow> v0 | Some v \<Rightarrow> v)"

lemma dd_dset [simp]: "dd (dset k v d) k' v0 = (if k' = k then v else dd d k' v0)"
  by (simp add: dd_def)

text \<open>The last \<open>n\<close> elements, as a \<open>deque(maxlen=n)\<close> keeps them.\<close>

definition last_n :: "nat \<Rightarrow> 'a list \<Rightarrow> 'a list" where
  "last_n n xs = drop (length xs - n) xs"

lemma length_last_n [simp]: "length (last_n n xs) = min n (length xs)"
  by (simp add: last_n_def)

text \<open>Smoothing with period \<open>p\<close>: \<open>(avg * (p - 1) + x) / p\<close>.\<close>

definition wilder :: "nat \<Rightarrow> pyfloat \<Rightarrow> pyfloat \<Rightarrow> pyfloat" where
  "wilder p avg x = fl_div_nonzero (fl_add (fl_mul avg (fl_int (int p - 1))) x) (fl_int (int p))"

text \<open>What evaluates small whole numbers.\<close>

lemmas int_eval = fl_int_def fl_eval fl_le_def fl_sub_def fl_max_def fl_min_def fl_zero_def signed_def fl_of_scaled_def

end
