(* ===== verification/Regime.thy ===== *)
theory Regime
  imports PyText
begin

text \<open>
  The regime service (\<open>services/regime/models.py\<close>, \<open>service.py\<close>, \<open>config.py\<close>): candles of a symbol
  are classified by volatility and trend strength, and a classification becomes the current regime
  when it has been confirmed by enough candles. Messages are dictionaries of texts. Log lines and
  the HTTP endpoints are left out. A period fits a \<open>deque\<close>, so it is far inside the range of
  floats; \<open>validate\<close> makes it positive.
\<close>

subsection \<open>Configuration\<close>

record regime_config =
  gc_adx_period :: nat
  gc_atr_period :: nat
  gc_adx_trend :: pyfloat
  gc_adx_range :: pyfloat
  gc_atr_high_vol :: pyfloat
  gc_confirmation_bars :: nat
  gc_heartbeat_s :: pyfloat
  gc_source_version :: string

definition validate_regime_config :: "regime_config \<Rightarrow> py_exc + unit" where
  "validate_regime_config cfg =
     (if gc_adx_period cfg = 0 then Inl (ValueError ''REGIME_ADX_PERIOD'')
      else if gc_atr_period cfg = 0 then Inl (ValueError ''REGIME_ATR_PERIOD'')
      else if fl_le (gc_adx_trend cfg) (gc_adx_range cfg) then Inl (ValueError ''ADX Trend Threshold'')
      else if fl_le (gc_atr_high_vol cfg) fl_zero then Inl (ValueError ''REGIME_ATR_HIGH_VOL_THRESHOLD'')
      else if gc_confirmation_bars cfg = 0 then Inl (ValueError ''REGIME_CONFIRMATION_BARS'')
      else if fl_le (gc_heartbeat_s cfg) fl_zero then Inl (ValueError ''REGIME_HEARTBEAT_INTERVAL_S'')
      else Inr ())"

subsection \<open>Candles\<close>

record candle =
  cd_ts :: int
  cd_symbol :: string
  cd_timeframe :: string
  cd_open :: pyfloat
  cd_high :: pyfloat
  cd_low :: pyfloat
  cd_close :: pyfloat
  cd_volume :: pyfloat
  cd_venue :: "string option"

text \<open>\<open>Candle.from_payload\<close>; whatever cannot be read makes it \<open>None\<close>.\<close>

definition candle_values :: "fields \<Rightarrow> string \<Rightarrow> string \<Rightarrow> string \<Rightarrow> py_exc + candle" where
  "candle_values d ts symbol timeframe =
     ebind (int_of_text ts) (\<lambda>t.
     ebind (float_of_text (text_of (dget d ''open''))) (\<lambda>op.
     ebind (float_of_text (text_of (dget d ''high''))) (\<lambda>hi.
     ebind (float_of_text (text_of (dget d ''low''))) (\<lambda>lo.
     ebind (float_of_text (text_of (dget d ''close''))) (\<lambda>cl.
     ebind (case dget d ''volume'' of None \<Rightarrow> Inr fl_zero | Some v \<Rightarrow> float_of_text v) (\<lambda>vo.
     Inr \<lparr>cd_ts = t, cd_symbol = symbol, cd_timeframe = timeframe, cd_open = op, cd_high = hi, cd_low = lo,
          cd_close = cl, cd_volume = vo, cd_venue = dget d ''venue''\<rparr>))))))"

definition candle_from_payload :: "fields \<Rightarrow> candle option" where
  "candle_from_payload d =
     (case (get_or d ''ts'' ''timestamp'', dget d ''symbol'', get_or d ''timeframe'' ''interval'') of
        (Some ts, Some symbol, Some timeframe) \<Rightarrow>
          if None \<in> set (map (dget d) [''open'', ''high'', ''low'', ''close'']) then None
          else (case candle_values d ts symbol timeframe of Inl e \<Rightarrow> None | Inr c \<Rightarrow> Some c)
      | _ \<Rightarrow> None)"

subsection \<open>Indicators\<close>

definition true_range :: "candle \<Rightarrow> candle \<Rightarrow> pyfloat" where
  "true_range prev cur =
     fl_max (fl_max (fl_sub (cd_high cur) (cd_low cur)) (fl_abs (fl_sub (cd_high cur) (cd_close prev))))
       (fl_abs (fl_sub (cd_low cur) (cd_close prev)))"

text \<open>A function of each candle and its predecessor.\<close>

fun pairwise :: "('a \<Rightarrow> 'a \<Rightarrow> 'b) \<Rightarrow> 'a list \<Rightarrow> 'b list" where
  "pairwise f (p # c # cs) = f p c # pairwise f (c # cs)"
| "pairwise f _ = []"

definition compute_atr :: "candle list \<Rightarrow> nat \<Rightarrow> pyfloat option" where
  "compute_atr candles period =
     (if length candles < period + 1 then None
      else let trs = pairwise true_range candles in
        Some (foldl (wilder period) (fl_div_nonzero (fl_sum (take period trs)) (fl_int (int period))) (drop period trs)))"

text \<open>True range and directional movement up and down.\<close>

definition movement :: "candle \<Rightarrow> candle \<Rightarrow> pyfloat \<times> pyfloat \<times> pyfloat" where
  "movement prev cur =
     (let up_move = fl_sub (cd_high cur) (cd_high prev);
          down_move = fl_sub (cd_low prev) (cd_low cur)
      in (true_range prev cur,
          if fl_lt down_move up_move \<and> fl_lt fl_zero up_move then up_move else fl_zero,
          if fl_lt up_move down_move \<and> fl_lt fl_zero down_move then down_move else fl_zero))"

definition directional_index :: "pyfloat \<times> pyfloat \<times> pyfloat \<Rightarrow> pyfloat" where
  "directional_index s = (case s of (atr, pdm, ndm) \<Rightarrow>
     if fl_eq atr fl_zero then fl_zero
     else let pdi = fl_mul (fl_int 100) (fl_div_nonzero pdm atr);
              ndi = fl_mul (fl_int 100) (fl_div_nonzero ndm atr);
              denom = fl_add pdi ndi
          in if fl_eq denom fl_zero then fl_zero
             else fl_div_nonzero (fl_mul (fl_int 100) (fl_abs (fl_sub pdi ndi))) denom)"

definition smooth_step :: "nat \<Rightarrow> pyfloat \<times> pyfloat \<times> pyfloat \<Rightarrow> pyfloat \<times> pyfloat \<times> pyfloat \<Rightarrow> pyfloat \<times> pyfloat \<times> pyfloat" where
  "smooth_step p s x = (case (s, x) of ((atr, pdm, ndm), (tr, up, down)) \<Rightarrow>
     (wilder p atr tr, wilder p pdm up, wilder p ndm down))"

text \<open>The first loop: one index per candle of the first period, and where the smoothing stands after it.\<close>

fun index_loop :: "nat \<Rightarrow> pyfloat \<times> pyfloat \<times> pyfloat \<Rightarrow> (pyfloat \<times> pyfloat \<times> pyfloat) list
    \<Rightarrow> pyfloat list \<times> (pyfloat \<times> pyfloat \<times> pyfloat)" where
  "index_loop p s [] = ([directional_index s], s)"
| "index_loop p s (x # xs) = (case index_loop p (smooth_step p s x) xs of (ds, s') \<Rightarrow> (directional_index s # ds, s'))"

definition adx_step :: "nat \<Rightarrow> pyfloat \<times> (pyfloat \<times> pyfloat \<times> pyfloat) \<Rightarrow> pyfloat \<times> pyfloat \<times> pyfloat
    \<Rightarrow> pyfloat \<times> (pyfloat \<times> pyfloat \<times> pyfloat)" where
  "adx_step p a x = (case a of (adx, s) \<Rightarrow> let s' = smooth_step p s x in (wilder p adx (directional_index s'), s'))"

definition compute_adx :: "candle list \<Rightarrow> nat \<Rightarrow> pyfloat option" where
  "compute_adx candles period =
     (if length candles < period + 1 then None
      else let moves = pairwise movement candles;
               first = take period moves;
               atr = fl_div_nonzero (fl_sum (map fst first)) (fl_int (int period));
               pdm = fl_sum (map (fst \<circ> snd) first);
               ndm = fl_sum (map (snd \<circ> snd) first)
           in (case index_loop period (atr, pdm, ndm) (tl first) of (dxs, s) \<Rightarrow>
             Some (fst (foldl (adx_step period) (fl_div_nonzero (fl_sum dxs) (fl_int (int period)), s) (drop period moves)))))"

subsection \<open>Classification\<close>

definition classify_raw_regime :: "regime_config \<Rightarrow> pyfloat \<Rightarrow> pyfloat \<Rightarrow> pyfloat \<Rightarrow> string \<Rightarrow> string" where
  "classify_raw_regime cfg adx atr close current =
     (if fl_le close fl_zero then ''UNKNOWN''
      else if fl_le (gc_atr_high_vol cfg) (fl_div_nonzero atr close) then ''HIGH_VOL_CHAOTIC''
      else if fl_le (gc_adx_trend cfg) adx then ''TREND''
      else if fl_le adx (gc_adx_range cfg) then ''RANGE''
      else current)"

subsection \<open>The service\<close>

record regime_service =
  rg_candles :: "(string, candle list) pydict"
  rg_current :: "(string, string) pydict"
  rg_candidate :: "(string, string option) pydict"
  rg_count :: "(string, nat) pydict"
  rg_last_emitted :: "(string, pyfloat) pydict"
  rg_stream :: "fields list"
  rg_changes :: nat
  rg_processed :: nat
  rg_faults :: "bool list"

definition regime_start :: "bool list \<Rightarrow> regime_service" where
  "regime_start faults = \<lparr>rg_candles = [], rg_current = [], rg_candidate = [], rg_count = [], rg_last_emitted = [],
     rg_stream = [], rg_changes = 0, rg_processed = 0, rg_faults = faults\<rparr>"

definition regime_key :: "string \<Rightarrow> string \<Rightarrow> string option \<Rightarrow> string" where
  "regime_key symbol timeframe venue = symbol @ '':'' @ timeframe @ '':'' @ text_of venue"

definition key_of :: "candle \<Rightarrow> string" where
  "key_of c = regime_key (cd_symbol c) (cd_timeframe c) (cd_venue c)"

definition regime_message :: "regime_config \<Rightarrow> candle \<Rightarrow> string \<Rightarrow> pyfloat option \<Rightarrow> pyfloat option \<Rightarrow> fields" where
  "regime_message cfg c regime adx atr =
     [(''ts'', int_str (cd_ts c)), (''symbol'', cd_symbol c), (''timeframe'', cd_timeframe c), (''regime'', regime),
      (''adx'', case adx of None \<Rightarrow> [] | Some x \<Rightarrow> fl_format 6 x),
      (''atr'', case atr of None \<Rightarrow> [] | Some x \<Rightarrow> fl_format 6 x),
      (''atr_over_close'', case atr of None \<Rightarrow> []
         | Some x \<Rightarrow> if fl_lt fl_zero (cd_close c) then fl_format 8 (fl_div_nonzero x (cd_close c)) else []),
      (''atr_high_vol_unit'', ''atr_over_close''), (''source_version'', gc_source_version cfg), (''schema_version'', ''1'')]"

text \<open>\<open>emitted\<close> is the time read after the message was written; a refused message has no effect.\<close>

definition emit_regime ::
  "regime_config \<Rightarrow> pyfloat \<Rightarrow> candle \<Rightarrow> string \<Rightarrow> pyfloat option \<Rightarrow> pyfloat option \<Rightarrow> regime_service \<Rightarrow> py_exc option \<times> regime_service" where
  "emit_regime cfg emitted c regime adx atr sv = (case rg_faults sv of
     True # fs \<Rightarrow> (Some OtherError, sv\<lparr>rg_faults := fs\<rparr>)
   | fs \<Rightarrow> (None, sv\<lparr>rg_faults := tl fs, rg_stream := rg_stream sv @ [regime_message cfg c regime adx atr],
       rg_changes := rg_changes sv + 1, rg_last_emitted := dset (key_of c) emitted (rg_last_emitted sv)\<rparr>))"

definition bucket_size :: "regime_config \<Rightarrow> nat" where
  "bucket_size cfg = max (gc_adx_period cfg) (gc_atr_period cfg) * 5"

definition store_candle :: "regime_config \<Rightarrow> candle \<Rightarrow> regime_service \<Rightarrow> regime_service" where
  "store_candle cfg c sv =
     sv\<lparr>rg_candles := dset (key_of c) (last_n (bucket_size cfg) (dd (rg_candles sv) (key_of c) [] @ [c])) (rg_candles sv)\<rparr>"

definition current_of :: "regime_service \<Rightarrow> string \<Rightarrow> string" where
  "current_of sv key = dd (rg_current sv) key ''UNKNOWN''"

text \<open>\<open>now\<close> is the time read for the heartbeat.\<close>

definition settle_regime ::
  "regime_config \<Rightarrow> pyfloat \<Rightarrow> pyfloat \<Rightarrow> candle \<Rightarrow> string \<Rightarrow> pyfloat \<Rightarrow> pyfloat \<Rightarrow> regime_service \<Rightarrow> py_exc option \<times> regime_service" where
  "settle_regime cfg now emitted c raw adx atr sv =
     (let key = key_of c in
      if raw = current_of sv key then
        let sv' = sv\<lparr>rg_candidate := dset key None (rg_candidate sv), rg_count := dset key 0 (rg_count sv)\<rparr> in
        if raw \<noteq> ''UNKNOWN'' \<and> fl_lt (gc_heartbeat_s cfg) (fl_sub now (dd (rg_last_emitted sv') key fl_zero))
        then emit_regime cfg emitted c raw (Some adx) (Some atr) sv' else (None, sv')
      else
        let count = (if dd (rg_candidate sv) key None \<noteq> Some raw then 1 else dd (rg_count sv) key 0 + 1) in
        if gc_confirmation_bars cfg \<le> count then
          emit_regime cfg emitted c raw (Some adx) (Some atr)
            (sv\<lparr>rg_current := dset key raw (rg_current sv), rg_candidate := dset key None (rg_candidate sv),
                rg_count := dset key 0 (rg_count sv)\<rparr>)
        else (None, sv\<lparr>rg_candidate := dset key (Some raw) (rg_candidate sv), rg_count := dset key count (rg_count sv)\<rparr>))"

definition bucket_of :: "regime_config \<Rightarrow> candle \<Rightarrow> regime_service \<Rightarrow> candle list" where
  "bucket_of cfg c sv = dd (rg_candles (store_candle cfg c sv)) (key_of c) []"

definition derive_regime :: "regime_config \<Rightarrow> pyfloat \<Rightarrow> pyfloat \<Rightarrow> candle \<Rightarrow> regime_service \<Rightarrow> py_exc option \<times> regime_service" where
  "derive_regime cfg now emitted c sv =
     (let sv' = store_candle cfg c sv; bucket = bucket_of cfg c sv in
      case (compute_adx bucket (gc_adx_period cfg), compute_atr bucket (gc_atr_period cfg)) of
        (Some adx, Some atr) \<Rightarrow>
          settle_regime cfg now emitted c (classify_raw_regime cfg adx atr (cd_close c) (current_of sv' (key_of c))) adx atr
            (sv'\<lparr>rg_current := dset (key_of c) (current_of sv' (key_of c)) (rg_current sv')\<rparr>)
      | _ \<Rightarrow> (None, sv'))"

text \<open>A message that is not a candle: the regime of its symbol is unknown from then on.\<close>

definition handle_missing_ohlcv :: "regime_config \<Rightarrow> pyfloat \<Rightarrow> fields \<Rightarrow> regime_service \<Rightarrow> py_exc option \<times> regime_service" where
  "handle_missing_ohlcv cfg emitted d sv =
     (case (text_of (dget d ''symbol''), text_of (get_or d ''timeframe'' ''interval'')) of (symbol, timeframe) \<Rightarrow>
        let key = regime_key symbol timeframe (dget d ''venue'') in
        if symbol = [] \<or> timeframe = [] then (None, sv)
        else if dget (rg_current sv) key \<noteq> Some ''UNKNOWN'' then
          let sv' = sv\<lparr>rg_current := dset key ''UNKNOWN'' (rg_current sv)\<rparr>; ts = text_of (get_or d ''ts'' ''timestamp'') in
          (case (if ts = [] then Inr 0 else int_of_text ts) of
             Inl e \<Rightarrow> (Some e, sv')
           | Inr t \<Rightarrow> emit_regime cfg emitted
               \<lparr>cd_ts = t, cd_symbol = symbol, cd_timeframe = timeframe, cd_open = fl_zero, cd_high = fl_zero, cd_low = fl_zero,
                cd_close = fl_zero, cd_volume = fl_zero, cd_venue = dget d ''venue''\<rparr> ''UNKNOWN'' None None sv')
        else (None, sv))"

text \<open>One message of the candle stream, with the two clock readings; exceptions are logged by the loop.\<close>

definition consume_candle :: "regime_config \<Rightarrow> pyfloat \<times> pyfloat \<times> fields \<Rightarrow> regime_service \<Rightarrow> regime_service" where
  "consume_candle cfg ev sv = (case ev of (now, emitted, d) \<Rightarrow>
     (case candle_from_payload d of
        None \<Rightarrow> snd (handle_missing_ohlcv cfg emitted d sv)
      | Some c \<Rightarrow> snd (derive_regime cfg now emitted c (sv\<lparr>rg_processed := rg_processed sv + 1\<rparr>))))"

definition run_regime :: "regime_config \<Rightarrow> (pyfloat \<times> pyfloat \<times> fields) list \<Rightarrow> regime_service \<Rightarrow> regime_service" where
  "run_regime cfg evs sv = fold (consume_candle cfg) evs sv"

subsection \<open>Classification is fail-closed on the price and nothing else\<close>

lemma classify_range: "classify_raw_regime cfg adx atr close current \<in> {''UNKNOWN'', ''HIGH_VOL_CHAOTIC'', ''TREND'', ''RANGE'', current}"
  by (simp add: classify_raw_regime_def)

lemma not_a_number [simp]: "fl_le FNaN x = False" "fl_le x FNaN = False" "fl_add x FNaN = FNaN" "fl_add FNaN x = FNaN"
  "fl_mul FNaN x = FNaN" "fl_mul x FNaN = FNaN" "fl_div_nonzero x FNaN = FNaN" "fl_div_nonzero FNaN x = FNaN" "fl_eq FNaN x = False"
  by (cases x; simp add: fl_le_def)+

lemma wilder_nan: "wilder p FNaN x = FNaN" "wilder p x FNaN = FNaN"
  by (simp_all add: wilder_def)

end
