(* ===== verification/TradeDecision.thy ===== *)
theory TradeDecision
  imports FloatOps PyValue
begin

text \<open>
  \<open>decide_trade\<close> of \<open>services/risk/service.py\<close>: the first decision on a signal, from the signal, the
  market state, the account state and the market health, with the reading of numbers in front of
  it. The three states are the values the payload carries; a value that is not an object has no
  fields. \<open>decision_id\<close> and \<open>trace_id\<close> are the generated identifiers.
\<close>

subsection \<open>Configuration and signal\<close>

record risk_config =
  rc_max_position_pct :: pyfloat
  rc_max_total_exposure_pct :: pyfloat
  rc_max_daily_drawdown_pct :: pyfloat
  rc_stop_loss_pct :: pyfloat
  rc_early_live_max_alloc :: pyfloat
  rc_paper_auto_unwind :: bool
  rc_use_real_balance :: bool
  rc_test_balance :: pyfloat

text \<open>\<open>RiskConfig.validate\<close>.\<close>

definition validate_risk_config :: "risk_config \<Rightarrow> py_exc + unit" where
  "validate_risk_config cfg =
     (if fl_le (rc_max_position_pct cfg) fl_zero \<or> fl_lt (fl_int 1) (rc_max_position_pct cfg)
      then Inl (ValueError ''MAX_POSITION_PCT'')
      else if fl_le (rc_max_total_exposure_pct cfg) fl_zero \<or> fl_lt (fl_int 1) (rc_max_total_exposure_pct cfg)
      then Inl (ValueError ''MAX_TOTAL_EXPOSURE_PCT'')
      else Inr ())"

text \<open>A \<open>Signal\<close>: texts or nothing, and numbers as the payload had them.\<close>

record signal =
  sg_signal_id :: "string option"
  sg_strategy_id :: "string option"
  sg_bot_id :: "string option"
  sg_symbol :: "string option"
  sg_side :: "string option"
  sg_timestamp :: pyval
  sg_reason :: "string option"
  sg_price :: pyval
  sg_pct_change_15m :: pyval
  sg_volume_15m :: pyval
  sg_ts_ms :: pyval

subsection \<open>Thresholds\<close>

record thresholds =
  th_return_1m_min :: pyfloat
  th_return_5m_min :: pyfloat
  th_price_change_5m_abs_max :: pyfloat
  th_staleness_s_max :: pyfloat
  th_data_silence_s_max :: pyfloat
  th_signal_pct_change_15m_min :: pyfloat
  th_signal_volume_15m_min :: pyfloat
  th_daily_drawdown_pct_max :: pyfloat
  th_total_exposure_pct_max :: pyfloat
  th_slippage_pct_max :: pyfloat

definition fraction_to_pct_points :: "pyfloat \<Rightarrow> pyfloat" where
  "fraction_to_pct_points fraction = fl_mul fraction (fl_int 100)"

definition build_decision_thresholds :: "risk_config \<Rightarrow> thresholds" where
  "build_decision_thresholds c =
     \<lparr>th_return_1m_min = fl_int (- 2), th_return_5m_min = fl_int (- 5),
      th_price_change_5m_abs_max = fl_int 10, th_staleness_s_max = fl_int 5,
      th_data_silence_s_max = fl_int 30, th_signal_pct_change_15m_min = fl_int 3,
      th_signal_volume_15m_min = fl_round False 165 1000,
      th_daily_drawdown_pct_max = fraction_to_pct_points (rc_max_daily_drawdown_pct c),
      th_total_exposure_pct_max = fraction_to_pct_points (rc_max_total_exposure_pct c),
      th_slippage_pct_max = fl_int 1\<rparr>"

subsection \<open>Reading numbers\<close>

definition get_value :: "pyval \<Rightarrow> string \<Rightarrow> pyval" where
  "get_value obj key = (case obj of PMap d \<Rightarrow> map_get d key | _ \<Rightarrow> PNone)"

definition finite_or_none :: "pyfloat \<Rightarrow> pyfloat option" where
  "finite_or_none x = (if fl_isfinite x then Some x else None)"

definition parse_number :: "pyval \<Rightarrow> py_exc + pyfloat option" where
  \<comment> \<open>an integer too large for a float raises\<close>
  "parse_number v = (case v of
     PInt i \<Rightarrow> ebind (fl_of_int i) (\<lambda>x. Inr (finite_or_none x))
   | PFloat x \<Rightarrow> Inr (finite_or_none x)
   | PStr s \<Rightarrow> Inr (if strip s = [] then None
       else case fl_of_text (strip s) of Inl e \<Rightarrow> None | Inr x \<Rightarrow> finite_or_none x)
   | _ \<Rightarrow> Inr None)"

definition parse_int :: "pyval \<Rightarrow> py_exc + int option" where
  "parse_int v = ebind (parse_number v) (\<lambda>r. case r of
     None \<Rightarrow> Inr None
   | Some x \<Rightarrow> if \<not> fl_is_integer x then Inr None else ebind (fl_trunc x) (\<lambda>i. Inr (Some i)))"

subsection \<open>The decision\<close>

text \<open>What was read, and what was computed from it; this is also the evidence of the decision.\<close>

record evidence =
  ev_signal_id :: "string option"
  ev_decision_id :: string
  ev_trace_id :: string
  ev_symbol :: "string option"
  ev_now_ms :: "int option"
  ev_pct_change_15m :: "pyfloat option"
  ev_volume_15m :: "pyfloat option"
  ev_signal_ts_ms :: "int option"
  ev_regime_id :: "int option"
  ev_return_1m :: "pyfloat option"
  ev_return_5m :: "pyfloat option"
  ev_price_change_5m :: "pyfloat option"
  ev_market_state_ts_ms :: "int option"
  ev_last_tick_ts_ms :: "int option"
  ev_daily_drawdown_pct :: "pyfloat option"
  ev_total_exposure_pct :: "pyfloat option"
  ev_account_state_ts_ms :: "int option"
  ev_slippage_pct :: "pyfloat option"
  ev_market_health_ts_ms :: "int option"
  ev_staleness_s :: "pyfloat option"
  ev_data_silence_s :: "pyfloat option"

definition seconds_since :: "int option \<Rightarrow> int option \<Rightarrow> py_exc + pyfloat option" where
  "seconds_since now_ms ts = (case (now_ms, ts) of
     (Some now, Some t) \<Rightarrow> ebind (fl_of_int (now - t)) (\<lambda>x. ebind (fl_div x (fl_int 1000)) (\<lambda>s. Inr (Some s)))
   | _ \<Rightarrow> Inr None)"

definition latest :: "int option list \<Rightarrow> int option" where
  "latest ts = (case map the (filter (\<lambda>t. t \<noteq> None) ts) of [] \<Rightarrow> None | t # rest \<Rightarrow> Some (foldl max t rest))"

definition gather_evidence :: "string \<Rightarrow> string \<Rightarrow> signal \<Rightarrow> pyval \<Rightarrow> pyval \<Rightarrow> pyval \<Rightarrow> int \<Rightarrow> py_exc + evidence" where
  "gather_evidence decision_id trace_id sg market_state account_state market_health now_ms =
     ebind (parse_int (PInt now_ms)) (\<lambda>now.
     ebind (parse_number (sg_pct_change_15m sg)) (\<lambda>pct. ebind (parse_number (sg_volume_15m sg)) (\<lambda>vol.
     ebind (parse_int (sg_ts_ms sg)) (\<lambda>sts.
     ebind (parse_int (get_value market_state ''regime_id'')) (\<lambda>regime.
     ebind (parse_number (get_value market_state ''return_1m'')) (\<lambda>r1.
     ebind (parse_number (get_value market_state ''return_5m'')) (\<lambda>r5.
     ebind (parse_number (get_value market_state ''price_change_5m'')) (\<lambda>pc.
     ebind (parse_int (get_value market_state ''ts_ms'')) (\<lambda>mts.
     ebind (parse_int (get_value market_state ''last_tick_ts_ms'')) (\<lambda>tick.
     ebind (parse_number (get_value account_state ''daily_drawdown_pct'')) (\<lambda>dd.
     ebind (parse_number (get_value account_state ''total_exposure_pct'')) (\<lambda>te.
     ebind (parse_int (get_value account_state ''ts_ms'')) (\<lambda>ats.
     ebind (parse_number (get_value market_health ''slippage_pct'')) (\<lambda>slip.
     ebind (parse_int (get_value market_health ''ts_ms'')) (\<lambda>hts.
     ebind (seconds_since now (latest [sts, mts, ats, hts])) (\<lambda>stale.
     ebind (seconds_since now tick) (\<lambda>silence.
     Inr \<lparr>ev_signal_id = sg_signal_id sg, ev_decision_id = decision_id, ev_trace_id = trace_id,
          ev_symbol = sg_symbol sg, ev_now_ms = now, ev_pct_change_15m = pct, ev_volume_15m = vol,
          ev_signal_ts_ms = sts, ev_regime_id = regime, ev_return_1m = r1, ev_return_5m = r5,
          ev_price_change_5m = pc, ev_market_state_ts_ms = mts, ev_last_tick_ts_ms = tick,
          ev_daily_drawdown_pct = dd, ev_total_exposure_pct = te, ev_account_state_ts_ms = ats,
          ev_slippage_pct = slip, ev_market_health_ts_ms = hts, ev_staleness_s = stale,
          ev_data_silence_s = silence\<rparr>)))))))))))))))))"

text \<open>
  The five groups of checks. \<open>None\<close> is ALLOW, otherwise the reason code of the BLOCK; the first
  group that blocks decides.
\<close>

definition safety_code :: "thresholds \<Rightarrow> evidence \<Rightarrow> string option" where
  "safety_code th ev = (case (ev_return_1m ev, ev_return_5m ev, ev_price_change_5m ev) of
     (Some r1, Some r5, Some pc) \<Rightarrow>
       if fl_le r1 (th_return_1m_min th) \<or> fl_le r5 (th_return_5m_min th)
          \<or> fl_lt (th_price_change_5m_abs_max th) (fl_abs pc) then Some ''RC_002'' else None
   | _ \<Rightarrow> Some ''RC_002'')"

definition freshness_code :: "thresholds \<Rightarrow> evidence \<Rightarrow> string option" where
  "freshness_code th ev = (case ev_staleness_s ev of None \<Rightarrow> Some ''RC_003'' | Some stale \<Rightarrow>
     if fl_lt (th_staleness_s_max th) stale then Some ''RC_003''
     else (case ev_data_silence_s ev of None \<Rightarrow> Some ''RC_004'' | Some silence \<Rightarrow>
       if fl_lt (th_data_silence_s_max th) silence then Some ''RC_004'' else None))"

definition regime_code :: "bool \<Rightarrow> evidence \<Rightarrow> string option" where
  "regime_code probe ev = (case ev_regime_id ev of None \<Rightarrow> Some ''RC_001'' | Some regime \<Rightarrow>
     if regime \<notin> {0, 1, 2, 3} then Some ''RC_001''
     else if regime \<in> {2, 3} \<and> \<not> probe then Some ''RC_001'' else None)"

definition signal_code :: "thresholds \<Rightarrow> bool \<Rightarrow> evidence \<Rightarrow> string option" where
  "signal_code th probe ev = (case (ev_symbol ev, ev_pct_change_15m ev, ev_volume_15m ev) of
     (Some symbol, Some pct, Some vol) \<Rightarrow>
       if symbol = [] then Some ''RC_010''
       else if (fl_lt pct (th_signal_pct_change_15m_min th) \<or> fl_lt vol (th_signal_volume_15m_min th)) \<and> \<not> probe
       then Some ''RC_010'' else None
   | _ \<Rightarrow> Some ''RC_010'')"

definition portfolio_code :: "thresholds \<Rightarrow> bool \<Rightarrow> evidence \<Rightarrow> string option" where
  "portfolio_code th probe ev =
     (if ev_daily_drawdown_pct ev = None \<and> \<not> probe then Some ''RC_020''
      else if fl_le (th_daily_drawdown_pct_max th) (case ev_daily_drawdown_pct ev of None \<Rightarrow> fl_zero | Some d \<Rightarrow> d)
      then Some ''RC_020''
      else if ev_total_exposure_pct ev = None \<and> \<not> probe then Some ''RC_021''
      else if fl_le (th_total_exposure_pct_max th) (case ev_total_exposure_pct ev of None \<Rightarrow> fl_zero | Some x \<Rightarrow> x)
      then Some ''RC_021''
      else (case ev_slippage_pct ev of
          Some slip \<Rightarrow> if fl_lt (th_slippage_pct_max th) slip then Some ''RC_022'' else None
        | None \<Rightarrow> None))"

definition or_else :: "'a option \<Rightarrow> 'a option \<Rightarrow> 'a option" where
  "or_else a b = (case a of Some x \<Rightarrow> Some x | None \<Rightarrow> b)"

definition block_code :: "thresholds \<Rightarrow> bool \<Rightarrow> evidence \<Rightarrow> string option" where
  "block_code th probe ev = or_else (safety_code th ev) (or_else (freshness_code th ev)
     (or_else (regime_code probe ev) (or_else (signal_code th probe ev) (portfolio_code th probe ev))))"

definition decide_trade ::
  "risk_config \<Rightarrow> bool \<Rightarrow> string \<Rightarrow> string \<Rightarrow> signal \<Rightarrow> pyval \<Rightarrow> pyval \<Rightarrow> pyval \<Rightarrow> int \<Rightarrow> py_exc + (string option \<times> evidence)" where
  "decide_trade cfg probe decision_id trace_id sg market_state account_state market_health now_ms =
     ebind (gather_evidence decision_id trace_id sg market_state account_state market_health now_ms) (\<lambda>ev.
       Inr (block_code (build_decision_thresholds cfg) probe ev, ev))"

subsection \<open>Ages are exact\<close>

text \<open>
  The age in seconds is a rounded quotient, but compared with a whole number of seconds it decides
  as the difference of the milliseconds does.
\<close>

lemma near_le: "near v x \<Longrightarrow> x \<le> b \<Longrightarrow> 0 \<le> b \<Longrightarrow> v \<le> b * (1 + ULP) + TINY"
proof -
  assume v: "near v x" and x: "x \<le> b" "0 \<le> b"
  have "x + ULP * \<bar>x\<bar> \<le> b + ULP * b"
  proof (cases "0 \<le> x")
    case True
    have "ULP * x \<le> ULP * b" by (rule mult_left_mono[OF x(1)]) (simp add: less_imp_le)
    with True x(1) show ?thesis by (simp add: add_mono)
  next
    case False
    then have "x * (1 - ULP) \<le> 0" by (intro mult_nonpos_nonneg) (simp_all add: ULP_def)
    moreover have "0 \<le> b + ULP * b" using x by (simp add: less_imp_le)
    moreover have "x + ULP * \<bar>x\<bar> = x * (1 - ULP)" using False by (simp add: algebra_simps)
    ultimately show ?thesis by linarith
  qed
  with v show ?thesis by (auto simp: near_def algebra_simps)
qed

lemma near_ge: "near v x \<Longrightarrow> b \<le> x \<Longrightarrow> 0 \<le> b \<Longrightarrow> b * (1 - ULP) - TINY \<le> v"
proof -
  assume v: "near v x" and x: "b \<le> x" "0 \<le> b"
  have "b * (1 - ULP) \<le> x * (1 - ULP)" using x(1) by (rule mult_right_mono) (simp add: ULP_def)
  with near_lower[OF v] x show ?thesis by simp
qed

lemma whole_seconds:
  "fl_div (fl_int 5000) (fl_int 1000) = Inr (fl_int 5)" "fl_div (fl_int 30000) (fl_int 1000) = Inr (fl_int 30)"
  by (simp_all add: fl_div_def fl_iszero_def fl_int_def fl_eval)

lemma seconds_exact:
  assumes "seconds_since now ts = Inr (Some s)" "k = 5 \<or> k = 30"
  obtains a t where "now = Some a" "ts = Some t" "fl_isfinite s" "fl_lt (fl_int k) s \<longleftrightarrow> 1000 * k < a - t"
proof -
  from assms(1) obtain a t x where at: "now = Some a" "ts = Some t" and x: "fl_of_int (a - t) = Inr x"
    and s: "fl_div x (fl_int 1000) = Inr s"
    by (auto simp: seconds_since_def ebind_eq_Inr split: option.splits)
  define d where "d = a - t"
  note nx = fl_of_int_near[OF x]
  have th: "fl_isfinite (fl_int 1000)" "fl_val (fl_int 1000) = 1000" using fl_int_exact[of 1000] by simp_all
  have kk: "fl_isfinite (fl_int k)" "fl_val (fl_int k) = of_int k" using fl_int_exact[of k] assms(2) by auto
  have "\<bar>fl_val x / fl_val (fl_int 1000)\<bar> \<le> 2 ^ 1024 / 1000" using nx(3) by (simp add: th)
  also have "\<dots> < (2 :: rat) ^ 1023" by simp
  finally have fs: "fl_isfinite s" by (rule fl_div_isfinite[OF s nx(1) th(1)])
  have ns: "near (fl_val s) (fl_val x / 1000)" using fl_div_near[OF s nx(1) th(1) fs] by (simp add: th)
  have "of_int k < fl_val s \<longleftrightarrow> 1000 * k < d"
  proof (cases "1000 * k" d rule: linorder_cases)
    case less
    then have "(of_int (1000 * k + 1) :: rat) \<le> of_int d" by (simp only: of_int_le_iff)
    from near_ge[OF nx(2)[folded d_def] this] have "of_int (1000 * k + 1) * (1 - ULP) - TINY \<le> fl_val x"
      using assms(2) by auto
    then have "(of_int (1000 * k + 1) * (1 - ULP) - TINY) / 1000 \<le> fl_val x / 1000" by simp
    from near_ge[OF ns this] have "(of_int (1000 * k + 1) * (1 - ULP) - TINY) / 1000 * (1 - ULP) - TINY \<le> fl_val s"
      using assms(2) by (auto simp: ULP_def TINY_def)
    moreover have "of_int k < (of_int (1000 * k + 1) * (1 - ULP) - TINY) / 1000 * (1 - ULP) - TINY"
      using assms(2) by (auto simp: ULP_def TINY_def)
    ultimately show ?thesis using less by simp
  next
    case equal
    then have "x = fl_int (1000 * k)" using x d_def fl_int_exact[of "1000 * k"] assms(2)
      by (auto simp: fl_of_int_def split: pyfloat.splits)
    then have "s = fl_int k" using s whole_seconds assms(2) by auto
    then show ?thesis using kk equal by simp
  next
    case greater
    then have "(of_int d :: rat) \<le> of_int (1000 * k - 1)" by (simp only: of_int_le_iff)
    from near_le[OF nx(2)[folded d_def] this] have "fl_val x \<le> of_int (1000 * k - 1) * (1 + ULP) + TINY"
      using assms(2) by auto
    then have "fl_val x / 1000 \<le> (of_int (1000 * k - 1) * (1 + ULP) + TINY) / 1000" by simp
    from near_le[OF ns this] have "fl_val s \<le> (of_int (1000 * k - 1) * (1 + ULP) + TINY) / 1000 * (1 + ULP) + TINY"
      using assms(2) by (auto simp: ULP_def TINY_def)
    moreover have "(of_int (1000 * k - 1) * (1 + ULP) + TINY) / 1000 * (1 + ULP) + TINY < of_int k"
      using assms(2) by (auto simp: ULP_def TINY_def)
    ultimately show ?thesis using greater by simp
  qed
  then have "fl_lt (fl_int k) s \<longleftrightarrow> 1000 * k < a - t" by (simp add: fl_lt_val kk fs d_def)
  with at fs show ?thesis by (rule that)
qed

subsection \<open>The decision follows a list of checks\<close>

text \<open>The checks over rational numbers and milliseconds, in their order, with the code of each.\<close>

definition known :: "('a \<Rightarrow> bool) \<Rightarrow> 'a option \<Rightarrow> bool" where
  "known P v = (case v of None \<Rightarrow> False | Some x \<Rightarrow> P x)"

lemma known_simps [simp]: "\<not> known P None" "known P (Some x) = P x"
  by (simp_all add: known_def)

definition age_within :: "int \<Rightarrow> int option \<Rightarrow> int option \<Rightarrow> bool" where
  "age_within ms now ts \<longleftrightarrow> known (\<lambda>n. known (\<lambda>t. n - t \<le> ms) ts) now"

definition evidence_ages :: "evidence \<Rightarrow> int option list" where
  "evidence_ages ev = [ev_signal_ts_ms ev, ev_market_state_ts_ms ev, ev_account_state_ts_ms ev, ev_market_health_ts_ms ev]"

definition trade_checks :: "rat \<Rightarrow> rat \<Rightarrow> bool \<Rightarrow> evidence \<Rightarrow> (bool \<times> string) list" where
  "trade_checks drawdown_cap exposure_cap probe ev =
     [(known (\<lambda>r. - 2 < fl_val r) (ev_return_1m ev) \<and> known (\<lambda>r. - 5 < fl_val r) (ev_return_5m ev)
         \<and> known (\<lambda>c. \<bar>fl_val c\<bar> \<le> 10) (ev_price_change_5m ev), ''RC_002''),
      (age_within 5000 (ev_now_ms ev) (latest (evidence_ages ev)), ''RC_003''),
      (age_within 30000 (ev_now_ms ev) (ev_last_tick_ts_ms ev), ''RC_004''),
      (known (\<lambda>r. r \<in> {0, 1} \<or> (probe \<and> r \<in> {2, 3})) (ev_regime_id ev), ''RC_001''),
      (known (\<lambda>s. s \<noteq> []) (ev_symbol ev)
         \<and> known (\<lambda>p. probe \<or> 3 \<le> fl_val p) (ev_pct_change_15m ev)
         \<and> known (\<lambda>v. probe \<or> fl_val (fl_round False 165 1000) \<le> fl_val v) (ev_volume_15m ev), ''RC_010''),
      (case ev_daily_drawdown_pct ev of None \<Rightarrow> probe \<and> 0 < drawdown_cap | Some d \<Rightarrow> fl_val d < drawdown_cap, ''RC_020''),
      (case ev_total_exposure_pct ev of None \<Rightarrow> probe \<and> 0 < exposure_cap | Some x \<Rightarrow> fl_val x < exposure_cap, ''RC_021''),
      (case ev_slippage_pct ev of None \<Rightarrow> True | Some s \<Rightarrow> fl_val s \<le> 1, ''RC_022'')]"

fun first_failed :: "(bool \<times> string) list \<Rightarrow> string option" where
  "first_failed [] = None"
| "first_failed ((ok, code) # cs) = (if ok then first_failed cs else Some code)"

lemma parse_number_finite: "parse_number v = Inr (Some x) \<Longrightarrow> fl_isfinite x"
  by (auto simp: parse_number_def ebind_eq_Inr finite_or_none_def split: pyval.splits if_splits sum.splits)

definition evidence_ok :: "evidence \<Rightarrow> bool" where
  "evidence_ok ev \<longleftrightarrow>
     (\<forall>x \<in> set_option (ev_pct_change_15m ev) \<union> set_option (ev_volume_15m ev) \<union> set_option (ev_return_1m ev)
        \<union> set_option (ev_return_5m ev) \<union> set_option (ev_price_change_5m ev) \<union> set_option (ev_daily_drawdown_pct ev)
        \<union> set_option (ev_total_exposure_pct ev) \<union> set_option (ev_slippage_pct ev). fl_isfinite x)
     \<and> seconds_since (ev_now_ms ev) (latest (evidence_ages ev)) = Inr (ev_staleness_s ev)
     \<and> seconds_since (ev_now_ms ev) (ev_last_tick_ts_ms ev) = Inr (ev_data_silence_s ev)"

lemma gathered_ok:
  assumes "gather_evidence did tid sg ms acc mh now = Inr ev"
  shows "evidence_ok ev"
  using assms by (auto simp: gather_evidence_def ebind_eq_Inr evidence_ok_def evidence_ages_def dest!: parse_number_finite)

lemma age_check:
  assumes "seconds_since now ts = Inr r" "k = 5 \<or> k = 30"
  shows "age_within (1000 * k) now ts \<longleftrightarrow> known (\<lambda>s. \<not> fl_lt (fl_int k) s) r"
proof (cases r)
  case None
  with assms(1) show ?thesis by (auto simp: seconds_since_def age_within_def known_def ebind_eq_Inr split: option.splits)
next
  case (Some s)
  from seconds_exact[OF assms(1)[unfolded Some] assms(2)] obtain a t where
    "now = Some a" "ts = Some t" "fl_lt (fl_int k) s \<longleftrightarrow> 1000 * k < a - t" by metis
  then show ?thesis by (auto simp: Some age_within_def)
qed

lemma threshold_values:
  "fl_isfinite (fl_int (- 2))" "fl_val (fl_int (- 2)) = - 2" "fl_isfinite (fl_int (- 5))" "fl_val (fl_int (- 5)) = - 5"
  "fl_isfinite (fl_int 10)" "fl_val (fl_int 10) = 10" "fl_isfinite (fl_int 3)" "fl_val (fl_int 3) = 3"
  "fl_isfinite (fl_int 1)" "fl_val (fl_int 1) = 1" "fl_isfinite (fl_round False 165 1000)"
  using fl_int_exact[of "- 2"] fl_int_exact[of "- 5"] fl_int_exact[of 10] fl_int_exact[of 3] fl_int_exact[of 1]
  by (simp_all add: fl_round_isfinite)

text \<open>The same list over floats is what the code goes through.\<close>

definition float_checks :: "thresholds \<Rightarrow> bool \<Rightarrow> evidence \<Rightarrow> (bool \<times> string) list" where
  "float_checks th probe ev =
     [(known (\<lambda>r. \<not> fl_le r (th_return_1m_min th)) (ev_return_1m ev) \<and> known (\<lambda>r. \<not> fl_le r (th_return_5m_min th)) (ev_return_5m ev)
         \<and> known (\<lambda>c. \<not> fl_lt (th_price_change_5m_abs_max th) (fl_abs c)) (ev_price_change_5m ev), ''RC_002''),
      (known (\<lambda>s. \<not> fl_lt (th_staleness_s_max th) s) (ev_staleness_s ev), ''RC_003''),
      (known (\<lambda>s. \<not> fl_lt (th_data_silence_s_max th) s) (ev_data_silence_s ev), ''RC_004''),
      (known (\<lambda>r. r \<in> {0, 1} \<or> (probe \<and> r \<in> {2, 3})) (ev_regime_id ev), ''RC_001''),
      (known (\<lambda>s. s \<noteq> []) (ev_symbol ev)
         \<and> known (\<lambda>p. probe \<or> \<not> fl_lt p (th_signal_pct_change_15m_min th)) (ev_pct_change_15m ev)
         \<and> known (\<lambda>v. probe \<or> \<not> fl_lt v (th_signal_volume_15m_min th)) (ev_volume_15m ev), ''RC_010''),
      (case ev_daily_drawdown_pct ev of None \<Rightarrow> probe \<and> \<not> fl_le (th_daily_drawdown_pct_max th) fl_zero
         | Some d \<Rightarrow> \<not> fl_le (th_daily_drawdown_pct_max th) d, ''RC_020''),
      (case ev_total_exposure_pct ev of None \<Rightarrow> probe \<and> \<not> fl_le (th_total_exposure_pct_max th) fl_zero
         | Some x \<Rightarrow> \<not> fl_le (th_total_exposure_pct_max th) x, ''RC_021''),
      (case ev_slippage_pct ev of None \<Rightarrow> True | Some s \<Rightarrow> \<not> fl_lt (th_slippage_pct_max th) s, ''RC_022'')]"

lemma or_else_simps [simp]: "or_else None b = b" "or_else (Some x) b = Some x"
  by (simp_all add: or_else_def)

lemma first_failed_append: "first_failed (xs @ ys) = or_else (first_failed xs) (first_failed ys)"
  by (induction xs rule: first_failed.induct) auto

lemma block_code_float_checks: "block_code th probe ev = first_failed (float_checks th probe ev)"
proof -
  let ?l = "float_checks th probe ev"
  have "safety_code th ev = first_failed (take 1 ?l)"
    by (cases "ev_return_1m ev"; cases "ev_return_5m ev"; cases "ev_price_change_5m ev"; simp add: safety_code_def float_checks_def)
  moreover have "freshness_code th ev = first_failed (take 2 (drop 1 ?l))"
    by (cases "ev_staleness_s ev"; cases "ev_data_silence_s ev"; simp add: freshness_code_def float_checks_def)
  moreover have "regime_code probe ev = first_failed (take 1 (drop 3 ?l))"
    by (cases "ev_regime_id ev"; simp add: regime_code_def float_checks_def; blast)
  moreover have "signal_code th probe ev = first_failed (take 1 (drop 4 ?l))"
    by (cases "ev_symbol ev"; cases "ev_pct_change_15m ev"; cases "ev_volume_15m ev"; simp add: signal_code_def float_checks_def; blast)
  moreover have "portfolio_code th probe ev = first_failed (drop 5 ?l)"
    by (cases "ev_daily_drawdown_pct ev"; cases "ev_total_exposure_pct ev"; cases "ev_slippage_pct ev"; simp add: portfolio_code_def float_checks_def)
  moreover have "?l = take 1 ?l @ take 2 (drop 1 ?l) @ take 1 (drop 3 ?l) @ take 1 (drop 4 ?l) @ drop 5 ?l"
    by (simp add: float_checks_def)
  ultimately show ?thesis unfolding block_code_def by (metis first_failed_append)
qed

lemma known_cong: "(\<And>x. v = Some x \<Longrightarrow> P x = Q x) \<Longrightarrow> known P v = known Q v"
  by (cases v) auto

lemma opt_case_cong: "(\<And>x. v = Some x \<Longrightarrow> f x = g x) \<Longrightarrow> a = b \<Longrightarrow> (case v of None \<Rightarrow> a | Some x \<Rightarrow> f x) = (case v of None \<Rightarrow> b | Some x \<Rightarrow> g x)"
  by (cases v) auto

lemma block_code_checks:
  assumes ok: "evidence_ok ev" and caps: "fl_isfinite (fraction_to_pct_points (rc_max_daily_drawdown_pct cfg))"
    "fl_isfinite (fraction_to_pct_points (rc_max_total_exposure_pct cfg))"
  shows "block_code (build_decision_thresholds cfg) probe ev =
    first_failed (trade_checks (fl_val (fraction_to_pct_points (rc_max_daily_drawdown_pct cfg)))
      (fl_val (fraction_to_pct_points (rc_max_total_exposure_pct cfg))) probe ev)"
proof -
  have a: "age_within 5000 (ev_now_ms ev) (latest (evidence_ages ev)) \<longleftrightarrow> known (\<lambda>s. \<not> fl_lt (fl_int 5) s) (ev_staleness_s ev)"
    "age_within 30000 (ev_now_ms ev) (ev_last_tick_ts_ms ev) \<longleftrightarrow> known (\<lambda>s. \<not> fl_lt (fl_int 30) s) (ev_data_silence_s ev)"
    using age_check[of "ev_now_ms ev" "latest (evidence_ages ev)" "ev_staleness_s ev" 5]
      age_check[of "ev_now_ms ev" "ev_last_tick_ts_ms ev" "ev_data_silence_s ev" 30] ok
    by (simp_all add: evidence_ok_def)
  have fin: "\<forall>x \<in> set_option (ev_pct_change_15m ev). fl_isfinite x" "\<forall>x \<in> set_option (ev_volume_15m ev). fl_isfinite x"
    "\<forall>x \<in> set_option (ev_return_1m ev). fl_isfinite x" "\<forall>x \<in> set_option (ev_return_5m ev). fl_isfinite x"
    "\<forall>x \<in> set_option (ev_price_change_5m ev). fl_isfinite x" "\<forall>x \<in> set_option (ev_daily_drawdown_pct ev). fl_isfinite x"
    "\<forall>x \<in> set_option (ev_total_exposure_pct ev). fl_isfinite x" "\<forall>x \<in> set_option (ev_slippage_pct ev). fl_isfinite x"
    using ok by (auto simp: evidence_ok_def)
  note cmp = fl_lt_val fl_le_val threshold_values caps not_le not_less
  show ?thesis
    unfolding block_code_float_checks trade_checks_def float_checks_def a build_decision_thresholds_def thresholds.simps
    using fin by (intro arg_cong[of _ _ first_failed] arg_cong2[of _ _ _ _ Cons] arg_cong2[of _ _ _ _ Pair]
        arg_cong2[of _ _ _ _ "(\<and>)"] known_cong opt_case_cong refl) (simp_all add: cmp)
qed

text \<open>
  C5. A signal is passed on or blocked for exactly these reasons. Whenever \<open>decide_trade\<close> answers, with
  the two caps of the configuration finite, its code is that of the first check that fails, in the order
  safety, freshness, regime, signal quality, portfolio, and ALLOW when none does: returns above -2 and
  -5, a price change of at most 10, data at most 5000 ms and ticks at most 30000 ms old, an allowed
  regime, a signal of sufficient strength, drawdown and exposure below their caps, slippage of at most
  1. A missing value fails its check, with two exceptions: a slippage that is missing or not a number
  passes, also when the market's health is there and against the comment in the code; and the paper
  evidence probe takes a missing drawdown or exposure for zero, allows two more regimes and asks for no
  strength. The ages in seconds are rounded quotients, yet decide as the milliseconds do.
\<close>

theorem decision_follows_checks:
  assumes "decide_trade cfg probe decision_id trace_id sg market_state account_state market_health now_ms = Inr (code, ev)"
    and "fl_isfinite (fraction_to_pct_points (rc_max_daily_drawdown_pct cfg))"
      "fl_isfinite (fraction_to_pct_points (rc_max_total_exposure_pct cfg))"
  shows "gather_evidence decision_id trace_id sg market_state account_state market_health now_ms = Inr ev
    \<and> code = first_failed (trade_checks (fl_val (fraction_to_pct_points (rc_max_daily_drawdown_pct cfg)))
        (fl_val (fraction_to_pct_points (rc_max_total_exposure_pct cfg))) probe ev)"
proof -
  from assms(1) have g: "gather_evidence decision_id trace_id sg market_state account_state market_health now_ms = Inr ev"
    and code: "code = block_code (build_decision_thresholds cfg) probe ev"
    by (auto simp: decide_trade_def ebind_eq_Inr)
  show ?thesis using g by (simp add: code block_code_checks[OF gathered_ok[OF g] assms(2,3)])
qed

text \<open>A worked example.\<close>

definition sample_config :: risk_config where
  "sample_config = \<lparr>rc_max_position_pct = fl_round False 1 4, rc_max_total_exposure_pct = fl_round False 1 2,
     rc_max_daily_drawdown_pct = fl_round False 1 16, rc_stop_loss_pct = fl_round False 1 64,
     rc_early_live_max_alloc = fl_round False 1 64, rc_paper_auto_unwind = False,
     rc_use_real_balance = False, rc_test_balance = fl_int 10000\<rparr>"

definition sample_signal :: "string \<Rightarrow> signal" where
  "sample_signal side = \<lparr>sg_signal_id = Some ''s1'', sg_strategy_id = Some ''paper'', sg_bot_id = None,
     sg_symbol = Some ''BTCUSDT'', sg_side = Some side, sg_timestamp = PInt 7, sg_reason = None,
     sg_price = PFloat (fl_int 2500), sg_pct_change_15m = PInt 4, sg_volume_15m = PInt 1, sg_ts_ms = PInt 9000\<rparr>"

definition sample_market :: pyval where
  "sample_market = PMap [(''regime_id'', PInt 0), (''return_1m'', PInt 1), (''return_5m'', PInt 1),
     (''price_change_5m'', PInt 2), (''ts_ms'', PInt 9000), (''last_tick_ts_ms'', PInt 9000)]"

definition sample_account :: pyval where
  "sample_account = PMap [(''daily_drawdown_pct'', PInt 1), (''total_exposure_pct'', PInt 1)]"

lemma sample_parsed:
  "parse_number (PInt 1) = Inr (Some (fl_int 1))" "parse_number (PInt 2) = Inr (Some (fl_int 2))"
  "parse_number (PInt 4) = Inr (Some (fl_int 4))" "parse_int (PInt 0) = Inr (Some 0)" "parse_int (PInt 9000) = Inr (Some 9000)"
  "parse_int (PInt 10000) = Inr (Some 10000)" "seconds_since (Some 10000) (Some 9000) = Inr (Some (fl_int 1))"
  "parse_number PNone = Inr None" "parse_int PNone = Inr None"
  by (simp_all add: parse_number_def parse_int_def seconds_since_def fl_of_int_def finite_or_none_def fl_div_def fl_iszero_def
      fl_int_def fl_eval signed_def)

definition sample_evidence :: "string \<Rightarrow> evidence" where
  "sample_evidence side =
     \<lparr>ev_signal_id = Some ''s1'', ev_decision_id = ''d1'', ev_trace_id = ''t1'', ev_symbol = Some ''BTCUSDT'',
      ev_now_ms = Some 10000, ev_pct_change_15m = Some (fl_int 4), ev_volume_15m = Some (fl_int 1),
      ev_signal_ts_ms = Some 9000, ev_regime_id = Some 0, ev_return_1m = Some (fl_int 1), ev_return_5m = Some (fl_int 1),
      ev_price_change_5m = Some (fl_int 2), ev_market_state_ts_ms = Some 9000, ev_last_tick_ts_ms = Some 9000,
      ev_daily_drawdown_pct = Some (fl_int 1), ev_total_exposure_pct = Some (fl_int 1), ev_account_state_ts_ms = None,
      ev_slippage_pct = None, ev_market_health_ts_ms = None, ev_staleness_s = Some (fl_int 1),
      ev_data_silence_s = Some (fl_int 1)\<rparr>"

lemma sample_gathered: "gather_evidence ''d1'' ''t1'' (sample_signal side) sample_market sample_account PNone 10000 = Inr (sample_evidence side)"
  by (simp add: gather_evidence_def sample_signal_def sample_market_def sample_account_def get_value_def map_get_def
      sample_parsed latest_def sample_evidence_def)

lemma sample_decision: "decide_trade sample_config False ''d1'' ''t1'' (sample_signal side) sample_market sample_account PNone 10000 = Inr (None, sample_evidence side)"
proof -
  have "block_code (build_decision_thresholds sample_config) False (sample_evidence side) = None"
    by (simp add: block_code_def safety_code_def freshness_code_def regime_code_def signal_code_def portfolio_code_def
        sample_evidence_def build_decision_thresholds_def fraction_to_pct_points_def sample_config_def fl_int_def fl_eval
        fl_le_def fl_of_scaled_def signed_def)
  then show ?thesis by (simp add: decide_trade_def sample_gathered)
qed

theorem decision_follows_checks_witness:
  "\<exists>ev. decide_trade sample_config False ''d1'' ''t1'' (sample_signal ''BUY'') sample_market sample_account PNone 10000 = Inr (None, ev)
    \<and> first_failed (trade_checks (fl_val (fraction_to_pct_points (rc_max_daily_drawdown_pct sample_config)))
        (fl_val (fraction_to_pct_points (rc_max_total_exposure_pct sample_config))) False ev) = None"
proof -
  have caps: "fl_isfinite (fraction_to_pct_points (rc_max_daily_drawdown_pct sample_config))"
    "fl_isfinite (fraction_to_pct_points (rc_max_total_exposure_pct sample_config))"
    by (simp_all add: fraction_to_pct_points_def sample_config_def fl_int_def fl_eval fl_of_scaled_def)
  from decision_follows_checks[OF sample_decision caps] sample_decision show ?thesis by auto
qed

end
