(* ===== verification/RiskState.thy ===== *)
theory RiskState
  imports TradeDecision
begin

text \<open>
  The state of the risk manager (\<open>services/risk/models.py\<close>) and its limit checks
  (\<open>services/risk/service.py\<close>): allocation, regime, position, exposure and drawdown limits, position
  sizing, and what a fill does to the positions. All amounts are binary floats, as in the code.
  Texts of reasons are reduced to their kind.
\<close>

subsection \<open>State\<close>

record risk_state =
  rk_total_exposure :: pyfloat
  rk_daily_pnl :: pyfloat
  rk_open_positions :: nat
  rk_signals_blocked :: nat
  rk_signals_approved :: nat
  rk_breaker :: bool
  rk_positions :: "(string \<times> pyfloat) list"
  rk_pending_orders :: nat
  rk_last_prices :: "(string \<times> pyfloat) list"
  rk_pending_exposure :: pyfloat
  rk_pending_reservations :: "(string \<times> pyfloat) list"
  rk_pending_qty :: "(string \<times> pyfloat) list"
  rk_qty_reservations :: "(string \<times> string \<times> pyfloat) list"

definition initial_risk_state :: risk_state where
  "initial_risk_state =
     \<lparr>rk_total_exposure = fl_zero, rk_daily_pnl = fl_zero, rk_open_positions = 0, rk_signals_blocked = 0,
      rk_signals_approved = 0, rk_breaker = False, rk_positions = [], rk_pending_orders = 0, rk_last_prices = [],
      rk_pending_exposure = fl_zero, rk_pending_reservations = [], rk_pending_qty = [], rk_qty_reservations = []\<rparr>"

definition float_at :: "(string \<times> pyfloat) list \<Rightarrow> string \<Rightarrow> pyfloat" where
  \<comment> \<open>\<open>d.get(k, 0.0)\<close>\<close>
  "float_at d k = (case dget d k of None \<Rightarrow> fl_zero | Some x \<Rightarrow> x)"

record allocation =
  al_pct :: pyfloat
  al_cooldown_until :: "int option"

record order_result =
  rr_order_id :: string
  rr_status :: string
  rr_symbol :: string
  rr_side :: string
  rr_filled :: pyfloat
  rr_strategy_id :: "string option"
  rr_bot_id :: "string option"
  rr_price :: "pyfloat option"
  rr_client_id :: "string option"
  rr_reduce_only :: bool

text \<open>
  What a call meets outside: the configuration, the clock, the toggles, the kill switch, Redis'
  market state, the exchange's balance at each place that asks for it, and generated identifiers.
\<close>

datatype balance_use = AtDrawdown | AtExposure | AtPosition | AtSizing | AtHardGate | AtProjected

record surroundings =
  su_config :: risk_config
  su_now :: int
  su_now_ms :: int
  su_probe :: bool
  su_trace_contract :: bool
  su_evidence_debt :: bool
  su_run_mode :: "string option"
  su_trading_mode :: "string option"
  su_kill :: "(bool \<times> string option \<times> string \<times> string option) option"
  su_fetcher :: bool
  su_balance :: "balance_use \<Rightarrow> py_exc + pyfloat"
  su_market_state :: "string \<Rightarrow> pyval"
  su_decision_id :: string
  su_trace_id :: string
  su_order_id :: string
  su_sha :: "string \<Rightarrow> string"
  su_uuid :: "string \<Rightarrow> string"
  su_decision_envelope_raises :: bool
  su_order_envelope_raises :: bool

subsection \<open>Numbers of a payload\<close>

definition num_le_zero :: "pyval \<Rightarrow> py_exc + bool" where
  \<comment> \<open>\<open>v <= 0\<close>\<close>
  "num_le_zero v = (case v of
     PFloat x \<Rightarrow> Inr (fl_le x fl_zero)
   | PInt i \<Rightarrow> Inr (i \<le> 0)
   | PBool b \<Rightarrow> Inr (\<not> b)
   | PDec d \<Rightarrow> dec_le_r d dec_zero
   | _ \<Rightarrow> Inl TypeError)"

definition num_float :: "pyval \<Rightarrow> py_exc + pyfloat" where
  \<comment> \<open>as the operand of a float operation\<close>
  "num_float v = (case v of
     PFloat x \<Rightarrow> Inr x
   | PInt i \<Rightarrow> fl_of_int i
   | PBool b \<Rightarrow> Inr (fl_int (if b then 1 else 0))
   | _ \<Rightarrow> Inl TypeError)"

definition py_float :: "pyval \<Rightarrow> py_exc + pyfloat" where
  \<comment> \<open>\<open>float(v)\<close>\<close>
  "py_float v = (case v of
     PStr s \<Rightarrow> fl_of_text (strip s)
   | PDec d \<Rightarrow> (case float_of_decimal d of FInf s \<Rightarrow> if is_finite d then Inl OtherError else Inr (FInf s) | x \<Rightarrow> Inr x)
   | _ \<Rightarrow> num_float v)"

definition contains :: "string \<Rightarrow> string \<Rightarrow> bool" where
  "contains pat s = list_ex (\<lambda>i. take (length pat) (drop i s) = pat) [0..<Suc (length s)]"

subsection \<open>Allocation and regime\<close>

definition allocation_of :: "(string \<times> allocation) list \<Rightarrow> string \<Rightarrow> allocation" where
  "allocation_of d strategy = (case dget d strategy of None \<Rightarrow> \<lparr>al_pct = fl_zero, al_cooldown_until = None\<rparr> | Some a \<Rightarrow> a)"

definition allocation_allowed :: "int \<Rightarrow> (string \<times> allocation) list \<Rightarrow> string \<Rightarrow> bool \<times> string" where
  "allocation_allowed now d strategy =
     (let state = allocation_of d strategy in
      if (case al_cooldown_until state of None \<Rightarrow> False | Some t \<Rightarrow> t \<noteq> 0 \<and> now < t) then (False, ''Cooldown aktiv'')
      else if fl_le (al_pct state) fl_zero then (False, ''Keine Allokation'')
      else (True, ''Allokation OK''))"

definition symbol_of :: "signal \<Rightarrow> string" where
  \<comment> \<open>a signal without a symbol does not get past the first decision\<close>
  "symbol_of sg = (case sg_symbol sg of None \<Rightarrow> [] | Some s \<Rightarrow> s)"

definition FLAT :: pyfloat where "FLAT = fl_round False 1 (10 ^ 9)"

definition is_reduce_only_allowed :: "risk_state \<Rightarrow> signal \<Rightarrow> bool" where
  "is_reduce_only_allowed rk sg =
     (let position = float_at (rk_positions rk) (symbol_of sg) in
      if fl_lt (fl_abs position) FLAT then False
      else if fl_lt fl_zero position \<and> sg_side sg = Some ''SELL'' then True
      else fl_lt position fl_zero \<and> sg_side sg = Some ''BUY'')"

definition is_early_live_exception :: "risk_config \<Rightarrow> bool \<Rightarrow> (string \<times> allocation) list \<Rightarrow> string \<Rightarrow> bool" where
  "is_early_live_exception cfg risk_off d strategy =
     (risk_off \<and> fl_lt fl_zero (al_pct (allocation_of d strategy))
      \<and> fl_le (al_pct (allocation_of d strategy)) (rc_early_live_max_alloc cfg))"

definition apply_regime_state :: "string option \<Rightarrow> string \<times> bool" where
  \<comment> \<open>the regime and whether risk is off\<close>
  "apply_regime_state regime =
     (let normalized = str_or (strip (str_or (case regime of None \<Rightarrow> [] | Some t \<Rightarrow> t) ''UNKNOWN'')) ''UNKNOWN''
      in (normalized, normalized \<in> {''HIGH_VOL_CHAOTIC'', ''UNKNOWN''}))"

definition fail_closed_unknown_regime :: "string \<times> bool" where
  "fail_closed_unknown_regime = (''UNKNOWN'', True)"

subsection \<open>Limits\<close>

definition current_balance :: "surroundings \<Rightarrow> balance_use \<Rightarrow> py_exc + pyfloat" where
  "current_balance su use =
     (if rc_use_real_balance (su_config su) \<and> su_fetcher su then su_balance su use
      else Inr (rc_test_balance (su_config su)))"

definition price_or_last :: "risk_state \<Rightarrow> signal \<Rightarrow> pyval" where
  "price_or_last rk sg = (if truthy (sg_price sg) then sg_price sg else PFloat (float_at (rk_last_prices rk) (symbol_of sg)))"

definition check_position_limit :: "surroundings \<Rightarrow> signal \<Rightarrow> risk_state \<Rightarrow> py_exc + (bool \<times> string)" where
  "check_position_limit su sg rk = (case current_balance su AtPosition of
     Inl e \<Rightarrow> Inr (False, ''Balance-Fehler'')
   | Inr balance \<Rightarrow>
      let max_notional = fl_mul balance (rc_max_position_pct (su_config su));
          current_qty = float_at (rk_positions rk) (symbol_of sg);
          price = price_or_last rk sg
      in ebind (num_le_zero price) (\<lambda>unknown.
           if unknown then Inr (False, ''POSITION_PRICE_UNKNOWN'')
           else ebind (num_float price) (\<lambda>p.
             if fl_le max_notional (fl_mul (fl_abs current_qty) p) then Inr (False, ''POSITION_LIMIT'')
             else Inr (True, ''Position OK''))))"

definition compute_projected_exposure :: "risk_state \<Rightarrow> pyfloat \<Rightarrow> pyfloat \<Rightarrow> pyfloat" where
  "compute_projected_exposure rk quantity price =
     fl_add (fl_add (rk_total_exposure rk) (rk_pending_exposure rk)) (fl_mul quantity price)"

definition signed_quantity :: "string \<Rightarrow> pyfloat \<Rightarrow> pyfloat" where
  "signed_quantity side quantity = (if upper side = ''BUY'' then quantity else fl_neg quantity)"

definition check_projected_position_limit ::
  "surroundings \<Rightarrow> string \<Rightarrow> string \<Rightarrow> pyfloat \<Rightarrow> pyfloat \<Rightarrow> risk_state \<Rightarrow> bool \<times> string" where
  "check_projected_position_limit su symbol side quantity price rk =
     (if fl_le price fl_zero then (False, ''POSITION_PRICE_UNKNOWN'')
      else if \<not> fl_isfinite quantity \<or> fl_le quantity fl_zero then (False, ''POSITION_QUANTITY_INVALID'')
      else case current_balance su AtProjected of
          Inl e \<Rightarrow> (False, ''Balance-Fehler'')
        | Inr balance \<Rightarrow>
          let max_notional = fl_mul balance (rc_max_position_pct (su_config su));
              projected_qty = fl_add (fl_add (float_at (rk_positions rk) symbol) (float_at (rk_pending_qty rk) symbol))
                (signed_quantity side quantity)
          in if fl_le max_notional (fl_mul (fl_abs projected_qty) price) then (False, ''PROJECTED_POSITION_LIMIT'')
             else (True, ''Projected position OK''))"

definition check_exposure_limit :: "surroundings \<Rightarrow> risk_state \<Rightarrow> bool \<times> string" where
  "check_exposure_limit su rk = (case current_balance su AtExposure of
     Inl e \<Rightarrow> (False, ''Balance-Fehler'')
   | Inr balance \<Rightarrow>
      if fl_le (fl_mul balance (rc_max_total_exposure_pct (su_config su))) (fl_add (rk_total_exposure rk) (rk_pending_exposure rk))
      then (False, ''Max Exposure erreicht'') else (True, ''Exposure OK''))"

definition check_drawdown_limit :: "surroundings \<Rightarrow> risk_state \<Rightarrow> (bool \<times> string) \<times> risk_state" where
  "check_drawdown_limit su rk = (case current_balance su AtDrawdown of
     Inl e \<Rightarrow> ((False, ''Balance-Fehler''), rk)
   | Inr balance \<Rightarrow>
      if fl_le (rk_daily_pnl rk) (fl_neg (fl_mul balance (rc_max_daily_drawdown_pct (su_config su))))
      then ((False, ''Circuit Breaker''), rk\<lparr>rk_breaker := True\<rparr>) else ((True, ''Drawdown OK''), rk))"

definition calculate_position_size :: "surroundings \<Rightarrow> signal \<Rightarrow> pyfloat \<Rightarrow> py_exc + (pyfloat \<times> string option)" where
  "calculate_position_size su sg allocation_pct = (case current_balance su AtSizing of
     Inl e \<Rightarrow> Inr (fl_zero, Some ''Balance-Fehler'')
   | Inr balance \<Rightarrow>
      let max_notional = fl_mul balance (rc_max_position_pct (su_config su));
          notional = fl_mul max_notional (fl_max allocation_pct fl_zero)
      in ebind (py_float (if truthy (sg_price sg) then sg_price sg else PFloat fl_zero)) (\<lambda>price.
           if fl_le price fl_zero then Inr (fl_zero, Some ''Invalid price'')
           else ebind (fl_div notional price) (\<lambda>qty.
             if \<not> rc_use_real_balance (su_config su) \<and> contains ''BTC'' (symbol_of sg) \<and> fl_lt (fl_int 1) qty
             then Inr (fl_zero, Some ''Sanity check failed'')
             else Inr (fl_max qty fl_zero, None))))"

subsection \<open>Fills\<close>

definition NEGLIGIBLE :: pyfloat where "NEGLIGIBLE = fl_round False 1 (10 ^ 6)"

definition exposure_of :: "(string \<times> pyfloat) list \<Rightarrow> (string \<times> pyfloat) list \<Rightarrow> pyfloat" where
  "exposure_of positions prices = fl_sum (map (\<lambda>(symbol, qty). fl_mul (fl_abs qty) (float_at prices symbol)) positions)"

definition update_exposure :: "order_result \<Rightarrow> risk_state \<Rightarrow> risk_state" where
  "update_exposure r rk =
     (let delta = (if rr_side r = ''BUY'' then rr_filled r else fl_neg (rr_filled r)) in
      if fl_eq delta fl_zero then rk
      else
        let new_position = fl_add (float_at (rk_positions rk) (rr_symbol r)) delta;
            closed = fl_lt (fl_abs new_position) NEGLIGIBLE;
            positions = (if closed then ddel (rr_symbol r) (rk_positions rk) else dset (rr_symbol r) new_position (rk_positions rk));
            prices = (if closed then ddel (rr_symbol r) (rk_last_prices rk) else rk_last_prices rk);
            prices' = (case rr_price r of None \<Rightarrow> prices | Some p \<Rightarrow> dset (rr_symbol r) p prices)
        in rk\<lparr>rk_positions := positions, rk_last_prices := prices',
              rk_total_exposure := exposure_of positions prices',
              rk_open_positions := length (filter (\<lambda>(s, q). fl_lt NEGLIGIBLE (fl_abs q)) positions)\<rparr>)"

end
