(* ===== verification/RiskContract.thy ===== *)
theory RiskContract
  imports RiskState DecisionBundle
begin

text \<open>
  The decision contract as the risk manager uses it (\<open>services/risk/service.py\<close>): the input built
  from the order and the risk state, the evaluation and verification of the bundle, the comparison
  of the bundle with the order, and the audit file.
\<close>

record risk_order =
  ro_symbol :: string
  ro_side :: "string option"
  ro_quantity :: pyfloat
  ro_stop_loss_pct :: pyfloat
  ro_signal_id :: pyval
  ro_reason :: "string option"
  ro_timestamp :: int
  ro_strategy_id :: "string option"
  ro_bot_id :: "string option"
  ro_client_id :: "string option"
  ro_price :: pyval
  ro_order_id :: "string option"
  ro_decision_id :: "string option"
  ro_trace_id :: "string option"
  ro_input_hash :: "string option"
  ro_output_hash :: "string option"
  ro_contract :: "json option"
  ro_reduce_only :: bool

subsection \<open>Time stamps and run mode\<close>

definition ms_of_int :: "int \<Rightarrow> int" where
  "ms_of_int i = (if i < 10000000000 then i * 1000 else i)"

definition to_ms_timestamp :: "pyval \<Rightarrow> py_exc + int" where
  "to_ms_timestamp v = (case v of
     PInt i \<Rightarrow> Inr (if i \<le> 0 then 0 else ms_of_int i)
   | PFloat x \<Rightarrow> if fl_le x fl_zero then Inr 0 else ebind (fl_trunc x) (\<lambda>i. Inr (ms_of_int i))
   | PStr s \<Rightarrow>
      if strip s = [] then Inr 0
      else (case fl_of_text (strip s) of
          Inl e \<Rightarrow> Inr 0
        | Inr x \<Rightarrow> if fl_le x fl_zero then Inr 0 else ebind (fl_trunc x) (\<lambda>i. Inr (ms_of_int i)))
   | _ \<Rightarrow> Inr 0)"

definition run_mode_of :: "string \<Rightarrow> string option" where
  \<comment> \<open>a candidate's mode, if it is one\<close>
  "run_mode_of candidate =
     (let mode = lower (strip candidate);
          mode' = (if mode = ''staged'' then ''shadow'' else mode)
      in if mode' \<in> {''shadow'', ''paper'', ''replay'', ''live''} then Some mode' else None)"

definition resolve_contract_run_mode :: "surroundings \<Rightarrow> string option \<Rightarrow> pyval \<Rightarrow> string" where
  "resolve_contract_run_mode su strategy_id payload =
     (let candidates = (case payload of PMap d \<Rightarrow> if truthy (map_get d ''run_mode'') then [py_str (map_get d ''run_mode'')] else [] | _ \<Rightarrow> [])
            @ filter (\<lambda>t. t \<noteq> []) (map the (filter (\<lambda>t. t \<noteq> None) [su_run_mode su, su_trading_mode su]))
      in case first_some run_mode_of candidates of
          Some mode \<Rightarrow> mode
        | None \<Rightarrow>
          let strategy_mode = lower (strip (case strategy_id of None \<Rightarrow> [] | Some t \<Rightarrow> t)) in
          if strategy_mode \<in> {''shadow'', ''paper'', ''replay'', ''live''} then strategy_mode else ''paper'')"

subsection \<open>The contract's input\<close>

definition opt_text :: "string option \<Rightarrow> string" where
  "opt_text t = (case t of None \<Rightarrow> [] | Some s \<Rightarrow> s)"

definition opt_value :: "string option \<Rightarrow> pyval" where
  "opt_value t = (case t of None \<Rightarrow> PNone | Some s \<Rightarrow> PStr s)"

definition snapshot_balance :: "surroundings \<Rightarrow> pyval \<Rightarrow> py_exc + pyfloat" where
  "snapshot_balance su snapshot =
     ebind (parse_number (get_value snapshot ''balance_usdt'')) (\<lambda>b.
       Inr (case b of None \<Rightarrow> rc_test_balance (su_config su) | Some x \<Rightarrow> x))"

definition contract_drawdown :: "pyval \<Rightarrow> pyfloat \<Rightarrow> risk_state \<Rightarrow> py_exc + pyfloat" where
  "contract_drawdown snapshot balance rk =
     ebind (parse_number (get_value snapshot ''daily_drawdown_pct'')) (\<lambda>d. case d of
       Some x \<Rightarrow> Inr x
     | None \<Rightarrow> ebind (fl_div (fl_neg (rk_daily_pnl rk)) balance) (\<lambda>q. Inr (fl_max fl_zero (fl_mul q (fl_int 100)))))"

definition contract_timestamp :: "pyval \<Rightarrow> risk_order \<Rightarrow> py_exc + int" where
  "contract_timestamp snapshot od =
     ebind (to_ms_timestamp (PInt (ro_timestamp od))) (\<lambda>t.
       if t \<le> 0 then
         to_ms_timestamp (if truthy (get_value snapshot ''ts_ms'') then get_value snapshot ''ts_ms'' else get_value snapshot ''timestamp_ms'')
       else Inr t)"

text \<open>\<open>snapshot\<close> is the payload's account state, or nothing; numbers become the text of a float.\<close>

definition float_text :: "pyfloat \<Rightarrow> pyval" where
  "float_text x = PStr (float_str x)"

definition contract_input_value ::
  "surroundings \<Rightarrow> string \<Rightarrow> risk_order \<Rightarrow> string \<Rightarrow> risk_state \<Rightarrow> pyfloat \<Rightarrow> pyfloat \<Rightarrow> pyfloat \<Rightarrow> int \<Rightarrow> pyval" where
  "contract_input_value su mode od source rk balance drawdown price ts =
     (let cfg = su_config su in PMap
       [(''run_mode'', PStr mode),
        (''order'', PMap [(''symbol'', PStr (ro_symbol od)), (''side'', opt_value (ro_side od)),
          (''quantity'', float_text (ro_quantity od)), (''price_ref'', float_text price),
          (''timestamp_input_ms'', PInt ts), (''reduce_only'', PBool (ro_reduce_only od))]),
        (''account_state'', PMap [(''balance_usdt'', float_text balance),
          (''total_exposure_usdt'', float_text (fl_add (rk_total_exposure rk) (rk_pending_exposure rk))),
          (''daily_drawdown_pct'', float_text drawdown)]),
        (''open_positions'', PMap (map (\<lambda>(s, q). (s, float_text q)) (sort_key fst (rk_positions rk)))),
        (''risk_policy'', PMap [(''max_notional_usdt'', float_text (fl_mul balance (rc_max_position_pct cfg))),
          (''max_total_exposure_usdt'', float_text (fl_mul balance (rc_max_total_exposure_pct cfg))),
          (''max_daily_drawdown_pct'', float_text (fl_mul (rc_max_daily_drawdown_pct cfg) (fl_int 100)))]),
        (''system_config'', PMap [(''paper_auto_unwind'', PBool (rc_paper_auto_unwind cfg)),
          (''use_real_balance'', PBool (rc_use_real_balance cfg)), (''service'', PStr ''risk_manager'')]),
        (''context'', PMap [(''source'', PStr source),
          (''signal_id'', if truthy (ro_signal_id od) then ro_signal_id od else PStr []),
          (''strategy_id'', PStr (opt_text (ro_strategy_id od))), (''bot_id'', PStr (opt_text (ro_bot_id od)))])])"

definition build_decision_contract_input ::
  "surroundings \<Rightarrow> risk_order \<Rightarrow> string \<Rightarrow> pyval \<Rightarrow> pyval \<Rightarrow> risk_state \<Rightarrow> py_exc + pyval" where
  "build_decision_contract_input su od source snapshot payload rk =
     ebind (snapshot_balance su snapshot) (\<lambda>balance.
     if fl_le balance fl_zero then Inl dc_error
     else ebind (contract_drawdown snapshot balance rk) (\<lambda>drawdown.
       ebind (py_float (if truthy (ro_price od) then ro_price od else PFloat (float_at (rk_last_prices rk) (ro_symbol od)))) (\<lambda>price.
       if fl_le price fl_zero then Inl dc_error
       else ebind (contract_timestamp snapshot od) (\<lambda>ts.
         Inr (contract_input_value su (resolve_contract_run_mode su (ro_strategy_id od) payload) od source rk balance drawdown price ts)))))"

subsection \<open>The gate\<close>

definition quantity_of_text :: "string \<Rightarrow> py_exc + decimal" where
  "quantity_of_text t = (case ebind (dec_of_string t) (dec_quantize ROUND_HALF_EVEN QTY_EXP) of
     Inl e \<Rightarrow> Inl dc_error | Inr d \<Rightarrow> Inr d)"

text \<open>The bundle's identity fields against the order's; a bundle that was verified has them.\<close>

definition bundle_matches_order :: "json \<Rightarrow> risk_order \<Rightarrow> py_exc + unit" where
  "bundle_matches_order b od =
     (let bo = get_value (get_value (of_json b) ''input'') ''order'' in
      if get_value bo ''symbol'' \<noteq> PStr (ro_symbol od) then Inl dc_error
      else if get_value bo ''side'' \<noteq> opt_value (ro_side od) then Inl dc_error
      else ebind (quantity_of_text (py_str (case bo of PMap d \<Rightarrow> map_get_or d ''quantity'' (PStr []) | _ \<Rightarrow> PStr []))) (\<lambda>bq.
           ebind (quantity_of_text (float_str (ro_quantity od))) (\<lambda>q.
             if \<not> dec_eq bq q then Inl dc_error else Inr ())))"

record audit_log =
  au_files :: "(string \<times> string) list"
  au_faults :: "bool list"

definition write_audit :: "(string \<Rightarrow> string) \<Rightarrow> json \<Rightarrow> audit_log \<Rightarrow> py_exc option \<times> audit_log" where
  \<comment> \<open>\<open>write_decision_contract_audit_record\<close>; a fault is one of creating or writing the file\<close>
  "write_audit sha b au = (case audit_file sha b of
     Inl e \<Rightarrow> (Some e, au)
   | Inr f \<Rightarrow> (case au_faults au of
       True # fs \<Rightarrow> (Some OSError, au\<lparr>au_faults := fs\<rparr>)
     | fs \<Rightarrow> (None, au\<lparr>au_files := au_files au @ [f], au_faults := tl fs\<rparr>)))"

definition json_text :: "json \<Rightarrow> string list \<Rightarrow> string" where
  \<comment> \<open>the text at a path of member names\<close>
  "json_text j path = (case foldl (\<lambda>v k. get_value v k) (of_json j) path of PStr s \<Rightarrow> s | _ \<Rightarrow> [])"

definition stamp_order :: "json \<Rightarrow> risk_order \<Rightarrow> risk_order" where
  "stamp_order b od =
     (let input_hash = json_text b [''output'', ''evidence'', ''input_hash''];
          decision_hash = json_text b [''output'', ''evidence'', ''decision_hash'']
      in od\<lparr>ro_contract := Some b,
            ro_decision_id := (if opt_truthy (ro_decision_id od) then ro_decision_id od else Some (''dcv1-'' @ take 16 decision_hash)),
            ro_input_hash := Some input_hash, ro_output_hash := Some decision_hash\<rparr>)"

definition ensure_decision_contract ::
  "surroundings \<Rightarrow> risk_order \<Rightarrow> string \<Rightarrow> pyval \<Rightarrow> pyval \<Rightarrow> risk_state \<Rightarrow> audit_log \<Rightarrow> (py_exc + risk_order) \<times> audit_log" where
  "ensure_decision_contract su od source snapshot payload rk au =
     (case (case ro_contract od of
              Some b \<Rightarrow> Inr b
            | None \<Rightarrow> ebind (build_decision_contract_input su od source snapshot payload rk) (build_bundle (su_sha su))) of
        Inl e \<Rightarrow> (Inl e, au)
      | Inr b \<Rightarrow>
         if \<not> fst (verify_bundle (su_sha su) (of_json b) True) then (Inl dc_error, au)
         else case bundle_matches_order b od of
             Inl e \<Rightarrow> (Inl e, au)
           | Inr u \<Rightarrow> (case write_audit (su_sha su) b au of
               (Some e, au') \<Rightarrow> (Inl e, au')
             | (None, au') \<Rightarrow> (Inr (stamp_order b od), au')))"

end
