(* ===== verification/RiskManager.thy ===== *)
theory RiskManager
  imports RiskContract StopLossProtection ReduceOnlyLedger
begin

text \<open>
  The risk manager (\<open>services/risk/service.py\<close>): what happens to a signal until an order is
  released and published, what an execution result does to the state, the automatic unwinding, and
  the events of the regime, allocation and shutdown streams. A handler runs to its end before the
  next one starts. A call of Redis or of the audit directory may raise; the coming faults are part
  of the state. Left out: log lines, the trace and envelope records (except that they can raise),
  metadata of orders and alerts.
\<close>

record statistics =
  st_blocked :: nat
  st_approved :: nat
  st_skipped :: nat
  st_alerts :: nat
  st_reduce_only_approved :: nat
  st_proactive_unwinds :: nat
  st_claims_blocked :: nat
  st_results :: nat
  st_rejected_execution :: nat

record manager =
  mg_risk :: risk_state
  mg_stats :: statistics
  mg_allocations :: "(string \<times> allocation) list"
  mg_regime :: string
  mg_risk_off :: bool
  mg_shutdown_strategies :: "string list"
  mg_shutdown_bots :: "string list"
  mg_breaker_emitted :: bool
  mg_redis_faults :: "bool list"
  mg_orders_channel :: "risk_order list"
  mg_orders_stream :: "risk_order list"
  mg_alerts_channel :: "(string \<times> string) list"
  mg_shutdown_stream :: "string list"
  mg_audit :: audit_log
  mg_ledger :: "ledger_db option"

subsection \<open>Redis\<close>

definition redis_call :: "(manager \<Rightarrow> manager) \<Rightarrow> manager \<Rightarrow> bool \<times> manager" where
  \<comment> \<open>whether the call succeeded; a failing one has no effect\<close>
  "redis_call f m = (case mg_redis_faults m of
     True # fs \<Rightarrow> (False, m\<lparr>mg_redis_faults := fs\<rparr>)
   | fs \<Rightarrow> (True, f (m\<lparr>mg_redis_faults := tl fs\<rparr>)))"

definition count_alert :: "manager \<Rightarrow> manager" where
  "count_alert m = m\<lparr>mg_stats := (mg_stats m)\<lparr>st_alerts := st_alerts (mg_stats m) + 1\<rparr>\<rparr>"

definition send_alert :: "string \<Rightarrow> string \<Rightarrow> manager \<Rightarrow> manager" where
  "send_alert level code m =
     (case redis_call (\<lambda>m. m\<lparr>mg_alerts_channel := mg_alerts_channel m @ [(level, code)]\<rparr>) m of
        (ok, m') \<Rightarrow> if ok then count_alert m' else m')"

definition emit_bot_shutdown :: "string \<Rightarrow> manager \<Rightarrow> py_exc option \<times> manager" where
  "emit_bot_shutdown reason m =
     (case redis_call (\<lambda>m. m\<lparr>mg_shutdown_stream := mg_shutdown_stream m @ [reason]\<rparr>) m of
        (ok, m') \<Rightarrow> (if ok then None else Some OtherError, m'))"

definition count_blocked :: "manager \<Rightarrow> manager" where
  "count_blocked m = m\<lparr>mg_stats := (mg_stats m)\<lparr>st_blocked := st_blocked (mg_stats m) + 1\<rparr>,
     mg_risk := (mg_risk m)\<lparr>rk_signals_blocked := rk_signals_blocked (mg_risk m) + 1\<rparr>\<rparr>"

definition count_skipped :: "manager \<Rightarrow> manager" where
  "count_skipped m = m\<lparr>mg_stats := (mg_stats m)\<lparr>st_skipped := st_skipped (mg_stats m) + 1\<rparr>\<rparr>"

definition drop_pending :: "manager \<Rightarrow> manager" where
  \<comment> \<open>\<open>if pending_orders > 0: pending_orders -= 1\<close>\<close>
  "drop_pending m = m\<lparr>mg_risk := (mg_risk m)\<lparr>rk_pending_orders := rk_pending_orders (mg_risk m) - 1\<rparr>\<rparr>"

subsection \<open>Publishing an order\<close>

definition run_contract_gate ::
  "surroundings \<Rightarrow> risk_order \<Rightarrow> string \<Rightarrow> pyval \<Rightarrow> pyval \<Rightarrow> manager \<Rightarrow> (py_exc + risk_order) \<times> manager" where
  "run_contract_gate su od source snapshot payload m =
     (case ensure_decision_contract su od source snapshot payload (mg_risk m) (mg_audit m) of
        (r, au) \<Rightarrow> (r, m\<lparr>mg_audit := au\<rparr>))"

text \<open>The result is whether an exception escapes. A failed publication is only counted off.\<close>

definition send_order :: "surroundings \<Rightarrow> risk_order \<Rightarrow> manager \<Rightarrow> py_exc option \<times> manager" where
  "send_order su od m = (case run_contract_gate su od ''risk.send_order'' PNone PNone m of
     (Inl e, m') \<Rightarrow>
       if e = dc_error then
         (None, drop_pending (m'\<lparr>mg_stats := (mg_stats m')\<lparr>st_blocked := st_blocked (mg_stats m') + 1\<rparr>\<rparr>))
       else (Some e, m')
   | (Inr od', m') \<Rightarrow>
       (case redis_call (\<lambda>m. m\<lparr>mg_orders_channel := mg_orders_channel m @ [od']\<rparr>) m' of
          (False, m2) \<Rightarrow> (None, drop_pending m2)
        | (True, m2) \<Rightarrow> (case redis_call (\<lambda>m. m\<lparr>mg_orders_stream := mg_orders_stream m @ [od']\<rparr>) m2 of
            (False, m3) \<Rightarrow> (None, drop_pending m3)
          | (True, m3) \<Rightarrow> (None, m3))))"

subsection \<open>Unwinding\<close>

datatype unwind_claim = DispatchAllowed string int | ClaimRefused string

definition claim_outcome :: "annotated \<Rightarrow> unwind_claim" where
  "claim_outcome a =
     (let p = an_payload a; retry = an_retry_decision a in
      if pl_allowed p then DispatchAllowed (pl_order_id p) (an_attempt_number a)
      else if pl_duplicate p \<or> take 8 retry = ''BLOCKED_'' then
        ClaimRefused (if retry \<in> {''BLOCKED_NON_RETRYABLE'', ''BLOCKED_MAX_ATTEMPTS''} then ''BLOCKED'' else ''CLAIM_ALREADY_EXISTS'')
      else if pl_reason p = ''REDUCE_ONLY_POSITION_UNKNOWN'' then ClaimRefused ''POSITION_UNKNOWN''
      else if pl_reason p \<in> {''REDUCE_ONLY_NO_POSITION'', ''REDUCE_ONLY_CONCURRENT_CLAIM_BLOCKED'',
          ''REDUCE_ONLY_SIDE_MISMATCH'', ''REDUCE_ONLY_INVALID_QUANTITY''} then ClaimRefused ''CLAIM_NOT_ACQUIRED''
      else ClaimRefused ''BLOCKED'')"

definition acquire_paper_unwind_claim ::
  "surroundings \<Rightarrow> string \<Rightarrow> string \<Rightarrow> string \<Rightarrow> pyfloat \<Rightarrow> manager \<Rightarrow> unwind_claim \<times> manager" where
  "acquire_paper_unwind_claim su key symbol side quantity m =
     (if key = [] then (ClaimRefused ''CLAIM_NOT_ACQUIRED'', m)
      else case mg_ledger m of
        None \<Rightarrow> (ClaimRefused ''PERSISTENCE_UNAVAILABLE'', m)
      | Some db \<Rightarrow>
        (case db_prepare_reduce_only_attempt (su_uuid su) key symbol side (DecArg (float_decimal quantity)) False False 32 db of
           Inl e \<Rightarrow> (ClaimRefused ''PERSISTENCE_UNAVAILABLE'', m)
         | Inr (a, db') \<Rightarrow> (claim_outcome a, m\<lparr>mg_ledger := Some db'\<rparr>)))"

definition count_claim_blocked :: "manager \<Rightarrow> manager" where
  "count_claim_blocked m = m\<lparr>mg_stats := (mg_stats m)\<lparr>st_claims_blocked := st_claims_blocked (mg_stats m) + 1\<rparr>\<rparr>"

text \<open>Claim, then dispatch: whether \<open>send_order\<close> ran, or the exception that escaped it.\<close>

definition dispatch_paper_unwind_order ::
  "surroundings \<Rightarrow> string \<Rightarrow> risk_order \<Rightarrow> manager \<Rightarrow> (py_exc + bool) \<times> manager" where
  "dispatch_paper_unwind_order su key od m =
     (case acquire_paper_unwind_claim su key (ro_symbol od) (opt_text (ro_side od)) (ro_quantity od) m of
        (ClaimRefused outcome, m') \<Rightarrow> (Inr False, count_claim_blocked m')
      | (DispatchAllowed order_id attempt, m') \<Rightarrow>
          if order_id = [] then (Inr False, count_claim_blocked m')
          else (case send_order su (od\<lparr>ro_order_id := Some order_id,
                    ro_decision_id := Some (su_uuid su (key @ '':decision:attempt:'' @ int_str attempt))\<rparr>) m' of
              (Some e, m2) \<Rightarrow> (Inl e, m2)
            | (None, m2) \<Rightarrow> (Inr True, m2)))"

definition unwind_order ::
  "surroundings \<Rightarrow> string \<Rightarrow> string \<Rightarrow> pyfloat \<Rightarrow> string \<Rightarrow> string \<Rightarrow> string option \<Rightarrow> string option \<Rightarrow> pyval \<Rightarrow> risk_order" where
  "unwind_order su symbol side quantity reason client_id strategy botid price =
     \<lparr>ro_symbol = symbol, ro_side = Some side, ro_quantity = quantity,
      ro_stop_loss_pct = rc_stop_loss_pct (su_config su), ro_signal_id = PInt (su_now su), ro_reason = Some reason,
      ro_timestamp = su_now su, ro_strategy_id = strategy, ro_bot_id = botid, ro_client_id = Some client_id,
      ro_price = price, ro_order_id = None, ro_decision_id = None, ro_trace_id = None, ro_input_hash = None,
      ro_output_hash = None, ro_contract = None, ro_reduce_only = True\<rparr>"

definition order_dispatched :: "manager \<Rightarrow> manager" where
  "order_dispatched m = m\<lparr>mg_stats := (mg_stats m)\<lparr>st_approved := st_approved (mg_stats m) + 1\<rparr>,
     mg_risk := (mg_risk m)\<lparr>rk_pending_orders := rk_pending_orders (mg_risk m) + 1\<rparr>\<rparr>"

definition DUST :: pyfloat where "DUST = fl_round False 1 (10 ^ 12)"

text \<open>The first position with a quantity and a known price; only one is unwound.\<close>

definition unwindable :: "risk_state \<Rightarrow> string \<times> pyfloat \<Rightarrow> bool" where
  "unwindable rk p = (case p of (symbol, qty) \<Rightarrow>
     \<not> fl_le (fl_abs qty) DUST \<and> \<not> fl_le (float_at (rk_last_prices rk) symbol) fl_zero)"

definition proactive_key :: "string \<Rightarrow> pyfloat \<Rightarrow> string" where
  "proactive_key symbol qty = ''proactive-unwind:'' @ symbol @ '':'' @ fl_format 8 qty"

definition trigger_proactive_unwind :: "surroundings \<Rightarrow> manager \<Rightarrow> py_exc option \<times> manager" where
  "trigger_proactive_unwind su m =
     (if resolve_contract_run_mode su None PNone = ''shadow'' then (None, m)
      else if \<not> rc_paper_auto_unwind (su_config su) then (None, m)
      else case filter (unwindable (mg_risk m)) (rk_positions (mg_risk m)) of
          [] \<Rightarrow> (None, m)
        | (symbol, qty) # _ \<Rightarrow>
          let key = proactive_key symbol qty;
              od = unwind_order su symbol (if fl_lt fl_zero qty then ''SELL'' else ''BUY'') (fl_abs qty)
                ''proactive_unwind:over_limit'' (''proactive-unwind-'' @ symbol @ ''-'' @ key) (Some ''paper'') None
                (PFloat (float_at (rk_last_prices (mg_risk m)) symbol))
          in (case dispatch_paper_unwind_order su key od m of
              (Inl e, m') \<Rightarrow> (Some e, m')
            | (Inr False, m') \<Rightarrow> (None, m')
            | (Inr True, m') \<Rightarrow>
                (None, order_dispatched (m'\<lparr>mg_stats := (mg_stats m')\<lparr>st_proactive_unwinds := st_proactive_unwinds (mg_stats m') + 1\<rparr>\<rparr>))))"

definition maybe_auto_unwind :: "surroundings \<Rightarrow> order_result \<Rightarrow> manager \<Rightarrow> py_exc option \<times> manager" where
  "maybe_auto_unwind su r m =
     (if resolve_contract_run_mode su None PNone = ''shadow'' \<or> \<not> rc_paper_auto_unwind (su_config su)
         \<or> rr_reduce_only r \<or> rr_status r \<noteq> ''FILLED'' \<or> rr_side r \<noteq> ''BUY'' \<or> rr_strategy_id r \<noteq> Some ''paper''
         \<or> fl_le (rr_filled r) fl_zero
      then (None, m)
      else case dispatch_paper_unwind_order su (''paper-auto-unwind:'' @ rr_order_id r)
             (unwind_order su (rr_symbol r) ''SELL'' (rr_filled r) (''paper_auto_unwind:'' @ rr_order_id r)
               (''paper-unwind-'' @ rr_order_id r) (rr_strategy_id r) (rr_bot_id r)
               (case rr_price r of None \<Rightarrow> PNone | Some p \<Rightarrow> PFloat p)) m of
          (Inl e, m') \<Rightarrow> (Some e, m')
        | (Inr False, m') \<Rightarrow> (None, m')
        | (Inr True, m') \<Rightarrow> (None, order_dispatched m'))"

subsection \<open>A signal\<close>

definition requires_protection :: "pyval \<Rightarrow> bool" where
  "requires_protection payload = (get_value (get_value payload ''metadata'') ''requires_stop_loss_protection'' = PBool True)"

definition blocked :: "manager \<Rightarrow> (py_exc + risk_order option) \<times> manager" where
  "blocked m = (Inr None, count_blocked m)"

definition market_state_of :: "surroundings \<Rightarrow> signal \<Rightarrow> pyval \<Rightarrow> pyval" where
  "market_state_of su sg payload =
     (if get_value payload ''market_state'' = PNone \<and> symbol_of sg \<noteq> [] then su_market_state su (symbol_of sg)
      else get_value payload ''market_state'')"

text \<open>The trace records need both identifiers, unless evidence debt is allowed.\<close>

definition trace_raises :: "surroundings \<Rightarrow> signal \<Rightarrow> bool" where
  "trace_raises su sg \<longleftrightarrow> su_trace_contract su \<and> \<not> opt_truthy (sg_signal_id sg) \<and> \<not> su_evidence_debt su"

definition shut_down :: "signal \<Rightarrow> string \<Rightarrow> manager \<Rightarrow> bool" where
  "shut_down sg strategy m \<longleftrightarrow> strategy \<in> set (mg_shutdown_strategies m)
     \<or> (opt_truthy (sg_bot_id sg) \<and> opt_text (sg_bot_id sg) \<in> set (mg_shutdown_bots m))"

text \<open>The artefact of a blocked decision goes to Redis when the trace contract is on.\<close>

definition blocked_artefact :: "surroundings \<Rightarrow> manager \<Rightarrow> manager" where
  "blocked_artefact su m = (if su_trace_contract su then snd (redis_call id m) else m)"

definition after_unwind :: "py_exc option \<times> manager \<Rightarrow> (py_exc + risk_order option) \<times> manager" where
  "after_unwind r = (case r of (Some e, m) \<Rightarrow> (Inl e, m) | (None, m) \<Rightarrow> (Inr None, m))"

definition new_order :: "surroundings \<Rightarrow> signal \<Rightarrow> string \<Rightarrow> evidence \<Rightarrow> pyfloat \<Rightarrow> pyval \<Rightarrow> bool \<Rightarrow> manager \<Rightarrow> risk_order" where
  "new_order su sg strategy ev quantity price reduce_only m =
     \<lparr>ro_symbol = symbol_of sg, ro_side = sg_side sg, ro_quantity = quantity,
      ro_stop_loss_pct = rc_stop_loss_pct (su_config su), ro_signal_id = PStr (opt_text (sg_signal_id sg)),
      ro_reason = (if is_early_live_exception (su_config su) (mg_risk_off m) (mg_allocations m) strategy
                   then Some (if opt_truthy (sg_reason sg) then opt_text (sg_reason sg) @ ''|risk_off_limited'' else ''risk_off_limited'')
                   else sg_reason sg),
      ro_timestamp = su_now su, ro_strategy_id = Some strategy, ro_bot_id = sg_bot_id sg,
      ro_client_id = Some (symbol_of sg @ ''-'' @ py_str (sg_timestamp sg)), ro_price = price,
      ro_order_id = Some (su_order_id su), ro_decision_id = Some (ev_decision_id ev),
      ro_trace_id = Some (ev_trace_id ev), ro_input_hash = None, ro_output_hash = None, ro_contract = None,
      ro_reduce_only = reduce_only\<rparr>"

text \<open>The reservations made for a released order.\<close>

definition reserve :: "risk_order \<Rightarrow> pyfloat \<Rightarrow> risk_state \<Rightarrow> risk_state" where
  "reserve od price rk =
     (let notional = fl_mul (ro_quantity od) price;
          amount = signed_quantity (opt_text (ro_side od)) (ro_quantity od);
          client = opt_text (ro_client_id od)
      in rk\<lparr>rk_signals_approved := rk_signals_approved rk + 1, rk_pending_orders := rk_pending_orders rk + 1,
            rk_pending_exposure := fl_add (rk_pending_exposure rk) notional,
            rk_pending_reservations := dset client notional (rk_pending_reservations rk),
            rk_pending_qty := dset (ro_symbol od) (fl_add (float_at (rk_pending_qty rk) (ro_symbol od)) amount) (rk_pending_qty rk),
            rk_qty_reservations := dset client (ro_symbol od, amount) (rk_qty_reservations rk)\<rparr>)"

definition release_order :: "surroundings \<Rightarrow> risk_order \<Rightarrow> pyfloat \<Rightarrow> manager \<Rightarrow> (py_exc + risk_order option) \<times> manager" where
  "release_order su od price m =
     (let m' = m\<lparr>mg_stats := (mg_stats m)\<lparr>st_approved := st_approved (mg_stats m) + 1\<rparr>, mg_risk := reserve od price (mg_risk m)\<rparr>
      in if su_order_envelope_raises su then (Inl (RuntimeError ''envelope''), m') else (Inr (Some od), m'))"

text \<open>The contract gate, then the release.\<close>

definition contract_step ::
  "surroundings \<Rightarrow> pyval \<Rightarrow> risk_order \<Rightarrow> pyfloat \<Rightarrow> manager \<Rightarrow> (py_exc + risk_order option) \<times> manager" where
  "contract_step su payload od price m =
     (case run_contract_gate su od ''risk.process_signal'' (get_value payload ''account_state'') payload m of
        (Inl e, m') \<Rightarrow> if e = dc_error then blocked m' else (Inl e, m')
      | (Inr od', m') \<Rightarrow> release_order su od' price m')"

text \<open>The gates on the final quantity and price of an order that is not reduce-only.\<close>

definition hard_gates ::
  "surroundings \<Rightarrow> pyval \<Rightarrow> risk_order \<Rightarrow> pyfloat \<Rightarrow> manager \<Rightarrow> (py_exc + risk_order option) \<times> manager" where
  "hard_gates su payload od price m =
     (case (if rc_use_real_balance (su_config su) then su_balance su AtHardGate else Inr (rc_test_balance (su_config su))) of
        Inl e \<Rightarrow> (Inl e, m)
      | Inr balance \<Rightarrow>
         if fl_le (fl_mul balance (rc_max_total_exposure_pct (su_config su)))
              (compute_projected_exposure (mg_risk m) (ro_quantity od) price)
         then after_unwind (trigger_proactive_unwind su (count_blocked (send_alert ''WARNING'' ''EXPOSURE_LIMIT_PROJECTED'' m)))
         else if \<not> fst (check_projected_position_limit su (ro_symbol od) (opt_text (ro_side od)) (ro_quantity od) price (mg_risk m))
         then blocked (send_alert ''WARNING'' ''PROJECTED_POSITION_LIMIT'' m)
         else contract_step su payload od price m)"

definition size_and_build ::
  "surroundings \<Rightarrow> signal \<Rightarrow> pyval \<Rightarrow> string \<Rightarrow> evidence \<Rightarrow> bool \<Rightarrow> manager \<Rightarrow> (py_exc + risk_order option) \<times> manager" where
  "size_and_build su sg payload strategy ev reduce_only m =
     (case calculate_position_size su sg (al_pct (allocation_of (mg_allocations m) strategy)) of
        Inl e \<Rightarrow> (Inl e, m)
      | Inr (quantity, skip) \<Rightarrow>
         if fl_le quantity fl_zero \<or> skip \<noteq> None then (Inr None, count_skipped m)
         else
           let quantity' = (if reduce_only then fl_min quantity (fl_abs (float_at (rk_positions (mg_risk m)) (symbol_of sg))) else quantity);
               price = price_or_last (mg_risk m) sg
           in if reduce_only \<and> fl_le quantity' fl_zero then (Inr None, count_skipped m)
              else (case ebind (num_le_zero price) (\<lambda>bad. ebind (num_float price) (\<lambda>p. Inr (bad, p))) of
                  Inl e \<Rightarrow> (Inl e, m)
                | Inr (bad, p) \<Rightarrow>
                   if bad then (Inr None, count_skipped m)
                   else let od = new_order su sg strategy ev quantity' price reduce_only m in
                     if reduce_only then contract_step su payload od p m else hard_gates su payload od p m))"

text \<open>Layer 3, then layer 2, then layer 1: drawdown, exposure, position.\<close>

definition position_layer ::
  "surroundings \<Rightarrow> signal \<Rightarrow> pyval \<Rightarrow> string \<Rightarrow> evidence \<Rightarrow> bool \<Rightarrow> manager \<Rightarrow> (py_exc + risk_order option) \<times> manager" where
  "position_layer su sg payload strategy ev reduce_only m =
     (case check_position_limit su sg (mg_risk m) of
        Inl e \<Rightarrow> (Inl e, m)
      | Inr (ok, why) \<Rightarrow>
         if \<not> ok then blocked (send_alert ''WARNING'' ''RISK_LIMIT'' m)
         else size_and_build su sg payload strategy ev reduce_only m)"

definition exposure_layer ::
  "surroundings \<Rightarrow> signal \<Rightarrow> pyval \<Rightarrow> string \<Rightarrow> evidence \<Rightarrow> manager \<Rightarrow> (py_exc + risk_order option) \<times> manager" where
  "exposure_layer su sg payload strategy ev m =
     (let reduce_only = is_reduce_only_allowed (mg_risk m) sg in
      if \<not> reduce_only \<and> \<not> fst (check_exposure_limit su (mg_risk m)) then
        after_unwind (trigger_proactive_unwind su (count_blocked (send_alert ''WARNING'' ''RISK_LIMIT'' m)))
      else position_layer su sg payload strategy ev reduce_only
        (if reduce_only then m\<lparr>mg_stats := (mg_stats m)\<lparr>st_reduce_only_approved := st_reduce_only_approved (mg_stats m) + 1\<rparr>\<rparr> else m))"

definition drawdown_layer ::
  "surroundings \<Rightarrow> signal \<Rightarrow> pyval \<Rightarrow> string \<Rightarrow> evidence \<Rightarrow> manager \<Rightarrow> (py_exc + risk_order option) \<times> manager" where
  "drawdown_layer su sg payload strategy ev m =
     (case check_drawdown_limit su (mg_risk m) of ((ok, reason), rk) \<Rightarrow>
        let m' = m\<lparr>mg_risk := rk\<rparr> in
        if ok then exposure_layer su sg payload strategy ev m'
        else
          let m2 = send_alert ''CRITICAL'' ''CIRCUIT_BREAKER'' m' in
          if mg_breaker_emitted m2 then blocked m2
          else (case emit_bot_shutdown reason m2 of
              (Some e, m3) \<Rightarrow> (Inl e, m3)
            | (None, m3) \<Rightarrow> blocked (m3\<lparr>mg_breaker_emitted := True\<rparr>)))"

text \<open>What follows an ALLOW: strategy, shutdowns, allocation, regime.\<close>

definition allowed_signal ::
  "surroundings \<Rightarrow> signal \<Rightarrow> pyval \<Rightarrow> evidence \<Rightarrow> manager \<Rightarrow> (py_exc + risk_order option) \<times> manager" where
  "allowed_signal su sg payload ev m =
     (let strategy = opt_text (sg_strategy_id sg) in
      if strategy = [] then blocked (send_alert ''CRITICAL'' ''MISSING_STRATEGY_ID'' m)
      else if shut_down sg strategy m then blocked m
      else if \<not> fst (allocation_allowed (su_now su) (mg_allocations m) strategy) then blocked m
      else if mg_risk_off m \<and> \<not> is_reduce_only_allowed (mg_risk m) sg
          \<and> \<not> is_early_live_exception (su_config su) (mg_risk_off m) (mg_allocations m) strategy \<and> \<not> su_probe su
      then blocked m
      else drawdown_layer su sg payload strategy ev m)"

definition kill_switch_gate :: "surroundings \<Rightarrow> bool \<times> string" where
  \<comment> \<open>a reading that fails counts as active\<close>
  "kill_switch_gate su = (case su_kill su of
     None \<Rightarrow> (True, ''KILL_SWITCH_UNEVALUABLE'')
   | Some (active, _) \<Rightarrow> if active then (True, ''KILL_SWITCH_ACTIVE'') else (False, []))"

definition process_signal :: "surroundings \<Rightarrow> signal \<Rightarrow> pyval \<Rightarrow> manager \<Rightarrow> (py_exc + risk_order option) \<times> manager" where
  "process_signal su sg payload m =
     (if requires_protection payload \<and> \<not> stop_loss_protection_is_available then
        blocked (send_alert ''CRITICAL'' ''STOP_LOSS_PROTECTION_UNAVAILABLE'' m)
      else case kill_switch_gate su of (active, code) \<Rightarrow>
        if active then blocked (send_alert ''CRITICAL'' code m)
        else (case decide_trade (su_config su) (su_probe su) (su_decision_id su) (su_trace_id su) sg
                (market_state_of su sg payload) (get_value payload ''account_state'') (get_value payload ''market_health'') (su_now_ms su) of
            Inl e \<Rightarrow> (Inl e, m)
          | Inr (code, ev) \<Rightarrow>
             if su_decision_envelope_raises su then (Inl (RuntimeError ''envelope''), m)
             else if trace_raises su sg then (Inl (ValueError ''signal_id and decision_id required''), m)
             else (case code of
                 Some reason \<Rightarrow> (Inr None, blocked_artefact su (count_blocked m))
               | None \<Rightarrow> allowed_signal su sg payload ev m)))"

subsection \<open>An execution result\<close>

definition release_exposure :: "string \<Rightarrow> risk_state \<Rightarrow> risk_state" where
  "release_exposure client rk = (case dget (rk_pending_reservations rk) client of
     None \<Rightarrow> rk
   | Some reserved \<Rightarrow>
      rk\<lparr>rk_pending_reservations := ddel client (rk_pending_reservations rk),
         rk_pending_exposure := fl_max fl_zero (fl_sub (rk_pending_exposure rk) reserved)\<rparr>)"

definition release_quantity :: "string \<Rightarrow> risk_state \<Rightarrow> risk_state" where
  "release_quantity client rk = (case dget (rk_qty_reservations rk) client of
     None \<Rightarrow> rk
   | Some (symbol, amount) \<Rightarrow>
      let left = fl_sub (float_at (rk_pending_qty rk) symbol) amount in
      rk\<lparr>rk_qty_reservations := ddel client (rk_qty_reservations rk),
         rk_pending_qty := (if fl_lt (fl_abs left) DUST then ddel symbol (rk_pending_qty rk)
           else dset symbol left (rk_pending_qty rk))\<rparr>)"

definition release_reservations :: "string option \<Rightarrow> risk_state \<Rightarrow> risk_state" where
  "release_reservations client_id rk =
     (if opt_truthy client_id then release_quantity (opt_text client_id) (release_exposure (opt_text client_id) rk) else rk)"

definition handle_order_result :: "surroundings \<Rightarrow> order_result \<Rightarrow> manager \<Rightarrow> py_exc option \<times> manager" where
  "handle_order_result su r m =
     (let m1 = drop_pending (m\<lparr>mg_stats := (mg_stats m)\<lparr>st_results := st_results (mg_stats m) + 1\<rparr>\<rparr>);
          m2 = m1\<lparr>mg_risk := release_reservations (rr_client_id r) (mg_risk m1)\<rparr>
      in if rr_status r \<in> {''FILLED'', ''PARTIALLY_FILLED''} then
           let m3 = m2\<lparr>mg_risk := update_exposure r (mg_risk m2)\<rparr> in
           if rr_status r = ''FILLED'' then maybe_auto_unwind su r m3 else (None, m3)
         else (None, send_alert (if rr_status r = ''REJECTED'' then ''WARNING'' else ''CRITICAL'') ''EXECUTION_ERROR''
           (m2\<lparr>mg_stats := (mg_stats m2)\<lparr>st_rejected_execution := st_rejected_execution (mg_stats m2) + 1\<rparr>\<rparr>)))"

subsection \<open>The streams and the main loop\<close>

definition regime_event :: "string option \<Rightarrow> manager \<Rightarrow> manager" where
  "regime_event regime m = (case apply_regime_state regime of (g, off) \<Rightarrow> m\<lparr>mg_regime := g, mg_risk_off := off\<rparr>)"

definition regime_unknown :: "manager \<Rightarrow> manager" where
  "regime_unknown m = (case fail_closed_unknown_regime of (g, off) \<Rightarrow> m\<lparr>mg_regime := g, mg_risk_off := off\<rparr>)"

definition allocation_event :: "string \<Rightarrow> pyfloat \<Rightarrow> int option \<Rightarrow> manager \<Rightarrow> manager" where
  "allocation_event strategy pct cooldown m =
     (if strategy = [] then m
      else m\<lparr>mg_allocations := dset strategy \<lparr>al_pct = pct, al_cooldown_until = cooldown\<rparr> (mg_allocations m)\<rparr>)"

definition shutdown_event :: "string option \<Rightarrow> string option \<Rightarrow> manager \<Rightarrow> manager" where
  "shutdown_event strategy_id bot_id m =
     m\<lparr>mg_shutdown_strategies := (if opt_truthy strategy_id then List.insert (opt_text strategy_id) (mg_shutdown_strategies m) else mg_shutdown_strategies m),
       mg_shutdown_bots := (if opt_truthy bot_id then List.insert (opt_text bot_id) (mg_shutdown_bots m) else mg_shutdown_bots m)\<rparr>"

text \<open>One message of the signal channel, after \<open>Signal.from_dict\<close>: any exception is counted as a
  skipped order.\<close>

definition signal_message :: "surroundings \<Rightarrow> signal \<Rightarrow> pyval \<Rightarrow> manager \<Rightarrow> manager" where
  "signal_message su sg payload m = (case process_signal su sg payload m of
     (Inl e, m') \<Rightarrow> count_skipped m'
   | (Inr None, m') \<Rightarrow> m'
   | (Inr (Some od), m') \<Rightarrow> (case send_order su od m' of (Some e, m2) \<Rightarrow> count_skipped m2 | (None, m2) \<Rightarrow> m2))"

text \<open>One message of the result channel: an exception other than a \<open>KeyError\<close> or a
  \<open>ValueError\<close> ends the listener, which the state does not show.\<close>

definition result_message :: "surroundings \<Rightarrow> order_result \<Rightarrow> manager \<Rightarrow> manager" where
  "result_message su r m = snd (handle_order_result su r m)"

inductive manager_step :: "manager \<Rightarrow> manager \<Rightarrow> bool" where
  on_signal: "manager_step m (signal_message su sg payload m)"
| on_result: "manager_step m (result_message su r m)"
| on_regime: "manager_step m (regime_event regime m)"
| on_regime_unknown: "manager_step m (regime_unknown m)"
| on_allocation: "manager_step m (allocation_event strategy pct cooldown m)"
| on_shutdown: "manager_step m (shutdown_event strategy_id bot_id m)"

inductive_cases manager_stepE: "manager_step m m'"

subsection \<open>What a released order went through\<close>

lemma blocked_not_released [simp]: "blocked m \<noteq> (Inr (Some od), m')"
  by (simp add: blocked_def)

lemma after_unwind_not_released [simp]: "after_unwind r \<noteq> (Inr (Some od), m')"
  by (cases r; cases "fst r") (auto simp: after_unwind_def)

definition contract_passed :: "surroundings \<Rightarrow> pyval \<Rightarrow> risk_order \<Rightarrow> manager \<Rightarrow> json \<Rightarrow> bool" where
  "contract_passed su payload od m b \<longleftrightarrow>
     ebind (build_decision_contract_input su od ''risk.process_signal'' (get_value payload ''account_state'') payload (mg_risk m))
       (build_bundle (su_sha su)) = Inr b
     \<and> fst (verify_bundle (su_sha su) (of_json b) True) \<and> bundle_matches_order b od = Inr ()"

lemma ensure_built:
  assumes "ensure_decision_contract su od source snapshot payload rk au = (Inr od', au')" "ro_contract od = None"
  obtains b where "ebind (build_decision_contract_input su od source snapshot payload rk) (build_bundle (su_sha su)) = Inr b"
    "fst (verify_bundle (su_sha su) (of_json b) True)" "bundle_matches_order b od = Inr ()" "od' = stamp_order b od"
    "write_audit (su_sha su) b au = (None, au')"
  using assms by (auto simp: ensure_decision_contract_def split: sum.splits if_splits prod.splits option.splits)

definition released_state :: "risk_order \<Rightarrow> pyfloat \<Rightarrow> manager \<Rightarrow> manager \<Rightarrow> bool" where
  \<comment> \<open>the state after the release, but for the audit and the counters in front of it\<close>
  "released_state od price m m' \<longleftrightarrow> mg_risk m' = reserve od price (mg_risk m)
     \<and> mg_redis_faults m' = mg_redis_faults m \<and> mg_orders_channel m' = mg_orders_channel m \<and> mg_orders_stream m' = mg_orders_stream m
     \<and> mg_alerts_channel m' = mg_alerts_channel m \<and> mg_ledger m' = mg_ledger m
     \<and> mg_allocations m' = mg_allocations m \<and> mg_risk_off m' = mg_risk_off m
     \<and> st_approved (mg_stats m') = st_approved (mg_stats m) + 1 \<and> st_blocked (mg_stats m') = st_blocked (mg_stats m)"

lemma contract_step_released:
  assumes "contract_step su payload od price m = (Inr (Some od'), m')" "ro_contract od = None"
  obtains b au where "contract_passed su payload od m b" "od' = stamp_order b od" "write_audit (su_sha su) b (mg_audit m) = (None, au)"
    "mg_audit m' = au" "released_state od' price m m'"
proof -
  obtain r au where e: "ensure_decision_contract su od ''risk.process_signal'' (get_value payload ''account_state'') payload
      (mg_risk m) (mg_audit m) = (r, au)" by fastforce
  then obtain od1 where r: "r = Inr od1"
    using assms(1) by (cases r) (auto simp: contract_step_def run_contract_gate_def split: if_splits)
  from e r assms(2) obtain b where b: "contract_passed su payload od m b" "od1 = stamp_order b od"
    "write_audit (su_sha su) b (mg_audit m) = (None, au)"
    by (auto elim!: ensure_built simp: contract_passed_def)
  have "od' = od1" "mg_audit m' = au" "released_state od' price m m'"
    using assms(1) by (auto simp: contract_step_def run_contract_gate_def e r release_order_def Let_def released_state_def split: if_splits)
  with b show ?thesis by (intro that) simp_all
qed

definition hard_limits_passed :: "surroundings \<Rightarrow> risk_order \<Rightarrow> pyfloat \<Rightarrow> risk_state \<Rightarrow> bool" where
  "hard_limits_passed su od price rk \<longleftrightarrow>
     (\<exists>balance. (if rc_use_real_balance (su_config su) then su_balance su AtHardGate else Inr (rc_test_balance (su_config su))) = Inr balance
        \<and> \<not> fl_le (fl_mul balance (rc_max_total_exposure_pct (su_config su))) (compute_projected_exposure rk (ro_quantity od) price))
     \<and> fst (check_projected_position_limit su (ro_symbol od) (opt_text (ro_side od)) (ro_quantity od) price rk)"

lemma hard_gates_released:
  assumes "hard_gates su payload od price m = (Inr (Some od'), m')"
  shows "hard_limits_passed su od price (mg_risk m)" "contract_step su payload od price m = (Inr (Some od'), m')"
  using assms by (auto simp: hard_gates_def hard_limits_passed_def split: sum.splits if_splits)

lemma size_and_build_released:
  assumes "size_and_build su sg payload strategy ev reduce_only m = (Inr (Some od'), m')"
  obtains quantity quantity' p where
    "calculate_position_size su sg (al_pct (allocation_of (mg_allocations m) strategy)) = Inr (quantity, None)"
    "\<not> fl_le quantity fl_zero"
    "quantity' = (if reduce_only then fl_min quantity (fl_abs (float_at (rk_positions (mg_risk m)) (symbol_of sg))) else quantity)"
    "num_le_zero (price_or_last (mg_risk m) sg) = Inr False" "num_float (price_or_last (mg_risk m) sg) = Inr p"
    "\<not> reduce_only \<longrightarrow> hard_limits_passed su (new_order su sg strategy ev quantity' (price_or_last (mg_risk m) sg) reduce_only m) p (mg_risk m)"
    "contract_step su payload (new_order su sg strategy ev quantity' (price_or_last (mg_risk m) sg) reduce_only m) p m = (Inr (Some od'), m')"
  using assms
  by (auto simp: size_and_build_def Let_def ebind_eq_Inr ebind_eq_Inl split: sum.splits if_splits prod.splits dest: hard_gates_released)

end
