(* ===== verification/RiskRelease.thy ===== *)
theory RiskRelease
  imports RiskManager
begin

text \<open>
  What is known of an order that the risk manager releases: the gates it passed, the limits it
  respects, and that it reaches the orders channel.
\<close>

subsection \<open>What the contract of a released order says\<close>

lemma allowed_bundle:
  assumes "build_bundle sha raw = Inr b" "fst (verify_bundle sha (of_json b) True)"
  obtains ci co where "normalize_contract_input raw = Inr ci" "evaluate_normalized sha ci = Inr co" "b = bundle_json ci co"
    "normal_input ci" "co_decision co = 1"
proof -
  obtain ci co where b: "normalize_contract_input raw = Inr ci" "evaluate_normalized sha ci = Inr co" "b = bundle_json ci co" "normal_input ci"
    by (rule built_is_normal[OF assms(1)])
  have "co_decision co = 1"
    using assms(2) by (simp add: b(3) verify_bundle_json[OF b(4)] b(2) split: if_splits)
  with b show ?thesis by (rule that)
qed

lemma allowed_side:
  assumes "evaluate_normalized sha ci = Inr co" "co_decision co = 1" "normal_input ci"
  shows "ci_side ci \<in> {''BUY'', ''SELL''}"
proof -
  from assms(1,2) obtain n notional projected where "sort (contract_reasons ci n notional projected) = []"
    by (auto simp: evaluate_normalized_def ebind_eq_Inr decided_decision split: if_splits)
  then have "contract_reasons ci n notional projected = []" by (metis set_empty set_sort)
  then have "upper (ci_side ci) \<in> set ALLOWED_ORDER_SIDES" by (simp add: contract_reasons_def)
  with assms(3) show ?thesis by (simp add: normal_input_def ALLOWED_ORDER_SIDES_def)
qed

lemma float_text_finite:
  assumes "quantized_field e (float_text x) = Inr t"
  shows "fl_isfinite x"
proof (cases x)
  case (FInf s)
  have "dec_of_string (strip ''inf'') = Inr (DInf False)" "dec_of_string (strip ''-inf'') = Inr (DInf True)" by code_simp+
  with assms FInf show ?thesis
    by (cases s) (auto simp: quantized_field_def float_text_def dc_to_decimal_def sign_str_def split: if_splits)
next
  case FNaN
  have "dec_of_string (strip ''nan'') = Inr DNaN" by code_simp
  with assms FNaN show ?thesis
    by (auto simp: quantized_field_def float_text_def dc_to_decimal_def split: if_splits)
qed simp

text \<open>The numbers that reach a normalized contract are finite.\<close>

lemma built_input_finite:
  assumes "build_decision_contract_input su od source snapshot payload rk = Inr raw" "normalize_contract_input raw = Inr ci"
  obtains price where "py_float (if truthy (ro_price od) then ro_price od else PFloat (float_at (rk_last_prices rk) (ro_symbol od))) = Inr price"
    "fl_isfinite price" "0 < fl_val price" "fl_isfinite (ro_quantity od)"
    "fl_isfinite (fl_add (rk_total_exposure rk) (rk_pending_exposure rk))"
    "ci_reduce_only ci = ro_reduce_only od"
proof -
  from assms(1) obtain balance drawdown price ts where
    p: "py_float (if truthy (ro_price od) then ro_price od else PFloat (float_at (rk_last_prices rk) (ro_symbol od))) = Inr price"
    "\<not> fl_le price fl_zero" and
    raw: "raw = contract_input_value su (resolve_contract_run_mode su (ro_strategy_id od) payload) od source rk balance drawdown price ts"
    unfolding build_decision_contract_input_def by (auto simp: ebind_eq_Inr split: if_splits)
  from assms(2) have f: "fl_isfinite (ro_quantity od)" "fl_isfinite price" "fl_isfinite (fl_add (rk_total_exposure rk) (rk_pending_exposure rk))"
    "ci_reduce_only ci = ro_reduce_only od"
    by (auto simp: normalize_contract_input_def raw contract_input_value_def Let_def ebind_eq_Inr map_of_val_def map_get_def map_get_or_def
        dest!: float_text_finite)
  have "0 < fl_val price" using p(2) f(2) by (simp add: fl_le_val not_le)
  with p(1) f show ?thesis by (intro that)
qed

lemma bundle_matches_means:
  assumes "bundle_matches_order (bundle_json ci co) od = Inr ()"
  shows "ci_symbol ci = ro_symbol od" "ro_side od = Some (ci_side ci)"
    "\<exists>bq q. quantity_of_text (ci_quantity ci) = Inr bq \<and> quantity_of_text (float_str (ro_quantity od)) = Inr q \<and> dec_eq bq q"
  using assms
  by (auto simp: bundle_matches_order_def bundle_json_def input_json_def get_value_def map_get_def map_get_or_def Let_def
      ebind_eq_Inr opt_value_def split: if_splits option.splits)

lemma contract_passed_means:
  assumes "contract_passed su payload od m b"
  obtains raw ci co where
    "build_decision_contract_input su od ''risk.process_signal'' (get_value payload ''account_state'') payload (mg_risk m) = Inr raw"
    "normalize_contract_input raw = Inr ci" "evaluate_normalized (su_sha su) ci = Inr co" "b = bundle_json ci co"
    "normal_input ci" "co_decision co = 1" "ci_symbol ci = ro_symbol od" "ro_side od = Some (ci_side ci)"
    "ci_side ci \<in> {''BUY'', ''SELL''}"
proof -
  from assms obtain raw where
    raw: "build_decision_contract_input su od ''risk.process_signal'' (get_value payload ''account_state'') payload (mg_risk m) = Inr raw"
    and b: "build_bundle (su_sha su) raw = Inr b" "fst (verify_bundle (su_sha su) (of_json b) True)" "bundle_matches_order b od = Inr ()"
    by (auto simp: contract_passed_def ebind_eq_Inr)
  obtain ci co where c: "normalize_contract_input raw = Inr ci" "evaluate_normalized (su_sha su) ci = Inr co" "b = bundle_json ci co"
    "normal_input ci" "co_decision co = 1"
    by (rule allowed_bundle[OF b(1,2)])
  from raw c bundle_matches_means[OF b(3)[unfolded c(3)]] allowed_side[OF c(2,5,4)] show ?thesis by (intro that)
qed

lemma protection_unavailable: "\<not> stop_loss_protection_is_available"
  by (simp add: stop_loss_protection_is_available_def STOP_LOSS_PROTECTION_STATUS_def STOP_LOSS_PROTECTION_EVIDENCE_def
      resolve_stop_loss_protection_status_def evidence_complete_def missing_evidence_def evidence_fields_def)

text \<open>The way of a released order through \<open>process_signal\<close>.\<close>

lemma released_path:
  assumes "process_signal su sg payload m = (Inr (Some od), m')"
  obtains ev where "\<not> requires_protection payload" "\<not> fst (kill_switch_gate su)" "\<not> trace_raises su sg"
    "decide_trade (su_config su) (su_probe su) (su_decision_id su) (su_trace_id su) sg (market_state_of su sg payload)
       (get_value payload ''account_state'') (get_value payload ''market_health'') (su_now_ms su) = Inr (None, ev)"
    "allowed_signal su sg payload ev m = (Inr (Some od), m')"
  using assms
  by (auto simp: process_signal_def protection_unavailable split: if_splits sum.splits prod.splits option.splits)

lemma allowed_path:
  assumes "allowed_signal su sg payload ev m = (Inr (Some od), m')"
  obtains strategy where "sg_strategy_id sg = Some strategy" "strategy \<noteq> []" "\<not> shut_down sg strategy m"
    "fst (allocation_allowed (su_now su) (mg_allocations m) strategy)"
    "mg_risk_off m \<longrightarrow> is_reduce_only_allowed (mg_risk m) sg
       \<or> is_early_live_exception (su_config su) (mg_risk_off m) (mg_allocations m) strategy \<or> su_probe su"
    "drawdown_layer su sg payload strategy ev m = (Inr (Some od), m')"
  using assms
  by (cases "sg_strategy_id sg") (auto simp: allowed_signal_def Let_def opt_text_def split: if_splits)

lemma drawdown_ok_state: "check_drawdown_limit su rk = ((True, why), rk') \<Longrightarrow> rk' = rk"
  by (auto simp: check_drawdown_limit_def Let_def split: sum.splits if_splits)

lemma drawdown_path:
  assumes "drawdown_layer su sg payload strategy ev m = (Inr (Some od), m')"
  shows "fst (fst (check_drawdown_limit su (mg_risk m)))" "exposure_layer su sg payload strategy ev m = (Inr (Some od), m')"
proof -
  obtain ok why rk where c: "check_drawdown_limit su (mg_risk m) = ((ok, why), rk)" by (metis prod.exhaust)
  with assms have ok
    by (cases ok) (auto simp: drawdown_layer_def Let_def split: if_splits prod.splits option.splits)
  with c drawdown_ok_state[of su "mg_risk m" why rk] have "rk = mg_risk m" by simp
  with assms c \<open>ok\<close> show "fst (fst (check_drawdown_limit su (mg_risk m)))" "exposure_layer su sg payload strategy ev m = (Inr (Some od), m')"
    by (auto simp: drawdown_layer_def)
qed

lemma exposure_path:
  assumes "exposure_layer su sg payload strategy ev m = (Inr (Some od), m')"
  obtains m1 where "mg_risk m1 = mg_risk m" "mg_allocations m1 = mg_allocations m" "mg_risk_off m1 = mg_risk_off m"
    "mg_redis_faults m1 = mg_redis_faults m" "mg_orders_channel m1 = mg_orders_channel m" "mg_orders_stream m1 = mg_orders_stream m"
    "mg_audit m1 = mg_audit m" "mg_ledger m1 = mg_ledger m" "mg_alerts_channel m1 = mg_alerts_channel m"
    "st_approved (mg_stats m1) = st_approved (mg_stats m)" "st_blocked (mg_stats m1) = st_blocked (mg_stats m)"
    "\<not> is_reduce_only_allowed (mg_risk m) sg \<longrightarrow> fst (check_exposure_limit su (mg_risk m))"
    "\<exists>why. check_position_limit su sg (mg_risk m) = Inr (True, why)"
    "size_and_build su sg payload strategy ev (is_reduce_only_allowed (mg_risk m) sg) m1 = (Inr (Some od), m')"
proof -
  define ro where "ro = is_reduce_only_allowed (mg_risk m) sg"
  define m1 where "m1 = (if ro then m\<lparr>mg_stats := (mg_stats m)\<lparr>st_reduce_only_approved := st_reduce_only_approved (mg_stats m) + 1\<rparr>\<rparr> else m)"
  have same: "mg_risk m1 = mg_risk m" "mg_allocations m1 = mg_allocations m" "mg_risk_off m1 = mg_risk_off m"
    "mg_redis_faults m1 = mg_redis_faults m" "mg_orders_channel m1 = mg_orders_channel m" "mg_orders_stream m1 = mg_orders_stream m"
    "mg_audit m1 = mg_audit m" "mg_ledger m1 = mg_ledger m" "mg_alerts_channel m1 = mg_alerts_channel m"
    "st_approved (mg_stats m1) = st_approved (mg_stats m)" "st_blocked (mg_stats m1) = st_blocked (mg_stats m)"
    by (simp_all add: m1_def)
  from assms have e: "\<not> ro \<longrightarrow> fst (check_exposure_limit su (mg_risk m))" and p: "position_layer su sg payload strategy ev ro m1 = (Inr (Some od), m')"
    by (auto simp: exposure_layer_def Let_def m1_def ro_def split: if_splits)
  from p have "\<exists>why. check_position_limit su sg (mg_risk m) = Inr (True, why)" "size_and_build su sg payload strategy ev ro m1 = (Inr (Some od), m')"
    by (auto simp: position_layer_def same split: sum.splits if_splits prod.splits)
  with same e show ?thesis unfolding ro_def by (intro that)
qed

lemma stamp_order_simps [simp]:
  "ro_symbol (stamp_order b od) = ro_symbol od" "ro_side (stamp_order b od) = ro_side od"
  "ro_quantity (stamp_order b od) = ro_quantity od" "ro_price (stamp_order b od) = ro_price od"
  "ro_reduce_only (stamp_order b od) = ro_reduce_only od" "ro_client_id (stamp_order b od) = ro_client_id od"
  "ro_contract (stamp_order b od) = Some b" "ro_strategy_id (stamp_order b od) = ro_strategy_id od"
  "ro_timestamp (stamp_order b od) = ro_timestamp od" "ro_order_id (stamp_order b od) = ro_order_id od"
  by (simp_all add: stamp_order_def Let_def)

lemma new_order_simps [simp]:
  "ro_symbol (new_order su sg strategy ev q price ro m) = symbol_of sg" "ro_side (new_order su sg strategy ev q price ro m) = sg_side sg"
  "ro_quantity (new_order su sg strategy ev q price ro m) = q" "ro_price (new_order su sg strategy ev q price ro m) = price"
  "ro_reduce_only (new_order su sg strategy ev q price ro m) = ro" "ro_contract (new_order su sg strategy ev q price ro m) = None"
  "ro_client_id (new_order su sg strategy ev q price ro m) = Some (symbol_of sg @ ''-'' @ py_str (sg_timestamp sg))"
  by (simp_all add: new_order_def)

text \<open>A price that passed the sign check is the same number in a product and for \<open>float\<close>.\<close>

lemma price_agrees: "num_float v = Inr p \<Longrightarrow> py_float v = Inr p"
  by (auto simp: py_float_def num_float_def split: pyval.splits)

lemma pos_truthy: "\<not> fl_le x fl_zero \<Longrightarrow> fl_truthy x"
proof (cases x)
  case (FFin s m e)
  assume n: "\<not> fl_le x fl_zero"
  have "0 < fl_val x" using n by (simp add: FFin fl_le_val not_le del: fl_val.simps)
  then have "m \<noteq> 0" by (cases s; cases "m = 0"; simp add: FFin signed_def)
  then show ?thesis by (simp add: FFin)
qed simp_all

lemma price_or_last_truthy:
  assumes "num_le_zero (price_or_last rk sg) = Inr False"
  shows "truthy (price_or_last rk sg)"
  using assms by (auto simp: price_or_last_def num_le_zero_def dest: pos_truthy)

definition released_by :: "surroundings \<Rightarrow> signal \<Rightarrow> pyval \<Rightarrow> manager \<Rightarrow> risk_order \<Rightarrow> manager \<Rightarrow> evidence \<Rightarrow> string \<Rightarrow> pyfloat \<Rightarrow> json \<Rightarrow> bool" where
  \<comment> \<open>everything that held when \<open>od\<close> was released, with the price \<open>p\<close> and the bundle \<open>b\<close>\<close>
  "released_by su sg payload m od m' ev strategy p b \<longleftrightarrow>
     \<not> requires_protection payload \<and> \<not> fst (kill_switch_gate su)
     \<and> decide_trade (su_config su) (su_probe su) (su_decision_id su) (su_trace_id su) sg (market_state_of su sg payload)
         (get_value payload ''account_state'') (get_value payload ''market_health'') (su_now_ms su) = Inr (None, ev)
     \<and> sg_strategy_id sg = Some strategy \<and> strategy \<noteq> [] \<and> \<not> shut_down sg strategy m
     \<and> fst (allocation_allowed (su_now su) (mg_allocations m) strategy)
     \<and> (mg_risk_off m \<longrightarrow> ro_reduce_only od
         \<or> is_early_live_exception (su_config su) True (mg_allocations m) strategy \<or> su_probe su)
     \<and> fst (fst (check_drawdown_limit su (mg_risk m)))
     \<and> ro_reduce_only od = is_reduce_only_allowed (mg_risk m) sg
     \<and> (\<not> ro_reduce_only od \<longrightarrow> fst (check_exposure_limit su (mg_risk m)) \<and> hard_limits_passed su od p (mg_risk m))
     \<and> fl_isfinite (ro_quantity od) \<and> 0 < fl_val (ro_quantity od) \<and> fl_isfinite p \<and> 0 < fl_val p
     \<and> num_float (ro_price od) = Inr p
     \<and> fl_isfinite (fl_add (rk_total_exposure (mg_risk m)) (rk_pending_exposure (mg_risk m)))
     \<and> (ro_reduce_only od \<longrightarrow> fl_le (ro_quantity od) (fl_abs (float_at (rk_positions (mg_risk m)) (ro_symbol od))))
     \<and> ro_symbol od = symbol_of sg \<and> ro_side od = sg_side sg \<and> sg_side sg \<in> {Some ''BUY'', Some ''SELL''}
     \<and> ro_client_id od = Some (symbol_of sg @ ''-'' @ py_str (sg_timestamp sg))
     \<and> ro_contract od = Some b \<and> released_state od p m m'"

lemma fl_min_pos:
  assumes "\<not> fl_le x fl_zero" "\<not> fl_le y fl_zero" "fl_isfinite (fl_min x y)"
  shows "0 < fl_val (fl_min x y)"
  using assms by (auto simp: fl_min_def fl_le_val not_le split: if_splits)

lemma zero_order [simp]: "\<not> fl_lt fl_zero FNaN" "\<not> fl_lt FNaN fl_zero" "fl_lt fl_zero (FInf s) \<longleftrightarrow> \<not> s" "fl_lt (FInf s) fl_zero \<longleftrightarrow> s"
  by (simp_all add: fl_zero_def)

lemma fl_min_le:
  assumes "fl_isfinite (fl_min x y)" "fl_lt fl_zero y"
  shows "fl_le (fl_min x y) y"
proof (cases "fl_lt y x")
  case True
  with assms(1) show ?thesis by (simp add: fl_min_def fl_le_val)
next
  case False
  with assms(1) have x: "fl_isfinite x" "fl_min x y = x" by (simp_all add: fl_min_def)
  show ?thesis
  proof (cases y)
    case (FFin s m e)
    then have "fl_isfinite y" by simp
    with False x show ?thesis by (simp add: fl_lt_val fl_le_val)
  next
    case (FInf s)
    with assms(2) x(1) have "fl_lt x y" by (cases x) simp_all
    then show ?thesis by (simp add: x(2) fl_le_def)
  qed (use assms(2) in simp)
qed

lemma reduce_only_position:
  assumes "is_reduce_only_allowed rk sg"
  shows "fl_lt fl_zero (fl_abs (float_at (rk_positions rk) (symbol_of sg)))"
proof -
  let ?p = "float_at (rk_positions rk) (symbol_of sg)"
  from assms have p: "fl_lt fl_zero ?p \<or> fl_lt ?p fl_zero" by (auto simp: is_reduce_only_allowed_def Let_def split: if_splits)
  show ?thesis
  proof (cases ?p)
    case (FFin s m e)
    then have f: "fl_isfinite ?p" by simp
    with p have "fl_val ?p \<noteq> 0" by (auto simp: fl_lt_val)
    with f show ?thesis by (simp add: fl_lt_val)
  qed (use p in auto)
qed

lemma fl_lt_not_le: "fl_lt x y \<Longrightarrow> \<not> fl_le y x"
proof (cases "fl_isfinite x \<and> fl_isfinite y")
  case False
  assume "fl_lt x y"
  with False show ?thesis by (cases x; cases y) (auto simp: fl_le_def)
qed (simp add: fl_lt_val fl_le_val)

lemma stamped_matches: "bundle_matches_order b' (stamp_order b od) = bundle_matches_order b' od"
  by (simp only: bundle_matches_order_def stamp_order_simps)

lemma released_means:
  assumes "process_signal su sg payload m = (Inr (Some od), m')"
  obtains ev strategy p b au where "released_by su sg payload m od m' ev strategy p b"
    "write_audit (su_sha su) b (mg_audit m) = (None, au)" "mg_audit m' = au"
    "fst (verify_bundle (su_sha su) (of_json b) True)" "bundle_matches_order b od = Inr ()" "od = stamp_order b od"
    "\<exists>ci co. b = bundle_json ci co \<and> evaluate_normalized (su_sha su) ci = Inr co \<and> co_decision co = 1
       \<and> ci_symbol ci = ro_symbol od \<and> Some (ci_side ci) = ro_side od \<and> ci_reduce_only ci = ro_reduce_only od"
proof -
  obtain ev where P: "\<not> requires_protection payload" "\<not> fst (kill_switch_gate su)"
    "decide_trade (su_config su) (su_probe su) (su_decision_id su) (su_trace_id su) sg (market_state_of su sg payload)
       (get_value payload ''account_state'') (get_value payload ''market_health'') (su_now_ms su) = Inr (None, ev)"
    "allowed_signal su sg payload ev m = (Inr (Some od), m')"
    by (rule released_path[OF assms])
  obtain strategy where A: "sg_strategy_id sg = Some strategy" "strategy \<noteq> []" "\<not> shut_down sg strategy m"
    "fst (allocation_allowed (su_now su) (mg_allocations m) strategy)"
    "mg_risk_off m \<longrightarrow> is_reduce_only_allowed (mg_risk m) sg
       \<or> is_early_live_exception (su_config su) (mg_risk_off m) (mg_allocations m) strategy \<or> su_probe su"
    "drawdown_layer su sg payload strategy ev m = (Inr (Some od), m')"
    by (rule allowed_path[OF P(4)])
  note D = drawdown_path[OF A(6)]
  define ro where "ro = is_reduce_only_allowed (mg_risk m) sg"
  obtain m1 where E: "mg_risk m1 = mg_risk m" "mg_allocations m1 = mg_allocations m" "mg_risk_off m1 = mg_risk_off m"
    "mg_redis_faults m1 = mg_redis_faults m" "mg_orders_channel m1 = mg_orders_channel m" "mg_orders_stream m1 = mg_orders_stream m"
    "mg_audit m1 = mg_audit m" "mg_ledger m1 = mg_ledger m" "mg_alerts_channel m1 = mg_alerts_channel m"
    "st_approved (mg_stats m1) = st_approved (mg_stats m)" "st_blocked (mg_stats m1) = st_blocked (mg_stats m)"
    "\<not> ro \<longrightarrow> fst (check_exposure_limit su (mg_risk m))"
    "size_and_build su sg payload strategy ev ro m1 = (Inr (Some od), m')"
    unfolding ro_def by (rule exposure_path[OF D(2)]) blast
  obtain q q' p where S: "\<not> fl_le q fl_zero"
    "q' = (if ro then fl_min q (fl_abs (float_at (rk_positions (mg_risk m1)) (symbol_of sg))) else q)"
    "num_le_zero (price_or_last (mg_risk m1) sg) = Inr False" "num_float (price_or_last (mg_risk m1) sg) = Inr p"
    "\<not> ro \<longrightarrow> hard_limits_passed su (new_order su sg strategy ev q' (price_or_last (mg_risk m1) sg) ro m1) p (mg_risk m1)"
    "contract_step su payload (new_order su sg strategy ev q' (price_or_last (mg_risk m1) sg) ro m1) p m1 = (Inr (Some od), m')"
    by (rule size_and_build_released[OF E(13)])
  define od0 where "od0 = new_order su sg strategy ev q' (price_or_last (mg_risk m1) sg) ro m1"
  obtain b au where C: "contract_passed su payload od0 m1 b" "od = stamp_order b od0" "write_audit (su_sha su) b (mg_audit m1) = (None, au)"
    "mg_audit m' = au" "released_state od p m1 m'"
    by (rule contract_step_released[OF S(6)[folded od0_def]]) (simp add: od0_def)
  obtain raw ci co where R: "build_decision_contract_input su od0 ''risk.process_signal'' (get_value payload ''account_state'') payload (mg_risk m1) = Inr raw"
    "normalize_contract_input raw = Inr ci" "evaluate_normalized (su_sha su) ci = Inr co" "b = bundle_json ci co"
    "normal_input ci" "co_decision co = 1" "ci_symbol ci = ro_symbol od0" "ro_side od0 = Some (ci_side ci)"
    "ci_side ci \<in> {''BUY'', ''SELL''}"
    by (rule contract_passed_means[OF C(1)])
  have price: "truthy (ro_price od0)" "py_float (ro_price od0) = Inr p"
    using price_or_last_truthy[OF S(3)] price_agrees[OF S(4)] by (simp_all add: od0_def)
  from built_input_finite[OF R(1,2)] price have F: "fl_isfinite p" "0 < fl_val p" "fl_isfinite (ro_quantity od0)"
    "fl_isfinite (fl_add (rk_total_exposure (mg_risk m1)) (rk_pending_exposure (mg_risk m1)))" "ci_reduce_only ci = ro_reduce_only od0"
    by auto
  have q: "fl_isfinite q'" using F(3) by (simp add: od0_def)
  have pos: "\<not> fl_le (fl_abs (float_at (rk_positions (mg_risk m)) (symbol_of sg))) fl_zero" if ro
    using fl_lt_not_le[OF reduce_only_position] that unfolding ro_def by blast
  have qpos: "0 < fl_val q'"
    using S(1,2) q pos fl_min_pos by (auto simp: E(1) fl_le_val not_le split: if_splits)
  have cover: "fl_le q' (fl_abs (float_at (rk_positions (mg_risk m)) (symbol_of sg)))" if ro
    using S(2) q that fl_min_le[OF _ reduce_only_position[of "mg_risk m" sg]] by (auto simp: E(1) ro_def)
  have st: "released_state od p m m'" using C(5) by (auto simp: released_state_def E)
  show ?thesis
  proof (rule that)
    show "released_by su sg payload m od m' ev strategy p b"
      unfolding released_by_def
      using P A(1-4) A(5) D(1) E(12) S(4,5) F(1-4) q qpos cover st R(8,9)
      by (auto simp: C(2) od0_def E hard_limits_passed_def ro_def)
    show "write_audit (su_sha su) b (mg_audit m) = (None, au)" "mg_audit m' = au" using C(3,4) E(7) by simp_all
    show "fst (verify_bundle (su_sha su) (of_json b) True)" using C(1) by (simp add: contract_passed_def)
    show "bundle_matches_order b od = Inr ()" using C(1) by (simp add: contract_passed_def C(2) stamped_matches)
    show "od = stamp_order b od" by (simp add: C(2) stamp_order_def Let_def)
    show "\<exists>ci co. b = bundle_json ci co \<and> evaluate_normalized (su_sha su) ci = Inr co \<and> co_decision co = 1
       \<and> ci_symbol ci = ro_symbol od \<and> Some (ci_side ci) = ro_side od \<and> ci_reduce_only ci = ro_reduce_only od"
      using R(3,4,6,7,8) F(5) by (intro exI[of _ ci] exI[of _ co]) (simp add: C(2))
  qed
qed

subsection \<open>Every gate\<close>

text \<open>
  C3. No order without every gate. When \<open>process_signal\<close> releases an order, the kill switch was read
  and inactive, no stop-loss protection was demanded, the first decision was ALLOW, strategy and bot
  were not shut down, the strategy had an allocation, risk-off was respected, the drawdown limit
  held; unless the order reduces a position, the exposure limit, the projected exposure and the
  projected position were below their limits; and the order carries a decision contract that was
  evaluated to 1 for its symbol, side and reduce-only flag. Its quantity is positive and finite.
\<close>

theorem released_order_passed_every_gate:
  assumes "process_signal su sg payload m = (Inr (Some od), m')"
  shows "(\<exists>reading. su_kill su = Some (False, reading)) \<and> \<not> requires_protection payload
    \<and> (\<exists>ev. decide_trade (su_config su) (su_probe su) (su_decision_id su) (su_trace_id su) sg (market_state_of su sg payload)
          (get_value payload ''account_state'') (get_value payload ''market_health'') (su_now_ms su) = Inr (None, ev))
    \<and> (\<exists>strategy. sg_strategy_id sg = Some strategy \<and> strategy \<noteq> [] \<and> \<not> shut_down sg strategy m
          \<and> fst (allocation_allowed (su_now su) (mg_allocations m) strategy)
          \<and> (mg_risk_off m \<longrightarrow> ro_reduce_only od
               \<or> is_early_live_exception (su_config su) True (mg_allocations m) strategy \<or> su_probe su))
    \<and> fst (fst (check_drawdown_limit su (mg_risk m)))
    \<and> fl_isfinite (ro_quantity od) \<and> 0 < fl_val (ro_quantity od)
    \<and> (\<exists>price. num_float (ro_price od) = Inr price \<and> fl_isfinite price \<and> 0 < fl_val price
          \<and> (\<not> ro_reduce_only od \<longrightarrow> fst (check_exposure_limit su (mg_risk m)) \<and> hard_limits_passed su od price (mg_risk m)))
    \<and> (\<exists>ci co. ro_contract od = Some (bundle_json ci co) \<and> evaluate_normalized (su_sha su) ci = Inr co \<and> co_decision co = 1
          \<and> ci_symbol ci = ro_symbol od \<and> Some (ci_side ci) = ro_side od \<and> ci_reduce_only ci = ro_reduce_only od)"
proof -
  obtain ev strategy p b au where r: "released_by su sg payload m od m' ev strategy p b"
    "\<exists>ci co. b = bundle_json ci co \<and> evaluate_normalized (su_sha su) ci = Inr co \<and> co_decision co = 1
       \<and> ci_symbol ci = ro_symbol od \<and> Some (ci_side ci) = ro_side od \<and> ci_reduce_only ci = ro_reduce_only od"
    by (rule released_means[OF assms])
  have "\<exists>reading. su_kill su = Some (False, reading)"
    using r(1) by (auto simp: released_by_def kill_switch_gate_def split: option.splits prod.splits if_splits)
  with r show ?thesis unfolding released_by_def by blast
qed

subsection \<open>The exposure cap\<close>

text \<open>
  C4. The cap bounds what is held and reserved. When an order that is not reduce-only is released,
  the filled exposure plus all reservations, with the new one, are below the cap that the last gate
  computed, up to the rounding of four units in the last place: no sequence of the intermediate
  roundings can let an order through that exceeds the cap by more. The two exposures before are taken
  not to be negative, and the cap to be at most \<open>1e18\<close>.
\<close>

theorem released_exposure_bounded:
  assumes "process_signal su sg payload m = (Inr (Some od), m')" "\<not> ro_reduce_only od"
    and "0 \<le> fl_val (rk_total_exposure (mg_risk m))" "0 \<le> fl_val (rk_pending_exposure (mg_risk m))"
    and "(if rc_use_real_balance (su_config su) then su_balance su AtHardGate else Inr (rc_test_balance (su_config su))) = Inr balance"
      "cap = fl_mul balance (rc_max_total_exposure_pct (su_config su))" "fl_isfinite cap" "fl_val cap \<le> 10 ^ 18"
  shows "rk_total_exposure (mg_risk m') = rk_total_exposure (mg_risk m)
    \<and> fl_isfinite (rk_pending_exposure (mg_risk m')) \<and> 0 \<le> fl_val (rk_pending_exposure (mg_risk m'))
    \<and> fl_val (rk_total_exposure (mg_risk m')) + fl_val (rk_pending_exposure (mg_risk m')) < fl_val cap * (1 + 4 * ULP) + 4 * TINY"
proof -
  obtain ev strategy p b au where r: "released_by su sg payload m od m' ev strategy p b" by (rule released_means[OF assms(1)])
  then have gate: "\<not> fl_le cap (compute_projected_exposure (mg_risk m) (ro_quantity od) p)"
    using assms(2,5,6) by (auto simp: released_by_def hard_limits_passed_def)
  have st: "mg_risk m' = reserve od p (mg_risk m)" using r by (simp add: released_by_def released_state_def)
  have f: "fl_isfinite (fl_add (rk_total_exposure (mg_risk m)) (rk_pending_exposure (mg_risk m)))"
    "fl_isfinite (ro_quantity od)" "0 < fl_val (ro_quantity od)" "fl_isfinite p" "0 < fl_val p"
    using r by (simp_all add: released_by_def)
  show ?thesis
    using reserved_below_cap[OF f(1) assms(3,4) f(2,3,4,5) assms(7,8) gate[unfolded compute_projected_exposure_def]]
    by (simp add: st reserve_def Let_def)
qed

subsection \<open>Reduce-only orders\<close>

text \<open>
  C6. A reduce-only order is covered by the position it reduces, and nothing else skips the exposure
  checks. A released order is marked reduce-only exactly when it closes an open position: a SELL against
  a long or a BUY against a short one that is not flat. Then its quantity is at most the size of the
  position. Every other released order has passed the exposure limit, the projected exposure and the
  projected position limit, at its price.
\<close>

theorem reduce_only_order_is_covered:
  assumes "process_signal su sg payload m = (Inr (Some od), m')"
  defines "position \<equiv> float_at (rk_positions (mg_risk m)) (ro_symbol od)"
  shows "(ro_reduce_only od \<longleftrightarrow> \<not> fl_lt (fl_abs position) FLAT
        \<and> (ro_side od = Some ''SELL'' \<and> fl_lt fl_zero position \<or> ro_side od = Some ''BUY'' \<and> fl_lt position fl_zero))
    \<and> (ro_reduce_only od \<longrightarrow> fl_le (ro_quantity od) (fl_abs position))
    \<and> (\<not> ro_reduce_only od \<longrightarrow> fst (check_exposure_limit su (mg_risk m))
         \<and> (\<exists>price. num_float (ro_price od) = Inr price \<and> hard_limits_passed su od price (mg_risk m)))
    \<and> 0 < fl_val (ro_quantity od)"
proof -
  obtain ev strategy p b au where r: "released_by su sg payload m od m' ev strategy p b" by (rule released_means[OF assms(1)])
  then have s: "ro_symbol od = symbol_of sg" "ro_side od = sg_side sg" by (simp_all add: released_by_def)
  have "ro_reduce_only od \<longleftrightarrow> is_reduce_only_allowed (mg_risk m) sg" using r by (simp add: released_by_def)
  also have "\<dots> \<longleftrightarrow> \<not> fl_lt (fl_abs position) FLAT
      \<and> (ro_side od = Some ''SELL'' \<and> fl_lt fl_zero position \<or> ro_side od = Some ''BUY'' \<and> fl_lt position fl_zero)"
    by (auto simp: is_reduce_only_allowed_def Let_def position_def s)
  finally have "ro_reduce_only od \<longleftrightarrow> \<not> fl_lt (fl_abs position) FLAT
      \<and> (ro_side od = Some ''SELL'' \<and> fl_lt fl_zero position \<or> ro_side od = Some ''BUY'' \<and> fl_lt position fl_zero)" .
  moreover have "ro_reduce_only od \<longrightarrow> fl_le (ro_quantity od) (fl_abs position)" "0 < fl_val (ro_quantity od)"
    "\<not> ro_reduce_only od \<longrightarrow> fst (check_exposure_limit su (mg_risk m))"
    "\<not> ro_reduce_only od \<longrightarrow> (\<exists>price. num_float (ro_price od) = Inr price \<and> hard_limits_passed su od price (mg_risk m))"
    using r unfolding released_by_def position_def by blast+
  ultimately show ?thesis by blast
qed

subsection \<open>From the release to the channel\<close>

lemma gate_again:
  assumes "ro_contract od = Some b" "fst (verify_bundle (su_sha su) (of_json b) True)" "bundle_matches_order b od = Inr ()"
    "audit_file (su_sha su) b = Inr f" "au_faults (mg_audit m) = []"
  shows "run_contract_gate su od source snapshot payload m =
    (Inr (stamp_order b od), m\<lparr>mg_audit := (mg_audit m)\<lparr>au_files := au_files (mg_audit m) @ [f]\<rparr>\<rparr>)"
  using assms by (simp add: run_contract_gate_def ensure_decision_contract_def write_audit_def)

lemma write_audit_file: "write_audit sha b au = (None, au') \<Longrightarrow> \<exists>f. audit_file sha b = Inr f"
  by (auto simp: write_audit_def split: sum.splits)

lemma write_audit_faults: "write_audit sha b au = (None, au') \<Longrightarrow> au_faults au = [] \<Longrightarrow> au_faults au' = []"
  by (auto simp: write_audit_def split: sum.splits)

lemma stamp_again: "stamp_order b (stamp_order b od) = stamp_order b od"
  by (auto simp: stamp_order_def Let_def opt_truthy_def split: option.splits)

text \<open>
  A released order is published. The second contract gate, in front of the publication, checks
  the same bundle again and finds the same: as long as neither Redis nor the audit directory fails,
  the released order itself is the next message of the orders channel and of the orders stream, and
  its reservation is in place.
\<close>

theorem released_order_is_published:
  assumes "process_signal su sg payload m = (Inr (Some od), m')" "mg_redis_faults m = []" "au_faults (mg_audit m) = []"
  defines "m2 \<equiv> signal_message su sg payload m"
  shows "mg_orders_channel m2 = mg_orders_channel m @ [od] \<and> mg_orders_stream m2 = mg_orders_stream m @ [od]
    \<and> mg_risk m2 = mg_risk m' \<and> dget (rk_pending_reservations (mg_risk m2)) (opt_text (ro_client_id od)) \<noteq> None
    \<and> rk_pending_orders (mg_risk m2) = rk_pending_orders (mg_risk m) + 1"
proof -
  obtain ev strategy p b au where r: "released_by su sg payload m od m' ev strategy p b"
    "write_audit (su_sha su) b (mg_audit m) = (None, au)" "mg_audit m' = au"
    "fst (verify_bundle (su_sha su) (of_json b) True)" "bundle_matches_order b od = Inr ()" "od = stamp_order b od"
    by (rule released_means[OF assms(1)])
  obtain f where f: "audit_file (su_sha su) b = Inr f" using write_audit_file[OF r(2)] by blast
  have au: "au_faults (mg_audit m') = []" using write_audit_faults[OF r(2) assms(3)] r(3) by simp
  have st: "ro_contract od = Some b" "released_state od p m m'" using r(1) by (simp_all add: released_by_def)
  note g = gate_again[OF st(1) r(4,5) f au]
  show ?thesis
    using st(2) assms(2) g[of "''risk.send_order''" PNone PNone]
    by (simp add: m2_def signal_message_def assms(1) send_order_def redis_call_def released_state_def reserve_def Let_def flip: r(6))
qed

end
