(* ===== verification/RiskInvariants.thy ===== *)
theory RiskInvariants
  imports RiskRelease
begin

text \<open>
  What holds in every state of the risk manager that its handlers can reach from a start. What a
  state predicate has to survive is an interface, \<open>risk_invariant\<close>: the few ways in which the
  handlers change the risk state. A predicate that survives them holds in every reachable state.
\<close>

subsection \<open>The start\<close>

text \<open>
  \<open>bootstrap_state_from_db\<close>: the open positions with their side, size, entry price and current
  price, and the totals of the filled orders; \<open>None\<close> is a database error. Numeric columns are read
  as floats; a current price of zero counts as missing.
\<close>

record position_columns =
  pc_symbol :: string
  pc_long :: bool
  pc_size :: pyfloat
  pc_entry_price :: pyfloat
  pc_current_price :: "pyfloat option"

definition bootstrap_price :: "position_columns \<Rightarrow> pyfloat" where
  "bootstrap_price r = (case pc_current_price r of
     None \<Rightarrow> pc_entry_price r
   | Some p \<Rightarrow> if fl_truthy p then p else pc_entry_price r)"

definition bootstrap_row :: "risk_state \<Rightarrow> position_columns \<Rightarrow> risk_state" where
  "bootstrap_row rk r =
     (let size = (if pc_long r then pc_size r else fl_neg (pc_size r)) in
      rk\<lparr>rk_positions := dset (pc_symbol r) size (rk_positions rk),
         rk_last_prices := dset (pc_symbol r) (bootstrap_price r) (rk_last_prices rk)\<rparr>)"

definition bootstrap_exposure :: "pyfloat \<Rightarrow> position_columns \<Rightarrow> pyfloat" where
  "bootstrap_exposure acc r = fl_add acc (fl_mul (fl_abs (if pc_long r then pc_size r else fl_neg (pc_size r))) (bootstrap_price r))"

definition POSITION_THRESHOLD :: pyfloat where "POSITION_THRESHOLD = fl_round False 1 10000"

definition bootstrap_state :: "(position_columns list \<times> pyfloat \<times> pyfloat) option \<Rightarrow> risk_state \<Rightarrow> py_exc + risk_state" where
  "bootstrap_state db rk = (case db of
     None \<Rightarrow> Inl (RuntimeError ''Risk bootstrap failed'')
   | Some (rows, bought, sold) \<Rightarrow>
      if rows = [] then
        if fl_lt POSITION_THRESHOLD (fl_abs (fl_sub bought sold))
        then Inl (RuntimeError ''State mismatch: positions table empty but orders show open position'') else Inr rk
      else Inr ((foldl bootstrap_row rk rows)\<lparr>rk_total_exposure := foldl bootstrap_exposure fl_zero rows,
             rk_open_positions := length rows\<rparr>))"

definition started :: "manager \<Rightarrow> bool" where
  \<comment> \<open>a manager whose risk state is the one after the start\<close>
  "started m \<longleftrightarrow> (\<exists>db. bootstrap_state db initial_risk_state = Inr (mg_risk m))"

definition reachable :: "manager \<Rightarrow> bool" where
  "reachable m \<longleftrightarrow> (\<exists>m0. started m0 \<and> manager_step\<^sup>*\<^sup>* m0 m)"

subsection \<open>The interface\<close>

locale risk_invariant =
  fixes P :: "risk_state \<Rightarrow> bool"
  assumes start: "P initial_risk_state"
    and counted: "P rk \<Longrightarrow> P (rk\<lparr>rk_signals_blocked := n\<rparr>)"
    and pending: "P rk \<Longrightarrow> P (rk\<lparr>rk_pending_orders := n\<rparr>)"
    and breaker: "P rk \<Longrightarrow> P (rk\<lparr>rk_breaker := b\<rparr>)"
    and reserved: "P rk \<Longrightarrow> P (reserve od p rk)"
    and released: "P rk \<Longrightarrow> P (release_reservations c rk)"
    and filled: "P rk \<Longrightarrow> P (rk\<lparr>rk_positions := ps, rk_last_prices := lp, rk_total_exposure := t, rk_open_positions := k\<rparr>)"
begin

lemma redis: "(\<And>m. mg_risk (f m) = mg_risk m) \<Longrightarrow> redis_call f m = (ok, m') \<Longrightarrow> mg_risk m' = mg_risk m"
  by (auto simp: redis_call_def split: list.splits bool.splits)

lemma alert: "mg_risk (send_alert level code m) = mg_risk m"
  by (auto simp: send_alert_def count_alert_def redis_call_def split: prod.splits list.splits bool.splits)

lemma block: "P (mg_risk m) \<Longrightarrow> P (mg_risk (count_blocked m))"
  by (simp add: count_blocked_def counted)

lemma drop: "P (mg_risk m) \<Longrightarrow> P (mg_risk (drop_pending m))"
  by (simp add: drop_pending_def pending)

lemma skip: "mg_risk (count_skipped m) = mg_risk m"
  by (simp add: count_skipped_def)

lemma gate: "run_contract_gate su od source snapshot payload m = (r, m') \<Longrightarrow> mg_risk m' = mg_risk m"
  by (auto simp: run_contract_gate_def split: prod.splits)

lemma send: "P (mg_risk m) \<Longrightarrow> send_order su od m = (e, m') \<Longrightarrow> P (mg_risk m')"
  by (auto simp: send_order_def run_contract_gate_def redis_call_def drop_pending_def
      split: sum.splits prod.splits list.splits bool.splits if_splits intro: pending)

lemma claim: "acquire_paper_unwind_claim su key symbol side q m = (r, m') \<Longrightarrow> mg_risk m' = mg_risk m"
  by (auto simp: acquire_paper_unwind_claim_def split: if_splits option.splits sum.splits prod.splits)

lemma dispatch: "P (mg_risk m) \<Longrightarrow> dispatch_paper_unwind_order su key od m = (r, m') \<Longrightarrow> P (mg_risk m')"
proof -
  assume p: "P (mg_risk m)" and d: "dispatch_paper_unwind_order su key od m = (r, m')"
  obtain c m1 where c: "acquire_paper_unwind_claim su key (ro_symbol od) (opt_text (ro_side od)) (ro_quantity od) m = (c, m1)"
    by fastforce
  then have "P (mg_risk m1)" using p claim by simp
  then show ?thesis using d c
    by (auto simp: dispatch_paper_unwind_order_def count_claim_blocked_def split: unwind_claim.splits if_splits prod.splits option.splits
        intro: send)
qed

lemma dispatched: "P (mg_risk m) \<Longrightarrow> P (mg_risk (order_dispatched m))"
  by (simp add: order_dispatched_def pending)

lemma proactive: "P (mg_risk m) \<Longrightarrow> trigger_proactive_unwind su m = (e, m') \<Longrightarrow> P (mg_risk m')"
  by (auto simp: trigger_proactive_unwind_def Let_def split: if_splits list.splits prod.splits sum.splits bool.splits
      intro!: dispatched dest: dispatch)

lemma auto_unwind: "P (mg_risk m) \<Longrightarrow> maybe_auto_unwind su r m = (e, m') \<Longrightarrow> P (mg_risk m')"
  by (auto simp: maybe_auto_unwind_def split: if_splits prod.splits sum.splits bool.splits intro!: dispatched dest: dispatch)

lemma unwind_after: "P (mg_risk m) \<Longrightarrow> after_unwind (trigger_proactive_unwind su m) = (r, m') \<Longrightarrow> P (mg_risk m')"
  using proactive by (auto simp: after_unwind_def split: prod.splits option.splits)

lemma blocking: "P (mg_risk m) \<Longrightarrow> blocked m = (r, m') \<Longrightarrow> P (mg_risk m')"
  using block by (auto simp: blocked_def)

lemma contract: "P (mg_risk m) \<Longrightarrow> contract_step su payload od p m = (r, m') \<Longrightarrow> P (mg_risk m')"
  by (auto simp: contract_step_def run_contract_gate_def release_order_def Let_def
      split: prod.splits sum.splits if_splits intro!: reserved dest!: blocking[rotated])

lemma unwinding:
  "P (mg_risk m) \<Longrightarrow> after_unwind (trigger_proactive_unwind su (count_blocked (send_alert l c m))) = (r, m') \<Longrightarrow> P (mg_risk m')"
  by (rule unwind_after[of "count_blocked (send_alert l c m)"]) (simp_all add: block alert)

lemma alert_block: "P (mg_risk m) \<Longrightarrow> blocked (send_alert l c m) = (r, m') \<Longrightarrow> P (mg_risk m')"
  by (rule blocking[of "send_alert l c m"]) (simp_all add: alert)

lemma hard: "P (mg_risk m) \<Longrightarrow> hard_gates su payload od p m = (r, m') \<Longrightarrow> P (mg_risk m')"
  by (auto simp: hard_gates_def split: sum.splits if_splits elim: contract alert_block unwinding)

lemma size: "P (mg_risk m) \<Longrightarrow> size_and_build su sg payload strategy ev ro m = (r, m') \<Longrightarrow> P (mg_risk m')"
  by (auto simp: size_and_build_def Let_def skip split: sum.splits if_splits prod.splits elim: contract hard)

lemma position: "P (mg_risk m) \<Longrightarrow> position_layer su sg payload strategy ev ro m = (r, m') \<Longrightarrow> P (mg_risk m')"
  by (auto simp: position_layer_def split: sum.splits if_splits prod.splits elim: size alert_block)

lemma exposure: "P (mg_risk m) \<Longrightarrow> exposure_layer su sg payload strategy ev m = (r, m') \<Longrightarrow> P (mg_risk m')"
  using position[of "m\<lparr>mg_stats := s\<rparr>" for s]
  by (auto simp: exposure_layer_def Let_def split: if_splits elim: position unwinding)

lemma drawdown: "P (mg_risk m) \<Longrightarrow> drawdown_layer su sg payload strategy ev m = (r, m') \<Longrightarrow> P (mg_risk m')"
proof -
  assume p: "P (mg_risk m)" and d: "drawdown_layer su sg payload strategy ev m = (r, m')"
  obtain ok why rk where c: "check_drawdown_limit su (mg_risk m) = ((ok, why), rk)" by (metis prod.exhaust)
  define m1 where "m1 = m\<lparr>mg_risk := rk\<rparr>"
  have m1: "P (mg_risk m1)" using c p breaker by (auto simp: m1_def check_drawdown_limit_def Let_def split: sum.splits if_splits)
  have e: "mg_risk m3 = mg_risk m2" if "emit_bot_shutdown why m2 = (x, m3)" for x m2 m3
    using that by (auto simp: emit_bot_shutdown_def redis_call_def split: prod.splits list.splits bool.splits)
  obtain x m3 where s: "emit_bot_shutdown why (send_alert ''CRITICAL'' ''CIRCUIT_BREAKER'' m1) = (x, m3)" by fastforce
  have m3: "P (mg_risk m3)" using e[OF s] m1 by (simp add: alert)
  show ?thesis
  proof (cases ok)
    case True
    with d c show ?thesis using exposure[OF m1] by (simp add: drawdown_layer_def m1_def)
  next
    case False
    with d c s m1 m3 show ?thesis
      by (cases x; cases "mg_breaker_emitted (send_alert ''CRITICAL'' ''CIRCUIT_BREAKER'' m1)")
        (auto simp: drawdown_layer_def Let_def m1_def[symmetric] elim: alert_block
          intro: blocking[of "m3\<lparr>mg_breaker_emitted := True\<rparr>"])
  qed
qed

lemma allowed: "P (mg_risk m) \<Longrightarrow> allowed_signal su sg payload ev m = (r, m') \<Longrightarrow> P (mg_risk m')"
  by (auto simp: allowed_signal_def Let_def split: if_splits elim: drawdown blocking alert_block)

lemma signal: "P (mg_risk m) \<Longrightarrow> process_signal su sg payload m = (r, m') \<Longrightarrow> P (mg_risk m')"
proof -
  assume p: "P (mg_risk m)" and s: "process_signal su sg payload m = (r, m')"
  have a: "mg_risk (blocked_artefact su (count_blocked m)) = mg_risk (count_blocked m)"
    by (auto simp: blocked_artefact_def redis_call_def split: list.splits bool.splits)
  obtain active why where g: "kill_switch_gate su = (active, why)" by fastforce
  show ?thesis
  proof (cases "requires_protection payload \<and> \<not> stop_loss_protection_is_available \<or> active")
    case True
    then obtain c where "blocked (send_alert ''CRITICAL'' c m) = (r, m')"
      using s g by (cases "requires_protection payload \<and> \<not> stop_loss_protection_is_available") (auto simp: process_signal_def)
    then show ?thesis by (rule alert_block[OF p])
  next
    case False
    have b: "P (mg_risk (count_blocked m))" by (rule block[OF p])
    from False p s g show ?thesis
      by (auto simp: process_signal_def a b split: sum.splits if_splits option.splits dest: allowed)
  qed
qed

lemma signal_message: "P (mg_risk m) \<Longrightarrow> P (mg_risk (signal_message su sg payload m))"
proof -
  assume p: "P (mg_risk m)"
  obtain r m1 where s: "process_signal su sg payload m = (r, m1)" by fastforce
  note m1 = signal[OF p s]
  show ?thesis
  proof (cases "r = Inl (projl r) \<or> r = Inr None")
    case True
    with s m1 show ?thesis by (auto simp: signal_message_def skip split: sum.split)
  next
    case False
    then obtain od where r: "r = Inr (Some od)" by (cases r; cases "projr r") auto
    obtain e m2 where o: "send_order su od m1 = (e, m2)" by fastforce
    show ?thesis using s r o send[OF m1 o] by (cases e) (simp_all add: signal_message_def skip)
  qed
qed

lemma result_message: "P (mg_risk m) \<Longrightarrow> P (mg_risk (result_message su r m))"
proof -
  assume p: "P (mg_risk m)"
  define m1 where "m1 = drop_pending (m\<lparr>mg_stats := (mg_stats m)\<lparr>st_results := st_results (mg_stats m) + 1\<rparr>\<rparr>)"
  define m2 where "m2 = m1\<lparr>mg_risk := release_reservations (rr_client_id r) (mg_risk m1)\<rparr>"
  define m3 where "m3 = m2\<lparr>mg_risk := update_exposure r (mg_risk m2)\<rparr>"
  have m2: "P (mg_risk m2)" using p by (simp add: m1_def m2_def released drop_pending_def pending)
  have m3: "P (mg_risk m3)" using m2 by (auto simp: m3_def update_exposure_def Let_def intro: filled)
  obtain e m' where u: "maybe_auto_unwind su r m3 = (e, m')" by fastforce
  show ?thesis unfolding result_message_def handle_order_result_def Let_def m1_def[symmetric] m2_def[symmetric] m3_def[symmetric]
    using m2 m3 auto_unwind[OF m3 u] u by (simp add: alert)
qed

lemma step: "manager_step m m' \<Longrightarrow> P (mg_risk m) \<Longrightarrow> P (mg_risk m')"
  by (erule manager_stepE)
    (auto simp: regime_event_def regime_unknown_def allocation_event_def shutdown_event_def split: prod.split
      intro: signal_message result_message)

lemma bootstrapped: "bootstrap_state db initial_risk_state = Inr rk \<Longrightarrow> P rk"
proof -
  have rows: "\<exists>ps lp. foldl bootstrap_row rk rows = rk\<lparr>rk_positions := ps, rk_last_prices := lp\<rparr>" for rk rows
  proof (induction rows arbitrary: rk)
    case Nil
    show ?case by (intro exI[of _ "rk_positions rk"] exI[of _ "rk_last_prices rk"]) simp
  next
    case (Cons r rows)
    from Cons[of "bootstrap_row rk r"] show ?case by (auto simp: bootstrap_row_def Let_def)
  qed
  assume b: "bootstrap_state db initial_risk_state = Inr rk"
  show ?thesis
  proof (cases "rk = initial_risk_state")
    case False
    with b obtain rws where "rk = (foldl bootstrap_row initial_risk_state rws)\<lparr>rk_total_exposure := foldl bootstrap_exposure fl_zero rws,
        rk_open_positions := length rws\<rparr>"
      by (auto simp: bootstrap_state_def split: option.splits if_splits)
    moreover from rows[of initial_risk_state rws] obtain ps lp where
      "foldl bootstrap_row initial_risk_state rws = initial_risk_state\<lparr>rk_positions := ps, rk_last_prices := lp\<rparr>" by blast
    ultimately show ?thesis using filled[OF start, where ps = ps and lp = lp and t = "foldl bootstrap_exposure fl_zero rws" and k = "length rws"] by simp
  qed (simp add: start)
qed

lemma everywhere: "reachable m \<Longrightarrow> P (mg_risk m)"
proof -
  assume "reachable m"
  then obtain m0 where s: "started m0" and r: "manager_step\<^sup>*\<^sup>* m0 m" by (auto simp: reachable_def)
  from r show ?thesis
  proof (induction rule: rtranclp_induct)
    case base
    from s show ?case by (auto simp: started_def intro: bootstrapped)
  qed (rule step)
qed


end

subsection \<open>Two invariants\<close>

lemma release_pnl: "rk_daily_pnl (release_reservations c rk) = rk_daily_pnl rk"
  by (auto simp: release_reservations_def release_quantity_def release_exposure_def Let_def split: option.split)

interpretation no_loss: risk_invariant "\<lambda>rk. rk_daily_pnl rk = fl_zero"
  by unfold_locales (simp_all add: initial_risk_state_def reserve_def Let_def release_pnl)

definition same_clients :: "risk_state \<Rightarrow> bool" where
  \<comment> \<open>the reservations of exposure and of quantity belong to the same orders\<close>
  "same_clients rk \<longleftrightarrow> map fst (rk_pending_reservations rk) = map fst (rk_qty_reservations rk)
     \<and> distinct (map fst (rk_qty_reservations rk))"

lemma keys_dset: "map fst d = map fst e \<Longrightarrow> map fst (dset k v d) = map fst (dset k w e)"
  by (induction d e rule: list_induct2') auto

lemma keys_ddel: "map fst d = map fst e \<Longrightarrow> map fst (ddel k d) = map fst (ddel k e)"
  by (induction d e rule: list_induct2') (auto simp: AList.delete_eq)

lemma keys_dget: "map fst d = map fst e \<Longrightarrow> dget d k = None \<longleftrightarrow> dget e k = None"
  by (simp add: map_of_eq_None_iff flip: set_map)

lemma release_same_clients:
  assumes "same_clients rk"
  shows "same_clients (release_reservations c rk)"
proof (cases "dget (rk_pending_reservations rk) (opt_text c)")
  case None
  with assms keys_dget[of "rk_pending_reservations rk" "rk_qty_reservations rk" "opt_text c"]
  have "dget (rk_qty_reservations rk) (opt_text c) = None" by (simp add: same_clients_def)
  with None assms show ?thesis by (simp add: release_reservations_def release_exposure_def release_quantity_def)
next
  case (Some n)
  with assms keys_dget[of "rk_pending_reservations rk" "rk_qty_reservations rk" "opt_text c"]
  obtain s a where q: "dget (rk_qty_reservations rk) (opt_text c) = Some (s, a)"
    by (cases "dget (rk_qty_reservations rk) (opt_text c)") (auto simp: same_clients_def)
  from assms have "distinct (map fst (rk_qty_reservations rk))" unfolding same_clients_def by metis
  with assms keys_ddel[of "rk_pending_reservations rk" "rk_qty_reservations rk" "opt_text c"] Some q show ?thesis
    by (simp add: same_clients_def release_reservations_def release_exposure_def release_quantity_def Let_def)
qed

interpretation reservations: risk_invariant same_clients
proof unfold_locales
  fix rk od p
  assume s: "same_clients rk"
  then have "distinct (map fst (rk_qty_reservations rk))" unfolding same_clients_def by metis
  with s show "same_clients (reserve od p rk)"
    using keys_dset[of "rk_pending_reservations rk" "rk_qty_reservations rk" "opt_text (ro_client_id od)" "fl_mul (ro_quantity od) p"
        "(ro_symbol od, signed_quantity (opt_text (ro_side od)) (ro_quantity od))"]
    unfolding same_clients_def reserve_def Let_def by simp
next
  show "same_clients (release_reservations c rk)" if "same_clients rk" for rk c by (rule release_same_clients[OF that])
qed (simp_all add: same_clients_def initial_risk_state_def)

text \<open>
  C7. Losses never trip the circuit breaker. In every state the handlers can reach from a start the
  daily result is still zero: no handler assigns it. So whenever the balance is read and the largest
  permitted loss is positive, the drawdown check passes and changes nothing, whatever the fills lost.
\<close>

theorem breaker_ignores_losses:
  assumes "reachable m" "current_balance su AtDrawdown = Inr balance"
    and "fl_lt fl_zero (fl_mul balance (rc_max_daily_drawdown_pct (su_config su)))"
  shows "rk_daily_pnl (mg_risk m) = fl_zero \<and> check_drawdown_limit su (mg_risk m) = ((True, ''Drawdown OK''), mg_risk m)"
proof -
  have z: "rk_daily_pnl (mg_risk m) = fl_zero" by (rule no_loss.everywhere[OF assms(1)])
  have "\<not> fl_le fl_zero (fl_neg x)" if "fl_lt fl_zero x" for x
  proof (cases "fl_isfinite x")
    case True
    with that show ?thesis by (simp add: fl_le_val fl_lt_val)
  next
    case False
    with that show ?thesis by (cases x) (auto simp: fl_le_def fl_zero_def)
  qed
  with z assms(2,3) show ?thesis by (simp add: check_drawdown_limit_def)
qed

text \<open>
  C8. The two reservation tables agree. In every reachable state the reserved exposure and the
  reserved quantity are recorded for the same orders, each once, so that an execution result
  releases both or neither.
\<close>

theorem reservations_agree:
  assumes "reachable m"
  shows "distinct (map fst (rk_pending_reservations (mg_risk m)))
    \<and> (dget (rk_pending_reservations (mg_risk m)) c = None \<longleftrightarrow> dget (rk_qty_reservations (mg_risk m)) c = None)"
  using reservations.everywhere[OF assms]
    keys_dget[of "rk_pending_reservations (mg_risk m)" "rk_qty_reservations (mg_risk m)" c] unfolding same_clients_def by auto

subsection \<open>Reservations that are lost or kept\<close>

lemma release_known:
  assumes "c \<noteq> []" "dget (rk_pending_reservations rk) c = Some n"
  shows "rk_pending_exposure (release_reservations (Some c) rk) = fl_max fl_zero (fl_sub (rk_pending_exposure rk) n)"
    "dget (rk_pending_reservations (release_reservations (Some c) rk)) c = None"
  using assms by (auto simp: release_reservations_def release_exposure_def release_quantity_def Let_def opt_text_def opt_truthy_def split: option.split)

lemma release_unknown:
  assumes "dget (rk_pending_reservations rk) c = None"
  shows "rk_pending_exposure (release_reservations (Some c) rk) = rk_pending_exposure rk"
    "dget (rk_pending_reservations (release_reservations (Some c) rk)) c = None"
  using assms by (auto simp: release_reservations_def release_exposure_def release_quantity_def Let_def opt_text_def opt_truthy_def split: option.split)

text \<open>
  Two orders of one symbol and one time stamp share a client id, and the second reservation
  replaces the first. After the results of both orders, the notional of the first one is still
  counted as pending, no reservation is left that could release it, and a repeated result changes
  nothing.
\<close>

theorem shared_client_id_leaks:
  assumes "sg_timestamp sg2 = sg_timestamp sg1" "symbol_of sg2 = symbol_of sg1"
    and "od1 = new_order su1 sg1 strategy1 ev1 q1 price1 ro1 m1" "od2 = new_order su2 sg2 strategy2 ev2 q2 price2 ro2 m2"
    and "both = reserve od2 p2 (reserve od1 p1 rk)" "c = ro_client_id od1"
  shows "ro_client_id od2 = c
    \<and> rk_pending_exposure (release_reservations c both)
        = fl_max fl_zero (fl_sub (fl_add (fl_add (rk_pending_exposure rk) (fl_mul q1 p1)) (fl_mul q2 p2)) (fl_mul q2 p2))
    \<and> dget (rk_pending_reservations (release_reservations c both)) (opt_text c) = None
    \<and> rk_pending_exposure (release_reservations c (release_reservations c both)) = rk_pending_exposure (release_reservations c both)"
proof -
  obtain t where t: "c = Some t" "ro_client_id od2 = Some t" "ro_client_id od1 = Some t" "t \<noteq> []"
    using assms(1,2) by (simp add: assms(6,3,4) new_order_def)
  have b: "dget (rk_pending_reservations both) t = Some (fl_mul q2 p2)"
    "rk_pending_exposure both = fl_add (fl_add (rk_pending_exposure rk) (fl_mul q1 p1)) (fl_mul q2 p2)"
    using t(2,3) by (simp_all add: assms(5) reserve_def Let_def, simp_all add: assms(3,4) new_order_def opt_text_def)
  note k = release_known[OF t(4) b(1)]
  show ?thesis using t b k release_unknown[OF k(2)] by (simp add: opt_text_def)
qed

text \<open>
  A partial fill gives the whole reservation back. The first \<open>PARTIALLY_FILLED\<close> result of an
  order releases everything that was reserved for it, whatever part was filled: the open remainder
  is neither held nor reserved, and the later results of the order release nothing.
\<close>

theorem partial_fill_releases_everything:
  assumes "rr_status r = ''PARTIALLY_FILLED''" "rr_client_id r = Some c" "c \<noteq> []"
    and "dget (rk_pending_reservations (mg_risk m)) c = Some n"
  shows "\<exists>m'. handle_order_result su r m = (None, m')
    \<and> rk_pending_exposure (mg_risk m') = fl_max fl_zero (fl_sub (rk_pending_exposure (mg_risk m)) n)
    \<and> dget (rk_pending_reservations (mg_risk m')) c = None
    \<and> rk_pending_exposure (release_reservations (Some c) (mg_risk m')) = rk_pending_exposure (mg_risk m')"
proof -
  define rk where "rk = release_reservations (Some c) ((mg_risk m)\<lparr>rk_pending_orders := rk_pending_orders (mg_risk m) - Suc 0\<rparr>)"
  have rk: "rk_pending_exposure rk = fl_max fl_zero (fl_sub (rk_pending_exposure (mg_risk m)) n)" "dget (rk_pending_reservations rk) c = None"
    unfolding rk_def using assms(3,4) release_known[of c "(mg_risk m)\<lparr>rk_pending_orders := rk_pending_orders (mg_risk m) - Suc 0\<rparr>" n] by simp_all
  have u: "rk_pending_exposure (update_exposure r rk) = rk_pending_exposure rk"
    "rk_pending_reservations (update_exposure r rk) = rk_pending_reservations rk"
    by (simp_all add: update_exposure_def Let_def)
  show ?thesis
    using rk u release_unknown[of "update_exposure r rk" c]
    by (simp add: handle_order_result_def Let_def drop_pending_def assms(1,2) flip: rk_def)
qed

text \<open>
  An order that could not be published keeps its reservation. When Redis refuses the publication
  of a released order, the order is gone and no longer counted as pending, but its notional stays
  reserved: it takes part in every later exposure check, and no result will come that releases it.
\<close>

theorem unpublished_order_stays_reserved:
  assumes "process_signal su sg payload m = (Inr (Some od), m')" "mg_redis_faults m = True # faults" "au_faults (mg_audit m) = []"
  defines "m2 \<equiv> signal_message su sg payload m"
  shows "mg_orders_channel m2 = mg_orders_channel m
    \<and> rk_pending_orders (mg_risk m2) = rk_pending_orders (mg_risk m)
    \<and> rk_pending_exposure (mg_risk m2) = rk_pending_exposure (mg_risk m')
    \<and> dget (rk_pending_reservations (mg_risk m2)) (opt_text (ro_client_id od)) \<noteq> None"
proof -
  obtain ev strategy p b au where r: "released_by su sg payload m od m' ev strategy p b"
    "write_audit (su_sha su) b (mg_audit m) = (None, au)" "mg_audit m' = au"
    "fst (verify_bundle (su_sha su) (of_json b) True)" "bundle_matches_order b od = Inr ()" "od = stamp_order b od"
    by (rule released_means[OF assms(1)])
  obtain f where f: "audit_file (su_sha su) b = Inr f" using write_audit_file[OF r(2)] by blast
  have au: "au_faults (mg_audit m') = []" using write_audit_faults[OF r(2) assms(3)] r(3) by simp
  have st: "ro_contract od = Some b" "released_state od p m m'" using r(1) by (simp_all add: released_by_def)
  note g = gate_again[OF st(1) r(4,5) f au]
  show ?thesis
    using st(2) assms(2) g[of "''risk.send_order''" PNone PNone]
    by (simp add: m2_def signal_message_def assms(1) send_order_def redis_call_def drop_pending_def released_state_def reserve_def Let_def
        flip: r(6))
qed

end
