(* ===== verification/RegimeRisk.thy ===== *)
theory RegimeRisk
  imports Regime RiskInvariants
begin

text \<open>
  What the regime service promises: the current regime of a symbol is the last one that was
  confirmed, and a gap in its data turns risk off in the risk manager, which reads the service's
  stream (\<open>RiskManager._listen_regime_stream\<close> of \<open>services/risk/service.py\<close>). What neither promises:
  a gap does not restart a confirmation, and the risk manager does not tell symbols apart.
\<close>

subsection \<open>Confirmation\<close>

text \<open>The classification of a candle of \<open>key\<close>, if its indicators are available.\<close>

definition classified :: "regime_config \<Rightarrow> string \<Rightarrow> fields \<Rightarrow> regime_service \<Rightarrow> string list" where
  "classified cfg key d sv = (case candle_from_payload d of
     None \<Rightarrow> []
   | Some c \<Rightarrow> (case (compute_adx (bucket_of cfg c sv) (gc_adx_period cfg), compute_atr (bucket_of cfg c sv) (gc_atr_period cfg)) of
       (Some adx, Some atr) \<Rightarrow> if key_of c = key then [classify_raw_regime cfg adx atr (cd_close c) (current_of sv key)] else []
     | _ \<Rightarrow> []))"

fun classifications :: "regime_config \<Rightarrow> string \<Rightarrow> (pyfloat \<times> pyfloat \<times> fields) list \<Rightarrow> regime_service \<Rightarrow> string list" where
  "classifications cfg key [] sv = []"
| "classifications cfg key ((now, emitted, d) # evs) sv =
     classified cfg key d sv @ classifications cfg key evs (consume_candle cfg (now, emitted, d) sv)"

text \<open>The specification, on the classifications from the last to the first: the latest one that ends
  a run of \<open>n\<close> equal ones.\<close>

fun confirmed :: "nat \<Rightarrow> string \<Rightarrow> string list \<Rightarrow> string" where
  "confirmed n start [] = start"
| "confirmed n start (r # rs) = (if n \<le> length (takeWhile ((=) r) (r # rs)) then r else confirmed n start rs)"

definition awaiting :: "nat \<Rightarrow> string list \<Rightarrow> string \<Rightarrow> string option \<Rightarrow> nat \<Rightarrow> bool" where
  \<comment> \<open>the candidate and its count agree with the classifications so far\<close>
  "awaiting n rs cur cand k \<longleftrightarrow> cur = confirmed n ''UNKNOWN'' rs \<and> (case cand of
     None \<Rightarrow> rs = [] \<or> hd rs = cur
   | Some r \<Rightarrow> r \<noteq> cur \<and> rs \<noteq> [] \<and> hd rs = r \<and> k = length (takeWhile ((=) r) rs) \<and> k < n)"

definition awaits :: "regime_config \<Rightarrow> string \<Rightarrow> string list \<Rightarrow> regime_service \<Rightarrow> bool" where
  "awaits cfg key rs sv \<longleftrightarrow> awaiting (gc_confirmation_bars cfg) rs (current_of sv key) (dd (rg_candidate sv) key None) (dd (rg_count sv) key 0)"

lemma emit_regime_keeps [simp]:
  "rg_current (snd (emit_regime cfg emitted c r adx atr sv)) = rg_current sv"
  "rg_candidate (snd (emit_regime cfg emitted c r adx atr sv)) = rg_candidate sv"
  "rg_count (snd (emit_regime cfg emitted c r adx atr sv)) = rg_count sv"
  by (cases "rg_faults sv"; cases "hd (rg_faults sv)"; simp add: emit_regime_def)+

lemma awaiting_same: "awaiting n rs cur cand k \<Longrightarrow> awaiting n (cur # rs) cur None 0"
  by (simp add: awaiting_def)

lemma awaiting_count:
  assumes "awaiting n rs cur cand k" "raw \<noteq> cur"
  shows "length (takeWhile ((=) raw) (raw # rs)) = (if cand \<noteq> Some raw then 1 else k + 1)"
proof (cases "cand = Some raw")
  case True
  then show ?thesis using assms(1) by (simp add: awaiting_def)
next
  case False
  have "rs = [] \<or> hd rs \<noteq> raw"
    using assms False by (cases cand) (auto simp: awaiting_def)
  then have "takeWhile ((=) raw) rs = []" by (cases rs) auto
  with False show ?thesis by simp
qed

lemma awaiting_more:
  assumes "awaiting n rs cur cand k" "raw \<noteq> cur" "count = (if cand \<noteq> Some raw then 1 else k + 1)"
  shows "n \<le> count \<Longrightarrow> awaiting n (raw # rs) raw None 0" "\<not> n \<le> count \<Longrightarrow> awaiting n (raw # rs) cur (Some raw) count"
proof -
  note len = awaiting_count[OF assms(1,2)]
  show "awaiting n (raw # rs) raw None 0" if "n \<le> count" using that len unfolding assms(3) by (simp add: awaiting_def)
  show "awaiting n (raw # rs) cur (Some raw) count" if "\<not> n \<le> count"
    using that len assms(1,2) unfolding assms(3)
    by (simp add: awaiting_def del: takeWhile.simps)
qed

lemma settle_awaits:
  assumes "awaits cfg key rs sv"
  shows "awaits cfg key (if key_of c = key then raw # rs else rs) (snd (settle_regime cfg now emitted c raw adx atr sv))"
proof (cases "key_of c = key")
  case True
  note a = assms(1)[unfolded awaits_def]
  define count where "count = (if dd (rg_candidate sv) key None \<noteq> Some raw then 1 else dd (rg_count sv) key 0 + 1)"
  show ?thesis
  proof (cases "raw = current_of sv key")
    case same: True
    then show ?thesis
      using awaiting_same[OF a] True by (simp add: settle_regime_def Let_def awaits_def current_of_def)
  next
    case False
    then show ?thesis
      using awaiting_more[OF a False count_def] True
      by (cases "gc_confirmation_bars cfg \<le> count")
        (simp_all add: settle_regime_def Let_def awaits_def current_of_def count_def[symmetric])
  qed
next
  case False
  then show ?thesis
    using assms by (simp add: settle_regime_def Let_def awaits_def current_of_def)
qed

lemma consume_awaits:
  assumes "awaits cfg key rs sv" "candle_from_payload d \<noteq> None"
  shows "awaits cfg key (rev (classified cfg key d sv) @ rs) (consume_candle cfg (now, emitted, d) sv)"
proof -
  obtain c where c: "candle_from_payload d = Some c" using assms(2) by auto
  define sv1 where "sv1 = sv\<lparr>rg_processed := Suc (rg_processed sv)\<rparr>"
  have sv1: "awaits cfg key rs (store_candle cfg c sv1)" "bucket_of cfg c sv1 = bucket_of cfg c sv"
    "current_of (store_candle cfg c sv1) k = current_of sv k" for k
    using assms(1) by (simp_all add: sv1_def awaits_def store_candle_def bucket_of_def current_of_def)
  have k: "awaits cfg key rs (s\<lparr>rg_current := dset k (current_of s k) (rg_current s)\<rparr>)" if "awaits cfg key rs s" for s k
    using that by (auto simp: awaits_def current_of_def)
  show ?thesis
  proof (cases "compute_adx (bucket_of cfg c sv) (gc_adx_period cfg)")
    case None
    then show ?thesis using sv1 by (simp add: consume_candle_def c derive_regime_def classified_def Let_def flip: sv1_def)
  next
    case (Some adx)
    note adx = this
    show ?thesis
    proof (cases "compute_atr (bucket_of cfg c sv) (gc_atr_period cfg)")
      case None
      with adx show ?thesis using sv1 by (simp add: consume_candle_def c derive_regime_def classified_def Let_def flip: sv1_def)
    next
      case (Some atr)
      let ?raw = "classify_raw_regime cfg adx atr (cd_close c) (current_of sv (key_of c))"
      show ?thesis
        using settle_awaits[OF k[OF sv1(1), of "key_of c", unfolded sv1(3)], of c ?raw now emitted adx atr]
        by (cases "key_of c = key")
          (simp_all add: consume_candle_def c derive_regime_def classified_def Let_def adx Some sv1(2,3) flip: sv1_def)
    qed
  qed
qed

lemma run_awaits:
  assumes "awaits cfg key rs sv" "\<forall>(now, emitted, d) \<in> set evs. candle_from_payload d \<noteq> None"
  shows "awaits cfg key (rev (classifications cfg key evs sv) @ rs) (run_regime cfg evs sv)"
  using assms
proof (induction evs arbitrary: rs sv)
  case (Cons ev evs)
  obtain now emitted d where ev: "ev = (now, emitted, d)" by (cases ev)
  from Cons.prems have "candle_from_payload d \<noteq> None" by (auto simp: ev)
  from Cons.IH[OF consume_awaits[OF Cons.prems(1) this, of now emitted]] Cons.prems(2)
  show ?case by (simp add: ev run_regime_def)
qed (simp add: run_regime_def)

text \<open>
  C13. A regime is current when it is confirmed. After any sequence of candles, whatever Redis did,
  the current regime of a symbol is the latest classification that was given to
  \<open>confirmation_bars\<close> candles of the symbol in a row, and UNKNOWN before there is one.
\<close>

theorem regime_is_last_confirmed:
  assumes "\<forall>(now, emitted, d) \<in> set evs. candle_from_payload d \<noteq> None"
  shows "current_of (run_regime cfg evs (regime_start faults)) key
    = confirmed (gc_confirmation_bars cfg) ''UNKNOWN'' (rev (classifications cfg key evs (regime_start faults)))"
proof -
  have "awaits cfg key [] (regime_start faults)"
    by (simp add: awaits_def awaiting_def regime_start_def current_of_def dd_def)
  from run_awaits[OF this assms] show ?thesis by (simp add: awaits_def awaiting_def)
qed


subsection \<open>A gap in the data\<close>

text \<open>The risk manager's listener applies every message of the stream, whatever its symbol.\<close>

definition regime_listener :: "fields list \<Rightarrow> manager \<Rightarrow> manager" where
  "regime_listener ms m = fold (\<lambda>d. regime_event (Some (case dget d ''regime'' of None \<Rightarrow> ''UNKNOWN'' | Some r \<Rightarrow> r))) ms m"

lemma message_regime [simp]: "dget (regime_message cfg c r adx atr) ''regime'' = Some r"
  by (simp add: regime_message_def)

lemma regime_event_risk_off: "mg_risk_off (regime_event (Some r) m) \<longleftrightarrow> r \<in> {''HIGH_VOL_CHAOTIC'', ''UNKNOWN''}"
  if "r \<in> {''HIGH_VOL_CHAOTIC'', ''UNKNOWN'', ''TREND'', ''RANGE''}"
proof -
  have "strip ''HIGH_VOL_CHAOTIC'' = ''HIGH_VOL_CHAOTIC''" "strip ''UNKNOWN'' = ''UNKNOWN''" "strip ''TREND'' = ''TREND''" "strip ''RANGE'' = ''RANGE''"
    by code_simp+
  with that show ?thesis by (auto simp: regime_event_def apply_regime_state_def str_or_def)
qed

lemma regime_listener_append: "regime_listener (ms @ [d]) m =
    regime_event (Some (case dget d ''regime'' of None \<Rightarrow> ''UNKNOWN'' | Some r \<Rightarrow> r)) (regime_listener ms m)"
  by (simp add: regime_listener_def)

text \<open>The message can be written: its time, if it has one, is a number, and the stream takes it.\<close>

definition gap_is_written :: "fields \<Rightarrow> regime_service \<Rightarrow> bool" where
  "gap_is_written d sv \<longleftrightarrow>
     (text_of (get_or d ''ts'' ''timestamp'') = [] \<or> (\<exists>t. int_of_text (text_of (get_or d ''ts'' ''timestamp'')) = Inr t))
     \<and> (rg_faults sv = [] \<or> \<not> hd (rg_faults sv))"

lemma gap_effect:
  assumes "candle_from_payload d = None" "dget d ''symbol'' = Some symbol" "symbol \<noteq> []"
    and "get_or d ''timeframe'' ''interval'' = Some timeframe" "timeframe \<noteq> []"
    and "dget (rg_current sv) (regime_key symbol timeframe (dget d ''venue'')) \<noteq> Some ''UNKNOWN''"
  shows "current_of (consume_candle cfg (now, emitted, d) sv) (regime_key symbol timeframe (dget d ''venue'')) = ''UNKNOWN''"
    "gap_is_written d sv \<Longrightarrow> \<exists>msg. rg_stream (consume_candle cfg (now, emitted, d) sv) = rg_stream sv @ [msg] \<and> dget msg ''regime'' = Some ''UNKNOWN''"
    "\<not> gap_is_written d sv \<Longrightarrow> rg_stream (consume_candle cfg (now, emitted, d) sv) = rg_stream sv"
proof -
  have step: "consume_candle cfg (now, emitted, d) sv = snd (handle_missing_ohlcv cfg emitted d sv)"
    using assms(1) by (simp add: consume_candle_def)
  define ts where "ts = text_of (get_or d ''ts'' ''timestamp'')"
  note [simp] = step handle_missing_ohlcv_def Let_def emit_regime_def current_of_def gap_is_written_def ts_def[symmetric] assms
  show "current_of (consume_candle cfg (now, emitted, d) sv) (regime_key symbol timeframe (dget d ''venue'')) = ''UNKNOWN''"
    by (simp split: sum.splits list.splits bool.splits)
  show "\<exists>msg. rg_stream (consume_candle cfg (now, emitted, d) sv) = rg_stream sv @ [msg] \<and> dget msg ''regime'' = Some ''UNKNOWN''"
    if "gap_is_written d sv"
    using that by (cases "ts = []"; cases "rg_faults sv") (auto split: bool.splits)
  show "rg_stream (consume_candle cfg (now, emitted, d) sv) = rg_stream sv" if "\<not> gap_is_written d sv"
    using that by (cases "ts = []"; cases "int_of_text ts"; cases "rg_faults sv") (auto split: bool.splits)
qed

text \<open>
  C14. A gap in the data turns risk off, if it can be told. A message without prices makes the regime of
  its symbol UNKNOWN. Unless it was known to be unknown already, this is written to the stream at once,
  when the time of the message can be read and the stream accepts the write; otherwise the stream stays
  as it was. Once the risk manager has read the written message, wherever in the stream it started,
  risk is off, and a signal is then released only if its order is reduce-only, or its strategy has a
  small allocation (the early-live exception), or the evidence probe is switched on.
\<close>

theorem data_gap_turns_risk_off:
  assumes "candle_from_payload d = None" "dget d ''symbol'' = Some symbol" "symbol \<noteq> []"
    and "get_or d ''timeframe'' ''interval'' = Some timeframe" "timeframe \<noteq> []"
    and "dget (rg_current sv) (regime_key symbol timeframe (dget d ''venue'')) \<noteq> Some ''UNKNOWN''"
    and "sv' = consume_candle cfg (now, emitted, d) sv"
    and "seen \<le> length (rg_stream sv)" "m' = regime_listener (drop seen (rg_stream sv')) m"
  shows "current_of sv' (regime_key symbol timeframe (dget d ''venue'')) = ''UNKNOWN''
    \<and> (\<not> gap_is_written d sv \<longrightarrow> rg_stream sv' = rg_stream sv)
    \<and> (gap_is_written d sv \<longrightarrow> mg_risk_off m'
         \<and> (\<forall>su sg payload od m''. process_signal su sg payload m' = (Inr (Some od), m'') \<longrightarrow>
              ro_reduce_only od \<or> su_probe su
              \<or> (\<exists>strategy. sg_strategy_id sg = Some strategy
                   \<and> is_early_live_exception (su_config su) True (mg_allocations m') strategy)))"
proof -
  note gap = gap_effect[OF assms(1-6), of cfg now emitted, folded assms(7)]
  have off: "mg_risk_off m'" if w: "gap_is_written d sv"
  proof -
    obtain msg where "rg_stream sv' = rg_stream sv @ [msg]" "dget msg ''regime'' = Some ''UNKNOWN''" using gap(2)[OF w] by blast
    then show ?thesis using assms(8) by (simp add: assms(9) regime_listener_append regime_event_risk_off)
  qed
  have "ro_reduce_only od \<or> su_probe su \<or> (\<exists>strategy. sg_strategy_id sg = Some strategy
      \<and> is_early_live_exception (su_config su) True (mg_allocations m') strategy)"
    if w: "gap_is_written d sv" and r: "process_signal su sg payload m' = (Inr (Some od), m'')" for su sg payload od m''
  proof -
    obtain ev strategy p b au where "released_by su sg payload m' od m'' ev strategy p b" by (rule released_means[OF r])
    then show ?thesis using off[OF w] unfolding released_by_def by blast
  qed
  with gap off show ?thesis by blast
qed

lemma gap_keeps_candidate:
  assumes "candle_from_payload d = None"
  shows "dd (rg_candidate (consume_candle cfg (now, emitted, d) sv)) key None = dd (rg_candidate sv) key None"
    "dd (rg_count (consume_candle cfg (now, emitted, d) sv)) key 0 = dd (rg_count sv) key 0"
  using assms by (simp_all add: consume_candle_def handle_missing_ohlcv_def Let_def split: sum.split)

text \<open>
  A gap does not restart the confirmation. The candidate regime and its count survive a message
  without prices: when a candidate lacked one candle, a single candle with that classification after
  the gap makes it current, although no \<open>confirmation_bars\<close> candles in a row had it since the data
  were incomplete.
\<close>

theorem gap_does_not_restart_confirmation:
  assumes "candle_from_payload d = None" "sv1 = consume_candle cfg (now, emitted, d) sv"
    and "dd (rg_candidate sv) key None = Some r" "dd (rg_count sv) key 0 + 1 = gc_confirmation_bars cfg"
    and "candle_from_payload d' \<noteq> None" "classified cfg key d' sv1 = [r]" "current_of sv1 key \<noteq> r"
  shows "current_of (consume_candle cfg (now', emitted', d') sv1) key = r"
proof -
  have k: "dd (rg_candidate sv1) key None = Some r" "dd (rg_count sv1) key 0 + 1 = gc_confirmation_bars cfg"
    using gap_keeps_candidate[OF assms(1)] assms(2-4) by simp_all
  obtain c adx atr where c: "candle_from_payload d' = Some c" "key_of c = key"
    "compute_adx (bucket_of cfg c sv1) (gc_adx_period cfg) = Some adx" "compute_atr (bucket_of cfg c sv1) (gc_atr_period cfg) = Some atr"
    "classify_raw_regime cfg adx atr (cd_close c) (current_of sv1 key) = r"
    using assms(5,6) by (auto simp: classified_def split: option.splits if_splits)
  define sv2 where "sv2 = sv1\<lparr>rg_processed := Suc (rg_processed sv1)\<rparr>"
  have s: "bucket_of cfg c sv2 = bucket_of cfg c sv1" "current_of (store_candle cfg c sv2) k = current_of sv1 k"
    "rg_candidate (store_candle cfg c sv2) = rg_candidate sv1" "rg_count (store_candle cfg c sv2) = rg_count sv1" for k
    by (simp_all add: sv2_def store_candle_def bucket_of_def current_of_def)
  define sv3 where "sv3 = (store_candle cfg c sv2)\<lparr>rg_current := dset key (current_of sv1 key) (rg_current (store_candle cfg c sv2))\<rparr>"
  have s3: "current_of sv3 key = current_of sv1 key" "dd (rg_candidate sv3) key None = Some r" "dd (rg_count sv3) key 0 + 1 = gc_confirmation_bars cfg"
    using k by (simp_all add: sv3_def s) (simp add: current_of_def)
  have "consume_candle cfg (now', emitted', d') sv1 = snd (settle_regime cfg now' emitted' c r adx atr sv3)"
    using c by (simp add: consume_candle_def derive_regime_def Let_def s sv3_def flip: sv2_def)
  then show ?thesis
    using s3 assms(7) c(2) by (simp add: settle_regime_def Let_def) (simp add: current_of_def)
qed

subsection \<open>One regime for all symbols\<close>

text \<open>
  C15. The last symbol decides. The risk manager keeps one regime for everything that is written to
  the stream: when a candle of one symbol makes the service write TREND or RANGE, risk is on again,
  while another symbol is, and stays, in the chaotic regime.
\<close>

theorem last_symbol_decides_risk:
  assumes "rg_stream (consume_candle cfg (now, emitted, d) sv) = rg_stream sv @ [msg]"
    and "dget msg ''regime'' = Some r" "r \<in> {''TREND'', ''RANGE''}"
    and "candle_from_payload d = Some c" "key_of c \<noteq> other" "current_of sv other = ''HIGH_VOL_CHAOTIC''"
  shows "\<not> mg_risk_off (regime_listener (rg_stream (consume_candle cfg (now, emitted, d) sv)) m)
    \<and> current_of (consume_candle cfg (now, emitted, d) sv) other = ''HIGH_VOL_CHAOTIC''"
proof
  show "\<not> mg_risk_off (regime_listener (rg_stream (consume_candle cfg (now, emitted, d) sv)) m)"
    using assms(2,3) regime_event_risk_off[of r] by (auto simp: assms(1) regime_listener_def)
  show "current_of (consume_candle cfg (now, emitted, d) sv) other = ''HIGH_VOL_CHAOTIC''"
    using assms(4-6)
    by (auto simp: consume_candle_def derive_regime_def settle_regime_def Let_def current_of_def store_candle_def split: option.split)
qed

end
