(* ===== verification/RegimeSamples.thy ===== *)
theory RegimeSamples
  imports RegimeRisk
begin

text \<open>
  The properties of \<open>RegimeRisk\<close> at concrete candles, which are read from their texts, and whose
  indicators are evaluated.
\<close>

subsection \<open>Candles and their indicators\<close>

text \<open>
  Two candles of one symbol and a message without prices, with indicators of period one: the second
  candle is a trend.
\<close>

definition bars_config :: regime_config where
  "bars_config = \<lparr>gc_adx_period = 1, gc_atr_period = 1, gc_adx_trend = fl_int 25, gc_adx_range = fl_int 20,
     gc_atr_high_vol = fl_int 1, gc_confirmation_bars = 1, gc_heartbeat_s = fl_int 60, gc_source_version = ''1''\<rparr>"

definition bar :: "string \<Rightarrow> string \<Rightarrow> string \<Rightarrow> string \<Rightarrow> fields" where
  "bar symbol hi lo cl = [(''ts'', ''60''), (''symbol'', symbol), (''timeframe'', ''1m''), (''open'', ''10''),
     (''high'', hi), (''low'', lo), (''close'', cl), (''venue'', ''X'')]"

definition gap_message :: fields where
  "gap_message = [(''symbol'', ''B''), (''timeframe'', ''1m''), (''venue'', ''X''), (''ts'', ''120'')]"

lemma numbers_read:
  "int_of_text ''60'' = Inr 60" "int_of_text ''120'' = Inr 120"
  by code_simp+

lemma prices_read:
  "float_of_text ''8'' = Inr (fl_int 8)" "float_of_text ''10'' = Inr (fl_int 10)" "float_of_text ''12'' = Inr (fl_int 12)" "float_of_text ''14'' = Inr (fl_int 14)"
proof -
  have strip: "strip ''8'' = ''8''" "strip ''10'' = ''10''" "strip ''12'' = ''12''" "strip ''14'' = ''14''" by code_simp+
  have parsed: "split_sign ''8'' = (False, ''8'')" "split_sign ''10'' = (False, ''10'')" "split_sign ''12'' = (False, ''12'')" "split_sign ''14'' = (False, ''14'')"
    "lower ''8'' = ''8''" "lower ''10'' = ''10''" "lower ''12'' = ''12''" "lower ''14'' = ''14''"
    "underscores_ok None ''8''" "underscores_ok None ''10''" "underscores_ok None ''12''" "underscores_ok None ''14''"
    "PyDecimal.parse_number False ''8'' = Some (DFin False 8 0)" "PyDecimal.parse_number False ''10'' = Some (DFin False 10 0)"
    "PyDecimal.parse_number False ''12'' = Some (DFin False 12 0)" "PyDecimal.parse_number False ''14'' = Some (DFin False 14 0)"
    by code_simp+
  show "float_of_text ''8'' = Inr (fl_int 8)" "float_of_text ''10'' = Inr (fl_int 10)" "float_of_text ''12'' = Inr (fl_int 12)" "float_of_text ''14'' = Inr (fl_int 14)"
    by (simp_all add: float_of_text_def fl_of_text_def strip parsed fl_of_digits_def fl_int_def)
qed

definition bar_candle :: "int \<Rightarrow> int \<Rightarrow> int \<Rightarrow> candle" where
  "bar_candle hi lo cl = \<lparr>cd_ts = 60, cd_symbol = ''B'', cd_timeframe = ''1m'', cd_open = fl_int 10, cd_high = fl_int hi,
     cd_low = fl_int lo, cd_close = fl_int cl, cd_volume = fl_zero, cd_venue = Some ''X''\<rparr>"

definition bar1 :: fields where "bar1 = bar ''B'' ''10'' ''8'' ''10''"
definition bar2 :: fields where "bar2 = bar ''B'' ''12'' ''10'' ''12''"
definition bar3 :: fields where "bar3 = bar ''B'' ''14'' ''12'' ''14''"

lemma bars_read [simp]:
  "candle_from_payload bar1 = Some (bar_candle 10 8 10)" "candle_from_payload bar2 = Some (bar_candle 12 10 12)"
  "candle_from_payload bar3 = Some (bar_candle 14 12 14)"
  by (simp_all add: candle_from_payload_def candle_values_def bar1_def bar2_def bar3_def bar_def bar_candle_def get_or_def
      numbers_read prices_read)

lemma bar_key [simp]: "key_of (bar_candle hi lo cl) = ''B:1m:X''"
  by (simp add: key_of_def regime_key_def bar_candle_def)

lemma gap_unread [simp]: "candle_from_payload gap_message = None"
  by (simp add: candle_from_payload_def gap_message_def get_or_def)

lemma bars_arithmetic:
  "fl_sub (fl_int 12) (fl_int 10) = fl_int 2" "fl_sub (fl_int 10) (fl_int 10) = fl_int 0" "fl_sub (fl_int 8) (fl_int 10) = fl_int (- 2)"
  "fl_abs (fl_int 2) = fl_int 2" "fl_abs (fl_int 0) = fl_int 0" "fl_max (fl_int 2) (fl_int 2) = fl_int 2" "fl_max (fl_int 2) (fl_int 0) = fl_int 2"
  "fl_lt (fl_int (- 2)) (fl_int 2)" "\<not> fl_lt (fl_int 2) (fl_int (- 2))" "fl_lt (fl_int 0) (fl_int 2)" "fl_zero = fl_int 0"
  "fl_add (fl_int 0) (fl_int 2) = fl_int 2" "fl_add (fl_int 0) (fl_int 0) = fl_int 0" "fl_add (fl_int 0) (fl_int 100) = fl_int 100" "\<not> fl_truthy (fl_int 0)"
  "fl_div_nonzero (fl_int 2) (fl_int 1) = fl_int 2" "fl_div_nonzero (fl_int 100) (fl_int 1) = fl_int 100"
  "\<not> fl_eq (fl_int 2) (fl_int 0)" "fl_div_nonzero (fl_int 2) (fl_int 2) = fl_int 1" "fl_div_nonzero (fl_int 0) (fl_int 2) = fl_int 0"
  "fl_mul (fl_int 100) (fl_int 1) = fl_int 100" "fl_mul (fl_int 100) (fl_int 0) = fl_int 0" "fl_add (fl_int 100) (fl_int 0) = fl_int 100"
  "\<not> fl_eq (fl_int 100) (fl_int 0)" "fl_sub (fl_int 100) (fl_int 0) = fl_int 100" "fl_abs (fl_int 100) = fl_int 100"
  "fl_mul (fl_int 100) (fl_int 100) = fl_int 10000" "fl_div_nonzero (fl_int 10000) (fl_int 100) = fl_int 100"
  "fl_sub (fl_int 14) (fl_int 12) = fl_int 2" "fl_sub (fl_int 12) (fl_int 12) = fl_int 0" "fl_mul (fl_int 2) (fl_int 0) = fl_int 0"
  "fl_sub (fl_int 10) (fl_int 12) = fl_int (- 2)" "fl_mul (fl_int 0) (fl_int 0) = fl_int 0" "fl_div_nonzero (fl_int 0) (fl_int 1) = fl_int 0"
  by (simp_all add: int_eval)

lemma bars_indicators:
  "compute_atr [bar_candle 10 8 10, bar_candle 12 10 12] 1 = Some (fl_int 2)"
  "compute_adx [bar_candle 10 8 10, bar_candle 12 10 12] 1 = Some (fl_int 100)"
  "compute_atr [bar_candle 10 8 10, bar_candle 12 10 12, bar_candle 14 12 14] 1 = Some (fl_int 2)"
  "compute_adx [bar_candle 10 8 10, bar_candle 12 10 12, bar_candle 14 12 14] 1 = Some (fl_int 100)"
  by (simp_all add: wilder_def adx_step_def smooth_step_def compute_atr_def compute_adx_def bar_candle_def true_range_def movement_def fl_sum_def directional_index_def
      bars_arithmetic Let_def)

lemma bars_trend:
  "classify_raw_regime (bars_config\<lparr>gc_confirmation_bars := n\<rparr>) (fl_int 100) (fl_int 2) (fl_int 12) current = ''TREND''"
  "classify_raw_regime (bars_config\<lparr>gc_confirmation_bars := n\<rparr>) (fl_int 100) (fl_int 2) (fl_int 14) current = ''TREND''"
  by (simp_all add: classify_raw_regime_def bars_config_def int_eval)

definition confirm :: "nat \<Rightarrow> regime_config" where "confirm n = bars_config\<lparr>gc_confirmation_bars := n\<rparr>"

lemma confirm_simps [simp]: "gc_adx_period (confirm n) = 1" "gc_atr_period (confirm n) = 1" "gc_confirmation_bars (confirm n) = n"
  "bucket_size (confirm n) = 5"
  by (simp_all add: confirm_def bars_config_def bucket_size_def)

lemma bar_close [simp]: "cd_close (bar_candle hi lo cl) = fl_int cl"
  by (simp add: bar_candle_def)

lemma one_bar: "compute_atr [c] (Suc 0) = None" "compute_adx [c] (Suc 0) = None"
  by (simp_all add: compute_atr_def compute_adx_def)

lemmas bars_step = one_bar Let_def settle_regime_def emit_regime_def consume_candle_def derive_regime_def bucket_of_def store_candle_def classified_def regime_start_def
  bars_indicators[simplified] bars_trend[folded confirm_def] last_n_def current_of_def dd_def

theorem regime_is_last_confirmed_witness:
  "current_of (run_regime (confirm 1) [(fl_zero, fl_zero, bar1), (fl_zero, fl_zero, bar2)] (regime_start [])) ''B:1m:X'' = ''TREND''"
proof -
  have "classifications (confirm 1) ''B:1m:X'' [(fl_zero, fl_zero, bar1), (fl_zero, fl_zero, bar2)] (regime_start []) = [''TREND'']"
    by (simp add: bars_step)
  then show ?thesis by (subst regime_is_last_confirmed) simp_all
qed

text \<open>The gap.\<close>

lemma gap_key: "regime_key ''B'' ''1m'' (Some ''X'') = ''B:1m:X''"
  by (simp add: regime_key_def)

lemma gap_fields: "dget gap_message ''symbol'' = Some ''B''" "get_or gap_message ''timeframe'' ''interval'' = Some ''1m''"
  "dget gap_message ''venue'' = Some ''X''" "get_or gap_message ''ts'' ''timestamp'' = Some ''120''"
  by (simp_all add: gap_message_def get_or_def)

theorem data_gap_turns_risk_off_witness:
  "\<forall>m. mg_risk_off (regime_listener (rg_stream (consume_candle (confirm 1) (fl_zero, fl_zero, gap_message)
      ((regime_start [])\<lparr>rg_current := [(''B:1m:X'', ''TREND'')]\<rparr>))) m)"
proof
  fix m
  show "mg_risk_off (regime_listener (rg_stream (consume_candle (confirm 1) (fl_zero, fl_zero, gap_message)
      ((regime_start [])\<lparr>rg_current := [(''B:1m:X'', ''TREND'')]\<rparr>))) m)"
    using data_gap_turns_risk_off[OF gap_unread gap_fields(1) _ gap_fields(2) _ _ refl _ refl,
        where sv = "(regime_start [])\<lparr>rg_current := [(''B:1m:X'', ''TREND'')]\<rparr>" and seen = 0 and m = m
          and cfg = "confirm 1" and now = fl_zero and emitted = fl_zero]
    by (simp add: gap_fields gap_key numbers_read regime_start_def gap_is_written_def)
qed

text \<open>One candle is missing to two, then comes the gap.\<close>

definition waiting_service :: regime_service where
  "waiting_service = run_regime (confirm 2) [(fl_zero, fl_zero, bar1), (fl_zero, fl_zero, bar2)] (regime_start [])"

lemma waiting_service_eq:
  "waiting_service = (regime_start [])\<lparr>rg_candles := [(''B:1m:X'', [bar_candle 10 8 10, bar_candle 12 10 12])],
     rg_current := [(''B:1m:X'', ''UNKNOWN'')], rg_candidate := [(''B:1m:X'', Some ''TREND'')], rg_count := [(''B:1m:X'', 1)],
     rg_processed := 2\<rparr>"
  by (simp add: waiting_service_def run_regime_def bars_step)

lemma waiting_gap: "consume_candle (confirm 2) (fl_zero, fl_zero, gap_message) waiting_service = waiting_service"
  by (simp add: waiting_service_eq consume_candle_def handle_missing_ohlcv_def gap_fields gap_key Let_def)

theorem gap_does_not_restart_confirmation_witness:
  "current_of (consume_candle (confirm 2) (fl_zero, fl_zero, bar3)
     (consume_candle (confirm 2) (fl_zero, fl_zero, gap_message) waiting_service)) ''B:1m:X'' = ''TREND''"
  by (rule gap_does_not_restart_confirmation[OF gap_unread refl])
    (simp_all only: waiting_gap, simp_all add: waiting_service_eq bars_step)

text \<open>Another symbol is in the chaotic regime.\<close>

definition two_symbols :: regime_service where
  "two_symbols = (regime_start [])\<lparr>rg_candles := [(''B:1m:X'', [bar_candle 10 8 10])], rg_current := [(''E:1m:X'', ''HIGH_VOL_CHAOTIC'')]\<rparr>"

theorem last_symbol_decides_risk_witness:
  "\<forall>m. \<not> mg_risk_off (regime_listener (rg_stream (consume_candle (confirm 1) (fl_zero, fl_zero, bar2) two_symbols)) m)"
proof
  fix m
  let ?msg = "regime_message (confirm 1) (bar_candle 12 10 12) ''TREND'' (Some (fl_int 100)) (Some (fl_int 2))"
  have "rg_stream (consume_candle (confirm 1) (fl_zero, fl_zero, bar2) two_symbols) = rg_stream two_symbols @ [?msg]"
    by (simp add: two_symbols_def bars_step)
  from last_symbol_decides_risk[OF this message_regime, of "bar_candle 12 10 12" "''E:1m:X''" m]
  show "\<not> mg_risk_off (regime_listener (rg_stream (consume_candle (confirm 1) (fl_zero, fl_zero, bar2) two_symbols)) m)"
    by (simp add: two_symbols_def current_of_def dd_def)
qed

end
