(* ===== verification/RiskSamples.thy ===== *)
theory RiskSamples
  imports RiskInvariants
begin

text \<open>
  A worked example: one signal of the strategy \<open>paper\<close> on an account of 10000 USDT, run through
  \<open>process_signal\<close> to the released order, with no position (BUY) and with one to reduce (SELL). The
  properties of the risk manager are applied to it.
\<close>

subsection \<open>Numbers and texts\<close>

definition half :: pyfloat where "half = fl_round False 1 2"

lemma sample_texts:
  "float_str half = ''0.5''" "float_str (fl_int 2500) = ''2500.0''" "float_str (fl_int 10000) = ''10000.0''"
  "float_str fl_zero = ''0.0''" "float_str (fl_int 1) = ''1.0''" "float_str (fl_int 5000) = ''5000.0''"
  "float_str (fl_mul (rc_max_daily_drawdown_pct sample_config) (fl_int 100)) = ''6.25''"
  by (simp_all add: half_def fl_int_def fl_zero_def sample_config_def fl_of_scaled_def digits_eval, code_simp+)

lemma sample_settings [simp]: "rc_paper_auto_unwind sample_config = False" "rc_use_real_balance sample_config = False"
  "rc_test_balance sample_config = fl_int 10000"
  by (simp_all add: sample_config_def)

lemma sample_floats:
  "fl_mul (fl_int 10000) (rc_max_position_pct sample_config) = fl_int 2500"
  "fl_mul (fl_int 10000) (rc_max_total_exposure_pct sample_config) = fl_int 5000"
  "fl_mul (fl_int 2500) half = fl_int 1250"
  "fl_div (fl_int 1250) (fl_int 2500) = Inr half"
  "fl_mul half (fl_int 2500) = fl_int 1250"
  by (simp_all add: sample_config_def half_def fl_int_def fl_eval fl_of_scaled_def fl_div_def fl_iszero_def)

lemma sample_stripped:
  "strip ''0.5'' = ''0.5''" "strip ''2500.0'' = ''2500.0''" "strip ''6.25'' = ''6.25''" "strip ''10000.0'' = ''10000.0''"
  "strip ''0.0'' = ''0.0''" "strip ''1.0'' = ''1.0''" "strip ''5000.0'' = ''5000.0''"
  "lower ''0.5'' = ''0.5''" "lower ''2500.0'' = ''2500.0''" "lower ''6.25'' = ''6.25''" "lower ''10000.0'' = ''10000.0''"
  "lower ''0.0'' = ''0.0''" "lower ''1.0'' = ''1.0''" "lower ''5000.0'' = ''5000.0''"
  by code_simp+

lemma sample_decimals:
  "dec_of_string ''0.5'' = Inr (DFin False 5 (- 1))"
  "dec_of_string ''2500.0'' = Inr (DFin False 25000 (- 1))"
  "dec_of_string ''6.25'' = Inr (DFin False 625 (- 2))"
  "dec_of_string ''10000.0'' = Inr (DFin False 100000 (- 1))"
  "dec_of_string ''0.0'' = Inr (DFin False 0 (- 1))"
  "dec_of_string ''1.0'' = Inr (DFin False 10 (- 1))"
  "dec_of_string ''5000.0'' = Inr (DFin False 50000 (- 1))"
  by (simp_all add: dec_of_string_def sample_stripped split_sign_def PyDecimal.parse_number_def parse_exp_def is_digit_def
    digits_val_def digit_val_def in_limits_def MIN_EXP_def MAX_ADJ_def fl_eval ndigits.simps[of 0])

lemma sample_q:
  "q_str QTY_EXP (DFin False 5 (- 1)) = Inr (eight_places 50000000)"
  "q_str MONEY_EXP (DFin False 25000 (- 1)) = Inr (eight_places 250000000000)"
  "q_str RATIO_EXP (DFin False 625 (- 2)) = Inr (dec_format_f (DFin False 6250000 (- 6)))"
  "q_str MONEY_EXP (DFin False 100000 (- 1)) = Inr (eight_places 1000000000000)"
  "q_str MONEY_EXP (DFin False 0 (- 1)) = Inr (eight_places 0)"
  "q_str RATIO_EXP (DFin False 10 (- 1)) = Inr (dec_format_f (DFin False 1000000 (- 6)))"
  "q_str MONEY_EXP (DFin False 50000 (- 1)) = Inr (eight_places 500000000000)"
  by (simp_all add: q_str_def dec_quantize_fin rescale_def QTY_EXP_def MONEY_EXP_def RATIO_EXP_def eight_places_def del: dec_format_f.simps)

lemma sample_fields:
  "quantized_field QTY_EXP (PStr ''0.5'') = Inr (eight_places 50000000)"
  "quantized_field MONEY_EXP (PStr ''2500.0'') = Inr (eight_places 250000000000)"
  "quantized_field RATIO_EXP (PStr ''6.25'') = Inr (dec_format_f (DFin False 6250000 (- 6)))"
  "quantized_field MONEY_EXP (PStr ''10000.0'') = Inr (eight_places 1000000000000)"
  "quantized_field MONEY_EXP (PStr ''0.0'') = Inr (eight_places 0)"
  "quantized_field RATIO_EXP (PStr ''1.0'') = Inr (dec_format_f (DFin False 1000000 (- 6)))"
  "quantized_field MONEY_EXP (PStr ''5000.0'') = Inr (eight_places 500000000000)"
  by (simp_all add: quantized_field_def dc_to_decimal_def sample_stripped sample_decimals sample_q)

definition risk_input :: "string \<Rightarrow> bool \<Rightarrow> (string \<times> string) list \<Rightarrow> contract_input" where
  "risk_input side ro positions = \<lparr>ci_run_mode = ''paper'', ci_symbol = ''BTCUSDT'', ci_side = side,
     ci_quantity = eight_places 50000000, ci_price_ref = eight_places 250000000000, ci_timestamp = 10000,
     ci_reduce_only = ro, ci_balance = eight_places 1000000000000, ci_exposure = eight_places 0,
     ci_drawdown = dec_format_f (DFin False 1000000 (- 6)), ci_positions = positions,
     ci_max_notional = eight_places 250000000000, ci_max_exposure = eight_places 500000000000,
     ci_max_drawdown = dec_format_f (DFin False 6250000 (- 6)),
     ci_system = [(''paper_auto_unwind'', JBool False), (''service'', JStr ''risk_manager''), (''use_real_balance'', JBool False)],
     ci_source = ''risk.process_signal'', ci_signal_id = ''s1'', ci_strategy_id = ''paper'', ci_bot_id = []\<rparr>"

definition sample_su :: surroundings where
  "sample_su = \<lparr>su_config = sample_config, su_now = 10, su_now_ms = 10000, su_probe = False, su_trace_contract = False,
     su_evidence_debt = True, su_run_mode = None, su_trading_mode = None, su_kill = Some (False, None, [], None),
     su_fetcher = False, su_balance = (\<lambda>use. Inr (fl_int 10000)), su_market_state = (\<lambda>s. PNone), su_decision_id = ''d1'',
     su_trace_id = ''t1'', su_order_id = ''o1'', su_sha = sample_sha, su_uuid = (\<lambda>k. ''u''),
     su_decision_envelope_raises = False, su_order_envelope_raises = False\<rparr>"

definition sample_payload :: pyval where
  "sample_payload = PMap [(''market_state'', sample_market), (''account_state'', sample_account)]"

definition sample_manager :: "bool list \<Rightarrow> (string \<times> pyfloat) list \<Rightarrow> manager" where
  "sample_manager faults positions = \<lparr>mg_risk = initial_risk_state\<lparr>rk_positions := positions\<rparr>,
     mg_stats = \<lparr>st_blocked = 0, st_approved = 0, st_skipped = 0, st_alerts = 0, st_reduce_only_approved = 0,
       st_proactive_unwinds = 0, st_claims_blocked = 0, st_results = 0, st_rejected_execution = 0\<rparr>,
     mg_allocations = [(''paper'', \<lparr>al_pct = half, al_cooldown_until = None\<rparr>)], mg_regime = ''TREND'', mg_risk_off = False,
     mg_shutdown_strategies = [], mg_shutdown_bots = [], mg_breaker_emitted = False, mg_redis_faults = faults,
     mg_orders_channel = [], mg_orders_stream = [], mg_alerts_channel = [], mg_shutdown_stream = [],
     mg_audit = \<lparr>au_files = [], au_faults = []\<rparr>, mg_ledger = None\<rparr>"

definition sample_order :: "string \<Rightarrow> bool \<Rightarrow> risk_order" where
  "sample_order side ro = new_order sample_su (sample_signal side) ''paper'' (sample_evidence side) half (PFloat (fl_int 2500)) ro (sample_manager [] [])"

lemma sample_raw_input:
  assumes "positions = [] \<or> positions = [(''BTCUSDT'', half)]"
  shows "build_decision_contract_input sample_su (sample_order side ro) ''risk.process_signal'' sample_account sample_payload
      (initial_risk_state\<lparr>rk_positions := positions\<rparr>)
    = Inr (contract_input_value sample_su ''paper'' (sample_order side ro) ''risk.process_signal'' (initial_risk_state\<lparr>rk_positions := positions\<rparr>)
        (fl_int 10000) (fl_int 1) (fl_int 2500) 10000)"
proof -
  have "lower (strip ''paper'') = ''paper''" by code_simp
  moreover have "truthy (PFloat (fl_int 2500))" "\<not> fl_le (fl_int 2500) fl_zero" "\<not> fl_le (fl_int 10000) fl_zero"
    by (simp_all add: fl_int_def fl_eval fl_le_def fl_zero_def signed_def)
  ultimately show ?thesis
    by (simp add: build_decision_contract_input_def snapshot_balance_def contract_drawdown_def contract_timestamp_def sample_su_def
      sample_account_def get_value_def map_get_def sample_parsed sample_order_def new_order_def py_float_def num_float_def to_ms_timestamp_def ms_of_int_def
      resolve_contract_run_mode_def sample_payload_def sample_config_def)
qed


lemma sample_normalizes:
  assumes "side \<in> {''BUY'', ''SELL''}" "positions = [] \<or> positions = [(''BTCUSDT'', half)]"
  shows "normalize_contract_input (contract_input_value sample_su ''paper'' (sample_order side ro) ''risk.process_signal''
       (initial_risk_state\<lparr>rk_positions := positions\<rparr>) (fl_int 10000) (fl_int 1) (fl_int 2500) 10000)
    = Inr (risk_input side ro (map (\<lambda>(s, q). (s, eight_places 50000000)) positions))"
proof -
  have c: "clean_string False (PStr ''paper'') = Inr ''paper''" "lower ''paper'' = ''paper''"
    "clean_string False (PStr ''BTCUSDT'') = Inr ''BTCUSDT''" "clean_string True (PStr side) = Inr side"
    using assms(1) by (auto, code_simp+)
  have z: "fl_add (rk_total_exposure initial_risk_state) (rk_pending_exposure initial_risk_state) = fl_zero"
    by (simp add: initial_risk_state_def fl_zero_def signed_def)
  have k: "sort_key fst [(''paper_auto_unwind'', PBool False), (''use_real_balance'', PBool False), (''service'', PStr ''risk_manager'')]
    = [(''paper_auto_unwind'', PBool False), (''service'', PStr ''risk_manager''), (''use_real_balance'', PBool False)]"
    by code_simp
  show ?thesis
    using assms(2)
    by (auto simp: normalize_contract_input_def contract_input_value_def map_of_val_def map_get_def map_get_or_def float_text_def
        sample_order_def new_order_def sample_su_def sample_signal_def symbol_of_def opt_value_def opt_text_def c z sample_texts sample_floats
        sample_fields dc_to_int_def normalize_open_positions_def normalize_system_config_def k system_value_def risk_input_def
        position_entry_def simp del: dec_format_f.simps)
qed

lemma dec_text:
  assumes "c < 10 ^ 20" "q \<in> {- 8, - 6}"
  shows "dec_of_string (dec_format_f (DFin False c q)) = Inr (DFin False c q)"
proof (rule dec_of_string_format_f)
  have "ndigits c \<le> 20" using assms(1) by (subst ndigits_le_iff) simp_all
  then show "q + int (ndigits c) - 1 \<le> MAX_ADJ" using assms(2) by (auto simp: MAX_ADJ_def)
qed (use assms(2) in \<open>auto simp: MIN_EXP_def\<close>)

lemma risk_evaluates:
  assumes "side = ''BUY'' \<and> \<not> ro \<and> positions = [] \<or> side = ''SELL'' \<and> ro \<and> positions = [(''BTCUSDT'', half)]"
    and "ci = risk_input side ro (map (\<lambda>(s, q). (s, eight_places 50000000)) positions)"
  obtains co where "evaluate_normalized sample_sha ci = Inr co" "co_decision co = 1"
    "co_decision_hash co = replicate 64 (CHR ''0'')"
proof -
  have s: "side \<in> {''BUY'', ''SELL''}" "positions = [] \<or> positions = [(''BTCUSDT'', half)]" using assms(1) by auto
  have n: "contract_numbers_of ci = Inr \<lparr>cn_quantity = DFin False 50000000 (- 8),
    cn_price = DFin False 250000000000 (- 8), cn_balance = DFin False 1000000000000 (- 8),
    cn_exposure = DFin False 0 (- 8), cn_drawdown = DFin False 1000000 (- 6), cn_max_notional = DFin False 250000000000 (- 8),
    cn_max_exposure = DFin False 500000000000 (- 8), cn_max_drawdown = DFin False 6250000 (- 6)\<rparr>"
    by (simp add: contract_numbers_of_def assms(2) risk_input_def eight_places_def dec_text del: dec_format_f.simps)
  have v: "dec_val (DFin False 50000000 (- 8)) = 1 / 2" "dec_val (DFin False 250000000000 (- 8)) = 2500"
    "dec_val (DFin False 1000000000000 (- 8)) = 10000" "dec_val (DFin False 500000000000 (- 8)) = 5000"
    "dec_val (DFin False 1000000 (- 6)) = 1" "dec_val (DFin False 6250000 (- 6)) = 25 / 4"
    by (simp_all add: dec_val_def sgn_of_def power_int_def power_divide)
  obtain co where co: "evaluate_normalized sample_sha ci = Inr co"
    "co_decision co = (if contract_permits (ci_run_mode ci) (ci_side ci) (ci_reduce_only ci)
      (1 / 2) 2500 10000 (dec_val (DFin False 0 (- 8))) 1 2500 5000 (25 / 4) then 1 else 0)"
    by (rule evaluate_moderate[OF normalize_normal[OF sample_normalizes[OF s, of ro]], folded assms(2), OF n])
      (auto simp: moderate_def v)
  have "co_decision co = 1" using co(2) assms(1) by (auto simp: contract_permits_def assms(2) risk_input_def)
  moreover have "co_decision_hash co = replicate 64 (CHR ''0'')"
    using co(1) by (auto simp: evaluate_normalized_def ebind_eq_Inr decided_def sample_sha_def Let_def)
  ultimately show ?thesis using co(1) by (intro that)
qed

lemma risk_audit:
  assumes "evaluate_normalized sample_sha ci = Inr co" "co_decision_hash co = replicate 64 (CHR ''0'')" "normal_input ci" "co_decision co = 1"
  obtains f where "audit_file sample_sha (bundle_json ci co) = Inr f"
    "fst (verify_bundle sample_sha (of_json (bundle_json ci co)) True)"
proof -
  have v: "fst (verify_bundle sample_sha (of_json (bundle_json ci co)) r)" for r
    by (simp add: verify_bundle_json[OF assms(3)] assms(1,4))
  from v[of False] have "\<exists>f. audit_file sample_sha (bundle_json ci co) = Inr f"
    by (simp add: audit_file_def build_audit_record_def member_def bundle_json_def output_json_def assms(2) Let_def)
  with v that show ?thesis by blast
qed

lemma risk_quantity:
  "quantity_of_text (eight_places 50000000) = Inr (DFin False 50000000 (- 8))" "quantity_of_text ''0.5'' = Inr (DFin False 50000000 (- 8))"
  by (simp_all add: quantity_of_text_def eight_places_def dec_text sample_decimals dec_quantize_fin rescale_def QTY_EXP_def del: dec_format_f.simps)

lemma risk_matches: "bundle_matches_order (bundle_json (risk_input side ro ps) co) (sample_order side ro) = Inr ()"
proof -
  obtain q where q: "eight_places 50000000 = q" by blast
  note r = risk_quantity(1)[unfolded q]
  show ?thesis
  by (simp add: bundle_matches_order_def bundle_json_def input_json_def risk_input_def sample_order_def new_order_def get_value_def map_get_def
      map_get_or_def symbol_of_def sample_signal_def opt_value_def sample_texts risk_quantity(2) q r)
qed

lemma risk_released:
  assumes "side = ''BUY'' \<and> \<not> ro \<and> positions = [] \<or> side = ''SELL'' \<and> ro \<and> positions = [(''BTCUSDT'', half)]"
    and "mg_risk m = initial_risk_state\<lparr>rk_positions := positions\<rparr>" "au_faults (mg_audit m) = []"
  obtains b m' where "contract_step sample_su sample_payload (sample_order side ro) (fl_int 2500) m = (Inr (Some (stamp_order b (sample_order side ro))), m')"
proof -
  have s: "side \<in> {''BUY'', ''SELL''}" "positions = [] \<or> positions = [(''BTCUSDT'', half)]" using assms(1) by auto
  define ci where "ci = risk_input side ro (map (\<lambda>(s, q). (s, eight_places 50000000)) positions)"
  obtain co where co: "evaluate_normalized sample_sha ci = Inr co" "co_decision co = 1" "co_decision_hash co = replicate 64 (CHR ''0'')"
    by (rule risk_evaluates[OF assms(1) ci_def])
  note n = sample_normalizes[OF s, of ro, folded ci_def]
  obtain f where f: "audit_file sample_sha (bundle_json ci co) = Inr f" "fst (verify_bundle sample_sha (of_json (bundle_json ci co)) True)"
    by (rule risk_audit[OF co(1,3) normalize_normal[OF n] co(2)])
  have "get_value sample_payload ''account_state'' = sample_account" by (simp add: sample_payload_def get_value_def map_get_def)
  moreover have "ebind (build_decision_contract_input sample_su (sample_order side ro) ''risk.process_signal'' sample_account sample_payload (mg_risk m))
      (build_bundle sample_sha) = Inr (bundle_json ci co)"
    by (simp add: assms(2) sample_raw_input[OF s(2)] build_bundle_def n co(1))
  moreover have "ro_contract (sample_order side ro) = None" "su_sha sample_su = sample_sha" "\<not> su_order_envelope_raises sample_su"
    by (simp_all add: sample_order_def new_order_def sample_su_def)
  moreover have "bundle_matches_order (bundle_json ci co) (sample_order side ro) = Inr ()" unfolding ci_def by (rule risk_matches)
  ultimately show ?thesis using f assms(3)
    by (intro that[of "bundle_json ci co"])
      (simp add: contract_step_def run_contract_gate_def ensure_decision_contract_def write_audit_def release_order_def Let_def)
qed


lemma sample_steps:
  "requires_protection sample_payload = False" "kill_switch_gate sample_su = (False, [])"
  "market_state_of sample_su (sample_signal side) sample_payload = sample_market"
  "get_value sample_payload ''account_state'' = sample_account" "get_value sample_payload ''market_health'' = PNone"
  "trace_raises sample_su (sample_signal side) = False" "symbol_of (sample_signal side) = ''BTCUSDT''"
  "sg_side (sample_signal side) = Some side"
  "sg_strategy_id (sample_signal side) = Some ''paper''" "sg_price (sample_signal side) = PFloat (fl_int 2500)"
  by (simp_all add: requires_protection_def sample_payload_def get_value_def map_get_def kill_switch_gate_def sample_su_def market_state_of_def
      trace_raises_def symbol_of_def sample_signal_def sample_market_def)

lemma sample_su_fields:
  "su_config sample_su = sample_config" "su_now sample_su = 10" "su_now_ms sample_su = 10000" "su_probe sample_su = False"
  "su_decision_id sample_su = ''d1''" "su_trace_id sample_su = ''t1''" "su_decision_envelope_raises sample_su = False"
  by (simp_all add: sample_su_def)

lemma half_facts:
  "fl_le half fl_zero = False" "fl_lt half half = False" "fl_min half half = half" "fl_max half fl_zero = half"
  "fl_lt fl_zero half" "fl_abs half = half" "fl_lt half FLAT = False" "fl_le (fl_int 2500) fl_zero = False" "fl_isfinite half"
  "fl_le (fl_int 2500) (fl_int 1250) = False" "fl_le (fl_int 5000) (fl_int 1250) = False" "fl_lt (fl_int 1) half = False"
  "fl_truthy (fl_int 2500)"
  by (simp_all add: half_def fl_int_def fl_eval fl_le_def fl_zero_def signed_def fl_min_def fl_max_def FLAT_def)

lemma sample_sums:
  "fl_add fl_zero fl_zero = fl_zero" "fl_add fl_zero (fl_int 1250) = fl_int 1250" "fl_add fl_zero half = half"
  "fl_mul (fl_abs fl_zero) (fl_int 2500) = fl_zero" "fl_le (fl_int 2500) fl_zero = False" "fl_le (fl_int 5000) fl_zero = False"
  "fl_le fl_zero (fl_neg (fl_mul (fl_int 10000) (rc_max_daily_drawdown_pct sample_config))) = False"
  by (simp_all add: half_def fl_int_def fl_eval fl_le_def fl_zero_def signed_def fl_of_scaled_def sample_config_def)

lemma half_val: "fl_val half = 1 / 2"
  by (simp add: half_def fl_eval signed_def power_int_def power_divide)

lemma sample_size: "calculate_position_size sample_su (sample_signal side) half = Inr (half, None)"
  by (simp add: calculate_position_size_def current_balance_def sample_su_fields sample_floats half_facts sample_steps py_float_def num_float_def)


lemma sample_built:
  assumes "mg_risk_off m = False"
  shows "new_order sample_su (sample_signal side) ''paper'' (sample_evidence side) half (PFloat (fl_int 2500)) ro m = sample_order side ro"
  using assms by (simp add: sample_order_def new_order_def is_early_live_exception_def sample_manager_def)

lemma sample_no_position: "check_position_limit sample_su (sample_signal side) (initial_risk_state\<lparr>rk_positions := []\<rparr>) = Inr (True, ''Position OK'')"
  by (simp add: check_position_limit_def current_balance_def sample_su_fields sample_floats half_facts sample_steps price_or_last_def num_float_def
      num_le_zero_def float_at_def sample_sums)

lemma sample_half_position:
  "check_position_limit sample_su (sample_signal side) (initial_risk_state\<lparr>rk_positions := [(''BTCUSDT'', half)]\<rparr>) = Inr (True, ''Position OK'')"
  by (simp add: check_position_limit_def current_balance_def sample_su_fields sample_floats half_facts sample_steps price_or_last_def num_float_def
      num_le_zero_def float_at_def sample_sums)

lemma sample_limits:
  assumes "ps = [] \<or> ps = [(''BTCUSDT'', half)]"
  shows "check_drawdown_limit sample_su (initial_risk_state\<lparr>rk_positions := ps\<rparr>) = ((True, ''Drawdown OK''), initial_risk_state\<lparr>rk_positions := ps\<rparr>)"
    "fst (check_exposure_limit sample_su (initial_risk_state\<lparr>rk_positions := ps\<rparr>))"
    "check_position_limit sample_su (sample_signal side) (initial_risk_state\<lparr>rk_positions := ps\<rparr>) = Inr (True, ''Position OK'')"
    "is_reduce_only_allowed (initial_risk_state\<lparr>rk_positions := ps\<rparr>) (sample_signal side) = (side = ''SELL'' \<and> ps \<noteq> [])"
proof -
  show "check_drawdown_limit sample_su (initial_risk_state\<lparr>rk_positions := ps\<rparr>) = ((True, ''Drawdown OK''), initial_risk_state\<lparr>rk_positions := ps\<rparr>)"
    "fst (check_exposure_limit sample_su (initial_risk_state\<lparr>rk_positions := ps\<rparr>))"
    by (simp_all add: check_drawdown_limit_def check_exposure_limit_def current_balance_def sample_su_fields sample_sums sample_floats
        initial_risk_state_def)
  show "check_position_limit sample_su (sample_signal side) (initial_risk_state\<lparr>rk_positions := ps\<rparr>) = Inr (True, ''Position OK'')"
    using assms by (auto simp: sample_no_position sample_half_position)
  have "fl_lt half fl_zero = False" "fl_lt fl_zero fl_zero = False" by (simp_all add: fl_lt_val half_facts half_val)
  then show "is_reduce_only_allowed (initial_risk_state\<lparr>rk_positions := ps\<rparr>) (sample_signal side) = (side = ''SELL'' \<and> ps \<noteq> [])"
    using assms by (auto simp: is_reduce_only_allowed_def float_at_def sample_steps half_facts Let_def)
qed

lemma sample_hard: "hard_gates sample_su sample_payload (sample_order ''BUY'' False) (fl_int 2500) m =
    contract_step sample_su sample_payload (sample_order ''BUY'' False) (fl_int 2500) m"
  if "mg_risk m = initial_risk_state\<lparr>rk_positions := []\<rparr>"
proof -
  have o: "ro_quantity (sample_order ''BUY'' False) = half" "ro_side (sample_order ''BUY'' False) = Some ''BUY''"
    "ro_symbol (sample_order ''BUY'' False) = ''BTCUSDT''"
    by (simp_all add: sample_order_def new_order_def sample_steps)
  have "upper ''BUY'' = ''BUY''" by code_simp
  with that show ?thesis
    by (simp add: hard_gates_def sample_su_fields sample_floats compute_projected_exposure_def initial_risk_state_def sample_sums half_facts o
        check_projected_position_limit_def current_balance_def float_at_def signed_quantity_def opt_text_def)
qed

lemma sample_run:
  assumes "side = ''BUY'' \<and> \<not> ro \<and> positions = [] \<or> side = ''SELL'' \<and> ro \<and> positions = [(''BTCUSDT'', half)]"
  obtains b m' where "process_signal sample_su (sample_signal side) sample_payload (sample_manager faults positions)
    = (Inr (Some (stamp_order b (sample_order side ro))), m')"
proof -
  let ?m = "sample_manager faults positions"
  define m1 where "m1 = (if ro then ?m\<lparr>mg_stats := (mg_stats ?m)\<lparr>st_reduce_only_approved := st_reduce_only_approved (mg_stats ?m) + 1\<rparr>\<rparr> else ?m)"
  have ps: "positions = [] \<or> positions = [(''BTCUSDT'', half)]" using assms by auto
  have m: "mg_risk ?m = initial_risk_state\<lparr>rk_positions := positions\<rparr>" "mg_risk m1 = initial_risk_state\<lparr>rk_positions := positions\<rparr>"
    "au_faults (mg_audit m1) = []" "mg_risk_off m1 = False" "mg_allocations m1 = mg_allocations ?m" "mg_risk_off ?m = False"
    by (simp_all add: sample_manager_def m1_def)
  obtain b m' where r: "contract_step sample_su sample_payload (sample_order side ro) (fl_int 2500) m1
      = (Inr (Some (stamp_order b (sample_order side ro))), m')"
    by (rule risk_released[OF assms m(2,3)])
  have pct: "al_pct (allocation_of (mg_allocations m1) ''paper'') = half" by (simp add: m1_def sample_manager_def allocation_of_def)
  have buy: "\<not> ro \<Longrightarrow> side = ''BUY''" using assms by auto
  have q: "ro \<Longrightarrow> float_at (rk_positions (mg_risk m1)) ''BTCUSDT'' = half" using assms m(2) by (auto simp: float_at_def)
  have h: "\<not> ro \<Longrightarrow> hard_gates sample_su sample_payload (sample_order ''BUY'' False) (fl_int 2500) m1 =
      contract_step sample_su sample_payload (sample_order ''BUY'' False) (fl_int 2500) m1"
    by (rule sample_hard) (use assms in \<open>auto simp: m(2)\<close>)
  have "size_and_build sample_su (sample_signal side) sample_payload ''paper'' (sample_evidence side) ro m1
      = (Inr (Some (stamp_order b (sample_order side ro))), m')"
    using r buy q h
    by (cases ro) (simp_all add: size_and_build_def pct sample_size half_facts price_or_last_def sample_steps num_le_zero_def num_float_def Let_def
        sample_built[OF m(4)])
  then have "position_layer sample_su (sample_signal side) sample_payload ''paper'' (sample_evidence side) ro m1
      = (Inr (Some (stamp_order b (sample_order side ro))), m')"
    by (simp only: position_layer_def m(2) sample_limits(3)[OF ps] sum.case prod.case) simp
  moreover have red: "is_reduce_only_allowed (mg_risk ?m) (sample_signal side) = ro"
    using assms by (auto simp: m(1) sample_limits(4)[OF ps])
  ultimately have "exposure_layer sample_su (sample_signal side) sample_payload ''paper'' (sample_evidence side) ?m
      = (Inr (Some (stamp_order b (sample_order side ro))), m')"
    using sample_limits(2)[OF ps] by (simp add: exposure_layer_def m(1) Let_def m1_def)
  moreover have u: "?m\<lparr>mg_risk := initial_risk_state\<lparr>rk_positions := positions\<rparr>\<rparr> = ?m" by (simp add: sample_manager_def)
  ultimately have d: "drawdown_layer sample_su (sample_signal side) sample_payload ''paper'' (sample_evidence side) ?m
      = (Inr (Some (stamp_order b (sample_order side ro))), m')"
    by (simp add: drawdown_layer_def m(1) sample_limits(1)[OF ps] u)
  have "shut_down (sample_signal side) ''paper'' ?m = False" "fst (allocation_allowed 10 (mg_allocations ?m) ''paper'')"
    by (simp_all add: shut_down_def sample_manager_def sample_signal_def opt_truthy_def allocation_allowed_def allocation_of_def half_facts)
  with d have "allowed_signal sample_su (sample_signal side) sample_payload (sample_evidence side) ?m
      = (Inr (Some (stamp_order b (sample_order side ro))), m')"
    by (simp add: allowed_signal_def sample_steps opt_text_def sample_su_fields m(6))
  then show ?thesis
    by (intro that[of b m']) (simp add: process_signal_def sample_steps sample_su_fields sample_decision)
qed


subsection \<open>The properties on it\<close>

lemma sample_order_fields:
  "ro_side (sample_order side ro) = Some side" "ro_reduce_only (sample_order side ro) = ro"
  "ro_symbol (sample_order side ro) = ''BTCUSDT''" "ro_quantity (sample_order side ro) = half"
  by (simp_all add: sample_order_def new_order_def sample_steps)

theorem released_order_passed_every_gate_witness:
  "\<exists>od m'. process_signal sample_su (sample_signal ''BUY'') sample_payload (sample_manager [] []) = (Inr (Some od), m')
     \<and> fl_isfinite (ro_quantity od) \<and> 0 < fl_val (ro_quantity od)"
proof -
  obtain b m' where "process_signal sample_su (sample_signal ''BUY'') sample_payload (sample_manager [] [])
      = (Inr (Some (stamp_order b (sample_order ''BUY'' False))), m')"
    by (rule sample_run[of "''BUY''" False "[]"]) auto
  from released_order_passed_every_gate[OF this] this show ?thesis by blast
qed

theorem released_exposure_bounded_witness:
  "\<exists>od m'. process_signal sample_su (sample_signal ''BUY'') sample_payload (sample_manager [] []) = (Inr (Some od), m')
     \<and> fl_val (rk_total_exposure (mg_risk m')) + fl_val (rk_pending_exposure (mg_risk m')) < 5000 * (1 + 4 * ULP) + 4 * TINY"
proof -
  obtain b m' where r: "process_signal sample_su (sample_signal ''BUY'') sample_payload (sample_manager [] [])
      = (Inr (Some (stamp_order b (sample_order ''BUY'' False))), m')"
    by (rule sample_run[of "''BUY''" False "[]"]) auto
  have z: "0 \<le> fl_val (rk_total_exposure (mg_risk (sample_manager [] [])))" "0 \<le> fl_val (rk_pending_exposure (mg_risk (sample_manager [] [])))"
    by (simp_all add: sample_manager_def initial_risk_state_def)
  have b: "(if rc_use_real_balance (su_config sample_su) then su_balance sample_su AtHardGate else Inr (rc_test_balance (su_config sample_su)))
      = Inr (fl_int 10000)"
    and c: "fl_int 5000 = fl_mul (fl_int 10000) (rc_max_total_exposure_pct (su_config sample_su))"
    by (simp_all add: sample_su_fields sample_floats)
  have v: "fl_isfinite (fl_int 5000)" "fl_val (fl_int 5000) = 5000" by (simp_all add: fl_int_def fl_eval signed_def power_int_def power_divide)
  have "\<not> ro_reduce_only (stamp_order b (sample_order ''BUY'' False))" by (simp add: sample_order_fields)
  from released_exposure_bounded[OF r this z b c v(1)] r show ?thesis by (auto simp: v(2))
qed

theorem reduce_only_order_is_covered_witness:
  "\<exists>od m'. process_signal sample_su (sample_signal ''SELL'') sample_payload (sample_manager [] [(''BTCUSDT'', half)]) = (Inr (Some od), m')
     \<and> ro_reduce_only od \<and> fl_le (ro_quantity od) half"
proof -
  obtain b m' where r: "process_signal sample_su (sample_signal ''SELL'') sample_payload (sample_manager [] [(''BTCUSDT'', half)])
      = (Inr (Some (stamp_order b (sample_order ''SELL'' True))), m')"
    by (rule sample_run[of "''SELL''" True "[(''BTCUSDT'', half)]"]) auto
  have "ro_reduce_only (stamp_order b (sample_order ''SELL'' True))" by (simp add: sample_order_fields)
  from reduce_only_order_is_covered[OF r] this r show ?thesis
    by (auto simp: sample_order_fields sample_manager_def float_at_def half_facts)
qed

theorem released_order_is_published_witness:
  "\<exists>od. mg_orders_channel (signal_message sample_su (sample_signal ''BUY'') sample_payload (sample_manager [] [])) = [od]
     \<and> ro_quantity od = half"
proof -
  obtain b m' where r: "process_signal sample_su (sample_signal ''BUY'') sample_payload (sample_manager [] [])
      = (Inr (Some (stamp_order b (sample_order ''BUY'' False))), m')"
    by (rule sample_run[of "''BUY''" False "[]"]) auto
  have "mg_redis_faults (sample_manager [] []) = []" "au_faults (mg_audit (sample_manager [] [])) = []" "mg_orders_channel (sample_manager [] []) = []"
    by (simp_all add: sample_manager_def)
  with released_order_is_published[OF r] show ?thesis by (simp add: sample_order_fields)
qed


lemma sample_reachable: "reachable (sample_manager [] [])"
proof -
  have "fl_lt POSITION_THRESHOLD (fl_abs (fl_sub fl_zero fl_zero)) = False"
    by (simp add: fl_sub_def fl_zero_def signed_def POSITION_THRESHOLD_def fl_eval)
  then have "bootstrap_state (Some ([], fl_zero, fl_zero)) initial_risk_state = Inr (mg_risk (sample_manager [] []))"
    by (simp add: bootstrap_state_def sample_manager_def initial_risk_state_def)
  then show ?thesis by (auto simp: reachable_def started_def)
qed

theorem breaker_ignores_losses_witness:
  "reachable (sample_manager [] []) \<and> fst (fst (check_drawdown_limit sample_su (mg_risk (sample_manager [] []))))"
proof -
  have "current_balance sample_su AtDrawdown = Inr (fl_int 10000)" by (simp add: current_balance_def sample_su_fields)
  moreover have "fl_lt fl_zero (fl_mul (fl_int 10000) (rc_max_daily_drawdown_pct (su_config sample_su)))"
    by (simp add: sample_su_fields sample_config_def fl_int_def fl_eval fl_of_scaled_def fl_zero_def signed_def)
  ultimately show ?thesis using breaker_ignores_losses[OF sample_reachable] sample_reachable by simp
qed

theorem reservations_agree_witness:
  "reachable (sample_manager [] []) \<and> distinct (map fst (rk_pending_reservations (mg_risk (sample_manager [] []))))"
  using reservations_agree[OF sample_reachable] sample_reachable by blast

theorem shared_client_id_leaks_witness:
  "\<exists>c both. dget (rk_pending_reservations (release_reservations (Some c) both)) c = None
     \<and> rk_pending_exposure (release_reservations (Some c) both) = fl_int 1250"
proof -
  let ?o = "new_order sample_su (sample_signal ''BUY'') ''paper'' (sample_evidence ''BUY'') half (PFloat (fl_int 2500)) False (sample_manager [] [])"
  define both where "both = reserve ?o (fl_int 2500) (reserve ?o (fl_int 2500) initial_risk_state)"
  obtain c where c: "ro_client_id ?o = Some c" by (simp add: new_order_def)
  have a: "rk_pending_exposure initial_risk_state = fl_zero" "opt_text (Some c) = c" by (simp_all add: initial_risk_state_def opt_text_def)
  have s: "fl_max fl_zero (fl_sub (fl_add (fl_int 1250) (fl_int 1250)) (fl_int 1250)) = fl_int 1250"
    by (simp add: fl_sub_def fl_int_def fl_eval fl_max_def fl_zero_def signed_def fl_of_scaled_def)
  from shared_client_id_leaks[OF refl refl refl refl both_def refl] show ?thesis
    by (simp only: c a sample_floats sample_sums s) blast
qed

definition sample_result :: order_result where
  "sample_result = \<lparr>rr_order_id = ''o1'', rr_status = ''PARTIALLY_FILLED'', rr_symbol = ''BTCUSDT'', rr_side = ''BUY'',
     rr_filled = fl_zero, rr_strategy_id = Some ''paper'', rr_bot_id = None, rr_price = None, rr_client_id = Some ''c'', rr_reduce_only = False\<rparr>"

theorem partial_fill_releases_everything_witness:
  "\<exists>m m'. handle_order_result sample_su sample_result m = (None, m') \<and> dget (rk_pending_reservations (mg_risk m)) ''c'' \<noteq> None
     \<and> dget (rk_pending_reservations (mg_risk m')) ''c'' = None"
proof -
  let ?m = "(sample_manager [] [])\<lparr>mg_risk := initial_risk_state\<lparr>rk_pending_reservations := [(''c'', fl_int 1250)]\<rparr>\<rparr>"
  have "dget (rk_pending_reservations (mg_risk ?m)) ''c'' = Some (fl_int 1250)" by simp
  moreover have "rr_status sample_result = ''PARTIALLY_FILLED''" "rr_client_id sample_result = Some ''c''" by (simp_all add: sample_result_def)
  ultimately show ?thesis using partial_fill_releases_everything[of sample_result "''c''" ?m "fl_int 1250" sample_su] by blast
qed

theorem unpublished_order_stays_reserved_witness:
  "\<exists>m. mg_orders_channel (signal_message sample_su (sample_signal ''BUY'') sample_payload m) = []
     \<and> rk_pending_reservations (mg_risk (signal_message sample_su (sample_signal ''BUY'') sample_payload m)) \<noteq> []"
proof -
  obtain b m' where r: "process_signal sample_su (sample_signal ''BUY'') sample_payload (sample_manager [True] [])
      = (Inr (Some (stamp_order b (sample_order ''BUY'' False))), m')"
    by (rule sample_run[of "''BUY''" False "[]"]) auto
  have f: "mg_redis_faults (sample_manager [True] []) = True # []" "au_faults (mg_audit (sample_manager [True] [])) = []"
    "mg_orders_channel (sample_manager [True] []) = []"
    by (simp_all add: sample_manager_def)
  from unpublished_order_stays_reserved[OF r f(1,2)] f(3) show ?thesis by (intro exI[of _ "sample_manager [True] []"]) auto
qed

end
