(* ===== verification/Allocation.thy ===== *)
theory Allocation
  imports PyText
begin

text \<open>
  The allocation service (\<open>services/allocation/service.py\<close>): which share of the capital a strategy may
  use, by the regime and by the strategy's closed trades. Messages are dictionaries of texts; \<open>read_ts\<close>
  stands for \<open>_parse_ts\<close>, whose reading of ISO dates depends on the machine's time zone. A rule gives
  each regime a number. Log lines and the HTTP endpoints are left out; an exception ends the service,
  as its loop does not catch any.
\<close>

subsection \<open>State\<close>

record allocation_config =
  ac_rules :: "(string, (string, pyfloat) pydict) pydict"
  ac_min_stable_seconds :: int
  ac_ema_alpha :: pyfloat
  ac_lookback_trades :: nat
  ac_lookback_days :: int
  ac_cooldown_seconds :: int
  ac_source_version :: string
  ac_schema_version :: string

definition validate_allocation_config :: "allocation_config \<Rightarrow> py_exc + bool" where
  "validate_allocation_config cfg =
     (if ac_min_stable_seconds cfg \<le> 0 then Inl (ValueError ''ALLOCATION_REGIME_MIN_STABLE_SECONDS'')
      else if ac_rules cfg = [] then Inl (ValueError ''ALLOCATION_RULES_JSON'')
      else Inr True)"

record held =
  hd_qty :: pyfloat
  hd_avg_price :: pyfloat

record trade_record =
  tr_ts :: int
  tr_return_pct :: pyfloat

record allocation_state =
  as_pct :: pyfloat
  as_cooldown_until :: "int option"
  as_last_updated :: "int option"

definition fresh_allocation :: allocation_state where
  "fresh_allocation = \<lparr>as_pct = fl_zero, as_cooldown_until = None, as_last_updated = None\<rparr>"

record allocation_service =
  al_regime :: string
  al_candidate :: "string option"
  al_since :: "int option"
  al_positions :: "(string, (string, held) pydict) pydict"
  al_trades :: "(string, trade_record list) pydict"
  al_allocations :: "(string, allocation_state) pydict"
  al_shutdown :: "string list"
  al_stream :: "fields list"
  al_regime_updates :: nat
  al_faults :: "bool list"

definition allocation_start :: "bool list \<Rightarrow> allocation_service" where
  "allocation_start faults = \<lparr>al_regime = ''UNKNOWN'', al_candidate = None, al_since = None, al_positions = [], al_trades = [],
     al_allocations = [], al_shutdown = [], al_stream = [], al_regime_updates = 0, al_faults = faults\<rparr>"

abbreviation allocation_of :: "allocation_service \<Rightarrow> string \<Rightarrow> allocation_state" where
  "allocation_of sv sid \<equiv> dd (al_allocations sv) sid fresh_allocation"

subsection \<open>The regime\<close>

definition update_regime :: "allocation_config \<Rightarrow> string \<Rightarrow> int \<Rightarrow> allocation_service \<Rightarrow> bool \<times> allocation_service" where
  "update_regime cfg regime ts sv =
     (if regime = al_regime sv then (False, sv\<lparr>al_candidate := None, al_since := None\<rparr>)
      else if al_candidate sv \<noteq> Some regime then (False, sv\<lparr>al_candidate := Some regime, al_since := Some ts\<rparr>)
      else (case al_since sv of
          None \<Rightarrow> (False, sv\<lparr>al_since := Some ts\<rparr>)
        | Some since \<Rightarrow>
            if ts - since < ac_min_stable_seconds cfg then (False, sv)
            else (True, sv\<lparr>al_regime := regime, al_candidate := None, al_since := None,
                al_regime_updates := al_regime_updates sv + 1\<rparr>)))"

subsection \<open>Fills and trades\<close>

definition record_trade :: "string \<Rightarrow> int \<Rightarrow> pyfloat \<Rightarrow> pyfloat \<Rightarrow> allocation_service \<Rightarrow> allocation_service" where
  "record_trade sid ts pnl notional sv =
     (if fl_le notional fl_zero then sv
      else sv\<lparr>al_trades := dset sid (last_n 2000 (dd (al_trades sv) sid []
          @ [\<lparr>tr_ts = ts, tr_return_pct = fl_div_nonzero pnl notional\<rparr>])) (al_trades sv)\<rparr>)"

definition store_held :: "string \<Rightarrow> string \<Rightarrow> held \<Rightarrow> allocation_service \<Rightarrow> allocation_service" where
  "store_held sid symbol pos sv =
     sv\<lparr>al_positions := dset sid (dset symbol pos (dd (al_positions sv) sid [])) (al_positions sv)\<rparr>"

definition held_of :: "string \<Rightarrow> string \<Rightarrow> allocation_service \<Rightarrow> held" where
  "held_of sid symbol sv = dd (dd (al_positions sv) sid []) symbol \<lparr>hd_qty = fl_zero, hd_avg_price = fl_zero\<rparr>"

definition apply_fill :: "string \<Rightarrow> string \<Rightarrow> int \<Rightarrow> pyfloat \<Rightarrow> pyfloat \<Rightarrow> allocation_service \<Rightarrow> allocation_service" where
  "apply_fill sid symbol ts delta price sv =
     (let pos = held_of sid symbol sv; q = hd_qty pos; avg = hd_avg_price pos in
      if fl_eq q fl_zero then store_held sid symbol \<lparr>hd_qty = delta, hd_avg_price = price\<rparr> sv
      else if fl_lt fl_zero (fl_mul q delta) then
        store_held sid symbol
          \<lparr>hd_qty = fl_add q delta,
           hd_avg_price = fl_div_nonzero (fl_add (fl_mul avg (fl_abs q)) (fl_mul price (fl_abs delta))) (fl_add (fl_abs q) (fl_abs delta))\<rparr> sv
      else
        let closing = fl_min (fl_abs q) (fl_abs delta);
            pnl = (if fl_lt fl_zero q then fl_mul (fl_sub price avg) closing else fl_mul (fl_sub avg price) closing);
            q' = fl_add q delta
        in store_held sid symbol
             (if fl_lt (fl_abs q') (fl_of_digits False 1 (- 9)) then \<lparr>hd_qty = fl_zero, hd_avg_price = fl_zero\<rparr>
              else \<lparr>hd_qty = q', hd_avg_price = price\<rparr>)
             (record_trade sid ts pnl (fl_mul avg closing) sv))"

type_synonym ts_reader = "string option \<Rightarrow> py_exc + int option"

definition handle_fill :: "ts_reader \<Rightarrow> fields \<Rightarrow> allocation_service \<Rightarrow> py_exc option \<times> allocation_service" where
  "handle_fill read_ts d sv =
     (if upper (text_of (dget d ''status'')) \<noteq> ''FILLED'' then (None, sv)
      else if text_of (dget d ''strategy_id'') = [] then (None, sv)
      else case read_ts (dget d ''timestamp'') of
        Inl e \<Rightarrow> (Some e, sv)
      | Inr t \<Rightarrow>
          (case (dget d ''symbol'', get_or d ''filled_quantity'' ''quantity'', dget d ''price'', t) of
             (Some symbol, Some q, Some p, Some ts) \<Rightarrow>
               if symbol = [] \<or> text_of (dget d ''side'') \<notin> {''BUY'', ''SELL''} then (None, sv)
               else (case ebind (float_of_text q) (\<lambda>qty. ebind (float_of_text p) (\<lambda>price. Inr (qty, price))) of
                   Inl e \<Rightarrow> (Some e, sv)
                 | Inr (qty, price) \<Rightarrow>
                     (None, apply_fill (text_of (dget d ''strategy_id'')) symbol ts
                        (if text_of (dget d ''side'') = ''BUY'' then qty else fl_neg qty) price sv))
           | _ \<Rightarrow> (None, sv)))"


subsection \<open>Performance\<close>

definition seconds_of_days :: "allocation_config \<Rightarrow> int" where
  "seconds_of_days cfg = ac_lookback_days cfg * 86400"

definition trades_in_window :: "allocation_config \<Rightarrow> int \<Rightarrow> trade_record list \<Rightarrow> trade_record list" where
  "trades_in_window cfg ts trades = filter (\<lambda>t. ts - seconds_of_days cfg \<le> tr_ts t) trades"

definition performance_window :: "allocation_config \<Rightarrow> int \<Rightarrow> trade_record list \<Rightarrow> trade_record list" where
  "performance_window cfg ts trades =
     (if ac_lookback_trades cfg \<le> length (trades_in_window cfg ts trades) then trades_in_window cfg ts trades
      else if ac_lookback_trades cfg \<le> length trades then last_n (ac_lookback_trades cfg) trades
      else trades)"

definition window_ready :: "allocation_config \<Rightarrow> int \<Rightarrow> trade_record list \<Rightarrow> bool" where
  "window_ready cfg ts window \<longleftrightarrow>
     ac_lookback_trades cfg \<le> length window \<and> seconds_of_days cfg \<le> ts - tr_ts (hd window)"

fun ema_of :: "allocation_config \<Rightarrow> pyfloat option \<Rightarrow> trade_record list \<Rightarrow> pyfloat option" where
  "ema_of cfg ema [] = ema"
| "ema_of cfg ema (t # ts) = ema_of cfg (Some (case ema of
       None \<Rightarrow> tr_return_pct t
     | Some e \<Rightarrow> fl_add (fl_mul (ac_ema_alpha cfg) (tr_return_pct t)) (fl_mul (fl_sub (fl_int 1) (ac_ema_alpha cfg)) e))) ts"

text \<open>With \<open>lookback_trades\<close> zero and no trade in the window, \<open>window[0]\<close> raises.\<close>

definition compute_performance :: "allocation_config \<Rightarrow> string \<Rightarrow> int \<Rightarrow> allocation_service \<Rightarrow> py_exc + (pyfloat option \<times> bool)" where
  "compute_performance cfg sid ts sv =
     (let trades = dd (al_trades sv) sid []; window = performance_window cfg ts trades in
      if trades = [] then Inr (None, False)
      else if ac_lookback_trades cfg = 0 \<and> window = [] then Inl OtherError
      else if \<not> window_ready cfg ts window then Inr (None, False)
      else Inr (ema_of cfg None window, True))"

text \<open>\<open>median\<close> of scores that can be compared.\<close>

fun insert_score :: "pyfloat \<Rightarrow> pyfloat list \<Rightarrow> pyfloat list" where
  "insert_score x [] = [x]"
| "insert_score x (y # ys) = (if fl_lt y x then y # insert_score x ys else x # y # ys)"

definition median :: "pyfloat list \<Rightarrow> pyfloat option" where
  "median xs =
     (let s = foldr insert_score xs []; n = length s in
      if n = 0 then None
      else if odd n then Some (s ! (n div 2))
      else Some (fl_div_nonzero (fl_add (s ! (n div 2 - 1)) (s ! (n div 2))) (fl_int 2)))"

subsection \<open>Decisions\<close>

definition decision_message :: "allocation_config \<Rightarrow> string \<Rightarrow> allocation_state \<Rightarrow> string \<Rightarrow> int \<Rightarrow> fields" where
  "decision_message cfg sid st reason ts =
     [(''ts'', int_str ts), (''strategy_id'', sid), (''allocation_pct'', fl_format 6 (as_pct st)), (''reason'', reason),
      (''cooldown_until'', case as_cooldown_until st of None \<Rightarrow> [] | Some c \<Rightarrow> int_str c),
      (''schema_version'', ac_schema_version cfg), (''source_version'', ac_source_version cfg)]"

definition emit_decision :: "fields \<Rightarrow> allocation_service \<Rightarrow> py_exc option \<times> allocation_service" where
  "emit_decision msg sv = (case al_faults sv of
     True # fs \<Rightarrow> (Some OtherError, sv\<lparr>al_faults := fs\<rparr>)
   | fs \<Rightarrow> (None, sv\<lparr>al_faults := tl fs, al_stream := al_stream sv @ [msg]\<rparr>))"

definition cooling :: "allocation_state \<Rightarrow> int \<Rightarrow> bool" where
  \<comment> \<open>\<open>state.cooldown_until and state.cooldown_until > ts\<close>\<close>
  "cooling st ts \<longleftrightarrow> (case as_cooldown_until st of None \<Rightarrow> False | Some c \<Rightarrow> c \<noteq> 0 \<and> ts < c)"

definition expire :: "allocation_state \<Rightarrow> int \<Rightarrow> allocation_state" where
  "expire st ts = (case as_cooldown_until st of
     None \<Rightarrow> st | Some c \<Rightarrow> if c \<noteq> 0 \<and> c \<le> ts then st\<lparr>as_cooldown_until := None\<rparr> else st)"

text \<open>The share before the look at the performance, and after it.\<close>

definition EARLY_LIVE :: pyfloat where "EARLY_LIVE = fl_of_digits False 2 (- 2)"

definition base_target :: "(string, pyfloat) pydict \<Rightarrow> string \<Rightarrow> bool \<Rightarrow> bool \<Rightarrow> pyfloat" where
  "base_target rule regime shut cool = (if shut \<or> cool then fl_zero else dd rule regime fl_zero)"

definition gated_target :: "pyfloat \<Rightarrow> pyfloat \<Rightarrow> bool \<Rightarrow> pyfloat option \<Rightarrow> pyfloat option \<Rightarrow> pyfloat \<times> string" where
  "gated_target target pct ready score med =
     (if fl_lt fl_zero target \<and> fl_eq pct fl_zero then
        if \<not> ready then (if fl_lt EARLY_LIVE target then fl_zero else target, ''|perf_not_ready'')
        else (case (med, score) of
          (Some m, Some s) \<Rightarrow> if fl_le s m then (fl_zero, ''|perf_below_median'') else (target, [])
        | _ \<Rightarrow> (target, []))
      else (target, []))"

definition decide_allocation ::
  "allocation_config \<Rightarrow> string \<Rightarrow> (string, pyfloat) pydict \<Rightarrow> bool \<Rightarrow> pyfloat option \<times> bool \<Rightarrow> pyfloat option \<Rightarrow> int
    \<Rightarrow> allocation_state \<Rightarrow> allocation_state \<times> string \<times> bool" where
  "decide_allocation cfg regime rule shut perf med ts st0 =
     (let st = expire st0 ts;
          cool = cooling st ts;
          (target, note) = gated_target (base_target rule regime shut cool) (as_pct st) (snd perf) (fst perf) med;
          sets = fl_lt fl_zero (as_pct st) \<and> fl_eq target fl_zero;
          cooldown = (if sets then Some (ts + ac_cooldown_seconds cfg) else as_cooldown_until st);
          reason = ''regime='' @ regime @ (if regime = ''HIGH_VOL_CHAOTIC'' then ''|risk_off'' else [])
            @ (if shut then ''|shutdown'' else []) @ (if cool then ''|cooldown'' else []) @ note
            @ (if sets then ''|cooldown_set'' else []);
          changed = (\<not> fl_eq (as_pct st) target \<or> as_cooldown_until st \<noteq> cooldown)
      in (\<lparr>as_pct = target, as_cooldown_until = cooldown, as_last_updated = Some ts\<rparr>, reason,
          changed \<or> as_last_updated st = None))"

fun compute_scores :: "allocation_config \<Rightarrow> int \<Rightarrow> allocation_service \<Rightarrow> (string \<times> 'a) list
    \<Rightarrow> py_exc + (string \<times> pyfloat option \<times> bool) list" where
  "compute_scores cfg ts sv [] = Inr []"
| "compute_scores cfg ts sv ((sid, rule) # rules) =
     ebind (compute_performance cfg sid ts sv) (\<lambda>p. ebind (compute_scores cfg ts sv rules) (\<lambda>ps. Inr ((sid, p) # ps)))"

definition allocate_one :: "allocation_config \<Rightarrow> (string \<times> pyfloat option \<times> bool) list \<Rightarrow> pyfloat option \<Rightarrow> int
    \<Rightarrow> string \<Rightarrow> (string, pyfloat) pydict \<Rightarrow> allocation_service \<Rightarrow> py_exc option \<times> allocation_service" where
  "allocate_one cfg perfs med ts sid rule sv =
     (case decide_allocation cfg (al_regime sv) rule (sid \<in> set (al_shutdown sv)) (dd perfs sid (None, False)) med ts (allocation_of sv sid) of
        (st, reason, emits) \<Rightarrow>
          let sv' = sv\<lparr>al_allocations := dset sid st (al_allocations sv)\<rparr>
          in if emits then emit_decision (decision_message cfg sid st reason ts) sv' else (None, sv'))"

fun allocate_all :: "allocation_config \<Rightarrow> (string \<times> pyfloat option \<times> bool) list \<Rightarrow> pyfloat option \<Rightarrow> int
    \<Rightarrow> (string \<times> (string, pyfloat) pydict) list \<Rightarrow> allocation_service \<Rightarrow> py_exc option \<times> allocation_service" where
  "allocate_all cfg perfs med ts [] sv = (None, sv)"
| "allocate_all cfg perfs med ts ((sid, rule) # rules) sv = (case allocate_one cfg perfs med ts sid rule sv of
     (Some e, sv') \<Rightarrow> (Some e, sv')
   | (None, sv') \<Rightarrow> allocate_all cfg perfs med ts rules sv')"

definition recompute_allocations :: "allocation_config \<Rightarrow> int \<Rightarrow> allocation_service \<Rightarrow> py_exc option \<times> allocation_service" where
  "recompute_allocations cfg ts sv = (case compute_scores cfg ts sv (ac_rules cfg) of
     Inl e \<Rightarrow> (Some e, sv)
   | Inr perfs \<Rightarrow> allocate_all cfg perfs (median (List.map_filter (fst \<circ> snd) perfs)) ts (ac_rules cfg) sv)"

subsection \<open>Messages\<close>

definition regime_of_message :: "fields \<Rightarrow> string" where
  "regime_of_message d = str_or (text_of (dget d ''regime'')) ''UNKNOWN''"

definition handle_regime_signal :: "allocation_config \<Rightarrow> ts_reader \<Rightarrow> fields \<Rightarrow> allocation_service \<Rightarrow> py_exc option \<times> allocation_service" where
  "handle_regime_signal cfg read_ts d sv = (case read_ts (dget d ''ts'') of
     Inl e \<Rightarrow> (Some e, sv)
   | Inr None \<Rightarrow> (None, sv)
   | Inr (Some ts) \<Rightarrow> (case update_regime cfg (regime_of_message d) ts sv of
       (changed, sv') \<Rightarrow> if changed then recompute_allocations cfg ts sv' else (None, sv')))"

definition note_shutdown :: "string \<Rightarrow> allocation_service \<Rightarrow> allocation_service" where
  "note_shutdown sid sv = (if sid = [] then sv else sv\<lparr>al_shutdown := List.insert sid (al_shutdown sv)\<rparr>)"

definition handle_shutdown :: "allocation_config \<Rightarrow> ts_reader \<Rightarrow> fields \<Rightarrow> allocation_service \<Rightarrow> py_exc option \<times> allocation_service" where
  "handle_shutdown cfg read_ts d sv =
     (let sv' = note_shutdown (text_of (dget d ''strategy_id'')) sv
      in (case read_ts (dget d ''ts'') of
          Inl e \<Rightarrow> (Some e, sv') | Inr None \<Rightarrow> (None, sv') | Inr (Some ts) \<Rightarrow> recompute_allocations cfg ts sv'))"

definition fill_message :: "allocation_config \<Rightarrow> ts_reader \<Rightarrow> fields \<Rightarrow> allocation_service \<Rightarrow> py_exc option \<times> allocation_service" where
  "fill_message cfg read_ts d sv = (case handle_fill read_ts d sv of
     (Some e, sv') \<Rightarrow> (Some e, sv')
   | (None, sv') \<Rightarrow> (case read_ts (dget d ''timestamp'') of
       Inl e \<Rightarrow> (Some e, sv') | Inr None \<Rightarrow> (None, sv') | Inr (Some ts) \<Rightarrow> recompute_allocations cfg ts sv'))"

text \<open>At the start the latest regime signal counts at once; \<open>now\<close> is used if it has no usable time.
  Whatever is raised then is only logged.\<close>

definition bootstrap_regime :: "allocation_config \<Rightarrow> ts_reader \<Rightarrow> int \<Rightarrow> fields \<Rightarrow> allocation_service \<Rightarrow> allocation_service" where
  "bootstrap_regime cfg read_ts now d sv = (case read_ts (dget d ''ts'') of
     Inl e \<Rightarrow> sv
   | Inr t \<Rightarrow> snd (recompute_allocations cfg (case t of None \<Rightarrow> now | Some ts \<Rightarrow> if ts = 0 then now else ts)
       (sv\<lparr>al_regime := regime_of_message d, al_candidate := None, al_since := None\<rparr>)))"

definition service_start :: "allocation_config \<Rightarrow> ts_reader \<Rightarrow> int \<Rightarrow> fields option \<Rightarrow> bool list \<Rightarrow> allocation_service" where
  \<comment> \<open>with the latest regime signal, if the stream holds one\<close>
  "service_start cfg read_ts now latest faults = (case latest of
     None \<Rightarrow> allocation_start faults | Some d \<Rightarrow> bootstrap_regime cfg read_ts now d (allocation_start faults))"

datatype allocation_event = RegimeSignal fields | FillMessage fields | ShutdownMessage fields

fun allocation_step :: "allocation_config \<Rightarrow> ts_reader \<Rightarrow> allocation_event \<Rightarrow> allocation_service \<Rightarrow> py_exc option \<times> allocation_service" where
  "allocation_step cfg read_ts (RegimeSignal d) sv = handle_regime_signal cfg read_ts d sv"
| "allocation_step cfg read_ts (FillMessage d) sv = fill_message cfg read_ts d sv"
| "allocation_step cfg read_ts (ShutdownMessage d) sv = handle_shutdown cfg read_ts d sv"

fun run_allocation :: "allocation_config \<Rightarrow> ts_reader \<Rightarrow> allocation_event list \<Rightarrow> allocation_service \<Rightarrow> py_exc option \<times> allocation_service" where
  "run_allocation cfg read_ts [] sv = (None, sv)"
| "run_allocation cfg read_ts (ev # evs) sv = (case allocation_step cfg read_ts ev sv of
     (Some e, sv') \<Rightarrow> (Some e, sv')
   | (None, sv') \<Rightarrow> run_allocation cfg read_ts evs sv')"

end
