(* ===== verification/AllocationGuards.thy ===== *)
theory AllocationGuards
  imports Allocation
begin

text \<open>
  What the allocation service promises: a strategy that is shut down or in its cooldown has no
  share, and a regime is in force only after it was signalled for long enough. And what it does not:
  a strategy that trades often is never ready, so it is never given more than the early-live share.
\<close>

subsection \<open>One strategy, all strategies\<close>

lemma emit_decision_keeps [simp]:
  "al_allocations (snd (emit_decision msg sv)) = al_allocations sv" "al_shutdown (snd (emit_decision msg sv)) = al_shutdown sv"
  "al_regime (snd (emit_decision msg sv)) = al_regime sv" "al_candidate (snd (emit_decision msg sv)) = al_candidate sv"
  "al_since (snd (emit_decision msg sv)) = al_since sv" "al_trades (snd (emit_decision msg sv)) = al_trades sv"
  by (cases "al_faults sv"; cases "hd (al_faults sv)"; simp add: emit_decision_def)+

lemma allocate_one_keeps [simp]:
  "al_shutdown (snd (allocate_one cfg perfs med ts sid rule sv)) = al_shutdown sv"
  "al_regime (snd (allocate_one cfg perfs med ts sid rule sv)) = al_regime sv"
  "al_candidate (snd (allocate_one cfg perfs med ts sid rule sv)) = al_candidate sv"
  "al_since (snd (allocate_one cfg perfs med ts sid rule sv)) = al_since sv"
  by (simp_all add: allocate_one_def Let_def split: prod.split)

lemma allocate_one_allocates [simp]:
  "allocation_of (snd (allocate_one cfg perfs med ts sid rule sv)) sid' =
     (if sid' = sid then fst (decide_allocation cfg (al_regime sv) rule (sid \<in> set (al_shutdown sv)) (dd perfs sid (None, False)) med ts
        (allocation_of sv sid)) else allocation_of sv sid')"
  by (simp add: allocate_one_def Let_def split: prod.split)

lemma allocate_all_step:
  "snd (allocate_all cfg perfs med ts ((sid, rule) # rules) sv) =
     (let r = allocate_one cfg perfs med ts sid rule sv in if fst r = None then snd (allocate_all cfg perfs med ts rules (snd r)) else snd r)"
  by (auto simp: Let_def split: prod.split option.split)

lemma allocate_all_keeps [simp]:
  "al_shutdown (snd (allocate_all cfg perfs med ts rules sv)) = al_shutdown sv"
  "al_regime (snd (allocate_all cfg perfs med ts rules sv)) = al_regime sv"
  "al_candidate (snd (allocate_all cfg perfs med ts rules sv)) = al_candidate sv"
  "al_since (snd (allocate_all cfg perfs med ts rules sv)) = al_since sv"
  by (induction rules arbitrary: sv) (auto simp: allocate_all_step Let_def simp del: allocate_all.simps(2))

abbreviation decided_for :: "allocation_config \<Rightarrow> (string \<times> pyfloat option \<times> bool) list \<Rightarrow> pyfloat option \<Rightarrow> int \<Rightarrow> string
    \<Rightarrow> (string, pyfloat) pydict \<Rightarrow> allocation_service \<Rightarrow> allocation_state \<Rightarrow> allocation_state" where
  "decided_for cfg perfs med ts sid rule sv st \<equiv>
     fst (decide_allocation cfg (al_regime sv) rule (sid \<in> set (al_shutdown sv)) (dd perfs sid (None, False)) med ts st)"

lemma allocate_all_invariant:
  assumes "P (allocation_of sv sid)"
    and "\<And>rule st. (sid, rule) \<in> set rules \<Longrightarrow> P st \<Longrightarrow> P (decided_for cfg perfs med ts sid rule sv st)"
  shows "P (allocation_of (snd (allocate_all cfg perfs med ts rules sv)) sid)"
  using assms
proof (induction rules arbitrary: sv)
  case (Cons r rules)
  obtain sid' rule where r: "r = (sid', rule)" by (cases r)
  have "P (allocation_of (snd (allocate_one cfg perfs med ts sid' rule sv)) sid)"
    using Cons.prems(1) Cons.prems(2)[of rule "allocation_of sv sid"] by (cases "sid' = sid") (simp_all add: r)
  with Cons.IH[of "snd (allocate_one cfg perfs med ts sid' rule sv)"] Cons.prems(2)
  show ?case by (simp add: r allocate_all_step Let_def del: allocate_all.simps(2) allocate_one_allocates)
qed simp

lemma allocate_all_reaches:
  assumes "fst (allocate_all cfg perfs med ts rules sv) = None" "sid \<in> fst ` set rules"
    and "\<And>rule st. (sid, rule) \<in> set rules \<Longrightarrow> P (decided_for cfg perfs med ts sid rule sv st)"
  shows "P (allocation_of (snd (allocate_all cfg perfs med ts rules sv)) sid)"
  using assms
proof (induction rules arbitrary: sv)
  case (Cons r rules)
  obtain sid' rule where r: "r = (sid', rule)" by (cases r)
  let ?sv = "snd (allocate_one cfg perfs med ts sid' rule sv)"
  have n: "fst (allocate_one cfg perfs med ts sid' rule sv) = None" "fst (allocate_all cfg perfs med ts rules ?sv) = None"
    using Cons.prems(1) by (auto simp: r split: prod.splits option.splits)
  show ?case
  proof (cases "sid' = sid")
    case True
    have "P (allocation_of ?sv sid)" using Cons.prems(3)[of rule "allocation_of sv sid"] by (simp add: r True)
    then have "P (allocation_of (snd (allocate_all cfg perfs med ts rules ?sv)) sid)"
    proof (rule allocate_all_invariant)
      show "P (decided_for cfg perfs med ts sid rule' ?sv st)" if "(sid, rule') \<in> set rules" for rule' st
        unfolding allocate_one_keeps by (rule Cons.prems(3)) (simp add: r that)
    qed
    with n(1) show ?thesis by (simp add: r allocate_all_step Let_def del: allocate_all.simps(2) allocate_one_allocates)
  next
    case False
    then have "P (allocation_of (snd (allocate_all cfg perfs med ts rules ?sv)) sid)"
      using Cons.IH[OF n(2)] Cons.prems(2,3) by (simp add: r)
    with n(1) show ?thesis by (simp add: r allocate_all_step Let_def del: allocate_all.simps(2) allocate_one_allocates)
  qed
qed simp

subsection \<open>One recomputation\<close>

lemma recompute_keeps [simp]:
  "al_shutdown (snd (recompute_allocations cfg ts sv)) = al_shutdown sv"
  "al_regime (snd (recompute_allocations cfg ts sv)) = al_regime sv"
  "al_candidate (snd (recompute_allocations cfg ts sv)) = al_candidate sv"
  "al_since (snd (recompute_allocations cfg ts sv)) = al_since sv"
  by (simp_all add: recompute_allocations_def split: sum.split)

lemma recompute_invariant:
  assumes "P (allocation_of sv sid)"
    and "\<And>rule perf med st. (sid, rule) \<in> set (ac_rules cfg) \<Longrightarrow> P st
      \<Longrightarrow> P (fst (decide_allocation cfg (al_regime sv) rule (sid \<in> set (al_shutdown sv)) perf med ts st))"
  shows "P (allocation_of (snd (recompute_allocations cfg ts sv)) sid)"
proof (cases "compute_scores cfg ts sv (ac_rules cfg)")
  case (Inr perfs)
  have "P (allocation_of (snd (allocate_all cfg perfs (median (List.map_filter (fst \<circ> snd) perfs)) ts (ac_rules cfg) sv)) sid)"
    by (rule allocate_all_invariant[of P, OF assms(1)]) (rule assms(2))
  with Inr show ?thesis by (simp add: recompute_allocations_def)
qed (simp add: recompute_allocations_def assms(1))

lemma recompute_reaches:
  assumes "fst (recompute_allocations cfg ts sv) = None" "sid \<in> fst ` set (ac_rules cfg)"
    and "\<And>rule perf med st. (sid, rule) \<in> set (ac_rules cfg)
      \<Longrightarrow> P (fst (decide_allocation cfg (al_regime sv) rule (sid \<in> set (al_shutdown sv)) perf med ts st))"
  shows "P (allocation_of (snd (recompute_allocations cfg ts sv)) sid)"
proof (cases "compute_scores cfg ts sv (ac_rules cfg)")
  case (Inr perfs)
  with assms(1) have "fst (allocate_all cfg perfs (median (List.map_filter (fst \<circ> snd) perfs)) ts (ac_rules cfg) sv) = None"
    by (simp add: recompute_allocations_def)
  then have "P (allocation_of (snd (allocate_all cfg perfs (median (List.map_filter (fst \<circ> snd) perfs)) ts (ac_rules cfg) sv)) sid)"
    by (rule allocate_all_reaches[where P = P, OF _ assms(2)]) (rule assms(3))
  with Inr show ?thesis by (simp add: recompute_allocations_def)
qed (use assms(1) in \<open>simp add: recompute_allocations_def\<close>)

lemma zero_float [simp]: "\<not> fl_lt fl_zero fl_zero" "fl_eq fl_zero fl_zero"
  by (simp_all add: fl_zero_def signed_def)

lemma expire_keeps [simp]: "as_pct (expire st ts) = as_pct st" "cooling (expire st ts) ts = cooling st ts"
  by (auto simp: expire_def cooling_def split: option.split)

lemma decide_pct:
  "as_pct (fst (decide_allocation cfg regime rule shut perf med ts st))
     = fst (gated_target (base_target rule regime shut (cooling st ts)) (as_pct st) (snd perf) (fst perf) med)"
  unfolding decide_allocation_def Let_def
  by (cases "gated_target (base_target rule regime shut (cooling st ts)) (as_pct st) (snd perf) (fst perf) med") simp

lemma decide_cooldown:
  "as_cooldown_until (fst (decide_allocation cfg regime rule shut perf med ts st))
     = (if fl_lt fl_zero (as_pct st) \<and> fl_eq (as_pct (fst (decide_allocation cfg regime rule shut perf med ts st))) fl_zero
        then Some (ts + ac_cooldown_seconds cfg) else as_cooldown_until (expire st ts))"
  unfolding decide_pct unfolding decide_allocation_def Let_def
  by (cases "gated_target (base_target rule regime shut (cooling st ts)) (as_pct st) (snd perf) (fst perf) med") simp

text \<open>A strategy that is shut down, or in its cooldown, is given nothing.\<close>

lemma gated_zero [simp]: "gated_target fl_zero pct ready score med = (fl_zero, [])"
  by (simp add: gated_target_def)

lemma decide_shut: "as_pct (fst (decide_allocation cfg regime rule True perf med ts st)) = fl_zero"
  by (simp add: decide_pct base_target_def)

lemma decide_cooling: "cooling st ts \<Longrightarrow> as_pct (fst (decide_allocation cfg regime rule shut perf med ts st)) = fl_zero"
  by (simp add: decide_pct base_target_def)

definition rests :: "allocation_state \<Rightarrow> bool" where
  "rests st \<longleftrightarrow> (case as_cooldown_until st of None \<Rightarrow> True | Some c \<Rightarrow> c = 0 \<or> fl_eq (as_pct st) fl_zero)"

lemma decide_rests: "rests (fst (decide_allocation cfg regime rule shut perf med ts st))"
proof (cases "cooling st ts")
  case True
  then show ?thesis by (simp add: rests_def decide_cooling split: option.split)
next
  case False
  then have "as_cooldown_until (expire st ts) = None \<or> as_cooldown_until (expire st ts) = Some 0"
    by (auto simp: cooling_def expire_def split: option.splits)
  then show ?thesis by (auto simp: rests_def decide_cooldown split: option.split)
qed

lemma decide_resting:
  assumes "as_cooldown_until st = Some c" "c \<noteq> 0" "ts < c" "fl_eq (as_pct st) fl_zero"
  shows "as_cooldown_until (fst (decide_allocation cfg regime rule shut perf med ts st)) = Some c"
proof -
  have "\<not> fl_lt fl_zero (as_pct st)" using assms(4) by (cases "as_pct st") (auto simp: fl_zero_def Let_def signed_def split: if_splits)
  with assms(1-3) show ?thesis by (simp add: decide_cooldown expire_def)
qed

subsection \<open>Any run\<close>

fun event_time :: "ts_reader \<Rightarrow> allocation_event \<Rightarrow> py_exc + int option" where
  "event_time read_ts (RegimeSignal d) = read_ts (dget d ''ts'')"
| "event_time read_ts (FillMessage d) = read_ts (dget d ''timestamp'')"
| "event_time read_ts (ShutdownMessage d) = read_ts (dget d ''ts'')"

lemma update_regime_keeps [simp]:
  "al_allocations (snd (update_regime cfg r ts sv)) = al_allocations sv" "al_shutdown (snd (update_regime cfg r ts sv)) = al_shutdown sv"
  by (simp_all add: update_regime_def split: option.split)

lemma apply_fill_keeps [simp]:
  "al_allocations (apply_fill sid symbol ts delta price sv) = al_allocations sv" "al_shutdown (apply_fill sid symbol ts delta price sv) = al_shutdown sv"
  "al_regime (apply_fill sid symbol ts delta price sv) = al_regime sv" "al_candidate (apply_fill sid symbol ts delta price sv) = al_candidate sv"
  "al_since (apply_fill sid symbol ts delta price sv) = al_since sv"
  by (simp_all add: apply_fill_def store_held_def record_trade_def Let_def)

lemma handle_fill_keeps [simp]:
  "al_allocations (snd (handle_fill read_ts d sv)) = al_allocations sv" "al_shutdown (snd (handle_fill read_ts d sv)) = al_shutdown sv"
  "al_regime (snd (handle_fill read_ts d sv)) = al_regime sv" "al_candidate (snd (handle_fill read_ts d sv)) = al_candidate sv"
  "al_since (snd (handle_fill read_ts d sv)) = al_since sv"
  by (simp_all add: handle_fill_def split: option.split sum.split)

text \<open>A step is a recomputation at the time of the message, or leaves the allocations alone.\<close>

lemma step_is_recomputation:
  obtains sv1 where "al_allocations sv1 = al_allocations sv" "set (al_shutdown sv) \<subseteq> set (al_shutdown sv1)"
    "snd (allocation_step cfg read_ts ev sv) = sv1
      \<or> (\<exists>ts. event_time read_ts ev = Inr (Some ts) \<and> snd (allocation_step cfg read_ts ev sv) = snd (recompute_allocations cfg ts sv1))"
proof (cases ev)
  case (RegimeSignal d)
  show ?thesis
  proof (cases "read_ts (dget d ''ts'')")
    case (Inl e)
    with that[of sv] RegimeSignal show ?thesis by (simp add: handle_regime_signal_def)
  next
    case (Inr t)
    show ?thesis
    proof (cases t)
      case None
      with that[of sv] RegimeSignal Inr show ?thesis by (simp add: handle_regime_signal_def)
    next
      case (Some ts)
      obtain b sv1 where u: "update_regime cfg (regime_of_message d) ts sv = (b, sv1)" by (cases "update_regime cfg (regime_of_message d) ts sv")
      have k: "al_allocations sv1 = al_allocations sv" "al_shutdown sv1 = al_shutdown sv"
        using update_regime_keeps[of cfg "regime_of_message d" ts sv] by (simp_all add: u)
      show ?thesis
        by (rule that[OF k(1)]) (use k u RegimeSignal Inr Some in \<open>auto simp: handle_regime_signal_def\<close>)
    qed
  qed
next
  case (FillMessage d)
  obtain e sv1 where u: "handle_fill read_ts d sv = (e, sv1)" by (cases "handle_fill read_ts d sv")
  have k: "al_allocations sv1 = al_allocations sv" "al_shutdown sv1 = al_shutdown sv"
    using handle_fill_keeps[of read_ts d sv] by (simp_all add: u)
  show ?thesis
    by (rule that[OF k(1)]) (use k u FillMessage in \<open>auto simp: fill_message_def split: option.split sum.split\<close>)
next
  case (ShutdownMessage d)
  define sv1 where "sv1 = note_shutdown (text_of (dget d ''strategy_id'')) sv"
  have k: "al_allocations sv1 = al_allocations sv" "set (al_shutdown sv) \<subseteq> set (al_shutdown sv1)"
    by (auto simp: sv1_def note_shutdown_def)
  show ?thesis
    by (rule that[OF k]) (use ShutdownMessage in \<open>auto simp: handle_shutdown_def Let_def sv1_def split: option.split sum.split\<close>)
qed

lemma step_invariant:
  assumes "P (allocation_of sv sid)"
    and "\<And>ts regime rule shut perf med st. event_time read_ts ev = Inr (Some ts) \<Longrightarrow> (sid \<in> set (al_shutdown sv) \<Longrightarrow> shut) \<Longrightarrow> P st
      \<Longrightarrow> P (fst (decide_allocation cfg regime rule shut perf med ts st))"
  shows "P (allocation_of (snd (allocation_step cfg read_ts ev sv)) sid)"
proof -
  obtain sv1 where s: "al_allocations sv1 = al_allocations sv" "set (al_shutdown sv) \<subseteq> set (al_shutdown sv1)"
    "snd (allocation_step cfg read_ts ev sv) = sv1
      \<or> (\<exists>ts. event_time read_ts ev = Inr (Some ts) \<and> snd (allocation_step cfg read_ts ev sv) = snd (recompute_allocations cfg ts sv1))"
    by (rule step_is_recomputation)
  have "P (allocation_of sv1 sid)" using assms(1) by (simp only: s(1))
  moreover have "P (allocation_of (snd (recompute_allocations cfg ts sv1)) sid)" if "event_time read_ts ev = Inr (Some ts)" for ts
    by (rule recompute_invariant[where P = P, OF calculation], rule assms(2)[OF that]) (use s(2) in auto)
  ultimately show ?thesis using s(3) by auto
qed

lemma step_keeps_shutdown: "set (al_shutdown sv) \<subseteq> set (al_shutdown (snd (allocation_step cfg read_ts ev sv)))"
  by (rule step_is_recomputation[of sv cfg read_ts ev]) auto

lemma run_allocation_step:
  "snd (run_allocation cfg read_ts (ev # evs) sv) =
     (let r = allocation_step cfg read_ts ev sv in if fst r = None then snd (run_allocation cfg read_ts evs (snd r)) else snd r)"
  by (auto simp: Let_def split: prod.split option.split)

lemma run_invariant:
  assumes "P (allocation_of sv sid)"
    and "\<And>ev ts regime rule shut perf med st. ev \<in> set evs \<Longrightarrow> event_time read_ts ev = Inr (Some ts)
      \<Longrightarrow> (sid \<in> set (al_shutdown sv) \<Longrightarrow> shut) \<Longrightarrow> P st \<Longrightarrow> P (fst (decide_allocation cfg regime rule shut perf med ts st))"
  shows "P (allocation_of (snd (run_allocation cfg read_ts evs sv)) sid)"
  using assms
proof (induction evs arbitrary: sv)
  case (Cons ev evs)
  have 1: "P (allocation_of (snd (allocation_step cfg read_ts ev sv)) sid)"
    by (rule step_invariant[where P = P, OF Cons.prems(1)], rule Cons.prems(2)[of ev]) auto
  have 2: "P (allocation_of (snd (run_allocation cfg read_ts evs (snd (allocation_step cfg read_ts ev sv)))) sid)"
  proof (rule Cons.IH[OF 1])
    fix ev' ts regime rule shut perf med st
    assume a: "ev' \<in> set evs" "event_time read_ts ev' = Inr (Some ts)"
      "sid \<in> set (al_shutdown (snd (allocation_step cfg read_ts ev sv))) \<Longrightarrow> shut" "P st"
    show "P (fst (decide_allocation cfg regime rule shut perf med ts st))"
    proof (rule Cons.prems(2)[OF _ a(2) _ a(4)])
      show "ev' \<in> set (ev # evs)" using a(1) by simp
      show shut if "sid \<in> set (al_shutdown sv)" by (rule a(3), rule subsetD[OF step_keeps_shutdown that])
    qed
  qed
  show ?case using 1 2 by (simp add: run_allocation_step Let_def del: run_allocation.simps(2))
qed simp

subsection \<open>Cooldown and shutdown\<close>

lemma start_rests: "rests (allocation_of (service_start cfg read_ts now latest faults) sid)"
proof -
  have s: "rests (dd [] sid fresh_allocation)" by (simp add: rests_def dd_def fresh_allocation_def)
  show ?thesis
    by (auto simp: service_start_def bootstrap_regime_def s allocation_start_def decide_rests split: option.split sum.split
        intro!: recompute_invariant[where P = rests])
qed

lemma reachable_rests: "rests (allocation_of (snd (run_allocation cfg read_ts evs (service_start cfg read_ts now latest faults))) sid)"
  by (rule run_invariant[where P = rests, OF start_rests]) (rule decide_rests)

text \<open>
  C9. A cooldown lasts until its end. Once a strategy lost its share and is in its cooldown until
  \<open>c\<close>, no messages with earlier times, be they regimes, fills or shutdowns, end the cooldown
  or give the strategy a share.
\<close>

theorem cooldown_holds:
  assumes "sv = snd (run_allocation cfg read_ts past (service_start cfg read_ts now latest faults))"
    and "as_cooldown_until (allocation_of sv sid) = Some c" "c \<noteq> 0"
    and "\<forall>ev \<in> set evs. \<forall>ts. event_time read_ts ev = Inr (Some ts) \<longrightarrow> ts < c"
  shows "fl_eq (as_pct (allocation_of (snd (run_allocation cfg read_ts evs sv)) sid)) fl_zero
    \<and> as_cooldown_until (allocation_of (snd (run_allocation cfg read_ts evs sv)) sid) = Some c"
proof -
  let ?P = "\<lambda>st. fl_eq (as_pct st) fl_zero \<and> as_cooldown_until st = Some c"
  have start: "?P (allocation_of sv sid)"
    using reachable_rests[of cfg read_ts past now latest faults sid] assms(1-3) by (simp add: rests_def)
  show ?thesis
  proof (rule run_invariant[where P = ?P, OF start])
    fix ev ts regime rule shut perf med and st :: allocation_state
    assume "ev \<in> set evs" "event_time read_ts ev = Inr (Some ts)" and st: "?P st"
    then have "ts < c" using assms(4) by blast
    with st assms(3) have "cooling st ts" by (simp add: cooling_def)
    with decide_resting[of st c ts] st assms(3) \<open>ts < c\<close>
    show "?P (fst (decide_allocation cfg regime rule shut perf med ts st))" by (simp add: decide_cooling)
  qed
qed

text \<open>
  C10. A shutdown is final. When the message shuts a named strategy down, then, whether it was handled
  or failed and whatever comes after it, the strategy has either no share or still the one it had
  before the message: no message gives it another. When the message had a readable time, was handled
  without an error and the strategy is one of the rules, it has no share from then on. A message
  without a time is only noted, and the share stays until something else makes the service recompute.
\<close>

theorem shutdown_is_final:
  assumes "dget d ''strategy_id'' = Some sid" "sid \<noteq> []"
    and "allocation_step cfg read_ts (ShutdownMessage d) sv = (failure, sv1)"
  shows "as_pct (allocation_of (snd (run_allocation cfg read_ts evs sv1)) sid) \<in> {fl_zero, as_pct (allocation_of sv sid)}
    \<and> (failure = None \<and> (\<exists>ts. read_ts (dget d ''ts'') = Inr (Some ts)) \<and> sid \<in> fst ` set (ac_rules cfg) \<longrightarrow>
         as_pct (allocation_of (snd (run_allocation cfg read_ts evs sv1)) sid) = fl_zero)
    \<and> (read_ts (dget d ''ts'') = Inr None \<longrightarrow>
         failure = None \<and> sid \<in> set (al_shutdown sv1) \<and> allocation_of sv1 sid = allocation_of sv sid)"
proof -
  let ?sv = "note_shutdown sid sv"
  have noted: "sid \<in> set (al_shutdown ?sv)" "allocation_of ?sv sid = allocation_of sv sid"
    using assms(2) by (simp_all add: note_shutdown_def)
  have step: "(failure, sv1) = (case read_ts (dget d ''ts'') of
      Inl e \<Rightarrow> (Some e, ?sv) | Inr None \<Rightarrow> (None, ?sv) | Inr (Some ts) \<Rightarrow> recompute_allocations cfg ts ?sv)"
    using assms(1,3) by (simp add: handle_shutdown_def Let_def)
  then have shut: "sid \<in> set (al_shutdown sv1)"
    using noted(1) recompute_keeps(1)[of cfg _ ?sv] by (metis (no_types, lifting) sum.case_eq_if option.case_eq_if snd_conv)
  let ?P = "\<lambda>st. as_pct st \<in> {fl_zero, as_pct (allocation_of sv sid)}"
  have "?P (allocation_of (snd (allocation_step cfg read_ts (ShutdownMessage d) ?sv)) sid)"
    by (rule step_invariant[where P = ?P]) (use noted in \<open>simp_all add: decide_shut\<close>)
  moreover have "note_shutdown sid ?sv = ?sv" by (simp add: note_shutdown_def)
  then have "allocation_step cfg read_ts (ShutdownMessage d) ?sv = (failure, sv1)"
    using step assms(1) by (simp add: handle_shutdown_def Let_def)
  ultimately have kept: "?P (allocation_of (snd (run_allocation cfg read_ts evs sv1)) sid)"
    by (intro run_invariant[where P = ?P]) (simp_all add: decide_shut shut)
  have ends: "as_pct (allocation_of (snd (run_allocation cfg read_ts evs sv1)) sid) = fl_zero"
    if "failure = None" "read_ts (dget d ''ts'') = Inr (Some ts)" "sid \<in> fst ` set (ac_rules cfg)" for ts
  proof -
    have r: "recompute_allocations cfg ts ?sv = (None, sv1)" using step that(1,2) by simp
    have "as_pct (allocation_of (snd (recompute_allocations cfg ts ?sv)) sid) = fl_zero"
      by (rule recompute_reaches[where P = "\<lambda>st. as_pct st = fl_zero"]) (use r that(3) noted(1) in \<open>simp_all add: decide_shut\<close>)
    then show ?thesis
      by (intro run_invariant[where P = "\<lambda>st. as_pct st = fl_zero"]) (simp_all add: r decide_shut shut)
  qed
  have "failure = None \<and> allocation_of sv1 sid = allocation_of sv sid" if "read_ts (dget d ''ts'') = Inr None"
    using step that noted(2) by simp
  with kept ends shut show ?thesis by blast
qed

subsection \<open>Performance\<close>

lemma compute_scores_of:
  assumes "compute_scores cfg ts sv rules = Inr perfs" "compute_performance cfg sid ts sv = Inr p"
  shows "dd perfs sid p = p"
  using assms by (induction rules arbitrary: perfs) (auto simp: dd_def ebind_def split: sum.splits if_splits)

lemma early_live_positive: "fl_lt EARLY_LIVE x \<Longrightarrow> fl_lt fl_zero x"
proof -
  assume a: "fl_lt EARLY_LIVE x"
  have e: "EARLY_LIVE = FFin False 5764607523034235 (- 58)" by (simp add: EARLY_LIVE_def fl_of_digits_def fl_eval)
  have v: "0 < fl_val EARLY_LIVE" "fl_isfinite EARLY_LIVE" by (simp_all add: e signed_def)
  show "fl_lt fl_zero x"
  proof (cases "fl_isfinite x")
    case True
    then show ?thesis using a v by (simp add: fl_lt_val)
  next
    case False
    then show ?thesis using a by (cases x) (simp_all add: e fl_zero_def)
  qed
qed

text \<open>
  C12. A strategy that trades often is never ready. When enough of its trades are younger than the
  lookback, the window holds only them, and it is long enough only if its first trade is exactly as
  old as the lookback. So a strategy without a share is refused every share above the early-live
  threshold, however good its trades are.
\<close>

theorem busy_strategy_is_never_ready:
  assumes "distinct (map fst (ac_rules cfg))" "dget (ac_rules cfg) sid = Some rule"
    and "fl_lt EARLY_LIVE (dd rule (al_regime sv) fl_zero)" "fl_eq (as_pct (allocation_of sv sid)) fl_zero"
    and "0 < ac_lookback_trades cfg" "recent = trades_in_window cfg ts (dd (al_trades sv) sid [])"
    and "ac_lookback_trades cfg \<le> length recent" "tr_ts (hd recent) \<noteq> ts - seconds_of_days cfg"
  shows "fl_eq (as_pct (allocation_of (snd (recompute_allocations cfg ts sv)) sid)) fl_zero"
proof (cases "compute_scores cfg ts sv (ac_rules cfg)")
  case (Inr perfs)
  have "hd recent \<in> set recent" using assms(5,7) by (cases recent) auto
  then have "ts - seconds_of_days cfg < tr_ts (hd recent)" using assms(8) unfolding assms(6) trades_in_window_def by simp
  then have "compute_performance cfg sid ts sv = Inr (None, False)"
    using assms(5,7) unfolding assms(6) by (auto simp: compute_performance_def performance_window_def window_ready_def Let_def)
  then have p: "dd perfs sid (None, False) = (None, False)" by (rule compute_scores_of[OF Inr])
  have r: "rule' = rule" if "(sid, rule') \<in> set (ac_rules cfg)" for rule'
    using assms(1,2) that by (metis map_of_eq_Some_iff option.inject)
  have "fl_eq (as_pct (allocation_of (snd (allocate_all cfg perfs (median (List.map_filter (fst \<circ> snd) perfs)) ts (ac_rules cfg) sv)) sid)) fl_zero"
  proof (rule allocate_all_invariant[where P = "\<lambda>st. fl_eq (as_pct st) fl_zero", OF assms(4)])
    fix rule' and st :: allocation_state
    assume "(sid, rule') \<in> set (ac_rules cfg)" "fl_eq (as_pct st) fl_zero"
    then show "fl_eq (as_pct (decided_for cfg perfs (median (List.map_filter (fst \<circ> snd) perfs)) ts sid rule' sv st)) fl_zero"
      using r[of rule'] early_live_positive[OF assms(3)] assms(3) by (simp add: decide_pct base_target_def p gated_target_def)
  qed
  with Inr show ?thesis by (simp add: recompute_allocations_def)
qed (simp add: recompute_allocations_def assms(4))

subsection \<open>The regime in force\<close>

text \<open>The regime signals that could be read, with their times.\<close>

fun signal_of :: "ts_reader \<Rightarrow> allocation_event \<Rightarrow> (string \<times> int) option" where
  "signal_of read_ts (RegimeSignal d) = (case read_ts (dget d ''ts'') of Inr (Some ts) \<Rightarrow> Some (regime_of_message d, ts) | _ \<Rightarrow> None)"
| "signal_of read_ts (FillMessage d) = None"
| "signal_of read_ts (ShutdownMessage d) = None"

definition signals_of :: "ts_reader \<Rightarrow> allocation_event list \<Rightarrow> (string \<times> int) list" where
  "signals_of read_ts evs = List.map_filter (signal_of read_ts) evs"

definition held_stable :: "int \<Rightarrow> string \<Rightarrow> (string \<times> int) list \<Rightarrow> bool" where
  \<comment> \<open>signals in a row, all of this regime, over at least this time\<close>
  "held_stable n r sigs \<longleftrightarrow> (\<exists>pre b post. sigs = pre @ b @ post \<and> b \<noteq> [] \<and> (\<forall>x \<in> set b. fst x = r) \<and> n \<le> snd (last b) - snd (hd b))"

definition in_force :: "string \<Rightarrow> int \<Rightarrow> (string \<times> int) list \<Rightarrow> allocation_service \<Rightarrow> bool" where
  "in_force start n sigs sv \<longleftrightarrow> al_regime sv = start \<or> held_stable n (al_regime sv) sigs"

definition pending :: "(string \<times> int) list \<Rightarrow> allocation_service \<Rightarrow> bool" where
  "pending sigs sv \<longleftrightarrow> (\<forall>r. al_candidate sv = Some r \<longrightarrow>
     (\<exists>pre b. sigs = pre @ b \<and> b \<noteq> [] \<and> (\<forall>x \<in> set b. fst x = r) \<and> al_since sv = Some (snd (hd b))))"

lemma held_stable_more: "held_stable n r sigs \<Longrightarrow> held_stable n r (sigs @ later)"
  by (auto simp: held_stable_def) (metis append.assoc)

lemma in_force_more: "in_force start n sigs sv \<Longrightarrow> in_force start n (sigs @ later) sv"
  by (auto simp: in_force_def held_stable_more)

lemma update_regime_stable:
  assumes "in_force start (ac_min_stable_seconds cfg) sigs sv" "pending sigs sv"
  shows "in_force start (ac_min_stable_seconds cfg) (sigs @ [(r, ts)]) (snd (update_regime cfg r ts sv))
    \<and> pending (sigs @ [(r, ts)]) (snd (update_regime cfg r ts sv))"
proof (cases "r \<noteq> al_regime sv \<and> al_candidate sv = Some r")
  case True
  then obtain pre b where b: "sigs = pre @ b" "b \<noteq> []" "\<forall>x \<in> set b. fst x = r" "al_since sv = Some (snd (hd b))"
    using assms(2) by (auto simp: pending_def)
  have b': "sigs @ [(r, ts)] = pre @ (b @ [(r, ts)])" "\<forall>x \<in> set (b @ [(r, ts)]). fst x = r" "hd (b @ [(r, ts)]) = hd b"
    using b by simp_all
  show ?thesis
  proof (cases "ts - snd (hd b) < ac_min_stable_seconds cfg")
    case wait: True
    have u: "snd (update_regime cfg r ts sv) = sv" using True wait by (simp add: update_regime_def b(4))
    have "pending (sigs @ [(r, ts)]) sv"
      unfolding pending_def
    proof (intro allI impI)
      fix r' assume "al_candidate sv = Some r'"
      with True have "r' = r" by simp
      with b(4) b' have "sigs @ [(r, ts)] = pre @ (b @ [(r, ts)]) \<and> b @ [(r, ts)] \<noteq> [] \<and> (\<forall>x \<in> set (b @ [(r, ts)]). fst x = r')
          \<and> al_since sv = Some (snd (hd (b @ [(r, ts)])))"
        by simp
      then show "\<exists>pre b. sigs @ [(r, ts)] = pre @ b \<and> b \<noteq> [] \<and> (\<forall>x \<in> set b. fst x = r') \<and> al_since sv = Some (snd (hd b))"
        by blast
    qed
    with u in_force_more[OF assms(1)] show ?thesis by simp
  next
    case False
    have "held_stable (ac_min_stable_seconds cfg) r (sigs @ [(r, ts)])"
      unfolding held_stable_def using False b'
      by (intro exI[of _ pre] exI[of _ "b @ [(r, ts)]"] exI[of _ "[]"]) simp
    with True False show ?thesis by (simp add: update_regime_def b(4) in_force_def pending_def)
  qed
next
  case False
  have "sigs @ [(r, ts)] = sigs @ [(r, ts)] \<and> [(r, ts)] \<noteq> [] \<and> (\<forall>x \<in> set [(r, ts)]. fst x = r) \<and> Some ts = Some (snd (hd [(r, ts)]))"
    by simp
  then have "\<exists>pre b. sigs @ [(r, ts)] = pre @ b \<and> b \<noteq> [] \<and> (\<forall>x \<in> set b. fst x = r) \<and> Some ts = Some (snd (hd b))"
    by blast
  with False show ?thesis
    using in_force_more[OF assms(1), of "[(r, ts)]"]
    by (cases "r = al_regime sv") (simp_all add: update_regime_def pending_def in_force_def)
qed

lemma step_regime:
  "in_force start n sigs (snd (allocation_step cfg read_ts ev sv)) = in_force start n sigs (case signal_of read_ts ev of None \<Rightarrow> sv | Some (r, ts) \<Rightarrow> snd (update_regime cfg r ts sv))"
  "pending sigs (snd (allocation_step cfg read_ts ev sv)) = pending sigs (case signal_of read_ts ev of None \<Rightarrow> sv | Some (r, ts) \<Rightarrow> snd (update_regime cfg r ts sv))"
proof -
  let ?sv = "case signal_of read_ts ev of None \<Rightarrow> sv | Some (r, ts) \<Rightarrow> snd (update_regime cfg r ts sv)"
  have fill: "al_regime sv' = al_regime sv \<and> al_candidate sv' = al_candidate sv \<and> al_since sv' = al_since sv"
    if "handle_fill read_ts d sv = (e, sv')" for d e sv'
    using handle_fill_keeps[of read_ts d sv] by (simp add: that)
  have "al_regime (snd (allocation_step cfg read_ts ev sv)) = al_regime ?sv \<and> al_candidate (snd (allocation_step cfg read_ts ev sv)) = al_candidate ?sv
    \<and> al_since (snd (allocation_step cfg read_ts ev sv)) = al_since ?sv"
    by (cases ev) (auto simp: handle_regime_signal_def fill_message_def handle_shutdown_def note_shutdown_def Let_def
        dest!: fill split: option.split sum.split prod.split bool.split)
  then show "in_force start n sigs (snd (allocation_step cfg read_ts ev sv)) = in_force start n sigs ?sv"
    "pending sigs (snd (allocation_step cfg read_ts ev sv)) = pending sigs ?sv"
    by (simp_all only: in_force_def pending_def)
qed

lemma run_in_force:
  assumes "in_force start (ac_min_stable_seconds cfg) sigs sv" "pending sigs sv"
  shows "in_force start (ac_min_stable_seconds cfg) (sigs @ signals_of read_ts evs) (snd (run_allocation cfg read_ts evs sv))"
  using assms
proof (induction evs arbitrary: sigs sv)
  case Nil
  then show ?case by (simp add: signals_of_def List.map_filter_def)
next
  case (Cons ev evs)
  let ?more = "case signal_of read_ts ev of None \<Rightarrow> [] | Some s \<Rightarrow> [s]"
  have s: "signals_of read_ts (ev # evs) = ?more @ signals_of read_ts evs"
    by (simp add: signals_of_def List.map_filter_def split: option.split)
  have i: "in_force start (ac_min_stable_seconds cfg) (sigs @ ?more) (snd (allocation_step cfg read_ts ev sv))"
    "pending (sigs @ ?more) (snd (allocation_step cfg read_ts ev sv))"
    using Cons.prems update_regime_stable[OF Cons.prems] by (simp_all add: step_regime split: option.split prod.split)
  show ?case
    using Cons.IH[OF i] in_force_more[OF i(1), of "signals_of read_ts evs"]
    by (simp add: s run_allocation_step Let_def del: run_allocation.simps(2))
qed

lemma start_pending: "pending [] (service_start cfg read_ts now latest faults)"
  by (simp add: pending_def service_start_def bootstrap_regime_def allocation_start_def split: option.split sum.split)

text \<open>
  C11. A regime is in force when it was stable. Whatever messages the service handled, with whatever
  failures, the regime by which it allocates is the one it started with (UNKNOWN, or that of the latest
  signal in the stream) or was signalled by every regime signal over at least
  \<open>regime_min_stable_seconds\<close>.
\<close>

theorem regime_in_force_was_stable:
  "al_regime (snd (run_allocation cfg read_ts evs (service_start cfg read_ts now latest faults)))
      = al_regime (service_start cfg read_ts now latest faults)
    \<or> held_stable (ac_min_stable_seconds cfg)
        (al_regime (snd (run_allocation cfg read_ts evs (service_start cfg read_ts now latest faults)))) (signals_of read_ts evs)"
proof -
  let ?sv = "service_start cfg read_ts now latest faults"
  have "in_force (al_regime ?sv) (ac_min_stable_seconds cfg) [] ?sv" by (simp add: in_force_def)
  from run_in_force[OF this start_pending, of read_ts evs] show ?thesis by (simp add: in_force_def)
qed

subsection \<open>Trades\<close>

text \<open>
  A partial close forgets the entry price. The rest of a long position is valued at the price of
  the partial close: the return of the trade that closes it is computed from that price, whatever
  the position was opened at.
\<close>

theorem partial_close_forgets_entry_price:
  assumes "q = hd_qty (held_of sid symbol sv)" "\<not> fl_eq q fl_zero" "\<not> fl_lt fl_zero (fl_mul q d1)"
    and "rest = fl_add q d1" "fl_lt fl_zero rest" "\<not> fl_eq rest fl_zero" "\<not> fl_lt (fl_abs rest) (fl_of_digits False 1 (- 9))"
    and "\<not> fl_lt fl_zero (fl_mul rest d2)" "c = fl_min (fl_abs rest) (fl_abs d2)" "\<not> fl_le (fl_mul p1 c) fl_zero"
  shows "last (dd (al_trades (apply_fill sid symbol t2 d2 p2 (apply_fill sid symbol t1 d1 p1 sv))) sid [])
    = \<lparr>tr_ts = t2, tr_return_pct = fl_div_nonzero (fl_mul (fl_sub p2 p1) c) (fl_mul p1 c)\<rparr>"
proof -
  define sv1 where "sv1 = apply_fill sid symbol t1 d1 p1 sv"
  have h: "held_of sid symbol sv1 = \<lparr>hd_qty = rest, hd_avg_price = p1\<rparr>"
    using assms(1-4,7) by (simp add: sv1_def apply_fill_def Let_def store_held_def held_of_def)
  have last: "last (last_n 2000 (xs @ [x])) = x" for xs and x :: trade_record
    by (simp add: last_n_def)
  show ?thesis
    using assms(5-10) unfolding sv1_def[symmetric]
    by (simp add: apply_fill_def h Let_def store_held_def record_trade_def last)
qed

end
