(* ===== verification/AllocationSamples.thy ===== *)
theory AllocationSamples
  imports AllocationGuards
begin

text \<open>
  The properties of \<open>AllocationGuards\<close> on concrete messages: one strategy, which a trend gives a sixty-fourth, less than the early-live threshold; a regime
  must be signalled for ten seconds. Times are whole numbers in their texts.
\<close>

definition read_number :: ts_reader where
  "read_number t = (case t of None \<Rightarrow> Inr None | Some s \<Rightarrow> (case int_of_text s of Inl e \<Rightarrow> Inr None | Inr i \<Rightarrow> Inr (Some i)))"

definition small_share :: pyfloat where "small_share = fl_round False 1 64"

definition one_strategy :: "pyfloat \<Rightarrow> allocation_config" where
  "one_strategy share = \<lparr>ac_rules = [(''s'', [(''TREND'', share)])], ac_min_stable_seconds = 10, ac_ema_alpha = fl_round False 1 2,
     ac_lookback_trades = 1, ac_lookback_days = 1, ac_cooldown_seconds = 100, ac_source_version = ''1'', ac_schema_version = ''1''\<rparr>"

definition signal_at :: "string \<Rightarrow> string \<Rightarrow> allocation_event" where
  "signal_at r t = RegimeSignal [(''ts'', t), (''regime'', r)]"

definition stop_message :: fields where
  "stop_message = [(''ts'', ''60''), (''strategy_id'', ''s'')]"

lemma times_read [simp]: "read_number (Some ''0'') = Inr (Some 0)" "read_number (Some ''10'') = Inr (Some 10)"
  "read_number (Some ''20'') = Inr (Some 20)" "read_number (Some ''30'') = Inr (Some 30)" "read_number (Some ''40'') = Inr (Some 40)"
  "read_number (Some ''50'') = Inr (Some 50)" "read_number (Some ''60'') = Inr (Some 60)"
  by code_simp+

lemma share_facts [simp]: "fl_lt fl_zero small_share" "\<not> fl_lt EARLY_LIVE small_share" "\<not> fl_eq small_share fl_zero"
  "fl_lt EARLY_LIVE (fl_int 1)" "\<not> fl_eq fl_zero small_share"
  by (simp_all add: small_share_def EARLY_LIVE_def fl_of_digits_def int_eval)

lemma median_empty [simp]: "median [] = None"
  by (simp add: median_def)

lemma strategy_settings [simp]: "ac_rules (one_strategy share) = [(''s'', [(''TREND'', share)])]" "ac_min_stable_seconds (one_strategy share) = 10"
  "ac_cooldown_seconds (one_strategy share) = 100" "ac_lookback_trades (one_strategy share) = 1" "seconds_of_days (one_strategy share) = 86400"
  by (simp_all add: one_strategy_def seconds_of_days_def)

definition trending :: "allocation_event list" where "trending = [signal_at ''TREND'' ''0'', signal_at ''TREND'' ''10'']"
definition ranging :: "allocation_event list" where "ranging = [signal_at ''RANGE'' ''20'', signal_at ''RANGE'' ''30'']"
definition trending_again :: "allocation_event list" where "trending_again = [signal_at ''TREND'' ''40'', signal_at ''TREND'' ''50'']"

lemmas allocation_eval = handle_regime_signal_def regime_of_message_def str_or_def allocation_start_def update_regime_def
  recompute_allocations_def compute_performance_def Let_def dd_def allocate_one_def decide_allocation_def expire_def cooling_def
  base_target_def gated_target_def fresh_allocation_def emit_decision_def List.map_filter_def

lemma run_to_range:
  "as_cooldown_until (allocation_of (snd (run_allocation (one_strategy small_share) read_number (trending @ ranging) (service_start (one_strategy small_share) read_number 0 None []))) ''s'') = Some 130"
  by (simp add: trending_def ranging_def signal_at_def allocation_eval service_start_def)

theorem cooldown_holds_witness:
  "fl_eq (as_pct (allocation_of (snd (run_allocation (one_strategy small_share) read_number trending_again
     (snd (run_allocation (one_strategy small_share) read_number (trending @ ranging) (service_start (one_strategy small_share) read_number 0 None []))))) ''s'')) fl_zero"
  using cooldown_holds[OF refl run_to_range, of trending_again] by (simp add: trending_again_def signal_at_def)

lemma stopped: "allocation_step (one_strategy small_share) read_number (ShutdownMessage stop_message)
    (snd (run_allocation (one_strategy small_share) read_number trending (allocation_start [])))
  = (None, snd (allocation_step (one_strategy small_share) read_number (ShutdownMessage stop_message)
    (snd (run_allocation (one_strategy small_share) read_number trending (allocation_start [])))))"
  by (simp add: trending_def signal_at_def allocation_eval handle_shutdown_def note_shutdown_def stop_message_def)

theorem shutdown_is_final_witness:
  "as_pct (allocation_of (snd (run_allocation (one_strategy small_share) read_number (ranging @ trending_again)
     (snd (allocation_step (one_strategy small_share) read_number (ShutdownMessage stop_message)
       (snd (run_allocation (one_strategy small_share) read_number trending (allocation_start []))))))) ''s'') = fl_zero"
  using shutdown_is_final[OF _ _ stopped, of "''s''" "ranging @ trending_again"]
  by (simp add: stop_message_def del: run_allocation.simps)

definition busy_service :: allocation_service where
  "busy_service = (allocation_start [])\<lparr>al_regime := ''TREND'', al_trades := [(''s'', [\<lparr>tr_ts = 100, tr_return_pct = fl_int 1\<rparr>])]\<rparr>"

theorem busy_strategy_is_never_ready_witness:
  "fl_eq (as_pct (allocation_of (snd (recompute_allocations (one_strategy (fl_int 1)) 200 busy_service)) ''s'')) fl_zero"
  by (rule busy_strategy_is_never_ready[where rule = "[(''TREND'', fl_int 1)]", OF _ _ _ _ _ refl])
    (simp_all add: busy_service_def allocation_start_def dd_def fresh_allocation_def trades_in_window_def)

text \<open>Two at 100, of which one is sold at 110 and the other at 105: the second is booked as a loss.\<close>

definition long_two :: allocation_service where
  "long_two = (allocation_start [])\<lparr>al_positions := [(''s'', [(''B'', \<lparr>hd_qty = fl_int 2, hd_avg_price = fl_int 100\<rparr>)])]\<rparr>"

lemma trade_arithmetic [simp]:
  "\<not> fl_eq (fl_int 2) fl_zero" "\<not> fl_lt fl_zero (fl_mul (fl_int 2) (fl_int (- 1)))" "fl_add (fl_int 2) (fl_int (- 1)) = fl_int 1"
  "fl_lt fl_zero (fl_int 1)" "\<not> fl_eq (fl_int 1) fl_zero" "\<not> fl_lt (fl_abs (fl_int 1)) (fl_of_digits False 1 (- 9))"
  "\<not> fl_lt fl_zero (fl_mul (fl_int 1) (fl_int (- 1)))" "fl_min (fl_abs (fl_int 1)) (fl_abs (fl_int (- 1))) = fl_int 1"
  "\<not> fl_le (fl_int 110) fl_zero" "fl_sub (fl_int 105) (fl_int 110) = fl_int (- 5)" "fl_mul (fl_int (- 5)) (fl_int 1) = fl_int (- 5)"
  "fl_mul (fl_int 110) (fl_int 1) = fl_int 110" "fl_lt (fl_div_nonzero (fl_int (- 5)) (fl_int 110)) fl_zero"
  by (simp_all add: fl_of_digits_def int_eval)

theorem partial_close_forgets_entry_price_witness:
  "fl_lt (tr_return_pct (last (dd (al_trades (apply_fill ''s'' ''B'' 2 (fl_int (- 1)) (fl_int 105)
     (apply_fill ''s'' ''B'' 1 (fl_int (- 1)) (fl_int 110) long_two))) ''s'' []))) fl_zero"
proof -
  have q: "fl_int 2 = hd_qty (held_of ''s'' ''B'' long_two)" by (simp add: long_two_def held_of_def dd_def)
  show ?thesis
    using partial_close_forgets_entry_price[OF q, where ?d1.0 = "fl_int (- 1)" and rest = "fl_int 1" and ?d2.0 = "fl_int (- 1)"
        and c = "fl_int 1" and ?p1.0 = "fl_int 110" and ?p2.0 = "fl_int 105" and ?t1.0 = 1 and ?t2.0 = 2]
    by (simp del: One_nat_def)
qed

end
