(* ===== verification/DecimalDivision.thy ===== *)
theory DecimalDivision
  imports PyValue
begin

text \<open>
  Division of decimals: the quotient to one digit more than the context holds, a trailing digit that
  keeps the rounding right when it is not exact, and otherwise the exponent as close to the ideal one
  as possible.
\<close>

function lower_zeros :: "nat \<Rightarrow> int \<Rightarrow> int \<Rightarrow> nat \<times> int" where
  "lower_zeros c e ideal = (if e < ideal \<and> c mod 10 = 0 then lower_zeros (c div 10) (e + 1) ideal else (c, e))"
  by pat_completeness auto
termination by (relation "measure (\<lambda>(c, e, ideal). nat (ideal - e))") auto

declare lower_zeros.simps [simp del]

fun dec_div :: "decimal \<Rightarrow> decimal \<Rightarrow> py_exc + decimal" where
  "dec_div (DFin s c e) (DFin s' c' e') =
     (if c' = 0 then Inl (if c = 0 then InvalidOperation else OtherError)
      else if c = 0 then dec_fix (DFin (s \<noteq> s') 0 (e - e'))
      else
        let shift = int (ndigits c') - int (ndigits c) + int PREC + 1;
            n = (if 0 \<le> shift then c * 10 ^ nat shift else c);
            d = (if 0 \<le> shift then c' else c' * 10 ^ nat (- shift));
            q = n div d
        in if n mod d = 0 then (case lower_zeros q (e - e' - shift) (e - e') of (c'', e'') \<Rightarrow> dec_fix (DFin (s \<noteq> s') c'' e''))
           else dec_fix (DFin (s \<noteq> s') (if q mod 5 = 0 then q + 1 else q) (e - e' - shift)))"
| "dec_div DNaN _ = Inr DNaN"
| "dec_div _ DNaN = Inr DNaN"
| "dec_div (DInf s) (DInf s') = Inl InvalidOperation"
| "dec_div (DInf s) (DFin s' c' e') = Inr (DInf (s \<noteq> s'))"
| "dec_div (DFin s c e) (DInf s') = Inr (DFin (s \<noteq> s') 0 ETINY)"

lemma lower_zeros_value: "lower_zeros c e ideal = (c', e') \<Longrightarrow> of_nat c' * (10 :: rat) powi e' = of_nat c * 10 powi e"
proof (induction c e ideal rule: lower_zeros.induct)
  case (1 c e ideal)
  show ?case
  proof (cases "e < ideal \<and> c mod 10 = 0")
    case True
    then have "lower_zeros (c div 10) (e + 1) ideal = (c', e')" using 1(2) by (subst (asm) lower_zeros.simps) simp
    from 1(1)[OF True this] have "of_nat c' * (10 :: rat) powi e' = of_nat (c div 10) * 10 powi (e + 1)" .
    also have "\<dots> = of_nat (c div 10 * 10) * 10 powi e" by (simp add: power_int_add)
    also have "c div 10 * 10 = c" using True by (simp add: mult.commute) presburger
    finally show ?thesis .
  next
    case False
    with 1(2) show ?thesis by (subst (asm) lower_zeros.simps) auto
  qed
qed

lemma dec_div_finite: "dec_div a b = Inr d \<Longrightarrow> is_finite a \<Longrightarrow> is_finite b \<Longrightarrow> is_finite d"
  by (cases a; cases b) (auto simp: Let_def split: if_splits prod.splits dest!: dec_fix_finite)

end
