(* ===== verification/ExecutionEconomics.thy ===== *)
theory ExecutionEconomics
  imports DecimalDivision
begin

text \<open>
  The execution economics contract (\<open>core/replay/execution_economics_v1.py\<close>): how a gross result is
  brought to a net one, with every cost given a status, and no cost invented or dropped. Amounts are
  decimals on a grid of \<open>1e-8\<close>. A value that is not supplied is \<open>PNone\<close>. The notes and the unit of a
  cost line, the snapshot of assumptions and the limitations, which are carried along, are left out.
\<close>

subsection \<open>Reading values\<close>

abbreviation econ_error :: "string \<Rightarrow> py_exc" where "econ_error \<equiv> ValueError"

definition econ_decimal :: "string \<Rightarrow> pyval \<Rightarrow> py_exc + decimal" where
  "econ_decimal name v = (case v of
     PNone \<Rightarrow> Inl (econ_error name)
   | PBool b \<Rightarrow> Inl (econ_error name)
   | _ \<Rightarrow> if (case v of PFloat x \<Rightarrow> \<not> fl_isfinite x | _ \<Rightarrow> False) then Inl (econ_error name)
          else (case dec_of_string (py_str v) of
              Inl e \<Rightarrow> Inl (econ_error name)
            | Inr d \<Rightarrow> if is_finite d then Inr d else Inl (econ_error name)))"

definition q_money :: "decimal \<Rightarrow> py_exc + decimal" where "q_money = dec_quantize ROUND_HALF_UP (- 8)"
definition q_bps :: "decimal \<Rightarrow> py_exc + decimal" where "q_bps = dec_quantize ROUND_HALF_UP (- 4)"

definition MAX_SLIPPAGE_BPS :: decimal where "MAX_SLIPPAGE_BPS = DFin False 10000 0"
definition MAX_FEE_RATE :: decimal where "MAX_FEE_RATE = DFin False 5 (- 2)"
definition MAX_USABLE_DEPTH_FRACTION :: decimal where "MAX_USABLE_DEPTH_FRACTION = DFin False 10 (- 1)"
definition MAX_DEPTH_IMPACT_FACTOR :: decimal where "MAX_DEPTH_IMPACT_FACTOR = DFin False 100 (- 1)"
definition TEN_THOUSAND :: decimal where "TEN_THOUSAND = DFin False 10000 0"

text \<open>A decimal from zero to a maximum.\<close>

definition validate_fraction :: "pyval \<Rightarrow> string \<Rightarrow> decimal \<Rightarrow> py_exc + decimal" where
  "validate_fraction v name maximum = ebind (econ_decimal name v) (\<lambda>d.
     if dec_lt d dec_zero then Inl (econ_error name) else if dec_lt maximum d then Inl (econ_error name) else Inr d)"

definition validate_bps :: "pyval \<Rightarrow> string \<Rightarrow> py_exc + decimal" where
  "validate_bps v name = ebind (econ_decimal name v) (\<lambda>d.
     if dec_lt d dec_zero then Inl (econ_error name) else if dec_lt MAX_SLIPPAGE_BPS d then Inl (econ_error name) else q_bps d)"

definition rate_to_bps :: "pyval \<Rightarrow> py_exc + decimal" where
  "rate_to_bps v = ebind (econ_decimal ''rate'' v) (\<lambda>d.
     if dec_lt d dec_zero then Inl (econ_error ''rate'') else if dec_lt MAX_FEE_RATE d then Inl (econ_error ''rate'')
     else ebind (dec_mul d TEN_THOUSAND) q_bps)"

definition bps_to_rate :: "pyval \<Rightarrow> py_exc + decimal" where
  "bps_to_rate v = ebind (econ_decimal ''bps'' v) (\<lambda>d.
     if dec_lt d dec_zero then Inl (econ_error ''bps'') else if dec_lt MAX_SLIPPAGE_BPS d then Inl (econ_error ''bps'')
     else ebind (dec_div d TEN_THOUSAND) (dec_quantize ROUND_HALF_UP (- 10)))"

subsection \<open>Cost lines\<close>

definition valid_component_statuses :: "string list" where
  "valid_component_statuses =
     [''active'', ''zero'', ''not_applicable'', ''inactive_not_wired'', ''unavailable'', ''embedded_in_fill_price'']"

definition null_amount_statuses :: "string list" where
  "null_amount_statuses = [''not_applicable'', ''inactive_not_wired'', ''unavailable'']"

definition non_subtracted_statuses :: "string list" where
  "non_subtracted_statuses = ''embedded_in_fill_price'' # null_amount_statuses"

record cost_component =
  cc_name :: string
  cc_amount :: "decimal option"
  cc_status :: string

definition component :: "string \<Rightarrow> pyval \<Rightarrow> string \<Rightarrow> py_exc + cost_component" where
  "component name v status =
     (if status \<notin> set valid_component_statuses then Inl (econ_error name)
      else if status \<in> set null_amount_statuses then
        (if v \<noteq> PNone then Inl (econ_error name) else Inr \<lparr>cc_name = name, cc_amount = None, cc_status = status\<rparr>)
      else ebind (if v = PNone then Inr dec_zero else econ_decimal name v) (\<lambda>amount.
        if dec_lt amount dec_zero then Inl (econ_error name)
        else ebind (q_money amount) (\<lambda>q.
          Inr \<lparr>cc_name = name, cc_amount = Some q,
               cc_status = (if dec_eq amount dec_zero \<and> status = ''active'' then ''zero'' else status)\<rparr>)))"

definition billable_amount :: "cost_component \<Rightarrow> decimal" where
  "billable_amount c = (if cc_status c \<in> set non_subtracted_statuses then dec_zero
     else (case cc_amount c of None \<Rightarrow> dec_zero | Some a \<Rightarrow> a))"

subsection \<open>Funding\<close>

definition unproven_funding_sources :: "string list" where
  "unproven_funding_sources = ['''', ''unknown'', ''assumed'', ''placeholder'', ''synthetic_default'', ''simulator_default'']"

definition not_below_zero :: "string \<Rightarrow> pyval \<Rightarrow> py_exc + decimal" where
  "not_below_zero name v = ebind (econ_decimal name v) (\<lambda>d. if dec_lt d dec_zero then Inl (econ_error name) else Inr d)"

definition funding_cost_from_rate :: "pyval \<Rightarrow> pyval \<Rightarrow> pyval \<Rightarrow> pyval \<Rightarrow> py_exc + decimal" where
  "funding_cost_from_rate position_value funding_rate hours_held settlement_hours =
     ebind (not_below_zero ''position_value'' position_value) (\<lambda>value.
     ebind (not_below_zero ''funding_rate'' funding_rate) (\<lambda>rate.
     ebind (not_below_zero ''hours_held'' hours_held) (\<lambda>hours.
     ebind (econ_decimal ''settlement_hours'' settlement_hours) (\<lambda>settlement.
     if dec_le settlement dec_zero then Inl (econ_error ''settlement_hours'')
     else ebind (dec_mul value rate) (\<lambda>vr. ebind (dec_div hours settlement) (\<lambda>periods. ebind (dec_mul vr periods) q_money))))))"

text \<open>The cost and what is kept of the basis.\<close>

definition resolve_funding_basis :: "(string \<times> pyval) list \<Rightarrow> py_exc + decimal \<times> (string \<times> string) list" where
  "resolve_funding_basis basis =
     (if \<not> set [''position_value'', ''funding_rate'', ''funding_rate_source'', ''hours_held''] \<subseteq> set (map fst basis)
      then Inl (econ_error ''funding_basis'')
      else
        let source = strip (py_str (map_get basis ''funding_rate_source''));
            settlement = map_get_or basis ''settlement_hours'' (PDec (DFin False 8 0));
            text_of_field = (\<lambda>name v. ebind (econ_decimal name v) (\<lambda>d. Inr (dec_str d)))
        in if source \<in> set unproven_funding_sources then Inl (econ_error ''funding_rate_source'')
           else ebind (funding_cost_from_rate (map_get basis ''position_value'') (map_get basis ''funding_rate'')
                   (map_get basis ''hours_held'') settlement) (\<lambda>cost.
             ebind (text_of_field ''position_value'' (map_get basis ''position_value'')) (\<lambda>value.
             ebind (text_of_field ''funding_rate'' (map_get basis ''funding_rate'')) (\<lambda>rate.
             ebind (text_of_field ''hours_held'' (map_get basis ''hours_held'')) (\<lambda>hours.
             ebind (text_of_field ''settlement_hours'' settlement) (\<lambda>sh.
               Inr (cost, [(''position_value'', value), (''funding_rate'', rate), (''funding_rate_source'', source),
                    (''hours_held'', hours), (''settlement_hours'', sh), (''derived_cost'', dec_str cost)])))))))"

text \<open>The funding line: derived from a basis that names where its rate is from, or no amount at all.\<close>

definition funding_component :: "pyval \<Rightarrow> string \<Rightarrow> (string \<times> pyval) list option \<Rightarrow> py_exc + cost_component \<times> (string \<times> string) list option" where
  "funding_component cost status basis =
     (if status \<notin> set valid_component_statuses then Inl (econ_error ''funding_cost_when_active'')
      else if status \<in> set null_amount_statuses then
        (if basis \<noteq> None then Inl (econ_error ''funding_basis'')
         else ebind (component ''funding_cost_when_active'' cost status) (\<lambda>c. Inr (c, None)))
      else (case basis of
          None \<Rightarrow> Inl (econ_error ''funding_basis'')
        | Some b \<Rightarrow> ebind (resolve_funding_basis b) (\<lambda>(derived, resolved).
            ebind (if cost = PNone then Inr ()
                   else ebind (econ_decimal ''funding_cost'' cost) (\<lambda>d. ebind (q_money d) (\<lambda>supplied.
                     if dec_eq supplied derived then Inr () else Inl (econ_error ''funding_cost'')))) (\<lambda>_.
            ebind (component ''funding_cost_when_active'' (PDec derived) status) (\<lambda>c. Inr (c, Some resolved))))))"


subsection \<open>Gross to net\<close>

record econ_args =
  ea_gross_pnl :: pyval
  ea_maker_fee :: pyval
  ea_taker_fee :: pyval
  ea_spread :: pyval
  ea_spread_status :: string
  ea_slippage :: pyval
  ea_slippage_status :: string
  ea_partial :: pyval
  ea_partial_status :: string
  ea_reject :: pyval
  ea_reject_status :: string
  ea_latency :: pyval
  ea_latency_status :: string
  ea_funding :: pyval
  ea_funding_status :: string
  ea_funding_basis :: "(string \<times> pyval) list option"
  ea_order_type :: string
  ea_maker_evidence :: bool
  ea_fill_status :: string
  ea_embedded_gross :: pyval
  ea_reported_net :: pyval
  ea_tolerance :: pyval

definition econ_defaults :: "pyval \<Rightarrow> econ_args" where
  "econ_defaults gross = \<lparr>ea_gross_pnl = gross, ea_maker_fee = PNone, ea_taker_fee = PNone,
     ea_spread = PNone, ea_spread_status = ''not_applicable'', ea_slippage = PNone, ea_slippage_status = ''active'',
     ea_partial = PNone, ea_partial_status = ''active'', ea_reject = PNone, ea_reject_status = ''not_applicable'',
     ea_latency = PNone, ea_latency_status = ''not_applicable'', ea_funding = PNone, ea_funding_status = ''inactive_not_wired'',
     ea_funding_basis = None, ea_order_type = ''market'', ea_maker_evidence = False, ea_fill_status = ''filled'',
     ea_embedded_gross = PNone, ea_reported_net = PNone, ea_tolerance = PStr ''0.00000001''\<rparr>"

record gross_to_net =
  gn_gross :: decimal
  gn_embedded_gross :: "decimal option"
  gn_maker :: cost_component
  gn_taker :: cost_component
  gn_fee :: cost_component
  gn_spread :: cost_component
  gn_slippage :: cost_component
  gn_partial :: cost_component
  gn_reject :: cost_component
  gn_latency :: cost_component
  gn_funding :: cost_component
  gn_net :: decimal
  gn_reconciled :: bool
  gn_residual :: decimal
  gn_order_type :: string
  gn_fill_status :: string
  gn_maker_evidence :: bool
  gn_funding_basis :: "(string \<times> string) list option"
  gn_reported_net :: "decimal option"

definition validate_fill_semantics ::
  "string \<Rightarrow> decimal \<Rightarrow> cost_component \<Rightarrow> cost_component \<Rightarrow> cost_component \<Rightarrow> py_exc + unit" where
  "validate_fill_semantics fill_status gross fee slip part =
     (if fill_status = ''not_filled'' then
        (if \<not> dec_eq gross dec_zero then Inl (econ_error ''gross_pnl'')
         else if \<not> dec_eq (billable_amount fee) dec_zero then Inl (econ_error (cc_name fee))
         else if \<not> dec_eq (billable_amount slip) dec_zero then Inl (econ_error (cc_name slip))
         else Inr ())
      else if fill_status = ''partially_filled'' then
        (if cc_status part \<in> set null_amount_statuses then Inl (econ_error (cc_name part)) else Inr ())
      else if \<not> dec_eq (billable_amount part) dec_zero then Inl (econ_error (cc_name part)) else Inr ())"

text \<open>Checks before any amount is read.\<close>

definition order_semantics :: "econ_args \<Rightarrow> py_exc + unit" where
  "order_semantics args =
     (if ea_order_type args \<notin> {''market'', ''limit''} then Inl (econ_error ''order_type'')
      else if ea_fill_status args \<notin> {''filled'', ''partially_filled'', ''not_filled''} then Inl (econ_error ''fill_status'')
      else if ea_maker_evidence args \<and> ea_order_type args \<noteq> ''limit'' then Inl (econ_error ''maker_fill_evidence'')
      else Inr ())"

definition fee_components :: "econ_args \<Rightarrow> py_exc + cost_component \<times> cost_component \<times> cost_component" where
  "fee_components args =
     ebind (component ''maker_fee_cost'' (ea_maker_fee args) ''active'') (\<lambda>maker.
     if dec_lt dec_zero (billable_amount maker) \<and> \<not> (ea_order_type args = ''limit'' \<and> ea_maker_evidence args)
     then Inl (econ_error ''maker_fee_cost'')
     else ebind (component ''taker_fee_cost'' (ea_taker_fee args) ''active'') (\<lambda>taker.
       ebind (dec_add (billable_amount maker) (billable_amount taker)) (\<lambda>t.
       ebind (component ''total_fee_cost'' (PDec t) ''active'') (\<lambda>fee. Inr (maker, taker, fee)))))"

fun dec_sum_from :: "decimal \<Rightarrow> decimal list \<Rightarrow> py_exc + decimal" where
  "dec_sum_from acc [] = Inr acc"
| "dec_sum_from acc (d # ds) = ebind (dec_add acc d) (\<lambda>acc'. dec_sum_from acc' ds)"

definition optional_money :: "string \<Rightarrow> pyval \<Rightarrow> py_exc + decimal option" where
  "optional_money name v = (if v = PNone then Inr None else ebind (econ_decimal name v) (\<lambda>d. ebind (q_money d) (\<lambda>q. Inr (Some q))))"

definition reconcile_gross_to_net :: "econ_args \<Rightarrow> py_exc + gross_to_net" where
  "reconcile_gross_to_net args =
     ebind (order_semantics args) (\<lambda>_.
     ebind (ebind (econ_decimal ''gross_pnl'' (ea_gross_pnl args)) q_money) (\<lambda>gross.
     ebind (fee_components args) (\<lambda>(maker, taker, fee).
     ebind (component ''spread_cost'' (ea_spread args) (ea_spread_status args)) (\<lambda>spread.
     ebind (component ''slippage_cost'' (ea_slippage args) (ea_slippage_status args)) (\<lambda>slip.
     ebind (component ''partial_fill_impact'' (ea_partial args) (ea_partial_status args)) (\<lambda>part.
     ebind (component ''reject_impact'' (ea_reject args) (ea_reject_status args)) (\<lambda>reject.
     ebind (component ''latency_or_delay_impact'' (ea_latency args) (ea_latency_status args)) (\<lambda>latency.
     ebind (funding_component (ea_funding args) (ea_funding_status args) (ea_funding_basis args)) (\<lambda>(funding, resolved).
     ebind (validate_fill_semantics (ea_fill_status args) gross fee slip part) (\<lambda>_.
     ebind (dec_sum_from (billable_amount fee) (map billable_amount [spread, slip, part, reject, latency, funding])) (\<lambda>costs.
     ebind (ebind (dec_sub gross costs) q_money) (\<lambda>net.
     ebind (not_below_zero ''residual_tolerance'' (ea_tolerance args)) (\<lambda>tolerance.
     ebind (if ea_reported_net args = PNone then q_money dec_zero
            else ebind (econ_decimal ''reported_net_pnl'' (ea_reported_net args)) (\<lambda>d. ebind (dec_sub d net) q_money)) (\<lambda>residual.
     ebind (dec_abs residual) (\<lambda>abs_residual.
     ebind (optional_money ''fill_price_embedded_gross'' (ea_embedded_gross args)) (\<lambda>embedded.
     ebind (optional_money ''reported_net_pnl'' (ea_reported_net args)) (\<lambda>reported.
       Inr \<lparr>gn_gross = gross, gn_embedded_gross = embedded, gn_maker = maker, gn_taker = taker, gn_fee = fee, gn_spread = spread,
            gn_slippage = slip, gn_partial = part, gn_reject = reject, gn_latency = latency, gn_funding = funding, gn_net = net,
            gn_reconciled = dec_le abs_residual tolerance, gn_residual = residual, gn_order_type = ea_order_type args,
            gn_fill_status = ea_fill_status args, gn_maker_evidence = ea_maker_evidence args, gn_funding_basis = resolved,
            gn_reported_net = reported\<rparr>)))))))))))))))))"

subsection \<open>Amounts from sizes and prices\<close>

definition slippage_cost_from_bps :: "pyval \<Rightarrow> pyval \<Rightarrow> py_exc + decimal" where
  "slippage_cost_from_bps notional slippage_bps =
     ebind (not_below_zero ''notional'' notional) (\<lambda>n.
     ebind (validate_bps slippage_bps ''slippage_bps'') (\<lambda>bps.
     ebind (dec_mul n bps) (\<lambda>x. ebind (dec_div x TEN_THOUSAND) q_money)))"

definition reference_gross_pnl :: "string \<Rightarrow> pyval \<Rightarrow> pyval \<Rightarrow> pyval \<Rightarrow> py_exc + decimal" where
  "reference_gross_pnl side filled_size entry_price exit_price =
     ebind (not_below_zero ''filled_size'' filled_size) (\<lambda>size.
     ebind (econ_decimal ''entry_reference_price'' entry_price) (\<lambda>entry.
     ebind (econ_decimal ''exit_reference_price'' exit_price) (\<lambda>exit.
     if strip (lower side) \<in> {''buy'', ''long''} then ebind (dec_sub exit entry) (\<lambda>d. ebind (dec_mul d size) q_money)
     else if strip (lower side) \<in> {''sell'', ''short''} then ebind (dec_sub entry exit) (\<lambda>d. ebind (dec_mul d size) q_money)
     else Inl (econ_error ''side''))))"

definition fill_price_embedded_gross_pnl :: "string \<Rightarrow> pyval \<Rightarrow> pyval \<Rightarrow> pyval \<Rightarrow> py_exc + decimal" where
  "fill_price_embedded_gross_pnl side filled_size entry_fill exit_fill = reference_gross_pnl side filled_size entry_fill exit_fill"

definition partial_fill_impact_quote :: "pyval \<Rightarrow> pyval \<Rightarrow> pyval \<Rightarrow> py_exc + decimal" where
  "partial_fill_impact_quote requested_size filled_size pnl_per_unit =
     ebind (econ_decimal ''requested_size'' requested_size) (\<lambda>requested.
     ebind (econ_decimal ''filled_size'' filled_size) (\<lambda>filled.
     if dec_lt requested dec_zero \<or> dec_lt filled dec_zero then Inl (econ_error ''sizes'')
     else if dec_lt requested filled then Inl (econ_error ''filled_size'')
     else ebind (econ_decimal ''reference_pnl_per_unit'' pnl_per_unit) (\<lambda>per_unit.
       ebind (dec_sub requested filled) (\<lambda>unfilled.
       ebind (dec_mul per_unit unfilled) (\<lambda>forgone.
         if dec_le forgone dec_zero then q_money dec_zero else q_money forgone)))))"

subsection \<open>Scenario overrides\<close>

definition legacy_scenario_keys :: "string list" where "legacy_scenario_keys = [''fill_rate'', ''fill_depth_factor'']"
definition unsupported_scenario_keys :: "string list" where "unsupported_scenario_keys = [''feed_gap_seconds'', ''drop_ticks_on_gap'']"
definition allowed_scenario_keys :: "string list" where
  "allowed_scenario_keys = [''pack_id'', ''pack_version'', ''execution_slippage_bps'', ''usable_depth_fraction'', ''depth_impact_factor'',
     ''execution_delay_bars'', ''feed_gap_bars'', ''execution_posture'']"

text \<open>A whole number of bars.\<close>

definition dec_integral :: "decimal \<Rightarrow> int option" where
  "dec_integral d = (case d of
     DFin s c e \<Rightarrow> if 0 \<le> e then Some (sgn_of s * int c * 10 ^ nat e)
       else if c mod 10 ^ nat (- e) = 0 then Some (sgn_of s * int (c div 10 ^ nat (- e))) else None
   | _ \<Rightarrow> None)"

definition bars_of :: "string \<Rightarrow> pyval \<Rightarrow> py_exc + pyval" where
  "bars_of name v = ebind (econ_decimal name v) (\<lambda>d. case dec_integral d of
     None \<Rightarrow> Inl (econ_error name)
   | Some i \<Rightarrow> if dec_lt d dec_zero then Inl (econ_error name) else Inr (PInt i))"

definition float_value :: "py_exc + decimal \<Rightarrow> py_exc + pyval" where
  "float_value r = ebind r (\<lambda>d. Inr (PFloat (float_of_decimal d)))"

definition override_entry :: "(string \<times> pyval) list \<Rightarrow> string \<Rightarrow> string \<Rightarrow> (pyval \<Rightarrow> py_exc + pyval) \<Rightarrow> py_exc + (string \<times> pyval) list" where
  "override_entry overrides key target_field check = (case dget overrides key of
     None \<Rightarrow> Inr []
   | Some v \<Rightarrow> ebind (check v) (\<lambda>x. Inr [(target_field, x)]))"

definition posture_entry :: "pyval \<Rightarrow> py_exc + (string \<times> pyval) list" where
  "posture_entry v =
     (if \<not> truthy v then Inr []
      else case v of
        PStr s \<Rightarrow> if strip s = [] then Inl (econ_error ''execution_posture'') else Inr [(''_execution_posture'', PStr (strip s))]
      | _ \<Rightarrow> Inl (econ_error ''execution_posture''))"

definition resolve_scenario_overrides :: "(string \<times> pyval) list \<Rightarrow> py_exc + (string \<times> pyval) list \<times> (string \<times> pyval) list" where
  "resolve_scenario_overrides overrides =
     (let keys = map fst overrides in
      if \<exists>k \<in> set keys. k \<in> set legacy_scenario_keys then Inl (econ_error ''legacy'')
      else if \<exists>k \<in> set keys. k \<in> set unsupported_scenario_keys then Inl (econ_error ''unsupported'')
      else if \<exists>k \<in> set keys. k \<notin> set allowed_scenario_keys then Inl (econ_error ''unknown'')
      else
        ebind (override_entry overrides ''execution_slippage_bps'' ''BASE_SLIPPAGE_BPS''
            (\<lambda>v. float_value (validate_bps v ''execution_slippage_bps''))) (\<lambda>slippage.
        ebind (override_entry overrides ''usable_depth_fraction'' ''FILL_THRESHOLD''
            (\<lambda>v. float_value (validate_fraction v ''usable_depth_fraction'' MAX_USABLE_DEPTH_FRACTION))) (\<lambda>depth.
        ebind (override_entry overrides ''depth_impact_factor'' ''DEPTH_IMPACT_FACTOR''
            (\<lambda>v. float_value (validate_fraction v ''depth_impact_factor'' MAX_DEPTH_IMPACT_FACTOR))) (\<lambda>impact.
        ebind (override_entry overrides ''execution_delay_bars'' ''EXECUTION_DELAY_BARS'' (bars_of ''execution_delay_bars'')) (\<lambda>delay.
        ebind (override_entry overrides ''feed_gap_bars'' ''feed_gap_bars'' (bars_of ''feed_gap_bars'')) (\<lambda>gap.
        ebind (posture_entry (map_get overrides ''execution_posture'')) (\<lambda>posture.
          Inr (slippage @ depth @ impact @ delay @ posture, gap))))))))"

end
