(* ===== verification/EconomicsContract.thy ===== *)
theory EconomicsContract
  imports ExecutionEconomics
begin

text \<open>
  What the execution economics contract guarantees: the net result is exactly the gross one less
  every cost line that is billed, a supplied cost is billed or refused, and a maker fee or a funding
  cost needs its evidence. Sums of amounts below \<open>1e20\<close> are exact in the decimal context.
\<close>

subsection \<open>Exact sums of money\<close>

text \<open>Amounts with at most eight decimals.\<close>

definition money :: "decimal \<Rightarrow> bool" where
  "money d \<longleftrightarrow> (case d of DFin s c e \<Rightarrow> - 8 \<le> e \<and> e \<le> 0 \<and> c < 10 ^ 28 | _ \<Rightarrow> False)"

lemma money_small: "money d \<Longrightarrow> dec_small d"
  by (cases d) (auto simp: money_def dec_small_def)

lemma money_finite: "money d \<Longrightarrow> is_finite d"
  by (cases d) (auto simp: money_def)

lemma money_zero [simp]: "money dec_zero"
  by (simp add: money_def)

lemma powi_8:
  assumes "- 8 \<le> m" "m \<le> (0 :: int)"
  shows "(1 / 10 ^ 8 :: rat) \<le> 10 powi m"
proof -
  have "(10 :: rat) powi m = 1 / 10 ^ nat (- m)"
    using powi_split[of m 0] assms by (simp add: field_simps)
  moreover have "(10 :: rat) ^ nat (- m) \<le> 10 ^ 8" by (rule power_increasing) (use assms in auto)
  ultimately show ?thesis by (simp add: frac_le)
qed

lemma money_add:
  assumes "money a" "money b" "\<bar>dec_val a + dec_val b\<bar> < 10 ^ 20"
  obtains r where "dec_add a b = Inr r" "money r" "dec_val r = dec_val a + dec_val b"
proof -
  obtain s c e where a: "a = DFin s c e" using money_finite[OF assms(1)] by (cases a) auto
  obtain s' c' e' where b: "b = DFin s' c' e'" using money_finite[OF assms(2)] by (cases b) auto
  let ?m = "min e e'"
  let ?t = "dec_scaled ?m a + dec_scaled ?m b"
  have m: "- 8 \<le> ?m" "?m \<le> 0" using assms(1,2) by (auto simp: money_def a b)
  have "dec_val a + dec_val b = of_int ?t * 10 powi ?m"
    using dec_val_scaled[of ?m e s c] dec_val_scaled[of ?m e' s' c'] by (simp add: a b algebra_simps)
  then have "\<bar>of_int ?t\<bar> * (10 :: rat) powi ?m < 10 ^ 20" using assms(3) by (simp add: abs_mult)
  moreover have "\<bar>of_int ?t\<bar> * (1 / 10 ^ 8) \<le> \<bar>of_int ?t\<bar> * (10 :: rat) powi ?m"
    by (rule mult_left_mono) (use powi_8[OF m] in auto)
  ultimately have "\<bar>of_int ?t :: rat\<bar> < 10 ^ 28" by simp
  then have "of_int \<bar>?t\<bar> < (of_int (10 ^ 28) :: rat)" by simp
  then have "\<bar>?t\<bar> < 10 ^ 28" by (simp only: of_int_less_iff)
  then have "nat \<bar>?t\<bar> < 10 ^ 28" by simp
  from dec_add_exact[of e e' s c s' c', folded a b, OF this] m
  obtain r where r: "dec_add a b = Inr r" "dec_small r" "dec_val r = dec_val a + dec_val b" "d_exp r = ?m" by auto
  have "money r" using r(2,4) m by (cases r) (auto simp: money_def dec_small_def)
  with r(1,3) that show ?thesis by blast
qed

lemma money_sum:
  assumes "money acc" "list_all money ds" "0 \<le> dec_val acc" "list_all (\<lambda>d. 0 \<le> dec_val d) ds"
    and "dec_val acc + sum_list (map dec_val ds) < 10 ^ 20"
  shows "\<exists>r. dec_sum_from acc ds = Inr r \<and> money r \<and> dec_val r = dec_val acc + sum_list (map dec_val ds)"
  using assms
proof (induction ds arbitrary: acc)
  case (Cons d ds)
  have nn: "0 \<le> sum_list (map dec_val ds)" using Cons.prems(4) by (intro sum_list_nonneg) (auto simp: list_all_iff)
  have "\<bar>dec_val acc + dec_val d\<bar> < 10 ^ 20" using Cons.prems nn by simp
  then obtain r where r: "dec_add acc d = Inr r" "money r" "dec_val r = dec_val acc + dec_val d"
    using money_add[of acc d] Cons.prems by auto
  then obtain r' where "dec_sum_from r ds = Inr r'" "money r'" "dec_val r' = dec_val r + sum_list (map dec_val ds)"
    using Cons.IH[of r] Cons.prems by (auto simp: add.assoc)
  then show ?case using r by (auto simp: add.assoc)
qed simp

lemma money_quantize:
  assumes "money d" "q_money d = Inr q"
  shows "money q" "dec_val q = dec_val d"
proof -
  obtain s c e where d: "d = DFin s c e" "- 8 \<le> e" using assms(1) by (cases d) (auto simp: money_def)
  have q: "q = DFin s (rescale ROUND_HALF_UP c e (- 8)) (- 8)" "rescale ROUND_HALF_UP c e (- 8) < 10 ^ 28"
    using assms(2) unfolding q_money_def d(1) dec_quantize_Inr by blast+
  from q show "money q" by (simp add: money_def)
  show "dec_val q = dec_val d"
    using rescale_exact[OF d(2), of ROUND_HALF_UP c] by (simp add: q(1) d(1) dec_val_def)
qed

lemma on_grid_money: "on_grid (- 8) d \<Longrightarrow> money d"
  by (cases d) (auto simp: on_grid_def money_def)

lemma q_money_money: "q_money d = Inr q \<Longrightarrow> is_finite d \<Longrightarrow> money q"
  unfolding q_money_def by (rule on_grid_money, rule dec_quantize_on_grid)

lemma econ_decimal_finite: "econ_decimal name v = Inr d \<Longrightarrow> is_finite d"
  by (auto simp: econ_decimal_def split: pyval.splits sum.splits if_splits)

lemma econ_decimal_self:
  assumes "money d"
  shows "econ_decimal name (PDec d) = Inr d"
proof -
  obtain s c e where d: "d = DFin s c e" "- 8 \<le> e" "e \<le> 0" "c < 10 ^ 28" using assms by (cases d) (auto simp: money_def)
  have "ndigits c \<le> 28" using d(4) by (simp only: ndigits_le_iff zero_less_numeral)
  then have "dec_of_string (dec_str (DFin s c e)) = Inr (DFin s c e)"
    using d by (intro dec_of_string_str) (simp_all add: MIN_EXP_def MAX_ADJ_def)
  then show ?thesis by (simp add: econ_decimal_def d(1) del: dec_str.simps)
qed


lemma round_half_up_bounds:
  assumes "0 < d"
  shows "2 * (round_div ROUND_HALF_UP n d * d) \<le> 2 * n + d \<and> 2 * n \<le> 2 * (round_div ROUND_HALF_UP n d * d) + d"
proof -
  obtain a m where n: "n div d * d = a" "n mod d = m" "n = a + m" "m < d"
    using assms div_mult_mod_eq[of n d] mod_less_divisor[of d n] by metis
  have r: "round_div ROUND_HALF_UP n d * d = n div d * d + (if d \<le> 2 * (n mod d) then d else 0)"
    by (simp add: round_div_def Let_def add_mult_distrib)
  show ?thesis unfolding r n(1,2) using n(3,4) by auto
qed

lemma q_money_near:
  assumes "q_money d = Inr q" "is_finite d"
  shows "\<bar>dec_val q - dec_val d\<bar> \<le> 1 / 2 * 10 powi (- 8)" "0 \<le> dec_val d \<Longrightarrow> 0 \<le> dec_val q"
proof -
  obtain s c e where d: "d = DFin s c e" using assms(2) by (cases d) auto
  let ?r = "rescale ROUND_HALF_UP c e (- 8)"
  have q: "q = DFin s ?r (- 8)" using assms(1) unfolding q_money_def d dec_quantize_Inr by blast
  have diff: "dec_val q - dec_val d = of_int (sgn_of s) * (of_nat ?r * 10 powi (- 8) - of_nat c * 10 powi e)"
    by (simp add: q d dec_val_def algebra_simps)
  have near: "\<bar>of_nat ?r * (10 :: rat) powi (- 8) - of_nat c * 10 powi e\<bar> \<le> 1 / 2 * 10 powi (- 8)"
  proof (cases "- 8 \<le> e")
    case True
    then show ?thesis using rescale_exact[of "- 8" e ROUND_HALF_UP c] by simp
  next
    case False
    define k where "k = nat (- 8 - e)"
    have p: "(10 :: rat) powi (- 8) = 10 ^ k * 10 powi e" using False unfolding k_def by (intro powi_split) simp
    have r: "?r = round_div ROUND_HALF_UP c (10 ^ k)" using False by (simp add: rescale_def k_def)
    let ?u = "round_div ROUND_HALF_UP c (10 ^ k)"
    have "2 * (?u * 10 ^ k) \<le> 2 * c + 10 ^ k" "2 * c \<le> 2 * (?u * 10 ^ k) + 10 ^ k"
      using round_half_up_bounds[of "10 ^ k" c] by simp_all
    then have "of_nat (2 * (?u * 10 ^ k)) \<le> (of_nat (2 * c + 10 ^ k) :: rat)" "of_nat (2 * c) \<le> (of_nat (2 * (?u * 10 ^ k) + 10 ^ k) :: rat)"
      by (simp_all only: of_nat_le_iff)
    moreover obtain x where x: "x = (of_nat ?u * 10 ^ k :: rat)" by simp
    ultimately have "2 * x \<le> 2 * of_nat c + 10 ^ k" "2 * of_nat c \<le> 2 * x + 10 ^ k" by simp_all
    then have "\<bar>of_nat ?u * 10 ^ k - of_nat c\<bar> \<le> (1 / 2 * 10 ^ k :: rat)" unfolding x[symmetric] by linarith
    then have "\<bar>of_nat ?u * 10 ^ k - of_nat c\<bar> * 10 powi e \<le> (1 / 2 * 10 ^ k :: rat) * 10 powi e"
      by (rule mult_right_mono) (simp add: less_imp_le)
    then show ?thesis unfolding r p by (simp add: abs_mult left_diff_distrib[symmetric] mult.assoc[symmetric])
  qed
  show "\<bar>dec_val q - dec_val d\<bar> \<le> 1 / 2 * 10 powi (- 8)"
    unfolding diff using near by (simp add: abs_mult sgn_of_def)
  have "c = 0 \<Longrightarrow> ?r = 0" by (simp add: rescale_def round_div_def)
  then show "0 \<le> dec_val d \<Longrightarrow> 0 \<le> dec_val q" by (auto simp: q d dec_val_nonneg_iff)
qed

subsection \<open>Cost lines\<close>

lemma component_Inr:
  assumes "component name v st = Inr c"
  obtains (nothing) "cc_amount c = None" "st \<in> set null_amount_statuses" "cc_status c = st" "v = PNone"
  | (amount) a q where "st \<notin> set null_amount_statuses" "if v = PNone then a = dec_zero else econ_decimal name v = Inr a"
      "is_finite a" "0 \<le> dec_val a" "q_money a = Inr q" "cc_amount c = Some q"
      "cc_status c = (if dec_eq a dec_zero \<and> st = ''active'' then ''zero'' else st)"
proof (cases "st \<in> set null_amount_statuses")
  case True
  show ?thesis by (rule nothing) (use assms True in \<open>auto simp: component_def split: if_splits\<close>)
next
  case False
  from assms False obtain a q where f: "(if v = PNone then Inr dec_zero else econ_decimal name v) = Inr a" "\<not> dec_lt a dec_zero"
    "q_money a = Inr q" "c = \<lparr>cc_name = name, cc_amount = Some q, cc_status = (if dec_eq a dec_zero \<and> st = ''active'' then ''zero'' else st)\<rparr>"
    by (auto simp: component_def ebind_eq_Inr split: if_splits)
  have fin: "is_finite a" using f(1) econ_decimal_finite by (auto split: if_splits)
  show ?thesis
    by (rule amount[OF False _ fin _ f(3)]) (use f fin in \<open>auto simp: fin_cmp split: if_splits\<close>)
qed

lemma billable_component:
  assumes "component name v st = Inr c"
  shows "money (billable_amount c)" "0 \<le> dec_val (billable_amount c)"
  using assms by (cases rule: component_Inr; auto simp: billable_amount_def q_money_money dest: q_money_near(2))+

lemma supplied_is_billed:
  assumes "component name v st = Inr c" "v \<noteq> PNone" "st \<noteq> ''embedded_in_fill_price''"
  shows "\<exists>a. econ_decimal name v = Inr a \<and> 0 \<le> dec_val a \<and> \<bar>dec_val (billable_amount c) - dec_val a\<bar> \<le> 1 / 2 * 10 powi (- 8)"
  using assms(1)
proof (cases rule: component_Inr)
  case (amount a q)
  have "cc_status c \<notin> set non_subtracted_statuses"
    using amount(1,7) assms(3) by (auto simp: non_subtracted_statuses_def null_amount_statuses_def)
  then have "billable_amount c = q" using amount(6) by (simp add: billable_amount_def)
  with amount assms(2) q_money_near(1)[OF amount(5,3)] show ?thesis by auto
qed (use assms(2) in auto)

subsection \<open>The parts of a result\<close>

lemma reconcile_parts:
  assumes "reconcile_gross_to_net args = Inr r"
  obtains costs where "order_semantics args = Inr ()"
    "ebind (econ_decimal ''gross_pnl'' (ea_gross_pnl args)) q_money = Inr (gn_gross r)"
    "fee_components args = Inr (gn_maker r, gn_taker r, gn_fee r)"
    "component ''spread_cost'' (ea_spread args) (ea_spread_status args) = Inr (gn_spread r)"
    "component ''slippage_cost'' (ea_slippage args) (ea_slippage_status args) = Inr (gn_slippage r)"
    "component ''partial_fill_impact'' (ea_partial args) (ea_partial_status args) = Inr (gn_partial r)"
    "component ''reject_impact'' (ea_reject args) (ea_reject_status args) = Inr (gn_reject r)"
    "component ''latency_or_delay_impact'' (ea_latency args) (ea_latency_status args) = Inr (gn_latency r)"
    "funding_component (ea_funding args) (ea_funding_status args) (ea_funding_basis args) = Inr (gn_funding r, gn_funding_basis r)"
    "validate_fill_semantics (ea_fill_status args) (gn_gross r) (gn_fee r) (gn_slippage r) (gn_partial r) = Inr ()"
    "dec_sum_from (billable_amount (gn_fee r))
       (map billable_amount [gn_spread r, gn_slippage r, gn_partial r, gn_reject r, gn_latency r, gn_funding r]) = Inr costs"
    "ebind (dec_sub (gn_gross r) costs) q_money = Inr (gn_net r)"
  using assms unfolding reconcile_gross_to_net_def
  by (auto simp add: ebind_eq_Inr simp del: list.map split: prod.splits intro!: that)

text \<open>The fee line is the sum of the two fees.\<close>

lemma fees_add_up:
  assumes "fee_components args = Inr (maker, taker, fee)"
    and "dec_val (billable_amount maker) + dec_val (billable_amount taker) < 10 ^ 20"
  shows "money (billable_amount fee)"
    "dec_val (billable_amount fee) = dec_val (billable_amount maker) + dec_val (billable_amount taker)"
proof -
  from assms(1) obtain t where f: "component ''maker_fee_cost'' (ea_maker_fee args) ''active'' = Inr maker"
    "component ''taker_fee_cost'' (ea_taker_fee args) ''active'' = Inr taker"
    "dec_add (billable_amount maker) (billable_amount taker) = Inr t" "component ''total_fee_cost'' (PDec t) ''active'' = Inr fee"
    by (auto simp: fee_components_def ebind_eq_Inr split: if_splits)
  note m = billable_component[OF f(1)] and tk = billable_component[OF f(2)]
  have "\<bar>dec_val (billable_amount maker) + dec_val (billable_amount taker)\<bar> < 10 ^ 20" using m(2) tk(2) assms(2) by simp
  from money_add[OF m(1) tk(1) this] f(3)
  have t: "money t" "dec_val t = dec_val (billable_amount maker) + dec_val (billable_amount taker)" by auto
  show "money (billable_amount fee)" by (rule billable_component[OF f(4)])
  show "dec_val (billable_amount fee) = dec_val (billable_amount maker) + dec_val (billable_amount taker)"
    using f(4)
  proof (cases rule: component_Inr)
    case (amount a q)
    then have "a = t" by (simp add: econ_decimal_self[OF t(1)])
    with amount t money_quantize[OF t(1), of q] show ?thesis
      by (simp add: billable_amount_def non_subtracted_statuses_def null_amount_statuses_def)
  qed (simp add: null_amount_statuses_def)
qed

text \<open>The lines that are billed: the fees apart, and everything else.\<close>

definition cost_lines :: "gross_to_net \<Rightarrow> cost_component list" where
  "cost_lines r = [gn_maker r, gn_taker r, gn_spread r, gn_slippage r, gn_partial r, gn_reject r, gn_latency r, gn_funding r]"

lemma funding_billable:
  assumes "funding_component v st b = Inr (c, res)"
  shows "money (billable_amount c)" "0 \<le> dec_val (billable_amount c)"
  using assms by (auto simp: funding_component_def ebind_eq_Inr split: if_splits option.splits dest: billable_component)

lemma funding_cost_money:
  assumes "funding_cost_from_rate v r h s = Inr d"
  shows "money d"
proof -
  from assms obtain worth rate hours settlement vr periods x where x: "econ_decimal ''position_value'' v = Inr worth"
    "econ_decimal ''funding_rate'' r = Inr rate" "econ_decimal ''hours_held'' h = Inr hours" "econ_decimal ''settlement_hours'' s = Inr settlement"
    "dec_mul worth rate = Inr vr" "dec_div hours settlement = Inr periods" "dec_mul vr periods = Inr x" "q_money x = Inr d"
    by (auto simp: funding_cost_from_rate_def not_below_zero_def ebind_eq_Inr split: if_splits)
  note fin = x(1-4)[THEN econ_decimal_finite]
  have "is_finite x" by (rule dec_mul_finite[OF x(7) dec_mul_finite[OF x(5) fin(1,2)] dec_div_finite[OF x(6) fin(3,4)]])
  with x(8) show ?thesis by (rule q_money_money)
qed

lemma net_exact:
  assumes "reconcile_gross_to_net args = Inr r"
    and "\<bar>dec_val (gn_gross r)\<bar> + sum_list (map (dec_val \<circ> billable_amount) (cost_lines r)) < 10 ^ 20"
  shows "dec_val (gn_net r) = dec_val (gn_gross r) - sum_list (map (dec_val \<circ> billable_amount) (cost_lines r))"
proof -
  obtain costs where p: "ebind (econ_decimal ''gross_pnl'' (ea_gross_pnl args)) q_money = Inr (gn_gross r)"
    "fee_components args = Inr (gn_maker r, gn_taker r, gn_fee r)"
    "component ''spread_cost'' (ea_spread args) (ea_spread_status args) = Inr (gn_spread r)"
    "component ''slippage_cost'' (ea_slippage args) (ea_slippage_status args) = Inr (gn_slippage r)"
    "component ''partial_fill_impact'' (ea_partial args) (ea_partial_status args) = Inr (gn_partial r)"
    "component ''reject_impact'' (ea_reject args) (ea_reject_status args) = Inr (gn_reject r)"
    "component ''latency_or_delay_impact'' (ea_latency args) (ea_latency_status args) = Inr (gn_latency r)"
    "funding_component (ea_funding args) (ea_funding_status args) (ea_funding_basis args) = Inr (gn_funding r, gn_funding_basis r)"
    "dec_sum_from (billable_amount (gn_fee r))
       (map billable_amount [gn_spread r, gn_slippage r, gn_partial r, gn_reject r, gn_latency r, gn_funding r]) = Inr costs"
    "ebind (dec_sub (gn_gross r) costs) q_money = Inr (gn_net r)"
    using assms(1) by (rule reconcile_parts)
  note others = billable_component[OF p(3)] billable_component[OF p(4)] billable_component[OF p(5)] billable_component[OF p(6)]
    billable_component[OF p(7)] funding_billable[OF p(8)]
  have fees: "0 \<le> dec_val (billable_amount (gn_maker r))" "0 \<le> dec_val (billable_amount (gn_taker r))"
    using p(2) by (auto simp: fee_components_def ebind_eq_Inr split: if_splits dest: billable_component)
  have gross: "money (gn_gross r)" using p(1) by (auto simp: ebind_eq_Inr dest: econ_decimal_finite q_money_money)
  have bound: "\<bar>dec_val (gn_gross r)\<bar> + (dec_val (billable_amount (gn_maker r)) + dec_val (billable_amount (gn_taker r))
      + dec_val (billable_amount (gn_spread r)) + dec_val (billable_amount (gn_slippage r)) + dec_val (billable_amount (gn_partial r))
      + dec_val (billable_amount (gn_reject r)) + dec_val (billable_amount (gn_latency r)) + dec_val (billable_amount (gn_funding r))) < 10 ^ 20"
    using assms(2) by (simp add: cost_lines_def add.assoc)
  have "dec_val (billable_amount (gn_maker r)) + dec_val (billable_amount (gn_taker r)) < 10 ^ 20" using bound others fees by linarith
  note fee = fees_add_up[OF p(2) this]
  have costs: "money costs" "dec_val costs = dec_val (billable_amount (gn_fee r)) + (dec_val (billable_amount (gn_spread r))
      + (dec_val (billable_amount (gn_slippage r)) + (dec_val (billable_amount (gn_partial r)) + (dec_val (billable_amount (gn_reject r))
      + (dec_val (billable_amount (gn_latency r)) + dec_val (billable_amount (gn_funding r)))))))"
    using money_sum[OF fee(1), of "map billable_amount [gn_spread r, gn_slippage r, gn_partial r, gn_reject r, gn_latency r, gn_funding r]"]
      p(9) others fees fee(2) bound by (auto simp: add.assoc)
  obtain d where d: "dec_sub (gn_gross r) costs = Inr d" "q_money d = Inr (gn_net r)" using p(10) by (auto simp: ebind_eq_Inr)
  have neg: "money (copy_negate costs)" "dec_val (copy_negate costs) = - dec_val costs"
    using costs(1) by (cases costs; auto simp: money_def dec_val_neg)+
  have "\<bar>dec_val (gn_gross r) + dec_val (copy_negate costs)\<bar> < 10 ^ 20"
    unfolding neg costs(2) fee(2) using bound others fees by linarith
  from money_add[OF gross neg(1) this] d(1)
  have dd: "money d" "dec_val d = dec_val (gn_gross r) - dec_val costs" by (auto simp: dec_sub_def neg(2))
  show ?thesis
    unfolding money_quantize(2)[OF dd(1) d(2)] dd(2) costs(2) fee(2) by (simp add: cost_lines_def)
qed

text \<open>
  C16. Net is gross less the costs. As long as the amounts together stay below \<open>1e20\<close>, the net result
  is exactly, with no rounding at all, the gross result less every cost line that is billed: maker and
  taker fee, spread, slippage, partial fill, rejection, latency and funding, each once.
\<close>

theorem net_is_gross_less_costs:
  assumes "reconcile_gross_to_net args = Inr r"
    and "\<bar>dec_val (gn_gross r)\<bar> + sum_list (map (dec_val \<circ> billable_amount) (cost_lines r)) < 10 ^ 20"
  shows "dec_val (gn_net r) = dec_val (gn_gross r) - sum_list (map (dec_val \<circ> billable_amount) (cost_lines r))"
  by (rule net_exact[OF assms])

lemma supplied_funding_is_billed:
  assumes "funding_component v st basis = Inr (c, res)" "v \<noteq> PNone"
  shows "st \<notin> set null_amount_statuses
    \<and> (st \<noteq> ''embedded_in_fill_price''
         \<longrightarrow> (\<exists>a. econ_decimal ''funding_cost'' v = Inr a \<and> \<bar>dec_val (billable_amount c) - dec_val a\<bar> \<le> 1 / 2 * 10 powi (- 8)))"
proof -
  from assms have n: "st \<notin> set null_amount_statuses" by (auto simp: funding_component_def component_def split: if_splits)
  with assms obtain b derived resolved a s where p: "resolve_funding_basis b = Inr (derived, resolved)"
    "econ_decimal ''funding_cost'' v = Inr a" "q_money a = Inr s" "dec_eq s derived"
    "component ''funding_cost_when_active'' (PDec derived) st = Inr c"
    by (auto simp: funding_component_def ebind_eq_Inr split: if_splits option.splits)
  have derived: "money derived"
    using p(1) by (auto simp: resolve_funding_basis_def Let_def ebind_eq_Inr split: if_splits dest: funding_cost_money)
  have fin: "is_finite a" by (rule econ_decimal_finite[OF p(2)])
  have same: "dec_val s = dec_val derived"
    using p(4) money_finite[OF derived] money_finite[OF q_money_money[OF p(3) fin]] by (simp add: fin_cmp)
  have "\<bar>dec_val (billable_amount c) - dec_val a\<bar> \<le> 1 / 2 * 10 powi (- 8)" if "st \<noteq> ''embedded_in_fill_price''"
    using p(5)
  proof (cases rule: component_Inr)
    case (amount d q)
    have "d = derived" using amount(2) by (simp add: econ_decimal_self[OF derived])
    then have "dec_val q = dec_val s" using money_quantize(2)[OF derived, of q] amount(5) same by simp
    moreover have "billable_amount c = q"
      using amount(1,6,7) that by (auto simp: billable_amount_def non_subtracted_statuses_def null_amount_statuses_def)
    ultimately show ?thesis using q_money_near(1)[OF p(3) fin] by simp
  qed (use n in simp)
  with n p(2) show ?thesis by blast
qed

lemma supplied_needs_amount: "component name v st = Inr c \<Longrightarrow> v \<noteq> PNone \<Longrightarrow> st \<notin> set null_amount_statuses"
  by (auto simp: component_def split: if_splits)

lemma sum_list_split_one:
  fixes f :: "'a \<Rightarrow> rat"
  assumes "x \<in> set xs"
  shows "sum_list (map f xs) = f x + sum_list (map f (remove1 x xs))"
  using assms by (rule sum_list_map_remove1)

text \<open>The costs that a caller can supply: the value, its status and the line of the result.\<close>

definition supplied_costs :: "econ_args \<Rightarrow> gross_to_net \<Rightarrow> (pyval \<times> string \<times> cost_component) list" where
  "supplied_costs args r =
     [(ea_maker_fee args, ''active'', gn_maker r), (ea_taker_fee args, ''active'', gn_taker r),
      (ea_spread args, ea_spread_status args, gn_spread r), (ea_slippage args, ea_slippage_status args, gn_slippage r),
      (ea_partial args, ea_partial_status args, gn_partial r), (ea_reject args, ea_reject_status args, gn_reject r),
      (ea_latency args, ea_latency_status args, gn_latency r), (ea_funding args, ea_funding_status args, gn_funding r)]"

text \<open>
  C17. A cost that is supplied is billed. When a result is reached, none of the costs that the caller
  supplied, funding included, was under a status without an amount: that is refused. Each of them,
  unless declared to be in the fill price already, is a line of the bill with its own amount, up to
  half a unit of the eighth decimal, and this line and all the others are subtracted from the gross
  result, as long as the amounts together stay below \<open>1e20\<close>.
\<close>

theorem supplied_cost_is_billed:
  assumes "reconcile_gross_to_net args = Inr r"
    and "(v, st, c) \<in> set (supplied_costs args r)" "v \<noteq> PNone"
  shows "st \<notin> set null_amount_statuses
    \<and> (st \<noteq> ''embedded_in_fill_price'' \<longrightarrow>
         (\<exists>name a. econ_decimal name v = Inr a \<and> \<bar>dec_val (billable_amount c) - dec_val a\<bar> \<le> 1 / 2 * 10 powi (- 8)))
    \<and> (\<bar>dec_val (gn_gross r)\<bar> + sum_list (map (dec_val \<circ> billable_amount) (cost_lines r)) < 10 ^ 20 \<longrightarrow>
         dec_val (gn_net r) = dec_val (gn_gross r) - dec_val (billable_amount c)
           - sum_list (map (dec_val \<circ> billable_amount) (remove1 c (cost_lines r))))"
proof -
  obtain costs where p: "fee_components args = Inr (gn_maker r, gn_taker r, gn_fee r)"
    "component ''spread_cost'' (ea_spread args) (ea_spread_status args) = Inr (gn_spread r)"
    "component ''slippage_cost'' (ea_slippage args) (ea_slippage_status args) = Inr (gn_slippage r)"
    "component ''partial_fill_impact'' (ea_partial args) (ea_partial_status args) = Inr (gn_partial r)"
    "component ''reject_impact'' (ea_reject args) (ea_reject_status args) = Inr (gn_reject r)"
    "component ''latency_or_delay_impact'' (ea_latency args) (ea_latency_status args) = Inr (gn_latency r)"
    "funding_component (ea_funding args) (ea_funding_status args) (ea_funding_basis args) = Inr (gn_funding r, gn_funding_basis r)"
    using assms(1) by (rule reconcile_parts)
  have fees: "component ''maker_fee_cost'' (ea_maker_fee args) ''active'' = Inr (gn_maker r)"
    "component ''taker_fee_cost'' (ea_taker_fee args) ''active'' = Inr (gn_taker r)"
    using p(1) by (auto simp: fee_components_def ebind_eq_Inr split: if_splits)
  have "(\<exists>name. component name v st = Inr c) \<or> (\<exists>basis res. funding_component v st basis = Inr (c, res))"
    using assms(2) p(2-7) fees by (auto simp: supplied_costs_def)
  then have billed: "st \<notin> set null_amount_statuses \<and> (st \<noteq> ''embedded_in_fill_price'' \<longrightarrow>
      (\<exists>name a. econ_decimal name v = Inr a \<and> \<bar>dec_val (billable_amount c) - dec_val a\<bar> \<le> 1 / 2 * 10 powi (- 8)))"
    using supplied_needs_amount supplied_is_billed supplied_funding_is_billed assms(3) by blast
  have "c \<in> set (cost_lines r)" using assms(2) by (auto simp: supplied_costs_def cost_lines_def)
  from sum_list_split_one[OF this, of "dec_val \<circ> billable_amount"]
  have "dec_val (gn_net r) = dec_val (gn_gross r) - dec_val (billable_amount c)
      - sum_list (map (dec_val \<circ> billable_amount) (remove1 c (cost_lines r)))"
    if "\<bar>dec_val (gn_gross r)\<bar> + sum_list (map (dec_val \<circ> billable_amount) (cost_lines r)) < 10 ^ 20"
    using net_exact[OF assms(1) that] by simp
  with billed show ?thesis by blast
qed

text \<open>
  C18. No unproven cost is billed. A maker fee is billed only for a limit order with evidence of a
  maker fill; funding is billed only with a basis whose rate has a source that is not a placeholder,
  and its amount is the one that the basis gives.
\<close>

theorem unproven_cost_is_refused:
  assumes "reconcile_gross_to_net args = Inr r"
  shows "(0 < dec_val (billable_amount (gn_maker r)) \<longrightarrow> ea_order_type args = ''limit'' \<and> ea_maker_evidence args)
    \<and> (billable_amount (gn_funding r) \<noteq> dec_zero \<longrightarrow> (\<exists>basis derived res. ea_funding_basis args = Some basis
        \<and> strip (py_str (map_get basis ''funding_rate_source'')) \<notin> set unproven_funding_sources
        \<and> resolve_funding_basis basis = Inr (derived, res) \<and> dec_val (billable_amount (gn_funding r)) = dec_val derived))"
proof -
  obtain costs where p: "fee_components args = Inr (gn_maker r, gn_taker r, gn_fee r)"
    "funding_component (ea_funding args) (ea_funding_status args) (ea_funding_basis args) = Inr (gn_funding r, gn_funding_basis r)"
    using assms by (rule reconcile_parts)
  have maker: "0 < dec_val (billable_amount (gn_maker r)) \<longrightarrow> ea_order_type args = ''limit'' \<and> ea_maker_evidence args"
  proof
    assume pos: "0 < dec_val (billable_amount (gn_maker r))"
    from p(1) have m: "component ''maker_fee_cost'' (ea_maker_fee args) ''active'' = Inr (gn_maker r)"
      "dec_lt dec_zero (billable_amount (gn_maker r)) \<longrightarrow> ea_order_type args = ''limit'' \<and> ea_maker_evidence args"
      by (auto simp: fee_components_def ebind_eq_Inr split: if_splits)
    have "dec_lt dec_zero (billable_amount (gn_maker r))"
      using pos money_finite[OF billable_component(1)[OF m(1)]] by (simp add: fin_lt_val)
    with m(2) show "ea_order_type args = ''limit'' \<and> ea_maker_evidence args" by blast
  qed
  have funding: "\<exists>basis derived res. ea_funding_basis args = Some basis
        \<and> strip (py_str (map_get basis ''funding_rate_source'')) \<notin> set unproven_funding_sources
        \<and> resolve_funding_basis basis = Inr (derived, res) \<and> dec_val (billable_amount (gn_funding r)) = dec_val derived"
    if b: "billable_amount (gn_funding r) \<noteq> dec_zero"
  proof -
    have "ea_funding_status args \<notin> set null_amount_statuses"
    proof
      assume n: "ea_funding_status args \<in> set null_amount_statuses"
      with p(2) have "component ''funding_cost_when_active'' (ea_funding args) (ea_funding_status args) = Inr (gn_funding r)"
        by (auto simp: funding_component_def ebind_eq_Inr split: if_splits)
      then have "billable_amount (gn_funding r) = dec_zero" using n by (cases rule: component_Inr) (simp_all add: billable_amount_def)
      with b show False by simp
    qed
    then obtain basis derived res where s: "ea_funding_basis args = Some basis" "resolve_funding_basis basis = Inr (derived, res)"
      "component ''funding_cost_when_active'' (PDec derived) (ea_funding_status args) = Inr (gn_funding r)"
      using p(2) by (auto simp: funding_component_def ebind_eq_Inr split: if_splits option.splits)
    have src: "strip (py_str (map_get basis ''funding_rate_source'')) \<notin> set unproven_funding_sources"
      using s(2) by (auto simp: resolve_funding_basis_def Let_def split: if_splits)
    have "money derived"
      using s(2) by (auto simp: resolve_funding_basis_def Let_def ebind_eq_Inr split: if_splits dest: funding_cost_money)
    have "dec_val (billable_amount (gn_funding r)) = dec_val derived"
      using s(3)
    proof (cases rule: component_Inr)
      case (amount a q)
      then have "a = derived" by (simp add: econ_decimal_self[OF \<open>money derived\<close>])
      moreover have "cc_status (gn_funding r) \<notin> set non_subtracted_statuses" using b by (auto simp: billable_amount_def)
      ultimately show ?thesis using amount money_quantize(2)[OF \<open>money derived\<close>, of q] by (simp add: billable_amount_def)
    qed (use b in \<open>auto simp: billable_amount_def\<close>)
    with s(1,2) src show ?thesis by blast
  qed
  from maker funding show ?thesis by blast
qed

end
