(* ===== verification/EconomicsSamples.thy ===== *)
theory EconomicsSamples
  imports EconomicsContract
begin

text \<open>
  The properties of \<open>EconomicsContract\<close> on a limit order: gross 100, a proven maker fee of 0.02, a
  taker fee of 0.6, slippage of 0.25, and funding of 1000 for two periods at 0.0002.
\<close>

definition sample_args :: econ_args where
  "sample_args = (econ_defaults (PInt 100))\<lparr>ea_maker_fee := PDec (DFin False 2 (- 2)), ea_taker_fee := PDec (DFin False 6 (- 1)),
     ea_slippage := PDec (DFin False 25 (- 2)), ea_order_type := ''limit'', ea_maker_evidence := True,
     ea_funding_status := ''active'',
     ea_funding_basis := Some [(''position_value'', PInt 1000), (''funding_rate'', PDec (DFin False 2 (- 4))),
       (''funding_rate_source'', PStr ''venue''), (''hours_held'', PInt 16)]\<rparr>"

lemma econ_numbers_read [simp]:
  "econ_decimal name (PInt 100) = Inr (DFin False 100 0)" "econ_decimal name (PInt 1000) = Inr (DFin False 1000 0)"
  "econ_decimal name (PInt 16) = Inr (DFin False 16 0)"
  "econ_decimal name (PStr ''0.00000001'') = Inr (DFin False 1 (- 8))"
proof -
  have "py_str (PInt 100) = ''100''" "py_str (PInt 1000) = ''1000''" "py_str (PInt 16) = ''16''"
    "dec_of_string ''100'' = Inr (DFin False 100 0)" "dec_of_string ''1000'' = Inr (DFin False 1000 0)" "dec_of_string ''16'' = Inr (DFin False 16 0)"
    "dec_of_string ''0.00000001'' = Inr (DFin False 1 (- 8))"
    by code_simp+
  then show "econ_decimal name (PInt 100) = Inr (DFin False 100 0)" "econ_decimal name (PInt 1000) = Inr (DFin False 1000 0)"
    "econ_decimal name (PInt 16) = Inr (DFin False 16 0)" "econ_decimal name (PStr ''0.00000001'') = Inr (DFin False 1 (- 8))"
    by (simp_all add: econ_decimal_def)
qed

lemma decimals_read [simp]:
  "- 8 \<le> e \<Longrightarrow> e \<le> 0 \<Longrightarrow> c < 10 ^ 28 \<Longrightarrow> econ_decimal name (PDec (DFin s c e)) = Inr (DFin s c e)"
  by (rule econ_decimal_self) (simp add: money_def)

lemma q_money_eval [simp]: "q_money (DFin s c e) = (if rescale ROUND_HALF_UP c e (- 8) < 10 ^ 28 then Inr (DFin s (rescale ROUND_HALF_UP c e (- 8)) (- 8)) else Inl InvalidOperation)"
  by (simp only: q_money_def dec_quantize_fin)

lemma two_periods: "dec_div (DFin False 16 0) (DFin False 8 0) = Inr (DFin False 2 0)"
  by (simp add: PREC_def ndigits_numeral lower_zeros.simps dec_fix_small Let_def)

lemma sample_funding: "funding_component PNone ''active'' (ea_funding_basis sample_args)
   = Inr (\<lparr>cc_name = ''funding_cost_when_active'', cc_amount = Some (DFin False 40000000 (- 8)), cc_status = ''active''\<rparr>,
      Some [(''position_value'', ''1000''), (''funding_rate'', ''0.0002''), (''funding_rate_source'', ''venue''),
        (''hours_held'', ''16''), (''settlement_hours'', ''8''), (''derived_cost'', ''0.40000000'')])"
proof -
  have t: "strip ''venue'' = ''venue''" "dec_str (DFin False 1000 0) = ''1000''" "dec_str (DFin False 8 0) = ''8''" "dec_str (DFin False 16 0) = ''16''"
    "dec_str (DFin False 2 (- 4)) = ''0.0002''"
    by code_simp+
  have "digit_char 0 = CHR ''0''" "digit_char 4 = CHR ''4''" by code_simp+
  then have d: "dec_str (DFin False 40000000 (- 8)) = ''0.40000000''"
    by (simp add: Let_def ndigits_numeral nat_str_numeral place_point_def sign_str_def)
  have m: "dec_mul (DFin False 1000 0) (DFin False 2 (- 4)) = Inr (DFin False 2000 (- 4))"
    "dec_mul (DFin False 2000 (- 4)) (DFin False 2 0) = Inr (DFin False 4000 (- 4))"
    by (simp_all add: dec_mul_exact del: dec_mul.simps)
  show ?thesis
    by (simp add: sample_args_def funding_component_def valid_component_statuses_def null_amount_statuses_def resolve_funding_basis_def
        map_get_def map_get_or_def t d m unproven_funding_sources_def funding_cost_from_rate_def not_below_zero_def two_periods rescale_def
        component_def Let_def dec_val_def sgn_of_def del: dec_str.simps dec_mul.simps dec_div.simps)
qed

definition money_of :: "nat \<Rightarrow> decimal" where "money_of c = DFin False c (- 8)"

definition line_of :: "string \<Rightarrow> nat \<Rightarrow> string \<Rightarrow> cost_component" where
  "line_of name c st = \<lparr>cc_name = name, cc_amount = Some (money_of c), cc_status = st\<rparr>"

definition no_line :: "string \<Rightarrow> cost_component" where
  "no_line name = \<lparr>cc_name = name, cc_amount = None, cc_status = ''not_applicable''\<rparr>"

definition sample_result :: gross_to_net where
  "sample_result = \<lparr>gn_gross = money_of 10000000000, gn_embedded_gross = None, gn_maker = line_of ''maker_fee_cost'' 2000000 ''active'',
     gn_taker = line_of ''taker_fee_cost'' 60000000 ''active'', gn_fee = line_of ''total_fee_cost'' 62000000 ''active'',
     gn_spread = no_line ''spread_cost'', gn_slippage = line_of ''slippage_cost'' 25000000 ''active'',
     gn_partial = line_of ''partial_fill_impact'' 0 ''zero'', gn_reject = no_line ''reject_impact'', gn_latency = no_line ''latency_or_delay_impact'',
     gn_funding = line_of ''funding_cost_when_active'' 40000000 ''active'', gn_net = money_of 9873000000, gn_reconciled = True,
     gn_residual = money_of 0, gn_order_type = ''limit'', gn_fill_status = ''filled'', gn_maker_evidence = True,
     gn_funding_basis = Some [(''position_value'', ''1000''), (''funding_rate'', ''0.0002''), (''funding_rate_source'', ''venue''),
        (''hours_held'', ''16''), (''settlement_hours'', ''8''), (''derived_cost'', ''0.40000000'')], gn_reported_net = None\<rparr>"

lemma component_given: "st \<in> set valid_component_statuses \<Longrightarrow> st \<notin> set null_amount_statuses \<Longrightarrow> econ_decimal name v = Inr a \<Longrightarrow> v \<noteq> PNone
    \<Longrightarrow> component name v st = (if dec_lt a dec_zero then Inl (econ_error name) else ebind (q_money a) (\<lambda>q.
      Inr \<lparr>cc_name = name, cc_amount = Some q, cc_status = (if dec_eq a dec_zero \<and> st = ''active'' then ''zero'' else st)\<rparr>))"
  by (simp add: component_def)

lemma sample_lines:
  "component ''maker_fee_cost'' (PDec (DFin False 2 (- 2))) ''active'' = Inr (line_of ''maker_fee_cost'' 2000000 ''active'')"
  "component ''taker_fee_cost'' (PDec (DFin False 6 (- 1))) ''active'' = Inr (line_of ''taker_fee_cost'' 60000000 ''active'')"
  "component ''total_fee_cost'' (PDec (money_of 62000000)) ''active'' = Inr (line_of ''total_fee_cost'' 62000000 ''active'')"
  "component ''slippage_cost'' (PDec (DFin False 25 (- 2))) ''active'' = Inr (line_of ''slippage_cost'' 25000000 ''active'')"
  "component ''partial_fill_impact'' PNone ''active'' = Inr (line_of ''partial_fill_impact'' 0 ''zero'')"
  "component name PNone ''not_applicable'' = Inr (no_line name)"
  by (simp_all add: component_def valid_component_statuses_def null_amount_statuses_def line_of_def no_line_def money_of_def rescale_def
      dec_val_def sgn_of_def)

lemma billed_lines [simp]: "billable_amount (line_of name c ''active'') = money_of c" "billable_amount (line_of name c ''zero'') = money_of c"
  "billable_amount (no_line name) = dec_zero"
  by (simp_all add: billable_amount_def line_of_def no_line_def non_subtracted_statuses_def null_amount_statuses_def)

lemma money_of_add: "c + c' < 10 ^ 28 \<Longrightarrow> dec_add (money_of c) (money_of c') = Inr (money_of (c + c'))"
  by (simp add: money_of_def dec_scaled_def sgn_of_def dec_fix_small Let_def nat_add_distrib)

lemma money_of_add_zero: "c < 10 ^ 28 \<Longrightarrow> dec_add (money_of c) dec_zero = Inr (money_of c)"
  by (simp add: money_of_def dec_scaled_def sgn_of_def dec_fix_small Let_def)

lemma sample_reconciled: "reconcile_gross_to_net sample_args = Inr sample_result"
proof -
  have fees: "fee_components sample_args
      = Inr (line_of ''maker_fee_cost'' 2000000 ''active'', line_of ''taker_fee_cost'' 60000000 ''active'', line_of ''total_fee_cost'' 62000000 ''active'')"
    by (simp add: fee_components_def sample_args_def econ_defaults_def sample_lines money_of_add)
  have funding: "funding_component PNone ''active'' (ea_funding_basis sample_args)
      = Inr (gn_funding sample_result, gn_funding_basis sample_result)"
    by (simp add: sample_funding sample_result_def line_of_def money_of_def)
  have net: "dec_sub (money_of 10000000000) (money_of 127000000) = Inr (money_of 9873000000)"
    by (simp add: dec_sub_def money_of_def dec_scaled_def sgn_of_def dec_fix_small Let_def)
  have q: "q_money (money_of c) = Inr (money_of c)" if "c < 10 ^ 28" for c
    using that by (simp add: money_of_def)
  have z: "q_money (DFin False 100 0) = Inr (money_of 10000000000)" "q_money dec_zero = Inr (money_of 0)" "dec_abs (money_of 0) = Inr (money_of 0)"
    by (simp_all add: money_of_def rescale_def dec_fix_small)
  have sem: "validate_fill_semantics ''filled'' (money_of 10000000000) fee slip (line_of ''partial_fill_impact'' 0 ''zero'') = Inr ()" for fee slip
    by (simp add: validate_fill_semantics_def money_of_def)
  have args: "ea_gross_pnl sample_args = PInt 100" "ea_spread sample_args = PNone" "ea_spread_status sample_args = ''not_applicable''"
    "ea_slippage sample_args = PDec (DFin False 25 (- 2))" "ea_slippage_status sample_args = ''active''"
    "ea_partial sample_args = PNone" "ea_partial_status sample_args = ''active''" "ea_reject sample_args = PNone"
    "ea_reject_status sample_args = ''not_applicable''" "ea_latency sample_args = PNone" "ea_latency_status sample_args = ''not_applicable''"
    "ea_funding sample_args = PNone" "ea_funding_status sample_args = ''active''" "ea_order_type sample_args = ''limit''"
    "ea_maker_evidence sample_args" "ea_fill_status sample_args = ''filled''" "ea_embedded_gross sample_args = PNone"
    "ea_reported_net sample_args = PNone" "ea_tolerance sample_args = PStr ''0.00000001''"
    by (simp_all add: sample_args_def econ_defaults_def)
  have funding_line: "gn_funding sample_result = line_of ''funding_cost_when_active'' 40000000 ''active''" by (simp add: sample_result_def)
  show ?thesis
    by (simp add: reconcile_gross_to_net_def order_semantics_def args fees funding funding_line sample_lines z q sem money_of_add
        money_of_add_zero net not_below_zero_def dec_val_pos_form optional_money_def del: q_money_eval)
      (simp add: sample_result_def money_of_def dec_val_def sgn_of_def)
qed

lemma money_of_val: "dec_val (money_of c) = of_nat c / 10 ^ 8"
  by (simp add: money_of_def dec_val_pos_form power_int_def power_divide)

theorem net_is_gross_less_costs_witness: "dec_val (gn_net sample_result) = 9873 / 100"
  using net_is_gross_less_costs[OF sample_reconciled]
  by (simp add: sample_result_def cost_lines_def money_of_val)

theorem supplied_cost_is_billed_witness:
  "\<bar>dec_val (billable_amount (gn_slippage sample_result)) - 1 / 4\<bar> \<le> 1 / 2 * 10 powi (- 8)
    \<and> dec_val (gn_net sample_result) = 100 - dec_val (billable_amount (gn_slippage sample_result)) - 102 / 100"
proof -
  have v: "dec_val (DFin False 25 (- 2)) = (1 / 4 :: rat)" by (simp add: dec_val_pos_form power_int_def power_divide)
  have s: "(PDec (DFin False 25 (- 2)), ''active'', gn_slippage sample_result) \<in> set (supplied_costs sample_args sample_result)"
    by (simp add: sample_args_def econ_defaults_def supplied_costs_def)
  note billed = supplied_cost_is_billed[OF sample_reconciled s]
  obtain name a where a: "econ_decimal name (PDec (DFin False 25 (- 2))) = Inr a"
    "\<bar>dec_val (billable_amount (gn_slippage sample_result)) - dec_val a\<bar> \<le> 1 / 2 * 10 powi (- 8)"
    using billed by auto
  have "a = DFin False 25 (- 2)" using a(1) by simp
  with a(2) have near: "\<bar>dec_val (billable_amount (gn_slippage sample_result)) - 1 / 4\<bar> \<le> 1 / 2 * 10 powi (- 8)"
    unfolding v by (simp only: v)
  have names: "line_of n c st = line_of n' c' st' \<longleftrightarrow> n = n' \<and> money_of c = money_of c' \<and> st = st'" "line_of n c st \<noteq> no_line n'" for n c st n' c' st'
    by (auto simp: line_of_def no_line_def)
  show ?thesis using billed near by (simp add: sample_result_def cost_lines_def money_of_val names)
qed

theorem unproven_cost_is_refused_witness:
  "ea_maker_evidence sample_args \<and> (\<exists>basis derived res. ea_funding_basis sample_args = Some basis
     \<and> resolve_funding_basis basis = Inr (derived, res) \<and> dec_val derived = 4 / 10)"
proof -
  have m: "0 < dec_val (billable_amount (gn_maker sample_result))" by (simp add: sample_result_def money_of_val)
  have f: "billable_amount (gn_funding sample_result) = money_of 40000000" by (simp add: sample_result_def)
  moreover have "money_of 40000000 \<noteq> dec_zero" "dec_val (money_of 40000000) = 4 / 10" by (simp add: money_of_def, simp add: money_of_val)
  ultimately show ?thesis using unproven_cost_is_refused[OF sample_reconciled] m by auto
qed

end
