(* ===== verification/RiskGates.thy ===== *)
theory RiskGates
  imports FloatOps
begin

text \<open>
  The gates beside the risk manager (\<open>services/risk/emergency_stop.py\<close>, \<open>circuit_breakers.py\<close>,
  \<open>live_trading_gate.py\<close>). Instants are whole microseconds; a check of the live trading gate takes
  place at one instant, and \<open>read_time\<close> stands for \<open>datetime.fromisoformat\<close> on the time of a test,
  which raises on what it cannot read or compare. The text of a time that the gate wrote itself reads
  back. Messages and the summary of the test in an answer are left out.
\<close>

subsection \<open>Emergency stop\<close>

text \<open>The value of the key in Redis.\<close>

definition emergency_activate :: "string \<Rightarrow> string option \<Rightarrow> string option" where
  "emergency_activate reason stop = Some reason"

definition emergency_deactivate :: "string option \<Rightarrow> string option" where
  "emergency_deactivate stop = None"

definition emergency_is_active :: "string option \<Rightarrow> bool \<times> string option" where
  "emergency_is_active stop = (if opt_truthy stop then (True, stop) else (False, None))"

lemma emergency_stop_needs_reason: "fst (emergency_is_active (emergency_activate reason stop)) \<longleftrightarrow> reason \<noteq> []"
  by (cases reason) (simp_all add: emergency_is_active_def emergency_activate_def opt_truthy_def)

subsection \<open>Circuit breakers\<close>

datatype breaker_type = ERROR_RATE | DRAWDOWN | LOSS_LIMIT | FREQUENCY

fun breaker_value :: "breaker_type \<Rightarrow> string" where
  "breaker_value ERROR_RATE = ''error_rate''"
| "breaker_value DRAWDOWN = ''drawdown''"
| "breaker_value LOSS_LIMIT = ''loss_limit''"
| "breaker_value FREQUENCY = ''frequency''"

record breaker =
  br_threshold :: pyfloat
  br_active :: bool

definition initial_breakers :: "(breaker_type \<times> breaker) list" where
  "initial_breakers =
     [(ERROR_RATE, \<lparr>br_threshold = fl_of_digits False 1 (- 1), br_active = True\<rparr>),
      (DRAWDOWN, \<lparr>br_threshold = fl_of_digits False 15 (- 2), br_active = True\<rparr>),
      (LOSS_LIMIT, \<lparr>br_threshold = fl_of_digits False 5 (- 2), br_active = True\<rparr>),
      (FREQUENCY, \<lparr>br_threshold = fl_int 60, br_active = True\<rparr>)]"

fun metric_of :: "breaker_type \<Rightarrow> string" where
  "metric_of ERROR_RATE = ''error_rate''"
| "metric_of DRAWDOWN = ''drawdown''"
| "metric_of LOSS_LIMIT = ''loss_pct''"
| "metric_of FREQUENCY = ''orders_per_minute''"

text \<open>A metric that is missing counts as zero.\<close>

definition should_trigger :: "breaker_type \<Rightarrow> (string, pyfloat) pydict \<Rightarrow> breaker \<Rightarrow> bool" where
  "should_trigger ty metrics b \<longleftrightarrow> fl_lt (br_threshold b) (case dget metrics (metric_of ty) of None \<Rightarrow> fl_zero | Some x \<Rightarrow> x)"

definition check_breakers :: "bool \<Rightarrow> (breaker_type \<times> breaker) list \<Rightarrow> (string, pyfloat) pydict \<Rightarrow> string list \<Rightarrow> (bool \<times> string list) \<times> string list" where
  "check_breakers e2e_disabled breakers metrics triggered =
     (let reasons = (if e2e_disabled then [] else
          map (breaker_value \<circ> fst) (filter (\<lambda>(ty, b). br_active b \<and> should_trigger ty metrics b) breakers))
      in ((reasons \<noteq> [], reasons), triggered @ reasons))"

subsection \<open>Live trading gate\<close>

datatype authorization_level = DENIED | PAPER_ONLY | LIMITED | FULL

definition days :: "int \<Rightarrow> int" where "days n = n * 86400000000"

record real_results =
  rr_completed :: bool
  rr_duration :: pyfloat
  rr_passed :: bool
  rr_validation :: "(bool \<times> string option) option"
  rr_timestamp :: string

record test_results =
  tt_completed :: bool
  tt_duration :: pyfloat
  tt_validation :: "bool \<times> string option"
  tt_timestamp :: string

text \<open>Overall pass and risk assessment; without them the pass is that of the test.\<close>

definition load_latest_test_results :: "real_results option \<Rightarrow> test_results option" where
  "load_latest_test_results fetched = (case fetched of
     None \<Rightarrow> None
   | Some rr \<Rightarrow> Some \<lparr>tt_completed = rr_completed rr, tt_duration = rr_duration rr,
       tt_validation = (case rr_validation rr of None \<Rightarrow> (rr_passed rr, None) | Some v \<Rightarrow> v), tt_timestamp = rr_timestamp rr\<rparr>)"

text \<open>Valid, and the level.\<close>

definition validate_test_results :: "(string \<Rightarrow> py_exc + int) \<Rightarrow> int \<Rightarrow> test_results \<Rightarrow> py_exc + bool \<times> authorization_level" where
  "validate_test_results read_time now t =
     (if \<not> tt_completed t then Inr (False, DENIED)
      else if fl_lt (tt_duration t) (fl_int 72) then Inr (False, DENIED)
      else ebind (read_time (tt_timestamp t)) (\<lambda>tested.
        if days 30 < now - tested then Inr (False, DENIED)
        else (case tt_validation t of (overall_pass, risk) \<Rightarrow>
          if overall_pass then Inr (True, FULL)
          else if risk = Some ''medium'' then Inr (True, LIMITED)
          else Inr (False, DENIED))))"

definition determine_authorization_level :: "bool \<times> authorization_level \<Rightarrow> authorization_level" where
  "determine_authorization_level v = (if fst v then snd v else DENIED)"

record restrictions =
  rs_live_trading :: bool
  rs_paper_trading :: bool
  rs_max_position_size :: pyfloat
  rs_max_daily_volume :: pyfloat

definition get_restrictions :: "authorization_level \<Rightarrow> restrictions" where
  "get_restrictions level = (case level of
     LIMITED \<Rightarrow> \<lparr>rs_live_trading = True, rs_paper_trading = True, rs_max_position_size = fl_of_digits False 5 (- 2),
       rs_max_daily_volume = fl_int 10000\<rparr>
   | FULL \<Rightarrow> \<lparr>rs_live_trading = True, rs_paper_trading = True, rs_max_position_size = fl_of_digits False 1 (- 1),
       rs_max_daily_volume = fl_int 100000\<rparr>
   | _ \<Rightarrow> \<lparr>rs_live_trading = False, rs_paper_trading = True, rs_max_position_size = fl_zero, rs_max_daily_volume = fl_zero\<rparr>)"

definition calculate_expiry :: "int \<Rightarrow> authorization_level \<Rightarrow> int option" where
  "calculate_expiry now level = (if level = DENIED then None else Some (now + days (if level = FULL then 90 else 30)))"

record authorization =
  au_authorized :: bool
  au_level :: authorization_level
  au_timestamp :: int
  au_valid_until :: "int option"
  au_restrictions :: restrictions

definition create_authorization_response :: "int \<Rightarrow> authorization_level \<Rightarrow> authorization" where
  "create_authorization_response now level = \<lparr>au_authorized = (level \<noteq> DENIED), au_level = level, au_timestamp = now,
     au_valid_until = calculate_expiry now level, au_restrictions = get_restrictions level\<rparr>"

definition is_authorization_valid :: "int \<Rightarrow> authorization \<Rightarrow> bool" where
  "is_authorization_valid now a \<longleftrightarrow> au_authorized a \<and> (case au_valid_until a of None \<Rightarrow> False | Some e \<Rightarrow> now < e)"

type_synonym gate_cache = "(string, authorization) pydict"

definition check_authorization ::
  "(string \<Rightarrow> py_exc + int) \<Rightarrow> int \<Rightarrow> string \<Rightarrow> real_results option \<Rightarrow> gate_cache \<Rightarrow> (py_exc + authorization) \<times> gate_cache" where
  "check_authorization read_time now sid fetched cache =
     (case (case dget cache sid of None \<Rightarrow> None | Some a \<Rightarrow> if is_authorization_valid now a then Some a else None) of
        Some a \<Rightarrow> (Inr a, cache)
      | None \<Rightarrow> (case load_latest_test_results fetched of
          None \<Rightarrow> (Inr (create_authorization_response now DENIED), cache)
        | Some t \<Rightarrow> (case validate_test_results read_time now t of
            Inl e \<Rightarrow> (Inl e, cache)
          | Inr v \<Rightarrow> let a = create_authorization_response now (determine_authorization_level v) in (Inr a, dset sid a cache))))"

definition revoke_authorization :: "string \<Rightarrow> gate_cache \<Rightarrow> gate_cache" where
  "revoke_authorization sid cache = ddel sid cache"

subsection \<open>Any use of the gate\<close>

datatype gate_event = Checked int string "real_results option" | Revoked string

fun gate_step :: "(string \<Rightarrow> py_exc + int) \<Rightarrow> gate_event \<Rightarrow> gate_cache \<Rightarrow> gate_cache" where
  "gate_step read_time (Checked now sid fetched) cache = snd (check_authorization read_time now sid fetched cache)"
| "gate_step read_time (Revoked sid) cache = revoke_authorization sid cache"

definition run_gate :: "(string \<Rightarrow> py_exc + int) \<Rightarrow> gate_event list \<Rightarrow> gate_cache" where
  "run_gate read_time evs = fold (gate_step read_time) evs []"

text \<open>A test that permits live trading at an instant.\<close>

definition earned :: "(string \<Rightarrow> py_exc + int) \<Rightarrow> int \<Rightarrow> real_results \<Rightarrow> int \<Rightarrow> bool" where
  "earned read_time t rr tested \<longleftrightarrow> rr_completed rr \<and> \<not> fl_lt (rr_duration rr) (fl_int 72)
     \<and> read_time (rr_timestamp rr) = Inr tested \<and> t - tested \<le> days 30
     \<and> (case rr_validation rr of None \<Rightarrow> rr_passed rr | Some (ok, risk) \<Rightarrow> ok \<or> risk = Some ''medium'')"

lemma granted_is_earned:
  assumes "load_latest_test_results fetched = Some t" "validate_test_results read_time now t = Inr v"
    and "determine_authorization_level v \<noteq> DENIED"
  shows "\<exists>rr tested. fetched = Some rr \<and> earned read_time now rr tested"
  using assms
  by (auto simp: load_latest_test_results_def validate_test_results_def determine_authorization_level_def earned_def ebind_eq_Inr not_less
      split: option.splits if_splits prod.splits)

definition backed :: "(string \<Rightarrow> py_exc + int) \<Rightarrow> gate_event list \<Rightarrow> gate_cache \<Rightarrow> bool" where
  \<comment> \<open>every authorization in the cache was earned at a check, from which its time is counted\<close>
  "backed read_time evs cache \<longleftrightarrow> (\<forall>sid a. dget cache sid = Some a \<longrightarrow> au_authorized a \<longrightarrow>
     (\<exists>t rr tested. Checked t sid (Some rr) \<in> set evs \<and> earned read_time t rr tested
        \<and> (\<exists>d \<le> 90. au_valid_until a = Some (t + days d))))"

lemma backed_more: "backed read_time evs cache \<Longrightarrow> backed read_time (evs @ [ev]) cache"
  unfolding backed_def by (metis UnCI set_append)

lemma new_authorization:
  assumes "load_latest_test_results fetched = Some t" "validate_test_results read_time now t = Inr v"
    and "a = create_authorization_response now (determine_authorization_level v)" "au_authorized a"
  shows "\<exists>rr tested. fetched = Some rr \<and> earned read_time now rr tested \<and> (\<exists>d \<le> 90. au_valid_until a = Some (now + days d))"
proof -
  have n: "determine_authorization_level v \<noteq> DENIED" using assms(3,4) by (simp add: create_authorization_response_def)
  have "\<exists>d \<le> 90. au_valid_until a = Some (now + days d)"
    using n by (intro exI[of _ "if determine_authorization_level v = FULL then 90 else 30"])
      (simp add: assms(3) create_authorization_response_def calculate_expiry_def)
  with granted_is_earned[OF assms(1,2) n] show ?thesis by blast
qed

lemma check_backed:
  assumes "backed read_time evs cache"
  shows "backed read_time (evs @ [Checked now sid fetched]) (snd (check_authorization read_time now sid fetched cache))"
proof -
  have "snd (check_authorization read_time now sid fetched cache) = cache
    \<or> (\<exists>t v. load_latest_test_results fetched = Some t \<and> validate_test_results read_time now t = Inr v
       \<and> snd (check_authorization read_time now sid fetched cache)
         = dset sid (create_authorization_response now (determine_authorization_level v)) cache)"
    by (auto simp: check_authorization_def Let_def split: option.split sum.split)
  then show ?thesis
  proof (elim disjE exE conjE)
    fix t v
    let ?a = "create_authorization_response now (determine_authorization_level v)"
    assume n: "load_latest_test_results fetched = Some t" "validate_test_results read_time now t = Inr v"
      "snd (check_authorization read_time now sid fetched cache) = dset sid ?a cache"
    note new = new_authorization[OF n(1,2) refl]
    show ?thesis
      unfolding n(3) backed_def
    proof (intro allI impI)
      fix sid' a
      assume a: "dget (dset sid ?a cache) sid' = Some a" "au_authorized a"
      show "\<exists>t rr tested. Checked t sid' (Some rr) \<in> set (evs @ [Checked now sid fetched]) \<and> earned read_time t rr tested
          \<and> (\<exists>d \<le> 90. au_valid_until a = Some (t + days d))"
      proof (cases "sid' = sid")
        case True
        with a new show ?thesis by fastforce
      next
        case False
        with a assms show ?thesis by (fastforce simp: backed_def)
      qed
    qed
  qed (use backed_more[OF assms] in simp)
qed

lemma run_backed: "backed read_time evs (run_gate read_time evs)"
proof (induction evs rule: rev_induct)
  case Nil
  then show ?case by (simp add: backed_def run_gate_def)
next
  case (snoc ev evs)
  then show ?case
  proof (cases ev)
    case (Checked now sid fetched)
    with check_backed[OF snoc, of now sid fetched] show ?thesis by (simp add: run_gate_def)
  next
    case (Revoked sid)
    from backed_more[OF snoc, of ev] show ?thesis by (simp add: run_gate_def Revoked revoke_authorization_def backed_def)
  qed
qed

text \<open>
  C19. Live trading was earned. Whatever checks and revocations came before, an answer of the gate that
  permits live trading rests on a test that some check of the same system looked at: completed, 72
  hours or longer, passed or of medium risk, at most 30 days old at that check, and so younger than 120
  days now. (Not 30 days: an authorization is kept for up to 90 days after its check.)
\<close>

theorem live_trading_was_earned:
  assumes "fst (check_authorization read_time now sid fetched (run_gate read_time evs)) = Inr a" "au_authorized a"
  shows "\<exists>t rr tested. Checked t sid (Some rr) \<in> set (evs @ [Checked now sid fetched])
    \<and> earned read_time t rr tested \<and> now - tested < days 120"
proof (cases "dget (run_gate read_time evs) sid = Some a \<and> is_authorization_valid now a")
  case True
  then obtain t rr tested d where e: "Checked t sid (Some rr) \<in> set evs" "earned read_time t rr tested" "d \<le> 90"
    "au_valid_until a = Some (t + days d)"
    using run_backed[of read_time evs, unfolded backed_def] assms(2) by blast
  have "now < t + days d" using True e(4) by (simp add: is_authorization_valid_def)
  moreover have "t - tested \<le> days 30" using e(2) by (simp add: earned_def)
  ultimately have "now - tested < days 120" using e(3) by (simp add: days_def)
  with e(1,2) show ?thesis by auto
next
  case False
  with assms(1) obtain t v where n: "load_latest_test_results fetched = Some t" "validate_test_results read_time now t = Inr v"
    "a = create_authorization_response now (determine_authorization_level v)"
    using assms(2)
    by (auto simp: check_authorization_def Let_def create_authorization_response_def split: option.splits sum.splits if_splits)
  from new_authorization[OF n assms(2)] obtain rr tested where e: "fetched = Some rr" "earned read_time now rr tested" by blast
  then have "now - tested < days 120" by (simp add: earned_def days_def)
  with e show ?thesis by auto
qed

text \<open>A test at instant zero, looked at after one day, still permits live trading after ninety.\<close>

definition passed_test :: real_results where
  "passed_test = \<lparr>rr_completed = True, rr_duration = fl_int 72, rr_passed = True, rr_validation = Some (True, None), rr_timestamp = ''0''\<rparr>"

theorem live_trading_was_earned_witness:
  "\<exists>t rr tested. Checked t ''s'' (Some rr) \<in> set [Checked (days 1) ''s'' (Some passed_test), Checked (days 90) ''s'' None]
    \<and> earned (\<lambda>_. Inr 0) t rr tested \<and> days 90 - tested < days 120"
proof -
  have d: "\<not> fl_lt (fl_int 72) (fl_int 72)" by (simp add: fl_int_def fl_eval signed_def)
  have "fst (check_authorization (\<lambda>_. Inr 0) (days 90) ''s'' None (run_gate (\<lambda>_. Inr 0) [Checked (days 1) ''s'' (Some passed_test)]))
      = Inr (create_authorization_response (days 1) FULL)"
    by (simp add: run_gate_def check_authorization_def load_latest_test_results_def passed_test_def validate_test_results_def d days_def
        determine_authorization_level_def create_authorization_response_def is_authorization_valid_def calculate_expiry_def Let_def)
  from live_trading_was_earned[OF this] show ?thesis by (simp add: create_authorization_response_def)
qed

text \<open>A revocation lasts until the next check, which grants the same again.\<close>

lemma revocation_does_not_hold:
  assumes "load_latest_test_results fetched = Some t" "validate_test_results read_time now t = Inr v"
  shows "fst (check_authorization read_time now sid fetched (revoke_authorization sid cache))
    = Inr (create_authorization_response now (determine_authorization_level v))"
  using assms by (simp add: check_authorization_def revoke_authorization_def Let_def)

end
