(* ===== verification/OrderLifecycle.thy ===== *)
theory OrderLifecycle
  imports Prelude
begin

text \<open>
  The statuses of an order and the transitions the contract allows between them
  (\<open>services/execution/state_machine.py\<close>). A status is the text it has in a message.
\<close>

definition allowed_transitions :: "(string, string list) pydict" where
  "allowed_transitions =
     [(''PENDING'', [''SUBMITTED'', ''REJECTED'', ''FAILED'', ''CANCELLED'']),
      (''SUBMITTED'', [''PARTIALLY_FILLED'', ''FILLED'', ''REJECTED'', ''FAILED'', ''CANCELLED'']),
      (''PARTIALLY_FILLED'', [''PARTIALLY_FILLED'', ''FILLED'', ''CANCELLED'', ''FAILED'']),
      (''FILLED'', []), (''REJECTED'', []), (''CANCELLED'', []), (''FAILED'', [])]"

definition is_valid_transition :: "string \<Rightarrow> string \<Rightarrow> bool" where
  "is_valid_transition from_status to_status = (case dget allowed_transitions from_status of
     None \<Rightarrow> False | Some allowed_next \<Rightarrow> to_status \<in> set allowed_next)"

definition validate_transition :: "string \<Rightarrow> string \<Rightarrow> py_exc + unit" where
  "validate_transition from_status to_status =
     (if is_valid_transition from_status to_status then Inr () else Inl (ValueError ''Invalid execution status transition''))"

text \<open>A history: each status follows from the one before.\<close>

fun lifecycle :: "string list \<Rightarrow> bool" where
  "lifecycle (a # b # rest) \<longleftrightarrow> validate_transition a b = Inr () \<and> lifecycle (b # rest)"
| "lifecycle _ \<longleftrightarrow> True"

text \<open>How far an order has come; statuses without a successor are last.\<close>

definition stage :: "string \<Rightarrow> nat" where
  "stage s = (if s = ''PENDING'' then 0 else if s = ''SUBMITTED'' then 1 else if s = ''PARTIALLY_FILLED'' then 2 else 3)"

lemma transition_advances:
  assumes "validate_transition a b = Inr ()"
  shows "stage a < stage b \<or> (a = b \<and> a = ''PARTIALLY_FILLED'')"
proof -
  have "is_valid_transition a b" using assms by (auto simp: validate_transition_def split: if_splits)
  then have "(a = ''PENDING'' \<and> b \<in> {''SUBMITTED'', ''REJECTED'', ''FAILED'', ''CANCELLED''})
    \<or> (a = ''SUBMITTED'' \<and> b \<in> {''PARTIALLY_FILLED'', ''FILLED'', ''REJECTED'', ''FAILED'', ''CANCELLED''})
    \<or> (a = ''PARTIALLY_FILLED'' \<and> b \<in> {''PARTIALLY_FILLED'', ''FILLED'', ''CANCELLED'', ''FAILED''})"
    by (auto simp: is_valid_transition_def allowed_transitions_def split: if_splits)
  then show ?thesis by (elim disjE conjE insertE emptyE) (simp_all add: stage_def)
qed

lemma lifecycle_length: "lifecycle (a # rest) \<Longrightarrow> length (remdups_adj (a # rest)) \<le> 4 - stage a"
proof (induction rest arbitrary: a)
  case Nil
  then show ?case by (simp add: stage_def)
next
  case (Cons b rest)
  have v: "validate_transition a b = Inr ()" "lifecycle (b # rest)" using Cons.prems by simp_all
  have "stage b \<le> 3" by (simp add: stage_def)
  with Cons.IH[OF v(2)] transition_advances[OF v(1)] show ?case by auto
qed

text \<open>
  C20. An order's life ends. Whatever history of transitions the contract accepts, apart from further
  partial fills the order takes on at most four statuses one after the other, and it never comes back
  to a status it has left.
\<close>

theorem order_life_ends:
  assumes "lifecycle path"
  shows "length (remdups_adj path) \<le> 4 \<and> distinct (remdups_adj path)"
proof (cases path)
  case (Cons a rest)
  have "distinct (remdups_adj (a # rest)) \<and> (\<forall>s \<in> set rest. s = a \<or> stage a < stage s)" if "lifecycle (a # rest)" for a rest
    using that
  proof (induction rest arbitrary: a)
    case (Cons b rest)
    have v: "validate_transition a b = Inr ()" "lifecycle (b # rest)" using Cons.prems by simp_all
    note ih = Cons.IH[OF v(2)]
    show ?case
    proof (cases "a = b")
      case False
      with transition_advances[OF v(1)] have s: "stage a < stage b" by simp
      with ih have "\<forall>s \<in> set (b # rest). stage a < stage s" by auto
      moreover from this have "a \<notin> set (b # rest)" by blast
      ultimately show ?thesis using ih False by auto
    qed (use ih in auto)
  qed simp
  with assms lifecycle_length[of a rest] Cons show ?thesis by (auto intro: order_trans)
qed simp

theorem order_life_ends_witness:
  "length (remdups_adj [''PENDING'', ''SUBMITTED'', ''PARTIALLY_FILLED'', ''PARTIALLY_FILLED'', ''FILLED'']) \<le> 4"
proof -
  have "lifecycle [''PENDING'', ''SUBMITTED'', ''PARTIALLY_FILLED'', ''PARTIALLY_FILLED'', ''FILLED'']"
    by (simp add: validate_transition_def is_valid_transition_def allowed_transitions_def)
  from order_life_ends[OF this] show ?thesis by blast
qed

end
