(* ===== verification/Spec2Isabelle.thy ===== *)
theory Spec2Isabelle
  imports StopLossConsumer StopLossProtection KillSwitch ReduceOnlyLedger KillSupervisor Adapters ExecutionService DecisionBundle RegimeSamples
    RiskSamples AllocationSamples EconomicsSamples RiskGates OrderLifecycle
begin

text \<open>
  Claire de Binare, the protective core of the trading system.

  The repository trades through services that exchange messages; what must never go wrong is
  concentrated in small deterministic modules under \<open>core/\<close> and \<open>services/execution/\<close>. This
  development models those modules as HOL functions over explicit states.

  Parts and theories:

  \<^item> \<open>Prelude\<close>: Python exceptions as values (\<open>Inl\<close>), strings, dictionaries in insertion order.
  \<^item> \<open>PyDecimal\<close>: the standard library's decimal arithmetic under the default context, with
    \<open>dec_val\<close> as the rational value and lemmas on when an operation is exact.
  \<^item> \<open>Json\<close>: the values of \<open>core/replay/canonical_json.py\<close> and their canonical text; the text
    determines the value up to the order of keys. The digest is a parameter.
  \<^item> \<open>StopLossContracts\<close> (\<open>core/safety/stop_loss/contracts.py\<close>): the price trigger: which of the
    three answers it gives, how tight the armed stop is, what identifies an event.
  \<^item> \<open>StopLossExitIntent\<close> (\<open>exit_intent.py\<close>), \<open>StopLossDedup\<close> (\<open>dedup_state.py\<close>) and
    \<open>StopLossConsumer\<close> (\<open>consumer.py\<close>, \<open>shadow.py\<close>): the event is turned into one reduce-only
    intent, guarded by a store that survives restarts. The store is an interface
    (\<open>dedup_store\<close>) that the in-memory and the file store both implement; the consumer is
    verified against the interface, also for processes that die between two durable effects.
  \<^item> \<open>StopLossProtection\<close> (\<open>core/safety/stop_loss_protection.py\<close>): the evidence ledger.
  \<^item> \<open>KillSwitch\<close> (\<open>core/safety/kill_switch.py\<close>): the emergency stop and its state file; what an
    activation leaves is decided by the lines of its message, exactly.
  \<^item> \<open>ReduceOnly\<close> (\<open>services/execution/reduce_only.py\<close>) and \<open>ReduceOnlyLedger\<close>
    (\<open>services/execution/database.py\<close>): an exit can only shrink a position, and the ledger
    grants each preparation, binding, dispatch and result once.
  \<^item> \<open>PyFloat\<close> and \<open>FloatDecimal\<close>: binary floating point and its conversions from and to decimals.
  \<^item> \<open>OpenOrders\<close> (\<open>services/execution/open_order_registry.py\<close>): the registry of orders that may
    still be open and its ledger file; an order leaves it only when it is known to be over.
  \<^item> \<open>KillCancel\<close> (\<open>services/execution/kill_cancel.py\<close>): what a kill does with the open orders: one
    reconciliation cancels, reads back, and reports; PASS means that nothing known is open. The venue
    is an interface (\<open>venue_contract\<close>); \<open>Adapters\<close> (\<open>mock_executor.py\<close>,
    \<open>core/contracts/external_adapter_registry.py\<close>) interprets it on the mock adapter.
  \<^item> \<open>KillSupervisor\<close> (\<open>services/execution/kill_cancel.py\<close>): when orders are accepted, over any
    sequence of readings of the kill switch.
  \<^item> \<open>ExecutionService\<close> (\<open>services/execution/service.py\<close>): an order on its way through all of the
    above to the adapter, and what becomes of the answer; \<open>service_life\<close> is the life of one process, over
    which the coordinator forgets neither a kill event nor a fill.

  \<^item> \<open>PyValue\<close>: the values a payload can hold, their truth value, \<open>str\<close> and \<open>repr\<close>.
  \<^item> \<open>DecisionContract\<close> and \<open>DecisionBundle\<close> (\<open>core/contracts/decision_contract_v1.py\<close>): the
    deterministic 0/1 decision on an order. An abstract specification over rational numbers
    (\<open>contract_permits\<close>) says which orders are allowed; the decimal evaluation refines it on
    moderate inputs. A bundle carries its own proof: it is rebuilt and compared when verified.
  \<^item> \<open>FloatOps\<close>: division, sums, parsing and formatting of floats, and the rounding error of each
    operation against the rational values.
  \<^item> The risk manager (\<open>services/risk/service.py\<close>, \<open>models.py\<close>, \<open>config.py\<close>). \<open>TradeDecision\<close>:
    the first decision on a signal (\<open>decide_trade\<close>), which refines an ordered list of named checks.
    \<open>RiskState\<close>: the risk state, its limits, sizing and fills. \<open>RiskContract\<close>: how an order gets and
    keeps its decision contract. \<open>RiskManager\<close>: the handlers of signals, execution results and the
    other streams, a function of the state each. \<open>RiskRelease\<close>: what is known of a released order.
    \<open>RiskInvariants\<close>: what holds in every reachable state; \<open>risk_invariant\<close> is the interface of a
    predicate that the few updates of the risk state keep, and two predicates interpret it.
    \<open>RiskSamples\<close>: one signal worked through to the published order.
  \<^item> \<open>RiskGates\<close> (\<open>emergency_stop.py\<close>, \<open>circuit_breakers.py\<close>, \<open>live_trading_gate.py\<close> of
    \<open>services/risk/\<close>): the gates beside the risk manager; a permission for live trading rests on a
    test, over any sequence of checks and revocations.
  \<^item> \<open>PyText\<close>: messages as dictionaries of texts, numbers read from texts. \<open>Regime\<close>
    (\<open>services/regime/\<close>): candles, indicators, classification and its confirmation, a function of the
    service's state per message. \<open>RegimeRisk\<close>: the current regime is the last one confirmed, a list
    function on the history; what the risk manager makes of the service's stream, down to the orders it releases. \<open>RegimeSamples\<close>:
    candles worked through from their texts.
  \<^item> \<open>Allocation\<close> (\<open>services/allocation/\<close>): the share of each strategy by regime and performance.
    \<open>AllocationGuards\<close>: cooldown, shutdown and stability of the regime over any run, by one lemma on
    what every decision keeps (\<open>run_invariant\<close>), whether messages are handled or fail; when a strategy is
    never ready.
    \<open>AllocationSamples\<close>: runs that are evaluated.
  \<^item> \<open>DecimalDivision\<close>, \<open>ExecutionEconomics\<close> (\<open>core/replay/execution_economics_v1.py\<close>) and
    \<open>EconomicsContract\<close>: from a gross to a net result; exact sums, costs that are billed or refused,
    evidence for maker fees and funding. \<open>EconomicsSamples\<close>: one limit order.
  \<^item> \<open>OrderLifecycle\<close> (\<open>services/execution/state_machine.py\<close>): the allowed transitions, and that an
    order's life ends.

  How state and effects appear. A module with state is a record and each operation returns it
  updated; a file is the text or value it holds together with the list of coming write faults;
  a database transaction is a function from tables to tables or to an exception that leaves
  them alone. Several processes are runs of an inductive step relation. Log lines, metrics and
  free-text explanations are left out.

  Parameters: the SHA-256 digest, the UUID function, clocks, the sink that takes an intent, the
  adapter's methods over a state of its own, the resolver that knows the positions left, and the
  risk manager's \<open>surroundings\<close>: configuration, clock, toggles, the reading of the kill switch, the
  balance at each of its uses, the market state looked up in Redis; the reading of times of the
  allocation service and of the live trading gate.
  What is assumed of them is a hypothesis of the property that needs it (for instance that two
  given texts do not collide).

  Bounds. Decimal operations are exact as long as the operands fit the 28 digits of the default
  context; the properties name the grids and magnitudes for which that is so (prices below
  \<open>10 ^ 20\<close> on the eight-place grid, for instance), and the findings list what happens beyond.
  All recursion is structural or bounded by an explicit measure; there is no fuel.

  Not modelled: the executors' network parts and simulated fills, the correlation ledger and replay
  envelopes written beside an execution, result metadata, the kill evidence file, a coordinator that
  raises (the poll loop catches it) and an \<open>order.to_dict()\<close> that raises before the adapter is called; of the risk
  manager the parsing of messages, the listeners around Redis, the trace, envelope and ledger
  records beside an order, order metadata and the HTTP endpoints (its handlers are atomic in the
  model although the listeners are threads); reconnecting and statistics of the regime and allocation
  services; the snapshot and the comparison of execution economics; loops around a network client (the
  signal, candles and market services), the batch replay and validation runners, and the tooling under \<open>tools/\<close>, \<open>scripts/\<close> and \<open>ci/\<close>.
\<close>

end
